(* ===== verification/Py_Value.thy ===== *)
theory Py_Value
  imports Complex_Main "HOL-Library.AList"
begin

text \<open>
  Prelude of the development: the Python values the modelled services exchange, the errors
  their code can raise, and the few dictionary and list operations all of them use.

  Text is a \<^typ>\<open>string\<close> whose characters stand for the code points U+0000 to U+00FF.
  A Python \<^verbatim>\<open>float\<close> is a \<^verbatim>\<open>pyfloat\<close>: a finite double is the rational number it
  denotes (the sign of zero is not kept), and the infinities and NaN are values of their own.
  A dictionary is an association list in insertion order, with string keys.
  A function that may raise returns a value of \<open>exn + 'a\<close>, \<open>Inl\<close> being the exception.
\<close>

section \<open>Errors\<close>

datatype exn =
    TypeError
  | ValueError
  | AttributeError
  | OverflowError
  | IntegrityError
  | DataError
  | DatabaseError

type_synonym 'a res = "exn + 'a"

definition bindE :: "'a res \<Rightarrow> ('a \<Rightarrow> 'b res) \<Rightarrow> 'b res" where
  "bindE r f = (case r of Inl e \<Rightarrow> Inl e | Inr x \<Rightarrow> f x)"

lemma bindE_simps [simp]:
  "bindE (Inl e) f = Inl e"
  "bindE (Inr x) f = f x"
  by (simp_all add: bindE_def)

lemma bindE_eq_Inr: "bindE r f = Inr y \<longleftrightarrow> (\<exists>x. r = Inr x \<and> f x = Inr y)"
  by (cases r) auto

lemma bindE_eq_Inl: "bindE r f = Inl e \<longleftrightarrow> r = Inl e \<or> (\<exists>x. r = Inr x \<and> f x = Inl e)"
  by (cases r) auto

lemma bindE_split:
  "P (bindE r f) \<longleftrightarrow> (\<forall>e. r = Inl e \<longrightarrow> P (Inl e)) \<and> (\<forall>x. r = Inr x \<longrightarrow> P (f x))"
  by (cases r) auto

text \<open>
  CPython refuses to write or read an integer of more than 4300 digits and raises a
  \<^verbatim>\<open>ValueError\<close>: the limit \<^verbatim>\<open>sys.get_int_max_str_digits\<close> has by default.
\<close>

definition text_limit :: int where
  "text_limit = 10 ^ 4300"

lemma text_limit_large: "10 ^ 20 < text_limit"
  unfolding text_limit_def by (rule power_strict_increasing) simp_all

lemma small_below_text_limit [simp]:
  "n \<le> 10 ^ 20 \<Longrightarrow> n < text_limit"
  "n \<le> 10 ^ 20 \<Longrightarrow> \<not> text_limit \<le> n"
  using text_limit_large by linarith+

section \<open>Values\<close>

datatype pyfloat = Fin rat | PosInf | NegInf | NotANumber

text \<open>
  A \<^verbatim>\<open>datetime\<close>: the calendar fields and, for an aware value, its offset from UTC in
  microseconds.
\<close>

record py_datetime =
  dt_year :: int
  dt_month :: int
  dt_day :: int
  dt_hour :: int
  dt_minute :: int
  dt_second :: int
  dt_micro :: int
  dt_offset :: "int option"

datatype pyval =
    PNone
  | PBool bool
  | PInt int
  | PFloat pyfloat
  | PStr string
  | PDt py_datetime
  | PList "pyval list"
  | PDict "(string \<times> pyval) list"

type_synonym pydict = "(string \<times> pyval) list"

fun truthy :: "pyval \<Rightarrow> bool" where
  "truthy PNone = False"
| "truthy (PBool b) = b"
| "truthy (PInt n) = (n \<noteq> 0)"
| "truthy (PFloat f) = (f \<noteq> Fin 0)"
| "truthy (PStr s) = (s \<noteq> [])"
| "truthy (PDt d) = True"
| "truthy (PList xs) = (xs \<noteq> [])"
| "truthy (PDict d) = (d \<noteq> [])"

text \<open>\<^verbatim>\<open>isinstance(v, dict)\<close>, \<^verbatim>\<open>isinstance(v, list)\<close>, \<^verbatim>\<open>isinstance(v, str)\<close>.\<close>

fun is_dict :: "pyval \<Rightarrow> bool" where
  "is_dict (PDict d) = True"
| "is_dict _ = False"

fun is_list :: "pyval \<Rightarrow> bool" where
  "is_list (PList xs) = True"
| "is_list _ = False"

fun is_bool :: "pyval \<Rightarrow> bool" where
  "is_bool (PBool b) = True"
| "is_bool _ = False"

lemma is_dict_iff: "is_dict v \<longleftrightarrow> (\<exists>d. v = PDict d)"
  by (cases v) auto

lemma is_list_iff: "is_list v \<longleftrightarrow> (\<exists>xs. v = PList xs)"
  by (cases v) auto

text \<open>
  \<^verbatim>\<open>isinstance(v, int) and not isinstance(v, bool)\<close>: the integer, when it is one.
\<close>

fun strict_int :: "pyval \<Rightarrow> int option" where
  "strict_int (PInt n) = Some n"
| "strict_int _ = None"

lemma strict_int_Some [simp]: "strict_int v = Some n \<longleftrightarrow> v = PInt n"
  by (cases v) auto

text \<open>The value as a number, for Python's \<^verbatim>\<open>==\<close> and \<^verbatim>\<open><\<close> on mixed numbers (a bool counts).\<close>

fun num_of :: "pyval \<Rightarrow> pyfloat option" where
  "num_of (PBool b) = Some (Fin (if b then 1 else 0))"
| "num_of (PInt n) = Some (Fin (of_int n))"
| "num_of (PFloat f) = Some f"
| "num_of _ = None"

text \<open>\<^verbatim>\<open>v == n\<close> for an integer constant \<open>n\<close>, \<^verbatim>\<open>v == s\<close> for a string constant \<open>s\<close>.\<close>

definition eq_int :: "pyval \<Rightarrow> int \<Rightarrow> bool" where
  "eq_int v n \<longleftrightarrow> num_of v = Some (Fin (of_int n))"

definition eq_str :: "pyval \<Rightarrow> string \<Rightarrow> bool" where
  "eq_str v s \<longleftrightarrow> v = PStr s"

text \<open>\<^verbatim>\<open>v is True\<close>, \<^verbatim>\<open>v is False\<close>: identity, so \<^verbatim>\<open>1\<close> and \<^verbatim>\<open>0\<close> do not count.\<close>

definition is_true :: "pyval \<Rightarrow> bool" where
  "is_true v \<longleftrightarrow> v = PBool True"

definition is_false :: "pyval \<Rightarrow> bool" where
  "is_false v \<longleftrightarrow> v = PBool False"

lemma eq_int_simps [simp]:
  "eq_int (PInt m) n \<longleftrightarrow> m = n"
  "\<not> eq_int PNone n"
  "\<not> eq_int (PStr s) n"
  "\<not> eq_int (PList xs) n"
  "\<not> eq_int (PDict d) n"
  by (simp_all add: eq_int_def)

lemma eq_int_bool [simp]: "eq_int (PBool b) n \<longleftrightarrow> n = (if b then 1 else 0)"
proof -
  have "(1::rat) = of_int n \<longleftrightarrow> n = 1"
    by (metis of_int_1 of_int_eq_iff)
  then show ?thesis
    by (auto simp: eq_int_def)
qed

lemma is_true_simps [simp]:
  "is_true (PBool b) \<longleftrightarrow> b"
  "\<not> is_true PNone"
  "\<not> is_true (PInt n)"
  "\<not> is_true (PStr s)"
  "\<not> is_true (PList xs)"
  "\<not> is_true (PDict d)"
  by (simp_all add: is_true_def)

lemma is_false_simps [simp]:
  "is_false (PBool b) \<longleftrightarrow> \<not> b"
  "\<not> is_false PNone"
  "\<not> is_false (PInt n)"
  "\<not> is_false (PStr s)"
  "\<not> is_false (PList xs)"
  "\<not> is_false (PDict d)"
  by (simp_all add: is_false_def)

lemma eq_str_simps [simp]:
  "eq_str (PStr t) s \<longleftrightarrow> t = s"
  "\<not> eq_str PNone s"
  "\<not> eq_str (PBool b) s"
  "\<not> eq_str (PInt n) s"
  by (simp_all add: eq_str_def)

lemma not_is_true_false [simp]: "is_false v \<Longrightarrow> \<not> is_true v"
  by (auto simp: is_true_def is_false_def)

text \<open>
  \<^verbatim>\<open>v in {...}\<close> for a set of strings: a list or a dictionary is not hashable, so the test
  raises.
\<close>

definition in_str_set :: "pyval \<Rightarrow> string list \<Rightarrow> bool res" where
  "in_str_set v ss =
     (case v of
        PList _ \<Rightarrow> Inl TypeError
      | PDict _ \<Rightarrow> Inl TypeError
      | PStr s \<Rightarrow> Inr (s \<in> set ss)
      | _ \<Rightarrow> Inr False)"

lemma in_str_set_True: "in_str_set v ss = Inr True \<longleftrightarrow> (\<exists>s. v = PStr s \<and> s \<in> set ss)"
  by (cases v) (auto simp: in_str_set_def)

lemma in_str_set_Inl: "in_str_set v ss = Inl e \<longleftrightarrow> e = TypeError \<and> (is_list v \<or> is_dict v)"
  by (cases v) (auto simp: in_str_set_def)

lemma in_str_set_PStr [simp]: "in_str_set (PStr s) ss = Inr (s \<in> set ss)"
  by (simp add: in_str_set_def)

section \<open>Dictionaries\<close>

text \<open>
  \<^verbatim>\<open>d[k] = v\<close> keeps the place of a key that is there and appends a new one, as
  \<^const>\<open>AList.update\<close> does. A display \<^verbatim>\<open>{k1: v1, **e, ...}\<close> is the fold of that.
\<close>

definition dict_of :: "pydict \<Rightarrow> pydict" where
  "dict_of kvs = foldl (\<lambda>d (k, v). AList.update k v d) [] kvs"

definition dget :: "pydict \<Rightarrow> string \<Rightarrow> pyval" where
  "dget d k = (case map_of d k of Some v \<Rightarrow> v | None \<Rightarrow> PNone)"

definition has_key :: "pydict \<Rightarrow> string \<Rightarrow> bool" where
  "has_key d k \<longleftrightarrow> map_of d k \<noteq> None"

text \<open>\<^verbatim>\<open>v.get(k)\<close> where \<open>v\<close> is known to be a dictionary.\<close>

definition pget :: "pyval \<Rightarrow> string \<Rightarrow> pyval" where
  "pget v k = (case v of PDict d \<Rightarrow> dget d k | _ \<Rightarrow> PNone)"

lemma pget_PDict [simp]: "pget (PDict d) k = dget d k"
  by (simp add: pget_def)

lemma map_of_foldl_update:
  "map_of (foldl (\<lambda>d (k, v). AList.update k v d) d0 kvs) = map_of d0 ++ map_of (rev kvs)"
proof (induction kvs arbitrary: d0)
  case Nil
  show ?case by simp
next
  case (Cons kv kvs)
  obtain k v where kv: "kv = (k, v)" by (cases kv)
  have "map_of (AList.update k v d0) ++ map_of (rev kvs) = map_of d0 ++ map_of (rev kvs @ [(k, v)])"
    by (auto simp: AList.update_conv' map_add_def fun_eq_iff split: option.splits)
  then show ?case
    by (simp add: kv Cons.IH)
qed

lemma map_of_dict_of: "map_of (dict_of kvs) = map_of (rev kvs)"
  by (simp add: dict_of_def map_of_foldl_update)

text \<open>A lookup in a display is decided by its last entry for the key.\<close>

lemma map_of_rev_Cons:
  "map_of (rev ((k, v) # kvs)) x =
     (case map_of (rev kvs) x of Some y \<Rightarrow> Some y | None \<Rightarrow> if x = k then Some v else None)"
  by (auto simp: map_add_def split: option.splits)

lemma dget_dict_of: "dget (dict_of kvs) k = (case map_of (rev kvs) k of Some v \<Rightarrow> v | None \<Rightarrow> PNone)"
  by (simp add: dget_def map_of_dict_of)

lemma dget_dict_of_append:
  "dget (dict_of (xs @ ys)) k =
     (case map_of (rev ys) k of Some v \<Rightarrow> v | None \<Rightarrow> dget (dict_of xs) k)"
  by (simp add: dget_dict_of map_add_def split: option.splits)

text \<open>The same lookup, computed from left to right.\<close>

fun dlast :: "string \<Rightarrow> pyval \<Rightarrow> pydict \<Rightarrow> pyval" where
  "dlast k v [] = v"
| "dlast k v ((k', v') # kvs) = dlast k (if k = k' then v' else v) kvs"

lemma dlast_rev: "dlast k v kvs = (case map_of (rev kvs) k of Some v' \<Rightarrow> v' | None \<Rightarrow> v)"
  by (induction k v kvs rule: dlast.induct) (auto simp: map_add_def split: option.splits)

lemma dget_dlast: "dget (dict_of kvs) k = dlast k PNone kvs"
  by (simp add: dget_dict_of dlast_rev)

lemma distinct_keys_foldl_update:
  "distinct (map fst d0) \<Longrightarrow>
     distinct (map fst (foldl (\<lambda>d (k, v). AList.update k v d) d0 kvs))"
  by (induction kvs arbitrary: d0) (auto simp: AList.distinct_update)

lemma distinct_keys_dict_of: "distinct (map fst (dict_of kvs))"
  by (simp add: dict_of_def distinct_keys_foldl_update)

lemma set_update_subset: "set (AList.update k v d) \<subseteq> insert (k, v) (set d)"
  by (induction d) auto

lemma set_foldl_update: "set (foldl (\<lambda>d (k, v). AList.update k v d) d kvs) \<subseteq> set d \<union> set kvs"
proof (induction kvs arbitrary: d)
  case (Cons kv kvs)
  then show ?case using set_update_subset [of "fst kv" "snd kv" d] by (fastforce simp: case_prod_beta)
qed simp

lemma set_dict_of: "set (dict_of kvs) \<subseteq> set kvs"
  using set_foldl_update [of "[]" kvs] by (simp add: dict_of_def)

section \<open>Lists of reasons\<close>

text \<open>
  The evaluators collect names in a list, one \<^verbatim>\<open>if not ...: xs.append(name)\<close> after another.
  \<open>need c name\<close> is one such step: nothing when the requirement \<open>c\<close> holds.
\<close>

definition need :: "bool \<Rightarrow> string \<Rightarrow> string list" where
  "need c name = (if c then [] else [name])"

lemma need_Nil [simp]: "need c name = [] \<longleftrightarrow> c"
  by (simp add: need_def)

lemma set_need [simp]: "set (need c name) = (if c then {} else {name})"
  by (simp add: need_def)

text \<open>\<^verbatim>\<open>list(dict.fromkeys(xs))\<close>: the first occurrences, in order.\<close>

fun fromkeys :: "string list \<Rightarrow> string list" where
  "fromkeys [] = []"
| "fromkeys (x # xs) = x # filter (\<lambda>y. y \<noteq> x) (fromkeys xs)"

lemma set_fromkeys [simp]: "set (fromkeys xs) = set xs"
  by (induction xs) auto

lemma distinct_fromkeys: "distinct (fromkeys xs)"
  by (induction xs) auto

lemma fromkeys_distinct: "distinct xs \<Longrightarrow> fromkeys xs = xs"
proof (induction xs)
  case Nil
  show ?case by simp
next
  case (Cons x xs)
  then show ?case by (auto intro!: filter_True)
qed

lemma fromkeys_Nil [simp]: "fromkeys xs = [] \<longleftrightarrow> xs = []"
  by (cases xs) auto

definition names :: "string list \<Rightarrow> pyval" where
  "names xs = PList (map PStr xs)"

lemma names_inject [simp]: "names xs = names ys \<longleftrightarrow> xs = ys"
  by (auto simp: names_def inj_map_eq_map inj_def)

section \<open>Claims of authority\<close>

text \<open>
  \<^verbatim>\<open>any(value.get(key) is True for key in (...))\<close>: the evidence claims one of the powers.
\<close>

definition claims :: "string list \<Rightarrow> pyval \<Rightarrow> bool" where
  "claims ks v \<longleftrightarrow> list_ex (\<lambda>k. is_true (pget v k)) ks"

text \<open>\<^verbatim>\<open>[name for name, value in inputs.items() if p(value)]\<close>\<close>

definition offenders :: "(pyval \<Rightarrow> bool) \<Rightarrow> pydict \<Rightarrow> string list" where
  "offenders p inputs = map fst (filter (\<lambda>(n, v). p v) inputs)"

lemma offenders_Nil: "offenders p inputs = [] \<longleftrightarrow> (\<forall>(n, v) \<in> set inputs. \<not> p v)"
  by (auto simp: offenders_def filter_empty_conv)

lemma offenders_Cons [simp]:
  "offenders p ((n, v) # ins) = (if p v then n # offenders p ins else offenders p ins)"
  "offenders p [] = []"
  by (simp_all add: offenders_def)

end
