(* ===== verification/Py_Text.thy ===== *)
theory Py_Text
  imports Py_Value
begin

text \<open>
  Python's text and number conversions, as far as the modelled code uses them:
  \<^verbatim>\<open>str.strip\<close>, \<^verbatim>\<open>str.upper\<close>, \<^verbatim>\<open>str.lower\<close>, \<^verbatim>\<open>str.replace\<close>, \<^verbatim>\<open>str(v)\<close>, \<^verbatim>\<open>repr(v)\<close> and
  \<^verbatim>\<open>float(v)\<close>, the latter with the rounding to the nearest double and its overflow.
\<close>

section \<open>Characters\<close>

definition is_space :: "char \<Rightarrow> bool" where
  "is_space c \<longleftrightarrow> c \<in> set [CHR '' '', CHR 0x09, CHR 0x0A, CHR 0x0B, CHR 0x0C, CHR 0x0D,
     CHR 0x1C, CHR 0x1D, CHR 0x1E, CHR 0x1F, CHR 0x85, CHR 0xA0]"

definition code_of :: "char \<Rightarrow> nat" where
  "code_of c = of_char c"

definition is_digit :: "char \<Rightarrow> bool" where
  "is_digit c \<longleftrightarrow> 48 \<le> code_of c \<and> code_of c \<le> 57"

definition digit_val :: "char \<Rightarrow> nat" where
  "digit_val c = code_of c - 48"

definition digit_char :: "nat \<Rightarrow> char" where
  "digit_char d = char_of (48 + d)"

lemma digit_val_digit_char [simp]: "d < 10 \<Longrightarrow> digit_val (digit_char d) = d"
  by (simp add: digit_val_def digit_char_def code_of_def)

lemma is_digit_digit_char [simp]: "d < 10 \<Longrightarrow> is_digit (digit_char d)"
  by (simp add: is_digit_def digit_char_def code_of_def)

text \<open>Case mapping within U+0000 to U+00FF; the three letters whose capital lies outside stay.\<close>

definition lower_char :: "char \<Rightarrow> char" where
  "lower_char c =
     (let n = code_of c in
      if 65 \<le> n \<and> n \<le> 90 \<or> 192 \<le> n \<and> n \<le> 222 \<and> n \<noteq> 215 then char_of (n + 32) else c)"

definition upper_char :: "char \<Rightarrow> string" where
  "upper_char c =
     (let n = code_of c in
      if n = 223 then ''SS''
      else if 97 \<le> n \<and> n \<le> 122 \<or> 224 \<le> n \<and> n \<le> 254 \<and> n \<noteq> 247 then [char_of (n - 32)]
      else [c])"

definition lower :: "string \<Rightarrow> string" where
  "lower s = map lower_char s"

definition upper :: "string \<Rightarrow> string" where
  "upper s = concat (map upper_char s)"

definition lstrip :: "string \<Rightarrow> string" where
  "lstrip s = dropWhile is_space s"

definition strip :: "string \<Rightarrow> string" where
  "strip s = rev (dropWhile is_space (rev (lstrip s)))"

lemma dropWhile_idem [simp]: "dropWhile p (dropWhile p xs) = dropWhile p xs"
  by (induction xs) auto

lemma hd_strip: "strip s \<noteq> [] \<Longrightarrow> \<not> is_space (hd (strip s)) \<and> \<not> is_space (last (strip s))"
proof -
  assume ne: "strip s \<noteq> []"
  let ?t = "lstrip s"
  obtain zs where zs: "?t = strip s @ zs"
    unfolding strip_def
    by (metis rev_append rev_rev_ident takeWhile_dropWhile_id)
  have t: "?t \<noteq> []" using ne zs by auto
  then have "\<not> is_space (hd ?t)"
    unfolding lstrip_def by (rule hd_dropWhile)
  then have h: "\<not> is_space (hd (strip s))"
    using ne zs by simp
  have "dropWhile is_space (rev ?t) \<noteq> []"
    using ne by (simp add: strip_def)
  then have "\<not> is_space (hd (dropWhile is_space (rev ?t)))"
    by (rule hd_dropWhile)
  then have "\<not> is_space (last (strip s))"
    using ne by (simp add: strip_def last_rev)
  with h show ?thesis ..
qed

lemma strip_id: "(s \<noteq> [] \<longrightarrow> \<not> is_space (hd s) \<and> \<not> is_space (last s)) \<Longrightarrow> strip s = s"
proof (cases "s = []")
  case True
  then show ?thesis by (simp add: strip_def lstrip_def)
next
  case False
  assume "s \<noteq> [] \<longrightarrow> \<not> is_space (hd s) \<and> \<not> is_space (last s)"
  with False have h: "\<not> is_space (hd s)" "\<not> is_space (last s)" by auto
  have "lstrip s = s"
    using False h(1) by (cases s) (auto simp: lstrip_def)
  moreover have "dropWhile is_space (rev s) = rev s"
    using False h(2) by (cases "rev s") (auto simp: hd_rev[symmetric])
  ultimately show ?thesis by (simp add: strip_def)
qed

lemma strip_strip [simp]: "strip (strip s) = strip s"
  by (rule strip_id) (use hd_strip in blast)

lemma strip_Nil [simp]: "strip [] = []"
  by (simp add: strip_def lstrip_def)

text \<open>\<^verbatim>\<open>s.replace(c, t)\<close> for a single character \<open>c\<close>.\<close>

definition replace_char :: "char \<Rightarrow> string \<Rightarrow> string \<Rightarrow> string" where
  "replace_char c t s = concat (map (\<lambda>x. if x = c then t else [x]) s)"

section \<open>Integers in decimal\<close>

fun dec_nat :: "nat \<Rightarrow> string" where
  "dec_nat n = (if n < 10 then [digit_char n] else dec_nat (n div 10) @ [digit_char (n mod 10)])"

declare dec_nat.simps [simp del]

definition dec_int :: "int \<Rightarrow> string" where
  "dec_int n = (if n < 0 then CHR ''-'' # dec_nat (nat (- n)) else dec_nat (nat n))"

definition nat_of_digits :: "string \<Rightarrow> nat" where
  "nat_of_digits s = foldl (\<lambda>a c. 10 * a + digit_val c) 0 s"

lemma dec_nat_digits: "list_all is_digit (dec_nat n)"
proof (induction n rule: dec_nat.induct)
  case (1 n)
  then show ?case by (subst dec_nat.simps) auto
qed

lemma dec_nat_nonempty [simp]: "dec_nat n \<noteq> []"
  by (subst dec_nat.simps) auto

lemma nat_of_digits_dec_nat [simp]: "nat_of_digits (dec_nat n) = n"
proof (induction n rule: dec_nat.induct)
  case (1 n)
  then show ?case
    by (subst dec_nat.simps) (auto simp: nat_of_digits_def)
qed

text \<open>\<open>pad w n\<close>: at least \<open>w\<close> digits, as \<^verbatim>\<open>'%0wd' % n\<close> writes them.\<close>

definition pad :: "nat \<Rightarrow> nat \<Rightarrow> string" where
  "pad w n = replicate (w - length (dec_nat n)) (CHR ''0'') @ dec_nat n"

section \<open>Rounding to a double\<close>

fun nbits :: "nat \<Rightarrow> nat" where
  "nbits n = (if n = 0 then 0 else Suc (nbits (n div 2)))"

declare nbits.simps [simp del]

definition pow2 :: "int \<Rightarrow> rat" where
  "pow2 e = (if 0 \<le> e then 2 ^ nat e else 1 / 2 ^ nat (- e))"

text \<open>Round half to even.\<close>

definition round_even :: "rat \<Rightarrow> int" where
  "round_even x =
     (let f = \<lfloor>x\<rfloor>; r = x - of_int f in
      if r < 1 / 2 then f else if 1 / 2 < r then f + 1 else if even f then f else f + 1)"

text \<open>
  The nearest double of a positive rational: \<open>e\<close> is the exponent of the last place, at least
  \<open>-1074\<close>, chosen so that the significand has 53 bits. \<^term>\<open>None\<close> is a value past the range.
\<close>

definition ulp_exp :: "rat \<Rightarrow> int" where
  "ulp_exp x =
     (let (n, d) = quotient_of x;
          e0 = int (nbits (nat n)) - int (nbits (nat d)) - 53;
          e1 = (if x < pow2 (e0 + 52) then e0 - 1
                else if pow2 (e0 + 53) \<le> x then e0 + 1 else e0)
      in max (- 1074) e1)"

definition round_pos :: "rat \<Rightarrow> rat option" where
  "round_pos x =
     (let e = ulp_exp x; y = of_int (round_even (x / pow2 e)) * pow2 e in
      if 2 ^ 1024 \<le> y then None else Some y)"

definition round_double :: "rat \<Rightarrow> rat option" where
  "round_double x =
     (if x = 0 then Some 0
      else if 0 < x then round_pos x
      else map_option uminus (round_pos (- x)))"

text \<open>\<^verbatim>\<open>float(n)\<close> of an integer: exact up to $2^{53}$, an OverflowError past the range.\<close>

definition float_of_int :: "int \<Rightarrow> pyfloat res" where
  "float_of_int n =
     (if \<bar>n\<bar> \<le> 2 ^ 53 then Inr (Fin (of_int n))
      else case round_double (of_int n) of Some y \<Rightarrow> Inr (Fin y) | None \<Rightarrow> Inl OverflowError)"

section \<open>Parsing a float\<close>

text \<open>
  \<^verbatim>\<open>float(s)\<close> of a string: surrounding white space is dropped, an underscore must stand between
  two digits, then an optional sign and \<^verbatim>\<open>inf\<close>, \<^verbatim>\<open>infinity\<close>, \<^verbatim>\<open>nan\<close> or a decimal number.
\<close>

fun drop_underscores :: "char \<Rightarrow> string \<Rightarrow> string option" where
  "drop_underscores prev [] = (if prev = CHR ''_'' then None else Some [])"
| "drop_underscores prev (c # cs) =
     (if c = CHR ''_'' then (if is_digit prev then drop_underscores c cs else None)
      else if prev = CHR ''_'' \<and> \<not> is_digit c then None
      else map_option (Cons c) (drop_underscores c cs))"

definition split_sign :: "string \<Rightarrow> int \<times> string" where
  "split_sign s =
     (case s of
        [] \<Rightarrow> (1, [])
      | c # cs \<Rightarrow> if c = CHR ''-'' then (-1, cs) else if c = CHR ''+'' then (1, cs) else (1, s))"

definition parse_exponent :: "string \<Rightarrow> int option" where
  "parse_exponent s =
     (case s of
        [] \<Rightarrow> Some 0
      | c # cs \<Rightarrow>
          if c = CHR ''e'' then
            (let (sg, ds) = split_sign cs in
             if ds \<noteq> [] \<and> list_all is_digit ds then Some (sg * int (nat_of_digits ds)) else None)
          else None)"

definition parse_decimal :: "string \<Rightarrow> rat option" where
  "parse_decimal s =
     (let ip = takeWhile is_digit s; s1 = dropWhile is_digit s;
          (fp, s2) = (case s1 of
                        c # cs \<Rightarrow> if c = CHR ''.'' then (takeWhile is_digit cs, dropWhile is_digit cs)
                                  else ([], s1)
                      | [] \<Rightarrow> ([], []))
      in if ip = [] \<and> fp = [] then None
         else map_option
                (\<lambda>e. let m = of_nat (nat_of_digits (ip @ fp)); k = e - int (length fp) in
                     if 0 \<le> k then m * 10 ^ nat k else m / 10 ^ nat (- k))
                (parse_exponent s2))"

definition float_of_string :: "string \<Rightarrow> pyfloat option" where
  "float_of_string s =
     (case drop_underscores (CHR '' '') (strip s) of
        None \<Rightarrow> None
      | Some t \<Rightarrow>
          let (sg, u) = split_sign (lower t) in
          if u = ''inf'' \<or> u = ''infinity'' then Some (if sg < 0 then NegInf else PosInf)
          else if u = ''nan'' then Some NotANumber
          else case parse_decimal u of
                 None \<Rightarrow> None
               | Some x \<Rightarrow>
                   Some (case round_double x of
                           None \<Rightarrow> (if sg < 0 then NegInf else PosInf)
                         | Some y \<Rightarrow> Fin (of_int sg * y)))"

text \<open>\<^verbatim>\<open>float(v)\<close>\<close>

definition py_float :: "pyval \<Rightarrow> pyfloat res" where
  "py_float v =
     (case v of
        PBool b \<Rightarrow> Inr (Fin (if b then 1 else 0))
      | PInt n \<Rightarrow> float_of_int n
      | PFloat f \<Rightarrow> Inr f
      | PStr s \<Rightarrow> (case float_of_string s of Some f \<Rightarrow> Inr f | None \<Rightarrow> Inl ValueError)
      | _ \<Rightarrow> Inl TypeError)"

lemma py_float_simps [simp]:
  "py_float (PBool b) = Inr (Fin (if b then 1 else 0))"
  "py_float (PFloat f) = Inr f"
  "py_float PNone = Inl TypeError"
  "py_float (PList xs) = Inl TypeError"
  "py_float (PDict d) = Inl TypeError"
  by (simp_all add: py_float_def)

lemma py_float_small_int [simp]: "\<bar>n\<bar> \<le> 2 ^ 53 \<Longrightarrow> py_float (PInt n) = Inr (Fin (of_int n))"
  by (simp add: py_float_def float_of_int_def)

end
