(* ===== verification/Py_Time.thy ===== *)
theory Py_Time
  imports Py_Text
begin

text \<open>
  Python's \<^verbatim>\<open>datetime\<close> values as the modelled code uses them: \<^verbatim>\<open>datetime.fromisoformat\<close> on
  calendar dates (with or without separators, any fraction, any UTC offset),
  \<^verbatim>\<open>datetime.isoformat\<close> and the order of aware values. ISO week dates are not modelled; no
  code of the repository writes them.
\<close>

section \<open>The calendar\<close>

definition leap :: "int \<Rightarrow> bool" where
  "leap y \<longleftrightarrow> y mod 4 = 0 \<and> (y mod 100 \<noteq> 0 \<or> y mod 400 = 0)"

definition days_in_month :: "int \<Rightarrow> int \<Rightarrow> int" where
  "days_in_month y m =
     (if m = 2 then (if leap y then 29 else 28)
      else if m \<in> set [4, 6, 9, 11] then 30 else 31)"

definition days_before_year :: "int \<Rightarrow> int" where
  "days_before_year y = (let p = y - 1 in p * 365 + p div 4 - p div 100 + p div 400)"

definition days_before_month :: "int \<Rightarrow> int \<Rightarrow> int" where
  "days_before_month y m =
     [0, 31, 59, 90, 120, 151, 181, 212, 243, 273, 304, 334] ! nat (m - 1)
       + (if 2 < m \<and> leap y then 1 else 0)"

definition to_ordinal :: "py_datetime \<Rightarrow> int" where
  "to_ordinal d = days_before_year (dt_year d) + days_before_month (dt_year d) (dt_month d) + dt_day d"

text \<open>The instant of an aware value in microseconds; a naive value is read as UTC.\<close>

definition utc_micros :: "py_datetime \<Rightarrow> int" where
  "utc_micros d =
     (((to_ordinal d * 24 + dt_hour d) * 60 + dt_minute d) * 60 + dt_second d) * 1000000
       + dt_micro d - (case dt_offset d of Some z \<Rightarrow> z | None \<Rightarrow> 0)"

definition valid_datetime :: "py_datetime \<Rightarrow> bool" where
  "valid_datetime d \<longleftrightarrow>
     1 \<le> dt_year d \<and> dt_year d \<le> 9999 \<and> 1 \<le> dt_month d \<and> dt_month d \<le> 12
     \<and> 1 \<le> dt_day d \<and> dt_day d \<le> days_in_month (dt_year d) (dt_month d)
     \<and> 0 \<le> dt_hour d \<and> dt_hour d \<le> 23 \<and> 0 \<le> dt_minute d \<and> dt_minute d \<le> 59
     \<and> 0 \<le> dt_second d \<and> dt_second d \<le> 59 \<and> 0 \<le> dt_micro d \<and> dt_micro d \<le> 999999
     \<and> (case dt_offset d of None \<Rightarrow> True | Some z \<Rightarrow> \<bar>z\<bar> < 86400000000)"

section \<open>Writing\<close>

definition pad2 :: "int \<Rightarrow> string" where
  "pad2 n = pad 2 (nat n)"

definition format_time :: "int \<Rightarrow> int \<Rightarrow> int \<Rightarrow> int \<Rightarrow> bool \<Rightarrow> string" where
  "format_time h m s us short =
     pad2 h @ '':'' @ pad2 m
       @ (if short \<and> s = 0 \<and> us = 0 then [] else '':'' @ pad2 s)
       @ (if us = 0 then [] else ''.'' @ pad 6 (nat us))"

definition format_offset :: "int \<Rightarrow> string" where
  "format_offset z =
     (let a = \<bar>z\<bar>; us = a mod 1000000; t = a div 1000000 in
      (if z < 0 then ''-'' else ''+'')
        @ format_time (t div 3600) (t mod 3600 div 60) (t mod 60) us True)"

definition isoformat_sep :: "string \<Rightarrow> py_datetime \<Rightarrow> string" where
  "isoformat_sep sep d =
     pad 4 (nat (dt_year d)) @ ''-'' @ pad2 (dt_month d) @ ''-'' @ pad2 (dt_day d) @ sep
       @ format_time (dt_hour d) (dt_minute d) (dt_second d) (dt_micro d) False
       @ (case dt_offset d of None \<Rightarrow> [] | Some z \<Rightarrow> format_offset z)"

definition isoformat :: "py_datetime \<Rightarrow> string" where
  "isoformat d = isoformat_sep ''T'' d"

section \<open>Parsing\<close>

definition parse_num :: "nat \<Rightarrow> string \<Rightarrow> (int \<times> string) option" where
  "parse_num w s =
     (if w \<le> length s \<and> list_all is_digit (take w s)
      then Some (int (nat_of_digits (take w s)), drop w s) else None)"

definition parse_fraction :: "string \<Rightarrow> int option" where
  "parse_fraction ds =
     (if ds \<noteq> [] \<and> list_all is_digit ds
      then Some (int (nat_of_digits (take 6 (ds @ replicate 6 (CHR ''0''))))) else None)"

definition parse_seconds :: "int \<Rightarrow> int \<Rightarrow> string \<Rightarrow> (int \<times> int \<times> int \<times> int) option" where
  "parse_seconds h m r =
     (case parse_num 2 r of
        None \<Rightarrow> None
      | Some (s, r') \<Rightarrow>
          (case r' of
             [] \<Rightarrow> Some (h, m, s, 0)
           | c # ds \<Rightarrow>
               if c = CHR ''.'' \<or> c = CHR '',''
               then map_option (\<lambda>us. (h, m, s, us)) (parse_fraction ds) else None))"

definition parse_hms :: "string \<Rightarrow> (int \<times> int \<times> int \<times> int) option" where
  "parse_hms t =
     (case parse_num 2 t of
        None \<Rightarrow> None
      | Some (h, r) \<Rightarrow>
          (case r of
             [] \<Rightarrow> Some (h, 0, 0, 0)
           | c # cs \<Rightarrow>
               (case parse_num 2 (if c = CHR '':'' then cs else r) of
                  None \<Rightarrow> None
                | Some (m, r2) \<Rightarrow>
                    (case r2 of
                       [] \<Rightarrow> Some (h, m, 0, 0)
                     | c2 # cs2 \<Rightarrow>
                         if c = CHR '':''
                         then (if c2 = CHR '':'' then parse_seconds h m cs2 else None)
                         else parse_seconds h m r2))))"

definition is_zone_char :: "char \<Rightarrow> bool" where
  "is_zone_char c \<longleftrightarrow> c = CHR ''+'' \<or> c = CHR ''-'' \<or> c = CHR ''Z''"

definition parse_zone :: "string \<Rightarrow> int option option" where
  "parse_zone z =
     (case z of
        [] \<Rightarrow> Some None
      | c # cs \<Rightarrow>
          if c = CHR ''Z'' then (if cs = [] then Some (Some 0) else None)
          else (case parse_hms cs of
                  None \<Rightarrow> None
                | Some (h, m, s, us) \<Rightarrow>
                    Some (Some ((if c = CHR ''-'' then -1 else 1)
                                * (((h * 60 + m) * 60 + s) * 1000000 + us)))))"

definition parse_date :: "string \<Rightarrow> (int \<times> int \<times> int \<times> string) option" where
  "parse_date s =
     (case parse_num 4 s of
        None \<Rightarrow> None
      | Some (y, r) \<Rightarrow>
          (case r of
             [] \<Rightarrow> None
           | c # cs \<Rightarrow>
               (case parse_num 2 (if c = CHR ''-'' then cs else r) of
                  None \<Rightarrow> None
                | Some (m, r2) \<Rightarrow>
                    (case r2 of
                       [] \<Rightarrow> None
                     | c2 # cs2 \<Rightarrow>
                         if (c2 = CHR ''-'') \<noteq> (c = CHR ''-'') then None
                         else (case parse_num 2 (if c = CHR ''-'' then cs2 else r2) of
                                 None \<Rightarrow> None
                               | Some (d, r3) \<Rightarrow> Some (y, m, d, r3))))))"

definition check_datetime :: "py_datetime \<Rightarrow> py_datetime option" where
  "check_datetime d = (if valid_datetime d then Some d else None)"

definition fromisoformat :: "string \<Rightarrow> py_datetime option" where
  "fromisoformat s =
     (case parse_date s of
        None \<Rightarrow> None
      | Some (y, mo, da, r) \<Rightarrow>
          (case r of
             [] \<Rightarrow> check_datetime \<lparr>dt_year = y, dt_month = mo, dt_day = da, dt_hour = 0,
                      dt_minute = 0, dt_second = 0, dt_micro = 0, dt_offset = None\<rparr>
           | _ # t \<Rightarrow>
               (case (parse_hms (takeWhile (\<lambda>c. \<not> is_zone_char c) t),
                      parse_zone (dropWhile (\<lambda>c. \<not> is_zone_char c) t)) of
                  (Some (h, m, sec, us), Some z) \<Rightarrow>
                    check_datetime \<lparr>dt_year = y, dt_month = mo, dt_day = da, dt_hour = h,
                      dt_minute = m, dt_second = sec, dt_micro = us, dt_offset = z\<rparr>
                | _ \<Rightarrow> None)))"

text \<open>\<^verbatim>\<open>d if d.tzinfo else d.replace(tzinfo=timezone.utc)\<close>\<close>

definition assume_utc :: "py_datetime \<Rightarrow> py_datetime" where
  "assume_utc d = (case dt_offset d of None \<Rightarrow> d\<lparr>dt_offset := Some 0\<rparr> | Some _ \<Rightarrow> d)"

lemma utc_micros_assume_utc [simp]: "utc_micros (assume_utc d) = utc_micros d"
  by (cases "dt_offset d") (simp_all add: assume_utc_def utc_micros_def to_ordinal_def)

lemma fromisoformat_valid: "fromisoformat s = Some d \<Longrightarrow> valid_datetime d"
  by (auto simp: fromisoformat_def check_datetime_def split: option.splits list.splits if_splits prod.splits)

section \<open>Reading back what was written\<close>

lemma length_dec_nat_pow: "n < 10 ^ k \<Longrightarrow> 0 < k \<Longrightarrow> length (dec_nat n) \<le> k"
proof (induction n arbitrary: k rule: dec_nat.induct)
  case (1 n)
  show ?case
  proof (cases "n < 10")
    case True
    with "1.prems" show ?thesis by (subst dec_nat.simps) simp
  next
    case False
    obtain j where k: "k = Suc j" using "1.prems"(2) by (cases k) auto
    have "n div 10 < 10 ^ j" using "1.prems"(1) k by auto
    moreover have "0 < j" using False "1.prems"(1) k by (cases j) auto
    ultimately have "length (dec_nat (n div 10)) \<le> j" using "1.IH" False by blast
    with False k show ?thesis by (subst dec_nat.simps) simp
  qed
qed

lemma nat_of_digits_zeros: "nat_of_digits (replicate k (CHR ''0'') @ s) = nat_of_digits s"
proof -
  have z: "digit_val (CHR ''0'') = 0" by (simp add: digit_val_def code_of_def)
  have "foldl (\<lambda>a c. 10 * a + digit_val c) 0 (replicate k (CHR ''0'')) = 0"
    by (induction k) (simp_all add: z)
  then show ?thesis by (simp add: nat_of_digits_def)
qed

lemma pad_facts:
  assumes "n < 10 ^ w" "0 < w"
  shows "length (pad w n) = w" and "list_all is_digit (pad w n)" and "nat_of_digits (pad w n) = n"
proof -
  have "is_digit (CHR ''0'')" by (simp add: is_digit_def code_of_def)
  moreover have "length (dec_nat n) \<le> w" using assms by (rule length_dec_nat_pow)
  ultimately show "length (pad w n) = w" "list_all is_digit (pad w n)" "nat_of_digits (pad w n) = n"
    by (auto simp: pad_def dec_nat_digits nat_of_digits_zeros list_all_append)
      (auto simp: list_all_iff)
qed

lemma parse_num_pad: "n < 10 ^ w \<Longrightarrow> 0 < w \<Longrightarrow> parse_num w (pad w n @ r) = Some (int n, r)"
  by (simp add: parse_num_def pad_facts)

lemma parse_num_pad2: "0 \<le> n \<Longrightarrow> n < 100 \<Longrightarrow> parse_num 2 (pad2 n @ r) = Some (n, r)"
  using parse_num_pad [of "nat n" 2 r] by (simp add: pad2_def)

lemma parse_num_pad2_end: "0 \<le> n \<Longrightarrow> n < 100 \<Longrightarrow> parse_num 2 (pad2 n) = Some (n, [])"
  using parse_num_pad2 [of n "[]"] by simp

lemma parse_fraction_pad6: "0 \<le> us \<Longrightarrow> us \<le> 999999 \<Longrightarrow> parse_fraction (pad 6 (nat us)) = Some us"
proof -
  assume "0 \<le> us" "us \<le> 999999"
  then have lt: "nat us < 10 ^ 6" by simp
  note f = pad_facts [OF lt, simplified]
  have "pad 6 (nat us) \<noteq> []" using f(1) by auto
  then show ?thesis using f \<open>0 \<le> us\<close> by (simp add: parse_fraction_def)
qed

lemma parse_hms_format_time:
  assumes "0 \<le> h" "h < 100" "0 \<le> m" "m < 100" "0 \<le> s" "s < 100" "0 \<le> us" "us \<le> 999999"
  shows "parse_hms (format_time h m s us short) = Some (h, m, s, us)"
proof -
  note p = parse_num_pad2 [OF assms(1,2)] parse_num_pad2 [OF assms(3,4)] parse_num_pad2 [OF assms(5,6)]
    parse_num_pad2_end [OF assms(1,2)] parse_num_pad2_end [OF assms(3,4)]
    parse_num_pad2_end [OF assms(5,6)] parse_fraction_pad6 [OF assms(7,8)]
  show ?thesis
  proof (cases "short \<and> s = 0 \<and> us = 0")
    case True
    then show ?thesis by (simp add: parse_hms_def format_time_def p)
  next
    case False
    then show ?thesis
      by (cases "us = 0") (auto simp: parse_hms_def format_time_def p parse_seconds_def)
  qed
qed

lemma digit_not_zone: "is_digit c \<Longrightarrow> \<not> is_zone_char c"
  by (auto simp: is_digit_def is_zone_char_def code_of_def)

lemma pad2_not_zone: "0 \<le> n \<Longrightarrow> n < 100 \<Longrightarrow> \<forall>c \<in> set (pad2 n). \<not> is_zone_char c"
  using pad_facts(2) [of "nat n" 2] digit_not_zone by (auto simp: pad2_def list_all_iff)

lemma pad6_not_zone: "0 \<le> n \<Longrightarrow> n \<le> 999999 \<Longrightarrow> \<forall>c \<in> set (pad 6 (nat n)). \<not> is_zone_char c"
  using pad_facts(2) [of "nat n" 6] digit_not_zone by (auto simp: list_all_iff)

lemma format_time_not_zone:
  assumes "0 \<le> h" "h < 100" "0 \<le> m" "m < 100" "0 \<le> s" "s < 100" "0 \<le> us" "us \<le> 999999"
  shows "\<forall>c \<in> set (format_time h m s us short). \<not> is_zone_char c"
proof -
  have "\<not> is_zone_char (CHR '':'')" "\<not> is_zone_char (CHR ''.'')"
    by (simp_all add: is_zone_char_def)
  then show ?thesis
    using pad2_not_zone [OF assms(1,2)] pad2_not_zone [OF assms(3,4)] pad2_not_zone [OF assms(5,6)]
      pad6_not_zone [OF assms(7,8)]
    by (simp add: format_time_def ball_Un)
qed

lemma hms_sum: "(t div 3600 * 60 + t mod 3600 div 60) * 60 + t mod 60 = (t :: int)"
proof -
  have a: "t mod 3600 div 60 * 60 + t mod 60 = t mod 3600"
    using div_mult_mod_eq [of "t mod 3600" 60] by (simp add: mod_mod_cancel)
  have "(t div 3600 * 60 + t mod 3600 div 60) * 60 + t mod 60
      = t div 3600 * 3600 + (t mod 3600 div 60 * 60 + t mod 60)"
    by (simp add: distrib_right)
  also have "\<dots> = t"
    by (simp only: a div_mult_mod_eq)
  finally show ?thesis .
qed

lemma parse_zone_format_offset:
  assumes "\<bar>z\<bar> < 86400000000"
  shows "parse_zone (format_offset z) = Some (Some z)"
proof -
  define t where "t = \<bar>z\<bar> div 1000000"
  define us where "us = \<bar>z\<bar> mod 1000000"
  have t: "0 \<le> t" "t < 86400" using assms by (auto simp: t_def)
  have us: "0 \<le> us" "us \<le> 999999" using pos_mod_bound [of 1000000 "\<bar>z\<bar>"] by (auto simp: us_def)
  have mod_t: "0 \<le> t mod 3600" "t mod 3600 < 3600"
    by simp_all
  have b1: "0 \<le> t div 3600" "t div 3600 < 100"
    using t by (simp_all add: pos_imp_zdiv_nonneg_iff)
  have b2: "0 \<le> t mod 3600 div 60" "t mod 3600 div 60 < 100"
    using mod_t by (simp_all add: pos_imp_zdiv_nonneg_iff)
  have b3: "0 \<le> t mod 60" "t mod 60 < 100"
    using pos_mod_bound [of 60 t] by simp_all
  note hm = parse_hms_format_time [OF b1 b2 b3 us, of True]
  have sum: "((t div 3600 * 60 + t mod 3600 div 60) * 60 + t mod 60) * 1000000 + us = \<bar>z\<bar>"
    by (simp only: hms_sum) (simp add: t_def us_def)
  have fo: "format_offset z = (if z < 0 then ''-'' else ''+'')
      @ format_time (t div 3600) (t mod 3600 div 60) (t mod 60) us True"
    by (simp only: format_offset_def Let_def t_def us_def)
  show ?thesis
  proof (cases "z < 0")
    case True
    then show ?thesis using sum by (simp only: fo) (simp add: parse_zone_def hm)
  next
    case False
    then show ?thesis using sum by (simp only: fo) (simp add: parse_zone_def hm)
  qed
qed

lemma format_offset_zone_char: "\<exists>c cs. format_offset z = c # cs \<and> is_zone_char c"
  by (auto simp: format_offset_def Let_def is_zone_char_def)

lemma days_in_month_bound: "days_in_month y m \<le> 31"
  by (simp add: days_in_month_def)

lemma parse_date_isoformat:
  assumes "valid_datetime d"
  shows "parse_date (pad 4 (nat (dt_year d)) @ ''-'' @ pad2 (dt_month d) @ ''-'' @ pad2 (dt_day d) @ r)
    = Some (dt_year d, dt_month d, dt_day d, r)"
proof -
  have b: "0 \<le> dt_month d" "dt_month d < 100" "0 \<le> dt_day d" "dt_day d < 100"
    using assms days_in_month_bound [of "dt_year d" "dt_month d"] by (auto simp: valid_datetime_def)
  have y: "nat (dt_year d) < 10 ^ 4" and y0: "0 \<le> dt_year d"
    using assms by (auto simp: valid_datetime_def)
  show ?thesis
    using parse_num_pad [OF y] y0 parse_num_pad2 [OF b(1,2)] parse_num_pad2 [OF b(3,4)]
    by (simp add: parse_date_def)
qed

text \<open>A valid value survives \<^verbatim>\<open>fromisoformat(isoformat(d))\<close>, whatever the separator.\<close>

lemma fromisoformat_isoformat_sep:
  assumes v: "valid_datetime d" and sep: "length sep = 1"
  shows "fromisoformat (isoformat_sep sep d) = Some d"
proof -
  obtain c where c: "sep = [c]" using sep by (cases sep) auto
  let ?t = "format_time (dt_hour d) (dt_minute d) (dt_second d) (dt_micro d) False"
  let ?z = "case dt_offset d of None \<Rightarrow> [] | Some z \<Rightarrow> format_offset z"
  have b: "0 \<le> dt_hour d" "dt_hour d < 100" "0 \<le> dt_minute d" "dt_minute d < 100"
    "0 \<le> dt_second d" "dt_second d < 100" "0 \<le> dt_micro d" "dt_micro d \<le> 999999"
    using v by (auto simp: valid_datetime_def)
  note hms = parse_hms_format_time [OF b]
  note nz = format_time_not_zone [OF b, of False]
  have tw: "takeWhile (\<lambda>c. \<not> is_zone_char c) (?t @ ?z) = ?t"
    and dw: "dropWhile (\<lambda>c. \<not> is_zone_char c) (?t @ ?z) = ?z"
    using nz format_offset_zone_char
    by (auto simp: takeWhile_append dropWhile_append split: option.splits)
      (metis (no_types, lifting) append_Nil2 dropWhile.simps(2) takeWhile.simps(2))+
  have z: "parse_zone ?z = Some (dt_offset d)"
    using v parse_zone_format_offset
    by (cases "dt_offset d") (auto simp: valid_datetime_def parse_zone_def)
  have eta: "\<lparr>dt_year = dt_year d, dt_month = dt_month d, dt_day = dt_day d, dt_hour = dt_hour d,
      dt_minute = dt_minute d, dt_second = dt_second d, dt_micro = dt_micro d,
      dt_offset = dt_offset d\<rparr> = d"
    by simp
  have "fromisoformat (isoformat_sep sep d) = check_datetime d"
    using parse_date_isoformat [OF v, of "c # ?t @ ?z"]
    by (simp add: fromisoformat_def isoformat_sep_def c tw dw hms z eta)
  then show ?thesis using v by (simp add: check_datetime_def)
qed

lemma fromisoformat_isoformat: "valid_datetime d \<Longrightarrow> fromisoformat (isoformat d) = Some d"
  by (simp add: isoformat_def fromisoformat_isoformat_sep)

section \<open>The same instant in UTC\<close>

definition next_day :: "int \<times> int \<times> int \<Rightarrow> int \<times> int \<times> int" where
  "next_day d = (case d of (y, m, a) \<Rightarrow>
     if a < days_in_month y m then (y, m, a + 1)
     else if m < 12 then (y, m + 1, 1) else (y + 1, 1, 1))"

definition prev_day :: "int \<times> int \<times> int \<Rightarrow> int \<times> int \<times> int" where
  "prev_day d = (case d of (y, m, a) \<Rightarrow>
     if 1 < a then (y, m, a - 1)
     else if 1 < m then (y, m - 1, days_in_month y (m - 1)) else (y - 1, 12, 31))"

definition to_utc :: "py_datetime \<Rightarrow> py_datetime option" where
  "to_utc d =
    (let z = (case dt_offset d of Some z \<Rightarrow> z | None \<Rightarrow> 0);
         t = ((dt_hour d * 60 + dt_minute d) * 60 + dt_second d) * 1000000 + dt_micro d - z;
         day = (dt_year d, dt_month d, dt_day d);
         u = t mod 86400000000
     in case (if t < 0 then prev_day day else if 86400000000 \<le> t then next_day day else day) of
          (y, m, a) \<Rightarrow>
            check_datetime \<lparr>dt_year = y, dt_month = m, dt_day = a, dt_hour = u div 3600000000,
              dt_minute = u div 60000000 mod 60, dt_second = u div 1000000 mod 60,
              dt_micro = u mod 1000000, dt_offset = Some 0\<rparr>)"

definition ordinal :: "int \<times> int \<times> int \<Rightarrow> int" where
  "ordinal d = (case d of (y, m, a) \<Rightarrow> days_before_year y + days_before_month y m + a)"

lemma div_step:
  fixes y k :: int
  assumes "0 < k"
  shows "y div k = (y - 1) div k + (if y mod k = 0 then 1 else 0)"
proof (cases "y mod k = 0")
  case True
  have "y - 1 = k * (y div k - 1) + (k - 1)"
    using True mult_div_mod_eq [of k y] by (simp add: algebra_simps)
  then have "(y - 1) div k = y div k - 1" by (rule int_div_pos_eq) (use assms in auto)
  with True show ?thesis by simp
next
  case False
  have "0 \<le> y mod k" "y mod k < k" using assms by simp_all
  moreover have "y - 1 = k * (y div k) + (y mod k - 1)"
    using mult_div_mod_eq [of k y] by simp
  then have "(y - 1) div k = y div k" by (rule int_div_pos_eq) (use False calculation in auto)
  with False show ?thesis by simp
qed

lemma days_before_year_step: "days_before_year (y + 1) = days_before_year y + (if leap y then 366 else 365)"
proof -
  have step: "y * 365 + A - B + C = (y - 1) * 365 + a - b + c + (if p \<and> (\<not> q \<or> r) then 366 else 365)"
    if "A = a + (if p then 1 else 0)" "B = b + (if q then 1 else 0)" "C = c + (if r then 1 else 0)"
      "r \<Longrightarrow> q" "q \<Longrightarrow> p" for A B C a b c :: int and p q r
    using that by (cases p; cases q; cases r) simp_all
  have "y mod 400 mod 100 = y mod 100" "y mod 100 mod 4 = y mod 4"
    by (simp_all add: mod_mod_cancel)
  then have "y mod 400 = 0 \<Longrightarrow> y mod 100 = 0" "y mod 100 = 0 \<Longrightarrow> y mod 4 = 0"
    by auto
  then have "y * 365 + y div 4 - y div 100 + y div 400 =
      (y - 1) * 365 + (y - 1) div 4 - (y - 1) div 100 + (y - 1) div 400 + (if leap y then 366 else 365)"
    unfolding leap_def
    by (intro step [OF div_step div_step div_step]) simp_all
  then show ?thesis unfolding days_before_year_def Let_def by simp
qed

lemma month_cases:
  fixes m :: int
  assumes "1 \<le> m" "m \<le> 12"
  shows "m \<in> {1, 2, 3, 4, 5, 6, 7, 8, 9, 10, 11, 12}"
  using assms by (simp, arith)

lemma days_before_month_step:
  "1 \<le> m \<Longrightarrow> m < 12 \<Longrightarrow> days_before_month y (m + 1) = days_before_month y m + days_in_month y m"
  using month_cases [of m] by (auto simp: days_before_month_def days_in_month_def)

lemma days_before_month_ends:
  "days_before_month y 1 = 0" "days_before_month y 12 + 31 = (if leap y then 366 else 365)"
  by (simp_all add: days_before_month_def)

lemma days_in_december: "days_in_month y 12 = 31"
  by (simp add: days_in_month_def)

lemma ordinal_next_day:
  assumes "1 \<le> m" "m \<le> 12" "a \<le> days_in_month y m"
  shows "ordinal (next_day (y, m, a)) = ordinal (y, m, a) + 1"
proof (cases "a < days_in_month y m")
  case True
  then show ?thesis by (simp add: next_day_def ordinal_def)
next
  case False
  with assms(3) have a: "a = days_in_month y m" by simp
  show ?thesis
  proof (cases "m < 12")
    case True
    with a days_before_month_step [OF assms(1) True, of y] show ?thesis
      by (simp add: next_day_def ordinal_def)
  next
    case False
    with assms(2) have m: "m = 12" by simp
    with a show ?thesis
      using days_before_month_ends [of y] days_before_month_ends(1) [of "y + 1"]
        days_before_year_step [of y] days_in_december [of y]
      by (simp add: next_day_def ordinal_def)
  qed
qed

lemma ordinal_prev_day:
  assumes "1 \<le> m" "m \<le> 12" "1 \<le> a"
  shows "ordinal (prev_day (y, m, a)) = ordinal (y, m, a) - 1"
proof (cases "1 < a")
  case True
  then show ?thesis by (simp add: prev_day_def ordinal_def)
next
  case False
  with assms(3) have a: "a = 1" by simp
  show ?thesis
  proof (cases "1 < m")
    case True
    with a assms(2) days_before_month_step [of "m - 1" y] show ?thesis
      by (simp add: prev_day_def ordinal_def)
  next
    case False
    with assms(1) have m: "m = 1" by simp
    with a show ?thesis
      using days_before_month_ends [of "y - 1"] days_before_month_ends(1) [of y]
        days_before_year_step [of "y - 1"]
      by (simp add: prev_day_def ordinal_def)
  qed
qed

text \<open>The driver writes and reads an instant; its UTC form is the same one.\<close>

lemma utc_micros_to_utc:
  assumes v: "valid_datetime d" and u: "to_utc d = Some e"
  shows "utc_micros e = utc_micros d"
proof -
  define z where "z = (case dt_offset d of Some z \<Rightarrow> z | None \<Rightarrow> 0)"
  define t where "t = ((dt_hour d * 60 + dt_minute d) * 60 + dt_second d) * 1000000 + dt_micro d - z"
  define day where "day = (dt_year d, dt_month d, dt_day d)"
  define day' where
    "day' = (if t < 0 then prev_day day else if 86400000000 \<le> t then next_day day else day)"
  have z: "\<bar>z\<bar> < 86400000000"
    using v by (auto simp: z_def valid_datetime_def split: option.splits)
  have tb: "- 86400000000 < t" "t < 2 * 86400000000"
    using v z by (auto simp: t_def valid_datetime_def)
  have "ordinal day' = ordinal day + t div 86400000000"
  proof -
    have "t div 86400000000 = (if t < 0 then - 1 else if 86400000000 \<le> t then 1 else 0)"
      using tb by auto
    then show ?thesis
      using v by (auto simp: day'_def day_def valid_datetime_def ordinal_next_day ordinal_prev_day)
  qed
  moreover obtain y m a where ymd: "day' = (y, m, a)" by (cases day')
  moreover have e: "e = \<lparr>dt_year = y, dt_month = m, dt_day = a,
      dt_hour = t mod 86400000000 div 3600000000, dt_minute = t mod 86400000000 div 60000000 mod 60,
      dt_second = t mod 86400000000 div 1000000 mod 60, dt_micro = t mod 86400000000 mod 1000000,
      dt_offset = Some 0\<rparr>"
    using u ymd unfolding to_utc_def Let_def z_def [symmetric] t_def [symmetric] day_def [symmetric]
      day'_def [symmetric]
    by (simp add: check_datetime_def split: if_splits)
  have split: "((u div 3600000000 * 60 + u div 60000000 mod 60) * 60 + u div 1000000 mod 60) * 1000000
      + u mod 1000000 = u" for u :: int
  proof -
    have "u div 60000000 = u div 1000000 div 60" "u div 3600000000 = u div 1000000 div 60 div 60"
      using zdiv_zmult2_eq [of 60 u 1000000] zdiv_zmult2_eq [of 60 "u div 1000000" 60]
        zdiv_zmult2_eq [of 3600 u 1000000] by simp_all
    then show ?thesis by simp
  qed
  have "utc_micros d = ordinal day * 86400000000 + t"
    by (simp add: utc_micros_def to_ordinal_def ordinal_def day_def t_def z_def algebra_simps)
  moreover have "utc_micros e = ordinal day' * 86400000000 + t mod 86400000000"
    using split [of "t mod 86400000000"]
    by (simp add: e utc_micros_def to_ordinal_def ordinal_def ymd algebra_simps)
  ultimately show ?thesis by (simp add: algebra_simps)
qed

end
