(* ===== verification/Py_Repr.thy ===== *)
theory Py_Repr
  imports Py_Time
begin

text \<open>
  \<^verbatim>\<open>str(v)\<close> and \<^verbatim>\<open>repr(v)\<close> of a Python value, and the field readers every evaluator opens with:
  \<^verbatim>\<open>str(d.get(k) or "").strip()\<close>, \<^verbatim>\<open>_number(...)\<close> and \<^verbatim>\<open>_dt(...)\<close>.
\<close>

section \<open>Floats\<close>

text \<open>Python's \<^verbatim>\<open><\<close> on floats: false when either side is NaN.\<close>

fun fl_less :: "pyfloat \<Rightarrow> pyfloat \<Rightarrow> bool" where
  "fl_less (Fin x) (Fin y) = (x < y)"
| "fl_less NotANumber _ = False"
| "fl_less _ NotANumber = False"
| "fl_less NegInf y = (y \<noteq> NegInf)"
| "fl_less _ NegInf = False"
| "fl_less x PosInf = (x \<noteq> PosInf)"
| "fl_less PosInf _ = False"

definition fl_le :: "pyfloat \<Rightarrow> pyfloat \<Rightarrow> bool" where
  "fl_le x y \<longleftrightarrow> x \<noteq> NotANumber \<and> y \<noteq> NotANumber \<and> \<not> fl_less y x"

lemma fl_less_Fin_iff: "fl_less (Fin q) x \<longleftrightarrow> x = PosInf \<or> (\<exists>r. x = Fin r \<and> q < r)"
  by (cases x) auto

lemma fl_le_Fin [simp]: "fl_le (Fin x) (Fin y) \<longleftrightarrow> x \<le> y"
  by (auto simp: fl_le_def)

text \<open>\<^verbatim>\<open>+\<close> on floats, rounded to a double.\<close>

fun fl_add :: "pyfloat \<Rightarrow> pyfloat \<Rightarrow> pyfloat" where
  "fl_add (Fin x) (Fin y) =
     (case round_double (x + y) of Some z \<Rightarrow> Fin z | None \<Rightarrow> if 0 < x + y then PosInf else NegInf)"
| "fl_add NotANumber _ = NotANumber"
| "fl_add _ NotANumber = NotANumber"
| "fl_add PosInf y = (if y = NegInf then NotANumber else PosInf)"
| "fl_add NegInf y = (if y = PosInf then NotANumber else NegInf)"
| "fl_add (Fin x) PosInf = PosInf"
| "fl_add (Fin x) NegInf = NegInf"

text \<open>
  \<open>dec_point x\<close> is the position \<open>p\<close> of the decimal point: \<open>10 ^ (p - 1) \<le> x < 10 ^ p\<close>.
\<close>

definition dec_point :: "rat \<Rightarrow> int" where
  "dec_point x =
     (if 1 \<le> x then int (length (dec_nat (nat \<lfloor>x\<rfloor>)))
      else 1 - int (length (dec_nat (nat (\<lceil>1 / x\<rceil> - 1)))))"

definition pow10 :: "int \<Rightarrow> rat" where
  "pow10 e = (if 0 \<le> e then 10 ^ nat e else 1 / 10 ^ nat (- e))"

text \<open>The \<open>k\<close> digit decimal nearest to \<open>x\<close>, as an integer and a power of ten.\<close>

definition nearest_decimal :: "nat \<Rightarrow> rat \<Rightarrow> int \<times> int" where
  "nearest_decimal k x =
     (let p = dec_point x in (round_even (x * pow10 (int k - p)), p - int k))"

text \<open>The shortest decimal that reads back as \<open>x\<close>; 17 digits always do.\<close>

definition shortest_decimal :: "rat \<Rightarrow> int \<times> int" where
  "shortest_decimal x =
     (case find (\<lambda>k. let (m, e) = nearest_decimal k x in round_double (of_int m * pow10 e) = Some x)
             [1..<17] of
        Some k \<Rightarrow> nearest_decimal k x
      | None \<Rightarrow> nearest_decimal 17 x)"

definition strip_zeros :: "string \<Rightarrow> string" where
  "strip_zeros ds = rev (dropWhile (\<lambda>c. c = CHR ''0'') (rev ds))"

definition format_float :: "string \<Rightarrow> int \<Rightarrow> string" where
  "format_float ds p =
     (if - 4 < p \<and> p \<le> 16 then
        (if p \<le> 0 then ''0.'' @ replicate (nat (- p)) (CHR ''0'') @ ds
         else if int (length ds) \<le> p
              then ds @ replicate (nat p - length ds) (CHR ''0'') @ ''.0''
              else take (nat p) ds @ ''.'' @ drop (nat p) ds)
      else take 1 ds @ (if 1 < length ds then ''.'' @ drop 1 ds else [])
             @ ''e'' @ (if p < 1 then ''-'' else ''+'') @ pad 2 (nat \<bar>p - 1\<bar>))"

definition float_repr :: "pyfloat \<Rightarrow> string" where
  "float_repr f =
     (case f of
        NotANumber \<Rightarrow> ''nan''
      | PosInf \<Rightarrow> ''inf''
      | NegInf \<Rightarrow> ''-inf''
      | Fin x \<Rightarrow>
          if x = 0 then ''0.0''
          else (let (m, e) = shortest_decimal \<bar>x\<bar>; ds = dec_int m in
                (if x < 0 then ''-'' else [])
                  @ format_float (strip_zeros ds) (e + int (length ds))))"

section \<open>Text\<close>

definition hex_digit :: "nat \<Rightarrow> char" where
  "hex_digit d = ''0123456789abcdef'' ! d"

definition repr_char :: "char \<Rightarrow> char \<Rightarrow> string" where
  "repr_char q c =
     (let n = code_of c in
      if c = q \<or> c = CHR 0x5C then [CHR 0x5C, c]
      else if n = 10 then [CHR 0x5C, CHR ''n'']
      else if n = 13 then [CHR 0x5C, CHR ''r'']
      else if n = 9 then [CHR 0x5C, CHR ''t'']
      else if n < 32 \<or> 127 \<le> n \<and> n \<le> 160 \<or> n = 173
           then [CHR 0x5C, CHR ''x'', hex_digit (n div 16), hex_digit (n mod 16)]
      else [c])"

definition repr_str :: "string \<Rightarrow> string" where
  "repr_str s =
     (let q = (if CHR 0x27 \<in> set s \<and> CHR 0x22 \<notin> set s then CHR 0x22 else CHR 0x27) in
      q # concat (map (repr_char q) s) @ [q])"

fun join :: "string \<Rightarrow> string list \<Rightarrow> string" where
  "join sep [] = []"
| "join sep [s] = s"
| "join sep (s # ss) = s @ sep @ join sep ss"

section \<open>Dates inside containers\<close>

definition repr_timedelta :: "int \<Rightarrow> string" where
  "repr_timedelta z =
     (let d = z div 86400000000; r = z mod 86400000000; s = r div 1000000; us = r mod 1000000 in
      ''datetime.timedelta(''
        @ join '', ''
            ((if d = 0 then [] else [''days='' @ dec_int d])
              @ (if s = 0 then [] else [''seconds='' @ dec_int s])
              @ (if us = 0 then [] else [''microseconds='' @ dec_int us]))
        @ '')'')"

definition repr_datetime :: "py_datetime \<Rightarrow> string" where
  "repr_datetime d =
     ''datetime.datetime(''
       @ join '', ''
           (map dec_int
              ([dt_year d, dt_month d, dt_day d, dt_hour d, dt_minute d]
                @ (if dt_second d = 0 \<and> dt_micro d = 0 then []
                   else if dt_micro d = 0 then [dt_second d] else [dt_second d, dt_micro d]))
             @ (case dt_offset d of
                  None \<Rightarrow> []
                | Some z \<Rightarrow>
                    [''tzinfo=datetime.timezone''
                       @ (if z = 0 then ''.utc'' else ''('' @ repr_timedelta z @ '')'')]))
       @ '')''"

section \<open>Any value\<close>

fun py_repr :: "pyval \<Rightarrow> string" where
  "py_repr PNone = ''None''"
| "py_repr (PBool b) = (if b then ''True'' else ''False'')"
| "py_repr (PInt n) = dec_int n"
| "py_repr (PFloat f) = float_repr f"
| "py_repr (PStr s) = repr_str s"
| "py_repr (PDt d) = repr_datetime d"
| "py_repr (PList xs) = ''['' @ join '', '' (map py_repr xs) @ '']''"
| "py_repr (PDict kvs) =
     ''{'' @ join '', '' (map (\<lambda>kv. repr_str (fst kv) @ '': '' @ py_repr (snd kv)) kvs) @ ''}''"

definition py_str :: "pyval \<Rightarrow> string" where
  "py_str v = (case v of PStr s \<Rightarrow> s | PDt d \<Rightarrow> isoformat_sep '' '' d | _ \<Rightarrow> py_repr v)"

lemma py_str_PStr [simp]: "py_str (PStr s) = s"
  by (simp add: py_str_def)

section \<open>Field readers\<close>

text \<open>\<^verbatim>\<open>str(v or "").strip()\<close>\<close>

definition clean :: "pyval \<Rightarrow> string" where
  "clean v = strip (py_str (if truthy v then v else PStr []))"

lemma clean_PStr [simp]: "clean (PStr s) = strip s"
  by (simp add: clean_def)

lemma clean_PNone [simp]: "clean PNone = []"
  by (simp add: clean_def)

lemma clean_names [simp]: "clean (PStr (clean v)) = clean v"
  by (simp add: clean_def)

text \<open>
  \<^verbatim>\<open>float(value)\<close> under \<^verbatim>\<open>except (TypeError, ValueError): return None\<close>, kept when finite. An
  integer past the double range raises OverflowError, which that handler does not catch.
\<close>

definition number :: "pyval \<Rightarrow> rat option res" where
  "number v =
     (case py_float v of
        Inl e \<Rightarrow> if e = TypeError \<or> e = ValueError then Inr None else Inl e
      | Inr (Fin x) \<Rightarrow> Inr (Some x)
      | Inr _ \<Rightarrow> Inr None)"

text \<open>The same with \<^verbatim>\<open>if isinstance(value, bool): return None\<close> in front.\<close>

definition number_strict :: "pyval \<Rightarrow> rat option res" where
  "number_strict v = (if is_bool v then Inr None else number v)"

lemma number_simps [simp]:
  "number (PFloat (Fin x)) = Inr (Some x)"
  "number (PFloat NotANumber) = Inr None"
  "number (PFloat PosInf) = Inr None"
  "number (PFloat NegInf) = Inr None"
  "number PNone = Inr None"
  "number (PBool b) = Inr (Some (if b then 1 else 0))"
  by (simp_all add: number_def)

lemma number_small_int [simp]: "\<bar>n\<bar> \<le> 2 ^ 53 \<Longrightarrow> number (PInt n) = Inr (Some (of_int n))"
  by (simp add: number_def)

lemma number_strict_simps [simp]:
  "number_strict (PFloat f) = number (PFloat f)"
  "number_strict (PInt n) = number (PInt n)"
  "number_strict (PStr s) = number (PStr s)"
  "number_strict PNone = Inr None"
  "number_strict (PBool b) = Inr None"
  by (simp_all add: number_strict_def)

lemma number_Inl: "number v = Inl e \<Longrightarrow> e = OverflowError \<and> (\<exists>n. v = PInt n \<and> 2 ^ 53 < \<bar>n\<bar>)"
  by (cases v)
    (auto simp: number_def py_float_def float_of_int_def split: pyfloat.splits option.splits if_splits)

text \<open>
  \<^verbatim>\<open>_dt\<close> without stripping (\<open>iso_time\<close>) and with \<^verbatim>\<open>raw = str(value or "").strip()\<close>
  (\<open>iso_time_stripped\<close>).
\<close>

definition parse_instant :: "string \<Rightarrow> py_datetime option" where
  "parse_instant s = map_option assume_utc (fromisoformat (replace_char (CHR ''Z'') ''+00:00'' s))"

definition iso_time :: "pyval \<Rightarrow> py_datetime option" where
  "iso_time v = (if truthy v then parse_instant (py_str v) else None)"

definition iso_time_stripped :: "pyval \<Rightarrow> py_datetime option" where
  "iso_time_stripped v = (let raw = clean v in if raw = [] then None else parse_instant raw)"

section \<open>Instants read back\<close>

text \<open>The characters of an ISO instant: none is a space, none is a \<open>Z\<close>.\<close>

definition iso_char :: "char \<Rightarrow> bool" where
  "iso_char c \<longleftrightarrow> is_digit c \<or> c \<in> set ''-+:.T''"

lemma iso_char_plain: "iso_char c \<Longrightarrow> \<not> is_space c \<and> c \<noteq> CHR ''Z''"
  by (auto simp: iso_char_def is_digit_def is_space_def code_of_def)

lemma pad_iso: "list_all iso_char (pad w n)"
proof -
  have "is_digit (CHR ''0'')" by (simp add: is_digit_def code_of_def)
  then show ?thesis using dec_nat_digits [of n]
    by (auto simp: pad_def iso_char_def list_all_iff)
qed

lemma format_iso: "list_all iso_char (format_time h m s us short)"
  using pad_iso by (auto simp: format_time_def pad2_def iso_char_def)

lemma isoformat_iso: "list_all iso_char (isoformat d)"
proof -
  have "list_all iso_char (format_offset z)" for z
    using format_iso by (auto simp: format_offset_def Let_def iso_char_def)
  then show ?thesis
    using pad_iso format_iso
    by (auto simp: isoformat_def isoformat_sep_def pad2_def iso_char_def split: option.splits)
qed

lemma replace_char_id: "c \<notin> set s \<Longrightarrow> replace_char c t s = s"
  by (induction s) (auto simp: replace_char_def)

lemma strip_isoformat [simp]: "strip (isoformat d) = isoformat d"
proof (rule strip_id, rule impI)
  assume "isoformat d \<noteq> []"
  then show "\<not> is_space (hd (isoformat d)) \<and> \<not> is_space (last (isoformat d))"
    using isoformat_iso [of d] iso_char_plain by (auto simp: list_all_iff)
qed

lemma isoformat_nonempty [simp]: "isoformat d \<noteq> []"
  by (simp add: isoformat_def isoformat_sep_def)

lemma parse_instant_isoformat:
  "valid_datetime d \<Longrightarrow> dt_offset d \<noteq> None \<Longrightarrow> parse_instant (isoformat d) = Some d"
proof -
  assume v: "valid_datetime d" "dt_offset d \<noteq> None"
  have "CHR ''Z'' \<notin> set (isoformat d)"
    using isoformat_iso [of d] iso_char_plain by (auto simp: list_all_iff)
  with v show ?thesis
    by (auto simp: parse_instant_def replace_char_id fromisoformat_isoformat assume_utc_def)
qed

lemma parse_instant_valid:
  assumes "parse_instant s = Some d"
  shows "valid_datetime d \<and> dt_offset d \<noteq> None"
proof -
  obtain d0 where "fromisoformat (replace_char (CHR ''Z'') ''+00:00'' s) = Some d0" "d = assume_utc d0"
    using assms by (auto simp: parse_instant_def)
  with fromisoformat_valid show ?thesis
    by (cases "dt_offset d0") (fastforce simp: assume_utc_def valid_datetime_def)+
qed

lemma iso_time_valid: "iso_time v = Some d \<Longrightarrow> valid_datetime d \<and> dt_offset d \<noteq> None"
  using parse_instant_valid by (simp add: iso_time_def split: if_splits)

text \<open>An instant that was read and written again is read back as the same value.\<close>

lemma iso_time_roundtrip:
  "iso_time v = Some d \<Longrightarrow> iso_time_stripped (PStr (isoformat d)) = Some d"
  using iso_time_valid [of v d] by (simp add: iso_time_stripped_def Let_def parse_instant_isoformat)

section \<open>Integers past the double range\<close>

lemma nbits_bounds: "0 < n \<Longrightarrow> 0 < nbits n \<and> 2 ^ (nbits n - 1) \<le> n"
proof (induction n rule: nbits.induct)
  case (1 n)
  show ?case
  proof (cases "n div 2 = 0")
    case True
    with 1(2) have "n = 1" by simp
    then show ?thesis by (simp add: nbits.simps)
  next
    case False
    with 1 have ih: "0 < nbits (n div 2)" "2 ^ (nbits (n div 2) - 1) \<le> n div 2" by auto
    then have "2 ^ nbits (n div 2) \<le> 2 * (n div 2)"
      by (cases "nbits (n div 2)") simp_all
    then have "2 ^ nbits (n div 2) \<le> n" by linarith
    with 1(2) show ?thesis by (subst (1 2) nbits.simps) simp
  qed
qed

lemma pow2_pos: "0 < pow2 e"
  by (simp add: pow2_def)

lemma pow2_add: "pow2 (a + b) = pow2 a * pow2 b"
  by (simp add: pow2_def power_add nat_add_distrib divide_simps flip: power_add)
     (auto simp: nat_add_distrib nat_diff_distrib power_add)

lemma round_even_ge: "of_int m \<le> x \<Longrightarrow> m \<le> round_even x"
proof -
  assume "of_int m \<le> x"
  then have "m \<le> \<lfloor>x\<rfloor>" by (simp add: le_floor_iff)
  then show ?thesis by (auto simp: round_even_def Let_def)
qed

lemma ulp_exp_of_int:
  assumes "0 < n"
  shows "\<exists>e. ulp_exp (of_int n) = e \<and> pow2 (e + 52) \<le> of_int n"
proof -
  let ?k = "nbits (nat n)"
  have k: "0 < ?k" "2 ^ (?k - 1) \<le> nat n" using nbits_bounds [of "nat n"] assms by auto
  have one: "nbits (Suc 0) = 1" by (simp add: nbits.simps)
  have q: "quotient_of (of_int n) = (n, 1)"
    using quotient_of_int [of n] by (simp add: Rat.of_int_def)
  have p: "pow2 (int ?k - 1) \<le> of_int n"
  proof -
    have "(2::int) ^ (?k - 1) \<le> n" using k(2) assms by (metis nat_eq_iff2 of_nat_le_iff of_nat_numeral of_nat_power zless_nat_conj order_less_imp_le)
    then have "(2::rat) ^ (?k - 1) \<le> of_int n" by (metis of_int_le_iff of_int_numeral of_int_power)
    moreover have "pow2 (int ?k - 1) = 2 ^ (?k - 1)" using k(1) by (simp add: pow2_def nat_diff_distrib)
    ultimately show ?thesis by simp
  qed
  have low: "\<not> of_int n < pow2 (int ?k - 1 - 53 + 52)"
  proof -
    have "pow2 (int ?k - 1 - 53 + 52) \<le> pow2 (int ?k - 1)"
      using pow2_add [of "int ?k - 2" 1] pow2_pos [of "int ?k - 2"] by (simp add: pow2_def [of 1])
    with p show ?thesis by linarith
  qed
  have "ulp_exp (of_int n) = max (- 1074) (int ?k - 53)"
    using low p by (simp add: ulp_exp_def q one Let_def)
  moreover have "- 1074 \<le> int ?k - 53" by simp
  ultimately have "ulp_exp (of_int n) = int ?k - 53" by simp
  with p show ?thesis by simp
qed

lemma float_of_huge:
  assumes "2 ^ 1024 \<le> n"
  shows "float_of_int n = Inl OverflowError"
proof -
  have pos: "0 < n" using assms by (rule less_le_trans [rotated]) simp
  obtain e where e: "ulp_exp (of_int n) = e" "pow2 (e + 52) \<le> of_int n"
    using ulp_exp_of_int [OF pos] by blast
  have "\<not> n \<le> 2 ^ 53"
  proof -
    have "(2::int) ^ 53 < 2 ^ 1024" by (rule power_strict_increasing) simp_all
    with assms show ?thesis by linarith
  qed
  have x: "pow2 1024 \<le> of_int n"
  proof -
    have "(of_int (2 ^ 1024) :: rat) \<le> of_int n" using assms by (simp only: of_int_le_iff)
    moreover have "pow2 1024 = of_int (2 ^ 1024)" by (simp only: pow2_def of_int_power of_int_numeral) simp
    ultimately show ?thesis by simp
  qed
  have big: "pow2 1024 \<le> of_int (round_even (of_int n / pow2 e)) * pow2 e"
    if "pow2 1024 \<le> pow2 (int k + e)" "pow2 (int k + e) \<le> of_int n" for k
  proof -
    have "of_int (2 ^ k) \<le> of_int n / pow2 e"
      using that(2) pow2_pos [of e] by (simp add: pow2_add pos_le_divide_eq) (simp add: pow2_def)
    then have "2 ^ k \<le> round_even (of_int n / pow2 e)" by (rule round_even_ge)
    then have "(of_int (2 ^ k) :: rat) \<le> of_int (round_even (of_int n / pow2 e))" by (simp only: of_int_le_iff)
    then have "of_int (2 ^ k) * pow2 e \<le> of_int (round_even (of_int n / pow2 e)) * pow2 e"
      using pow2_pos [of e] by (simp add: mult_right_mono)
    moreover have "of_int (2 ^ k) * pow2 e = pow2 (int k + e)" by (simp add: pow2_add) (simp add: pow2_def)
    ultimately show ?thesis using that(1) by linarith
  qed
  have "pow2 1024 \<le> of_int (round_even (of_int n / pow2 e)) * pow2 e"
  proof (cases "e \<le> 1024")
    case True
    then have "int (nat (1024 - e)) + e = 1024" by simp
    with big [of "nat (1024 - e)"] x show ?thesis by simp
  next
    case False
    have "pow2 (int 52 + e) = pow2 1024 * pow2 (e - 972)" using pow2_add [of 1024 "e - 972"] by (simp add: add.commute)
    moreover have "1 \<le> pow2 (e - 972)" using False by (simp add: pow2_def)
    ultimately have "pow2 1024 \<le> pow2 (int 52 + e)" using pow2_pos [of 1024] by simp
    with big [of 52] e(2) show ?thesis by (simp add: add.commute)
  qed
  then have "round_pos (of_int n) = None"
    using pow2_def [of 1024] by (simp add: round_pos_def Let_def e(1))
  then show ?thesis
    using \<open>\<not> n \<le> 2 ^ 53\<close> pos by (simp add: float_of_int_def round_double_def)
qed

lemma number_of_huge: "2 ^ 1024 \<le> n \<Longrightarrow> number (PInt n) = Inl OverflowError"
  by (simp add: number_def py_float_def float_of_huge)

section \<open>Rounding keeps an integer bound\<close>

lemma nbits_upper: "n < 2 ^ nbits n"
proof (induction n rule: nbits.induct)
  case (1 n)
  show ?case
  proof (cases "n = 0")
    case False
    then have "n div 2 < 2 ^ nbits (n div 2)" using 1 by simp
    then have "n < 2 * 2 ^ nbits (n div 2)" by linarith
    then show ?thesis using False by (subst nbits.simps) simp
  qed (simp add: nbits.simps)
qed

lemma pow2_nat: "pow2 (int k) = of_nat (2 ^ k)"
  by (simp add: pow2_def)

lemma pow2_mono: "a \<le> b \<Longrightarrow> pow2 a \<le> pow2 b"
proof -
  assume "a \<le> b"
  then have "1 \<le> pow2 (b - a)" by (simp add: pow2_def)
  moreover have "pow2 b = pow2 a * pow2 (b - a)" using pow2_add [of a "b - a"] by simp
  ultimately show "pow2 a \<le> pow2 b" using pow2_pos [of a] by simp
qed

lemma ulp_exp_low:
  assumes "0 < x"
  shows "ulp_exp x = - 1074 \<or> pow2 (ulp_exp x + 52) \<le> x"
proof -
  obtain n d where q: "quotient_of x = (n, d)" by (cases "quotient_of x")
  then have d: "0 < d" and x: "x = of_int n / of_int d" by (auto dest: quotient_of_denom_pos quotient_of_div)
  have n: "0 < n" using assms d unfolding x by (simp add: zero_less_divide_iff)
  let ?k = "nbits (nat n)" and ?l = "nbits (nat d)"
  let ?e = "int ?k - int ?l - 53"
  have k: "0 < ?k" "2 ^ (?k - 1) \<le> nat n" using nbits_bounds [of "nat n"] n by auto
  have "pow2 (int (?k - 1)) \<le> of_nat (nat n)" unfolding pow2_nat using k(2) by (simp only: of_nat_le_iff)
  then have a: "pow2 (int ?k - 1) \<le> of_int n" using n k(1) by (simp add: of_nat_diff)
  have "of_nat (nat d) \<le> pow2 (int ?l)" unfolding pow2_nat using nbits_upper [of "nat d"] by (simp only: of_nat_le_iff)
  then have b: "of_int d \<le> pow2 (int ?l)" using d by simp
  have "pow2 (?e + 52) * of_int d \<le> pow2 (?e + 52) * pow2 (int ?l)"
    using b pow2_pos [of "?e + 52"] by simp
  also have "\<dots> = pow2 (int ?k - 1)" by (simp flip: pow2_add)
  finally have low: "pow2 (?e + 52) \<le> x" using a d unfolding x by (simp add: pos_le_divide_eq)
  have "ulp_exp x = max (- 1074) (if pow2 (?e + 53) \<le> x then ?e + 1 else ?e)"
    using low by (simp add: ulp_exp_def q Let_def)
  then show ?thesis using low by (auto simp: max_def add.commute split: if_splits)
qed

lemma round_double_ge:
  assumes "0 < m" "m \<le> 2 ^ 53" "of_int m \<le> x" "round_double x = Some y"
  shows "of_int m \<le> y"
proof -
  have "0 < (of_int m :: rat)" using assms(1) by simp
  then have pos: "0 < x" using assms(3) by (rule less_le_trans)
  let ?e = "ulp_exp x"
  have y: "y = of_int (round_even (x / pow2 ?e)) * pow2 ?e"
    using assms(4) pos by (simp add: round_double_def round_pos_def Let_def split: if_splits)
  have bound: "of_int m \<le> y" if "of_int j * pow2 ?e \<le> x" "of_int m \<le> of_int j * pow2 ?e" for j
  proof -
    have "of_int j \<le> x / pow2 ?e" using that(1) pow2_pos [of ?e] by (simp add: pos_le_divide_eq)
    then have "j \<le> round_even (x / pow2 ?e)" by (rule round_even_ge)
    then have "of_int j * pow2 ?e \<le> y" unfolding y using pow2_pos [of ?e] by simp
    with that(2) show ?thesis by linarith
  qed
  show ?thesis
  proof (cases "?e \<le> 0")
    case True
    then have "pow2 (- ?e) * pow2 ?e = 1" by (simp add: pow2_def flip: pow2_add)
    moreover have "pow2 (- ?e) = 2 ^ nat (- ?e)" using True by (simp add: pow2_def)
    ultimately have "2 ^ nat (- ?e) * pow2 ?e = 1" by simp
    with bound [of "m * 2 ^ nat (- ?e)"] assms(3) show ?thesis by (simp add: mult.assoc)
  next
    case False
    then have "pow2 (?e + 52) \<le> x" using ulp_exp_low [OF pos] by auto
    then have fit: "of_int (2 ^ 52) * pow2 ?e \<le> x" by (simp add: pow2_add mult.commute) (simp add: pow2_def)
    have "of_int m \<le> (of_int (2 ^ 53) :: rat)" using assms(2) by (simp only: of_int_le_iff)
    also have "\<dots> = of_int (2 ^ 52) * pow2 1" by (simp add: pow2_def)
    also have "\<dots> \<le> of_int (2 ^ 52) * pow2 ?e" using False pow2_mono [of 1 ?e] by simp
    finally show ?thesis using bound [of "2 ^ 52"] fit by blast
  qed
qed

end
