(* ===== verification/Fail_Closed.thy ===== *)
theory Fail_Closed
  imports Py_Repr
begin

text \<open>
  The contract every release and canary evaluator has: malformed or authority claiming evidence is
  turned away first, then the evidence is read and the missing pieces named, then the observed
  failures are named, and only an empty list of either gives the good verdict. The locale states
  that shape once; each evaluator interprets it on its own phases.
\<close>

section \<open>The shape of a fail closed evaluator\<close>

text \<open>
  \<open>screen\<close> is the early return on malformed or contaminated inputs; \<open>collect\<close> reads the
  evidence and may raise; \<open>result_key\<close> is the key of the verdict and \<open>good\<close> its passing value.
\<close>

locale fail_closed =
  fixes evaluate :: "'i \<Rightarrow> pyval res"
    and screen :: "'i \<Rightarrow> pyval option"
    and collect :: "'i \<Rightarrow> (string list \<times> 'n) res"
    and blockers :: "'i \<Rightarrow> 'n \<Rightarrow> string list"
    and unknown :: "'i \<Rightarrow> 'n \<Rightarrow> string list \<Rightarrow> pyval"
    and blocked :: "'i \<Rightarrow> 'n \<Rightarrow> string list \<Rightarrow> pyval"
    and passed :: "'i \<Rightarrow> 'n \<Rightarrow> pyval"
    and result_key :: string
    and good :: string
  assumes evaluate_eq:
      "evaluate i =
         (case screen i of
            Some r \<Rightarrow> Inr r
          | None \<Rightarrow> bindE (collect i) (\<lambda>(missing, n).
              Inr (if missing \<noteq> [] then unknown i n missing
                   else if blockers i n \<noteq> [] then blocked i n (blockers i n)
                   else passed i n)))"
    and screen_verdict: "screen i = Some r \<Longrightarrow> pget r result_key = PStr ''UNKNOWN''"
    and unknown_verdict: "pget (unknown i n ms) result_key = PStr ''UNKNOWN''"
    and blocked_verdict:
      "blockers i n \<noteq> [] \<Longrightarrow> pget (blocked i n (blockers i n)) result_key = PStr ''BLOCKED''"
    and passed_verdict: "blockers i n = [] \<Longrightarrow> pget (passed i n) result_key = PStr good"
    and good_differs: "good \<noteq> ''UNKNOWN''" "good \<noteq> ''BLOCKED''"
begin

definition verdict :: "'i \<Rightarrow> string \<Rightarrow> bool" where
  "verdict i v \<longleftrightarrow> (\<exists>r. evaluate i = Inr r \<and> pget r result_key = PStr v)"

lemma evaluate_cases:
  obtains (error) e where "screen i = None" "collect i = Inl e" "evaluate i = Inl e"
  | (screened) r where "screen i = Some r" "evaluate i = Inr r"
  | (missing) ms n where "screen i = None" "collect i = Inr (ms, n)" "ms \<noteq> []"
      "evaluate i = Inr (unknown i n ms)"
  | (blocked) n where "screen i = None" "collect i = Inr ([], n)" "blockers i n \<noteq> []"
      "evaluate i = Inr (blocked i n (blockers i n))"
  | (passed) n where "screen i = None" "collect i = Inr ([], n)" "blockers i n = []"
      "evaluate i = Inr (passed i n)"
proof (cases "screen i")
  case (Some r)
  then show ?thesis using screened evaluate_eq [of i] by simp
next
  case None
  note s = this
  show ?thesis
  proof (cases "collect i")
    case (Inl e)
    then show ?thesis using s error evaluate_eq [of i] by simp
  next
    case (Inr p)
    obtain ms n where p: "p = (ms, n)" by (cases p)
    then show ?thesis
      using s Inr missing blocked passed evaluate_eq [of i]
      by (cases "ms = []"; cases "blockers i n = []") auto
  qed
qed

text \<open>The good verdict is given exactly when nothing is missing and nothing blocks.\<close>

lemma pass_iff:
  "verdict i good \<longleftrightarrow> screen i = None \<and> (\<exists>n. collect i = Inr ([], n) \<and> blockers i n = [])"
  by (cases i rule: evaluate_cases)
    (auto simp: verdict_def screen_verdict unknown_verdict blocked_verdict passed_verdict
      good_differs good_differs [symmetric])

lemma blocked_iff:
  "verdict i ''BLOCKED'' \<longleftrightarrow>
     screen i = None \<and> (\<exists>n. collect i = Inr ([], n) \<and> blockers i n \<noteq> [])"
  by (cases i rule: evaluate_cases)
    (auto simp: verdict_def screen_verdict unknown_verdict blocked_verdict passed_verdict good_differs)

lemma unknown_iff:
  "verdict i ''UNKNOWN'' \<longleftrightarrow>
     screen i \<noteq> None \<or> (\<exists>ms n. collect i = Inr (ms, n) \<and> ms \<noteq> [])"
  by (cases i rule: evaluate_cases)
    (auto simp: verdict_def screen_verdict unknown_verdict blocked_verdict passed_verdict good_differs)

text \<open>Every call that returns gives one of the three verdicts.\<close>

lemma trichotomy:
  "evaluate i = Inr r \<Longrightarrow> pget r result_key \<in> {PStr ''UNKNOWN'', PStr ''BLOCKED'', PStr good}"
  by (cases i rule: evaluate_cases)
    (auto simp: screen_verdict unknown_verdict blocked_verdict passed_verdict)

lemma raises_iff: "evaluate i = Inl e \<longleftrightarrow> screen i = None \<and> collect i = Inl e"
  by (cases i rule: evaluate_cases) auto

lemma pass_result:
  assumes "evaluate i = Inr r" and "pget r result_key = PStr good"
  obtains n where "screen i = None" "collect i = Inr ([], n)" "blockers i n = []" "r = passed i n"
  using assms
  by (cases i rule: evaluate_cases)
    (auto simp: screen_verdict unknown_verdict blocked_verdict passed_verdict good_differs
      good_differs [symmetric])

end

section \<open>Outputs without authority\<close>

text \<open>
  Each output ends in its module's authority table, so a later stage that screens its inputs for
  claims of authority never turns an earlier stage's output away.
\<close>

locale non_authoritative =
  fixes emits :: "'i \<Rightarrow> pyval res"
    and powers :: "string list"
  assumes no_power: "emits i = Inr r \<Longrightarrow> k \<in> set powers \<Longrightarrow> \<not> is_true (pget r k)"
begin

lemma never_claims: "emits i = Inr r \<Longrightarrow> \<not> claims powers r"
  using no_power by (auto simp: claims_def list_ex_iff)

lemma never_claims_subset: "emits i = Inr r \<Longrightarrow> set ks \<subseteq> set powers \<Longrightarrow> \<not> claims ks r"
  using no_power by (auto simp: claims_def list_ex_iff)

end

section \<open>The early return\<close>

text \<open>
  Inputs that are not dictionaries come back as \<open><name>_evidence\<close>; inputs that claim one of the
  powers come back under \<open>reason\<close>, with their names under \<open>key\<close>.
\<close>

definition screen_inputs ::
  "string list \<Rightarrow> (string list \<Rightarrow> pydict \<Rightarrow> pyval) \<Rightarrow> string \<Rightarrow> string \<Rightarrow> pydict \<Rightarrow> pydict \<Rightarrow> pyval option"
  where
  "screen_inputs powers unknown reason key extra inputs =
    (let malformed = offenders (\<lambda>v. \<not> is_dict v) inputs;
         contaminated = offenders (claims powers) inputs
     in if malformed \<noteq> [] then Some (unknown (map (\<lambda>n. n @ ''_evidence'') malformed) extra)
        else if contaminated \<noteq> []
             then Some (unknown [reason] ((key, names contaminated) # extra))
        else None)"

lemma screen_inputs_None:
  "screen_inputs powers unknown reason key extra inputs = None \<longleftrightarrow>
     (\<forall>(n, v) \<in> set inputs. is_dict v \<and> \<not> claims powers v)"
  by (auto simp: screen_inputs_def Let_def offenders_Nil split: if_splits)

lemma screen_inputs_Some:
  assumes "screen_inputs powers unknown reason key extra inputs = Some r"
  obtains ms where "r = unknown ms extra"
  | xs where "r = unknown [reason] ((key, names xs) # extra)"
  using assms by (auto simp: screen_inputs_def Let_def split: if_splits)

section \<open>Comparing optional numbers\<close>

text \<open>
  After the missing evidence has been ruled out each number is there; the comparisons below are
  only reached then.
\<close>

fun above :: "rat option \<Rightarrow> rat option \<Rightarrow> bool" where
  "above (Some x) (Some y) = (y < x)"
| "above _ _ = False"

fun at_least :: "rat option \<Rightarrow> rat option \<Rightarrow> bool" where
  "at_least (Some x) (Some y) = (y \<le> x)"
| "at_least _ _ = False"

text \<open>\<^verbatim>\<open>not (x is None or x <= 0)\<close>, \<^verbatim>\<open>not (x is None or x < 0)\<close>\<close>

fun positive :: "rat option \<Rightarrow> bool" where
  "positive (Some x) = (0 < x)"
| "positive None = False"

fun non_negative :: "rat option \<Rightarrow> bool" where
  "non_negative (Some x) = (0 \<le> x)"
| "non_negative None = False"

definition num_val :: "rat option \<Rightarrow> pyval" where
  "num_val x = (case x of Some q \<Rightarrow> PFloat (Fin q) | None \<Rightarrow> PNone)"

lemma num_val_Some [simp]: "num_val (Some q) = PFloat (Fin q)"
  by (simp add: num_val_def)

lemma positive_iff: "positive x \<longleftrightarrow> (\<exists>q. x = Some q \<and> 0 < q)"
  by (cases x) auto

lemma non_negative_iff: "non_negative x \<longleftrightarrow> (\<exists>q. x = Some q \<and> 0 \<le> q)"
  by (cases x) auto

text \<open>\<^verbatim>\<open>x or None\<close> of a text.\<close>

definition or_none :: "string \<Rightarrow> pyval" where
  "or_none s = (if s = [] then PNone else PStr s)"

definition int_satisfies :: "(int \<Rightarrow> bool) \<Rightarrow> pyval \<Rightarrow> bool" where
  "int_satisfies p v = (case strict_int v of Some n \<Rightarrow> p n | None \<Rightarrow> False)"

lemma int_satisfies_iff: "int_satisfies p v \<longleftrightarrow> (\<exists>n. v = PInt n \<and> p n)"
  by (cases v) (auto simp: int_satisfies_def)

lemma int_satisfies_PInt [simp]: "int_satisfies p (PInt n) = p n"
  by (simp add: int_satisfies_def)

text \<open>\<^verbatim>\<open>key in d\<close> for a dictionary value.\<close>

definition present :: "pyval \<Rightarrow> string \<Rightarrow> bool" where
  "present v k = (case v of PDict d \<Rightarrow> has_key d k | _ \<Rightarrow> False)"

lemma present_PDict [simp]: "present (PDict d) k = has_key d k"
  by (simp add: present_def)

section \<open>The hard cap\<close>

text \<open>\<^verbatim>\<open>MAX_CANARY_NOTIONAL_USD\<close>, the same in every module of the canary path.\<close>

definition max_canary_notional :: rat where
  "max_canary_notional = 20"

end
