(* ===== verification/Release_Gate.thy ===== *)
theory Release_Gate
  imports Fail_Closed
begin

text \<open>
  The release gate aggregator (\<^verbatim>\<open>release_gate_aggregator.py\<close>): five evidence dictionaries and a
  policy version in, one fail closed verdict out.
\<close>

definition rg_authority :: pydict where
  "rg_authority =
    [(''interpretation'', PStr ''RELEASE_GATE_EVIDENCE_AGGREGATION_ONLY''),
     (''live_execution'', PBool False),
     (''trading_authority'', PBool False),
     (''trade_signal'', PBool False),
     (''recommendation_authority'', PBool False),
     (''automatic_canary_activation'', PBool False),
     (''release_evidence_only'', PBool True)]"

definition rg_unknown :: "string list \<Rightarrow> pydict \<Rightarrow> pyval" where
  "rg_unknown missing extra = PDict (dict_of (
    [(''status'', PStr ''UNKNOWN''),
     (''release_gate_result'', PStr ''UNKNOWN''),
     (''eligible_for_isolated_canary_review'', PBool False),
     (''live_canary_unlocked'', PBool False),
     (''missing'', names (fromkeys missing))] @ extra @ rg_authority))"

definition rg_powers :: "string list" where
  "rg_powers = [''live_execution'', ''trading_authority'', ''trade_signal'', ''recommendation_authority'']"

record release_evidence =
  re_corpus :: pyval
  re_calibration :: pyval
  re_walk_forward :: pyval
  re_infrastructure :: pyval
  re_safety :: pyval
  re_policy_version :: pyval

definition rg_inputs :: "release_evidence \<Rightarrow> pydict" where
  "rg_inputs i =
    [(''corpus'', re_corpus i),
     (''calibration'', re_calibration i),
     (''walk_forward'', re_walk_forward i),
     (''infrastructure'', re_infrastructure i),
     (''safety'', re_safety i)]"

definition rg_screen :: "release_evidence \<Rightarrow> pyval option" where
  "rg_screen i =
    (let version = clean (re_policy_version i) in
     if version = [] then Some (rg_unknown [''release_policy_version''] [])
     else screen_inputs rg_powers rg_unknown ''non_authoritative_release_evidence''
            ''authority_contamination'' [(''policy_version'', PStr version)] (rg_inputs i))"

definition rg_collect :: "release_evidence \<Rightarrow> (string list \<times> unit) res" where
  "rg_collect i =
    (let corpus = pget (re_corpus i); calibration = pget (re_calibration i);
         walk_forward = pget (re_walk_forward i); infrastructure = pget (re_infrastructure i);
         safety = pget (re_safety i)
     in bindE (in_str_set (infrastructure ''status'') [''HEALTHY'', ''OBSERVED'']) (\<lambda>healthy.
        Inr
         (need (eq_str (corpus ''status'') ''OBSERVED'') ''observed_representative_corpus''
          @ need (is_true (corpus ''representative'')) ''representative_corpus''
          @ need (int_satisfies (\<lambda>n. 0 < n) (corpus ''sample_count'')) ''positive_corpus_sample_count''
          @ need (corpus ''as_of'' = PNone \<or> is_true (corpus ''temporal_cutoff_enforced''))
                 ''corpus_temporal_cutoff''
          @ need (eq_str (calibration ''status'') ''CALIBRATED_EMPIRICAL'')
                 ''calibrated_empirical_probability_evidence''
          @ need (truthy (calibration ''calibrated_horizons'')) ''calibrated_horizons''
          @ need (is_false (calibration ''future_evidence_used_in_t0_decisions''))
                 ''calibration_future_evidence_excluded''
          @ need (eq_str (walk_forward ''status'') ''OBSERVED'') ''observed_walk_forward_validation''
          @ need (is_false (walk_forward ''live_canary_unlocked''))
                 ''walk_forward_does_not_unlock_live_canary''
          @ need healthy ''observed_infrastructure_health''
          @ need (is_true (infrastructure ''critical_services_healthy'')) ''critical_services_healthy''
          @ need (eq_int (infrastructure ''unresolved_critical_incidents'') 0)
                 ''zero_unresolved_critical_incidents''
          @ need (eq_str (safety ''status'') ''OBSERVED'') ''observed_safety_evidence''
          @ need (is_true (safety ''safety_checks_complete'')) ''completed_safety_checks''
          @ need (is_list (safety ''unresolved_safety_failures'')) ''unresolved_safety_failures_list'',
          ())))"

definition rg_blockers :: "release_evidence \<Rightarrow> unit \<Rightarrow> string list" where
  "rg_blockers i _ =
     need (is_true (pget (re_walk_forward i) ''release_gate_passed'')
           \<and> eq_str (pget (re_walk_forward i) ''release_gate_result'') ''PASS'')
          ''walk_forward_expectancy_after_costs''
     @ need (\<not> truthy (pget (re_safety i) ''unresolved_safety_failures'')) ''unresolved_safety_failures''"

definition rg_checks :: "string list \<Rightarrow> (string \<times> bool) list" where
  "rg_checks blockers =
    [(''representative_corpus'', True),
     (''calibrated_empirical_probabilities'', True),
     (''walk_forward_expectancy_after_costs'', ''walk_forward_expectancy_after_costs'' \<notin> set blockers),
     (''critical_infrastructure_healthy'', True),
     (''no_unresolved_critical_incidents'', True),
     (''no_unresolved_safety_failures'', ''unresolved_safety_failures'' \<notin> set blockers)]"

text \<open>The final dictionary, blocked or passed: the verdict is \<^verbatim>\<open>all(checks.values())\<close>.\<close>

definition rg_result :: "release_evidence \<Rightarrow> string list \<Rightarrow> pyval" where
  "rg_result i blockers =
    (let checks = rg_checks blockers; passed = list_all snd checks in
     PDict (dict_of (
      [(''status'', PStr ''OBSERVED''),
       (''release_gate_result'', PStr (if passed then ''PASS'' else ''BLOCKED'')),
       (''eligible_for_isolated_canary_review'', PBool passed),
       (''live_canary_unlocked'', PBool False),
       (''automatic_canary_activation'', PBool False),
       (''checks'', PDict (map (\<lambda>(k, b). (k, PBool b)) checks)),
       (''blockers'', names blockers),
       (''policy_version'', PStr (clean (re_policy_version i))),
       (''evidence'', PDict (rg_inputs i)),
       (''next_step'', PStr (if passed then ''HUMAN_RELEASE_REVIEW_FOR_ISOLATED_CANARY''
                             else ''REMAIN_PAPER_ONLY''))] @ rg_authority)))"

definition evaluate_release_gate :: "release_evidence \<Rightarrow> pyval res" where
  "evaluate_release_gate i =
    (case rg_screen i of
       Some r \<Rightarrow> Inr r
     | None \<Rightarrow> bindE (rg_collect i) (\<lambda>(missing, n).
         if missing \<noteq> []
         then Inr (rg_unknown missing [(''policy_version'', PStr (clean (re_policy_version i)))])
         else Inr (rg_result i (rg_blockers i n))))"

lemma rg_blockers_subset:
  "set (rg_blockers i n) \<subseteq> {''walk_forward_expectancy_after_costs'', ''unresolved_safety_failures''}"
  by (auto simp: rg_blockers_def need_def)

lemma rg_checks_passed:
  "set bs \<subseteq> {''walk_forward_expectancy_after_costs'', ''unresolved_safety_failures''} \<Longrightarrow>
     list_all snd (rg_checks bs) \<longleftrightarrow> bs = []"
  by (cases bs) (auto simp: rg_checks_def)

lemma rg_checks_Nil [simp]: "list_all snd (rg_checks [])"
  by (simp add: rg_checks_def)

text \<open>The verdict each of the two outputs carries.\<close>

lemma rg_unknown_verdict [simp]:
  "pget (rg_unknown ms [(''policy_version'', v)]) ''release_gate_result'' = PStr ''UNKNOWN''"
  "pget (rg_unknown ms []) ''release_gate_result'' = PStr ''UNKNOWN''"
  "pget (rg_unknown ms [(''authority_contamination'', c), (''policy_version'', v)])
     ''release_gate_result'' = PStr ''UNKNOWN''"
  by (simp_all add: rg_unknown_def rg_authority_def dget_dlast)

lemma rg_result_verdict:
  "pget (rg_result i bs) ''release_gate_result''
    = PStr (if list_all snd (rg_checks bs) then ''PASS'' else ''BLOCKED'')"
  by (simp add: rg_result_def rg_authority_def dget_dlast Let_def)

interpretation rg: fail_closed evaluate_release_gate rg_screen rg_collect rg_blockers
  "\<lambda>i n ms. rg_unknown ms [(''policy_version'', PStr (clean (re_policy_version i)))]"
  "\<lambda>i n bs. rg_result i bs" "\<lambda>i n. rg_result i (rg_blockers i n)" "''release_gate_result''" "''PASS''"
proof unfold_locales
  show "evaluate_release_gate i =
     (case rg_screen i of Some r \<Rightarrow> Inr r
      | None \<Rightarrow> bindE (rg_collect i) (\<lambda>(missing, n).
          Inr (if missing \<noteq> []
               then rg_unknown missing [(''policy_version'', PStr (clean (re_policy_version i)))]
               else if rg_blockers i n \<noteq> [] then rg_result i (rg_blockers i n)
               else rg_result i (rg_blockers i n))))" for i
    by (auto simp: evaluate_release_gate_def split: option.splits intro!: arg_cong [where f = "bindE _"])
qed (auto simp: rg_screen_def Let_def rg_result_verdict rg_checks_passed [OF rg_blockers_subset]
      split: if_splits elim!: screen_inputs_Some)

end
