(* ===== verification/Canary_Authorization.thy ===== *)
theory Canary_Authorization
  imports Fail_Closed
begin

text \<open>
  The isolated canary authorization boundary (\<^verbatim>\<open>isolated_canary_authorization.py\<close>): a passed
  release gate, the canary controls, the infrastructure evidence and a human authorization.
\<close>

definition ca_authority :: pydict where
  "ca_authority =
    [(''interpretation'', PStr ''ISOLATED_CANARY_AUTHORIZATION_BOUNDARY_ONLY''),
     (''live_execution'', PBool False),
     (''trading_authority'', PBool False),
     (''trade_signal'', PBool False),
     (''recommendation_authority'', PBool False),
     (''order_submission_allowed'', PBool False),
     (''transaction_signing_allowed'', PBool False),
     (''rpc_contact_allowed'', PBool False),
     (''automatic_canary_activation'', PBool False)]"

definition ca_unknown :: "string list \<Rightarrow> pydict \<Rightarrow> pyval" where
  "ca_unknown missing extra = PDict (dict_of (
    [(''status'', PStr ''UNKNOWN''),
     (''canary_authorization_result'', PStr ''UNKNOWN''),
     (''canary_execution_eligible'', PBool False),
     (''missing'', names (fromkeys missing))] @ extra @ ca_authority))"

definition ca_blocked :: "string list \<Rightarrow> pydict \<Rightarrow> pyval" where
  "ca_blocked blockers extra = PDict (dict_of (
    [(''status'', PStr ''OBSERVED''),
     (''canary_authorization_result'', PStr ''BLOCKED''),
     (''canary_execution_eligible'', PBool False),
     (''blockers'', names (fromkeys blockers))] @ extra @ ca_authority))"

definition ca_powers :: "string list" where
  "ca_powers =
    [''live_execution'', ''trading_authority'', ''trade_signal'', ''recommendation_authority'',
     ''order_submission_allowed'', ''transaction_signing_allowed'', ''rpc_contact_allowed'',
     ''automatic_canary_activation'']"

record authorization_evidence =
  ae_release_gate :: pyval
  ae_controls :: pyval
  ae_infrastructure :: pyval
  ae_authorization :: pyval

definition ca_inputs :: "authorization_evidence \<Rightarrow> pydict" where
  "ca_inputs i =
    [(''release_gate'', ae_release_gate i),
     (''controls'', ae_controls i),
     (''infrastructure'', ae_infrastructure i),
     (''authorization'', ae_authorization i)]"

definition ca_screen :: "authorization_evidence \<Rightarrow> pyval option" where
  "ca_screen i =
     screen_inputs ca_powers ca_unknown ''non_authoritative_canary_evidence''
       ''authority_contamination'' [] (ca_inputs i)"

definition ca_control_keys :: "string list" where
  "ca_control_keys =
    [''isolated_funds'', ''isolated_account_or_wallet'', ''kill_switch_armed'', ''no_borrowing'',
     ''no_leverage'']"

text \<open>The evidence as read: the texts stripped, the numbers converted.\<close>

record authorization_reading =
  ar_policy_version :: string
  ar_notional :: "rat option"
  ar_loss_cap :: "rat option"
  ar_authorization_id :: string
  ar_authorized_at :: string
  ar_authorized_notional :: "rat option"
  ar_authorized_policy_version :: string

definition ca_collect :: "authorization_evidence \<Rightarrow> (string list \<times> authorization_reading) res" where
  "ca_collect i =
    (let release_gate = pget (ae_release_gate i); controls = pget (ae_controls i);
         infrastructure = pget (ae_infrastructure i); authorization = pget (ae_authorization i);
         policy_version = clean (release_gate ''policy_version'')
     in
     bindE (number (controls ''canary_notional_usd'')) (\<lambda>notional.
     bindE (number (controls ''max_loss_usd'')) (\<lambda>loss_cap.
     bindE (in_str_set (infrastructure ''status'') [''HEALTHY'', ''OBSERVED'']) (\<lambda>healthy.
     bindE (number (authorization ''authorized_notional_usd'')) (\<lambda>authorized_notional.
       Inr
        (need (eq_str (release_gate ''status'') ''OBSERVED'') ''observed_release_gate''
         @ need (is_false (release_gate ''live_canary_unlocked''))
                ''release_gate_does_not_unlock_live_canary''
         @ need (is_false (release_gate ''automatic_canary_activation''))
                ''release_gate_no_automatic_activation''
         @ need (policy_version \<noteq> []) ''release_policy_version''
         @ concat (map (\<lambda>k. need (present (ae_controls i) k) k) ca_control_keys)
         @ need (positive notional) ''valid_canary_notional_usd''
         @ need (positive loss_cap) ''valid_max_loss_usd''
         @ need (int_satisfies (\<lambda>n. 0 < n) (controls ''max_open_positions'')) ''valid_max_open_positions''
         @ need healthy ''observed_canary_infrastructure''
         @ need (present (ae_infrastructure i) ''critical_services_healthy'')
                ''critical_services_healthy_evidence''
         @ need (present (ae_infrastructure i) ''unresolved_critical_incidents'')
                ''unresolved_critical_incidents_evidence''
         @ need (is_true (infrastructure ''revalidated_for_canary'')) ''canary_infrastructure_revalidation''
         @ need (clean (infrastructure ''checked_at'') \<noteq> []) ''canary_infrastructure_checked_at''
         @ need (present (ae_authorization i) ''human_authorized'') ''human_authorized_evidence''
         @ need (clean (authorization ''authorization_id'') \<noteq> []) ''authorization_id''
         @ need (clean (authorization ''authorized_at'') \<noteq> []) ''authorized_at''
         @ need (positive authorized_notional) ''valid_authorized_notional_usd''
         @ need (clean (authorization ''policy_version'') \<noteq> []) ''authorized_policy_version'',
         \<lparr>ar_policy_version = policy_version,
          ar_notional = notional,
          ar_loss_cap = loss_cap,
          ar_authorization_id = clean (authorization ''authorization_id''),
          ar_authorized_at = clean (authorization ''authorized_at''),
          ar_authorized_notional = authorized_notional,
          ar_authorized_policy_version = clean (authorization ''policy_version'')\<rparr>))))))"

definition ca_blockers :: "authorization_evidence \<Rightarrow> authorization_reading \<Rightarrow> string list" where
  "ca_blockers i n =
    (let release_gate = pget (ae_release_gate i); controls = pget (ae_controls i);
         infrastructure = pget (ae_infrastructure i); authorization = pget (ae_authorization i)
     in
       need (eq_str (release_gate ''release_gate_result'') ''PASS''
             \<and> is_true (release_gate ''eligible_for_isolated_canary_review'')) ''release_gate_not_passed''
     @ need (\<not> above (ar_notional n) (Some max_canary_notional)) ''canary_notional_exceeds_20_usd''
     @ need (\<not> above (ar_loss_cap n) (ar_notional n)) ''loss_cap_exceeds_canary_notional''
     @ need (eq_int (controls ''max_open_positions'') 1) ''single_position_isolation_required''
     @ need (is_true (controls ''isolated_funds'')) ''funds_not_isolated''
     @ need (is_true (controls ''isolated_account_or_wallet'')) ''account_or_wallet_not_isolated''
     @ need (is_true (controls ''kill_switch_armed'')) ''kill_switch_not_armed''
     @ need (is_true (controls ''no_borrowing'')) ''borrowing_not_prohibited''
     @ need (is_true (controls ''no_leverage'')) ''leverage_not_prohibited''
     @ need (is_true (infrastructure ''critical_services_healthy'')) ''critical_services_unhealthy''
     @ need (eq_int (infrastructure ''unresolved_critical_incidents'') 0) ''unresolved_critical_incidents''
     @ need (is_true (authorization ''human_authorized'')) ''human_authorization_missing''
     @ need (\<not> above (ar_authorized_notional n) (Some max_canary_notional))
            ''authorized_notional_exceeds_20_usd''
     @ need (\<not> above (ar_notional n) (ar_authorized_notional n))
            ''requested_notional_exceeds_authorized_notional''
     @ need (ar_authorized_policy_version n = ar_policy_version n)
            ''authorization_policy_version_mismatch'')"

definition ca_blocked_result ::
  "authorization_evidence \<Rightarrow> authorization_reading \<Rightarrow> string list \<Rightarrow> pyval" where
  "ca_blocked_result i n bs = ca_blocked bs
    [(''policy_version'', PStr (ar_policy_version n)),
     (''canary_notional_usd'', num_val (ar_notional n)),
     (''max_loss_usd'', num_val (ar_loss_cap n)),
     (''authorization_id'', PStr (ar_authorization_id n)),
     (''evidence'', PDict (ca_inputs i)),
     (''next_step'', PStr ''REMAIN_PAPER_ONLY'')]"

definition ca_passed :: "authorization_evidence \<Rightarrow> authorization_reading \<Rightarrow> pyval" where
  "ca_passed i n = PDict (dict_of (
    [(''status'', PStr ''OBSERVED''),
     (''canary_authorization_result'', PStr ''PASS''),
     (''canary_execution_eligible'', PBool True),
     (''canary_notional_usd'', num_val (ar_notional n)),
     (''maximum_canary_notional_usd'', PFloat (Fin max_canary_notional)),
     (''max_loss_usd'', num_val (ar_loss_cap n)),
     (''max_open_positions'', pget (ae_controls i) ''max_open_positions''),
     (''kill_switch_armed'', PBool True),
     (''isolated_funds'', PBool True),
     (''isolated_account_or_wallet'', PBool True),
     (''human_authorized'', PBool True),
     (''authorization_id'', PStr (ar_authorization_id n)),
     (''authorized_at'', PStr (ar_authorized_at n)),
     (''policy_version'', PStr (ar_policy_version n)),
     (''evidence'', PDict (ca_inputs i)),
     (''next_step'', PStr ''SEPARATE_RUNTIME_CANARY_EXECUTION_PATH_WITH_PRE_ORDER_RECHECKS'')]
    @ ca_authority))"

definition ca_unknown_result ::
  "authorization_evidence \<Rightarrow> authorization_reading \<Rightarrow> string list \<Rightarrow> pyval" where
  "ca_unknown_result i n ms = ca_unknown ms [(''policy_version'', or_none (ar_policy_version n))]"

definition evaluate_isolated_canary_authorization :: "authorization_evidence \<Rightarrow> pyval res" where
  "evaluate_isolated_canary_authorization i =
    (case ca_screen i of
       Some r \<Rightarrow> Inr r
     | None \<Rightarrow> bindE (ca_collect i) (\<lambda>(missing, n).
         Inr (if missing \<noteq> [] then ca_unknown_result i n missing
              else if ca_blockers i n \<noteq> [] then ca_blocked_result i n (ca_blockers i n)
              else ca_passed i n)))"

interpretation ca: fail_closed evaluate_isolated_canary_authorization ca_screen ca_collect
  ca_blockers ca_unknown_result ca_blocked_result ca_passed "''canary_authorization_result''" "''PASS''"
  by unfold_locales
    (auto simp: evaluate_isolated_canary_authorization_def ca_screen_def ca_unknown_result_def
      ca_blocked_result_def ca_passed_def ca_unknown_def ca_blocked_def ca_authority_def dget_dlast
      split: option.splits elim!: screen_inputs_Some)

end
