(* ===== verification/Canary_Preorder.thy ===== *)
theory Canary_Preorder
  imports Fail_Closed
begin

text \<open>
  The check immediately before any execution adapter
  (\<^verbatim>\<open>canary_preorder_runtime_safety.py\<close>): authorization, runtime, infrastructure and the durable
  single use state.
\<close>

definition cp_authority :: pydict where
  "cp_authority =
    [(''interpretation'', PStr ''CANARY_PREORDER_RUNTIME_SAFETY_ONLY''),
     (''live_execution'', PBool False),
     (''trading_authority'', PBool False),
     (''trade_signal'', PBool False),
     (''recommendation_authority'', PBool False),
     (''rpc_contact_allowed'', PBool False),
     (''transaction_signing_allowed'', PBool False),
     (''order_submission_allowed'', PBool False),
     (''automatic_execution'', PBool False)]"

definition cp_unknown :: "string list \<Rightarrow> pydict \<Rightarrow> pyval" where
  "cp_unknown missing extra = PDict (dict_of (
    [(''status'', PStr ''UNKNOWN''),
     (''preorder_result'', PStr ''UNKNOWN''),
     (''execution_adapter_eligible'', PBool False),
     (''authorization_consumable'', PBool False),
     (''missing'', names (fromkeys missing))] @ extra @ cp_authority))"

definition cp_blocked :: "string list \<Rightarrow> pydict \<Rightarrow> pyval" where
  "cp_blocked blockers extra = PDict (dict_of (
    [(''status'', PStr ''OBSERVED''),
     (''preorder_result'', PStr ''BLOCKED''),
     (''execution_adapter_eligible'', PBool False),
     (''authorization_consumable'', PBool False),
     (''blockers'', names (fromkeys blockers))] @ extra @ cp_authority))"

definition cp_powers :: "string list" where
  "cp_powers =
    [''live_execution'', ''trading_authority'', ''trade_signal'', ''recommendation_authority'',
     ''rpc_contact_allowed'', ''transaction_signing_allowed'', ''order_submission_allowed'',
     ''automatic_execution'']"

record preorder_evidence =
  pe_canary_authorization :: pyval
  pe_runtime :: pyval
  pe_infrastructure :: pyval
  pe_authorization_state :: pyval

definition cp_inputs :: "preorder_evidence \<Rightarrow> pydict" where
  "cp_inputs i =
    [(''canary_authorization'', pe_canary_authorization i),
     (''runtime'', pe_runtime i),
     (''infrastructure'', pe_infrastructure i),
     (''authorization_state'', pe_authorization_state i)]"

definition cp_screen :: "preorder_evidence \<Rightarrow> pyval option" where
  "cp_screen i =
     screen_inputs cp_powers cp_unknown ''non_authoritative_preorder_evidence''
       ''authority_contamination'' [] (cp_inputs i)"

definition cp_runtime_keys :: "string list" where
  "cp_runtime_keys =
    [''kill_switch_armed'', ''isolated_funds'', ''isolated_account_or_wallet'', ''no_borrowing'',
     ''no_leverage'']"

record preorder_reading =
  pr_authorization_id :: string
  pr_policy_version :: string
  pr_authorized_notional :: "rat option"
  pr_max_loss :: "rat option"
  pr_requested_notional :: "rat option"
  pr_realized_loss :: "rat option"
  pr_checked_at :: "py_datetime option"
  pr_evaluated_at :: "py_datetime option"
  pr_state_authorization_id :: string

definition cp_collect :: "preorder_evidence \<Rightarrow> (string list \<times> preorder_reading) res" where
  "cp_collect i =
    (let canary_authorization = pget (pe_canary_authorization i); runtime = pget (pe_runtime i);
         infrastructure = pget (pe_infrastructure i); state = pget (pe_authorization_state i);
         authorization_id = clean (canary_authorization ''authorization_id'');
         policy_version = clean (canary_authorization ''policy_version'');
         checked_at = iso_time (infrastructure ''checked_at'');
         evaluated_at = iso_time (runtime ''evaluated_at'');
         state_authorization_id = clean (state ''authorization_id'')
     in
     bindE (number (canary_authorization ''canary_notional_usd'')) (\<lambda>authorized_notional.
     bindE (number (canary_authorization ''max_loss_usd'')) (\<lambda>max_loss.
     bindE (number (runtime ''requested_notional_usd'')) (\<lambda>requested_notional.
     bindE (number (runtime ''realized_loss_usd'')) (\<lambda>realized_loss.
     bindE (in_str_set (infrastructure ''status'') [''HEALTHY'', ''OBSERVED'']) (\<lambda>healthy.
       Inr
        (need (eq_str (canary_authorization ''status'') ''OBSERVED'') ''observed_canary_authorization''
         @ need (eq_str (canary_authorization ''canary_authorization_result'') ''PASS'')
                ''passed_canary_authorization''
         @ need (is_true (canary_authorization ''canary_execution_eligible''))
                ''canary_execution_eligibility''
         @ need (authorization_id \<noteq> []) ''authorization_id''
         @ need (policy_version \<noteq> []) ''policy_version''
         @ need (positive authorized_notional) ''valid_authorized_canary_notional''
         @ need (positive max_loss) ''valid_authorized_loss_cap''
         @ concat (map (\<lambda>k. need (present (pe_runtime i) k) k) cp_runtime_keys)
         @ need (positive requested_notional) ''valid_requested_notional_usd''
         @ need (non_negative realized_loss) ''valid_realized_loss_usd''
         @ need (int_satisfies (\<lambda>n. 0 \<le> n) (runtime ''open_positions'')) ''valid_open_positions''
         @ need healthy ''observed_runtime_infrastructure''
         @ need (present (pe_infrastructure i) ''critical_services_healthy'')
                ''critical_services_healthy_evidence''
         @ need (present (pe_infrastructure i) ''unresolved_critical_incidents'')
                ''unresolved_critical_incidents_evidence''
         @ need (checked_at \<noteq> None) ''runtime_infrastructure_checked_at''
         @ need (evaluated_at \<noteq> None) ''runtime_evaluated_at''
         @ need (int_satisfies (\<lambda>n. 0 < n) (runtime ''max_infrastructure_age_seconds''))
                ''valid_max_infrastructure_age_seconds''
         @ need (state_authorization_id \<noteq> []) ''authorization_state_id''
         @ need (present (pe_authorization_state i) ''consumed'') ''authorization_consumed_state''
         @ need (int_satisfies (\<lambda>n. 0 \<le> n) (state ''use_count'')) ''valid_authorization_use_count'',
         \<lparr>pr_authorization_id = authorization_id,
          pr_policy_version = policy_version,
          pr_authorized_notional = authorized_notional,
          pr_max_loss = max_loss,
          pr_requested_notional = requested_notional,
          pr_realized_loss = realized_loss,
          pr_checked_at = checked_at,
          pr_evaluated_at = evaluated_at,
          pr_state_authorization_id = state_authorization_id\<rparr>)))))))"

text \<open>
  \<^verbatim>\<open>(evaluated_at - checked_at).total_seconds()\<close>: the microseconds divided by a million, rounded
  to a double, against the allowed age.
\<close>

definition total_seconds :: "int \<Rightarrow> rat" where
  "total_seconds us = (case round_double (of_int us / 1000000) of Some x \<Rightarrow> x | None \<Rightarrow> 0)"

definition cp_recheck_fresh :: "preorder_evidence \<Rightarrow> preorder_reading \<Rightarrow> bool" where
  "cp_recheck_fresh i n =
    (case (pr_checked_at n, pr_evaluated_at n, pget (pe_runtime i) ''max_infrastructure_age_seconds'') of
       (Some c, Some e, PInt m) \<Rightarrow>
         (let age = total_seconds (utc_micros e - utc_micros c) in 0 \<le> age \<and> age \<le> of_int m)
     | _ \<Rightarrow> True)"

definition cp_blockers :: "preorder_evidence \<Rightarrow> preorder_reading \<Rightarrow> string list" where
  "cp_blockers i n =
    (let runtime = pget (pe_runtime i); infrastructure = pget (pe_infrastructure i);
         state = pget (pe_authorization_state i)
     in
       need (is_false (state ''consumed'') \<and> eq_int (state ''use_count'') 0) ''authorization_already_consumed''
     @ need (pr_state_authorization_id n = pr_authorization_id n) ''authorization_state_mismatch''
     @ need (\<not> above (pr_requested_notional n) (Some max_canary_notional)) ''requested_notional_exceeds_20_usd''
     @ need (\<not> above (pr_requested_notional n) (pr_authorized_notional n))
            ''requested_notional_exceeds_authorized_notional''
     @ need (\<not> above (pr_max_loss n) (pr_authorized_notional n)) ''loss_cap_exceeds_authorized_notional''
     @ need (\<not> at_least (pr_realized_loss n) (pr_max_loss n)) ''loss_cap_reached''
     @ need (eq_int (runtime ''open_positions'') 0) ''existing_open_position_blocks_new_canary''
     @ need (is_true (runtime ''kill_switch_armed'')) ''kill_switch_not_armed''
     @ need (is_true (runtime ''isolated_funds'')) ''funds_not_isolated''
     @ need (is_true (runtime ''isolated_account_or_wallet'')) ''account_or_wallet_not_isolated''
     @ need (is_true (runtime ''no_borrowing'')) ''borrowing_not_prohibited''
     @ need (is_true (runtime ''no_leverage'')) ''leverage_not_prohibited''
     @ need (is_true (infrastructure ''critical_services_healthy'')) ''critical_services_unhealthy''
     @ need (eq_int (infrastructure ''unresolved_critical_incidents'') 0) ''unresolved_critical_incidents''
     @ need (cp_recheck_fresh i n) ''infrastructure_recheck_stale'')"

definition cp_unknown_result :: "preorder_evidence \<Rightarrow> preorder_reading \<Rightarrow> string list \<Rightarrow> pyval" where
  "cp_unknown_result i n ms = cp_unknown ms [(''authorization_id'', or_none (pr_authorization_id n))]"

definition cp_blocked_result :: "preorder_evidence \<Rightarrow> preorder_reading \<Rightarrow> string list \<Rightarrow> pyval" where
  "cp_blocked_result i n bs = cp_blocked bs
    [(''authorization_id'', PStr (pr_authorization_id n)),
     (''policy_version'', PStr (pr_policy_version n)),
     (''requested_notional_usd'', num_val (pr_requested_notional n)),
     (''max_loss_usd'', num_val (pr_max_loss n)),
     (''evidence'', PDict (cp_inputs i)),
     (''next_step'', PStr ''DO_NOT_CALL_EXECUTION_ADAPTER'')]"

definition cp_passed :: "preorder_evidence \<Rightarrow> preorder_reading \<Rightarrow> pyval" where
  "cp_passed i n = PDict (dict_of (
    [(''status'', PStr ''OBSERVED''),
     (''preorder_result'', PStr ''PASS''),
     (''execution_adapter_eligible'', PBool True),
     (''authorization_consumable'', PBool True),
     (''single_use'', PBool True),
     (''authorization_id'', PStr (pr_authorization_id n)),
     (''policy_version'', PStr (pr_policy_version n)),
     (''requested_notional_usd'', num_val (pr_requested_notional n)),
     (''maximum_canary_notional_usd'', PFloat (Fin max_canary_notional)),
     (''max_loss_usd'', num_val (pr_max_loss n)),
     (''realized_loss_usd'', num_val (pr_realized_loss n)),
     (''open_positions'', pget (pe_runtime i) ''open_positions''),
     (''kill_switch_armed'', PBool True),
     (''infrastructure_rechecked'', PBool True),
     (''evidence'', PDict (cp_inputs i)),
     (''next_step'', PStr ''SEPARATE_EXECUTION_ADAPTER_MAY_CONSUME_AUTHORIZATION_ONCE'')]
    @ cp_authority))"

definition evaluate_canary_preorder_runtime_safety :: "preorder_evidence \<Rightarrow> pyval res" where
  "evaluate_canary_preorder_runtime_safety i =
    (case cp_screen i of
       Some r \<Rightarrow> Inr r
     | None \<Rightarrow> bindE (cp_collect i) (\<lambda>(missing, n).
         Inr (if missing \<noteq> [] then cp_unknown_result i n missing
              else if cp_blockers i n \<noteq> [] then cp_blocked_result i n (cp_blockers i n)
              else cp_passed i n)))"

interpretation cp: fail_closed evaluate_canary_preorder_runtime_safety cp_screen cp_collect
  cp_blockers cp_unknown_result cp_blocked_result cp_passed "''preorder_result''" "''PASS''"
  by unfold_locales
    (auto simp: evaluate_canary_preorder_runtime_safety_def cp_screen_def cp_unknown_result_def
      cp_blocked_result_def cp_passed_def cp_unknown_def cp_blocked_def cp_authority_def dget_dlast
      split: option.splits elim!: screen_inputs_Some)

end
