(* ===== verification/Dry_Run_Adapter.thy ===== *)
theory Dry_Run_Adapter
  imports Fail_Closed
begin

text \<open>
  The dry run execution adapter (\<^verbatim>\<open>dry_run_execution_adapter.py\<close>): from a passed pre order check it
  prepares, without applying it, the compare and swap that consumes the authorization, and the
  audit record that goes with it.
\<close>

definition dr_authority :: pydict where
  "dr_authority =
    [(''interpretation'', PStr ''DRY_RUN_EXECUTION_ADAPTER_CONTRACT_ONLY''),
     (''adapter_mode'', PStr ''DRY_RUN''),
     (''live_execution'', PBool False),
     (''trading_authority'', PBool False),
     (''trade_signal'', PBool False),
     (''recommendation_authority'', PBool False),
     (''rpc_contacted'', PBool False),
     (''transaction_signed'', PBool False),
     (''order_submitted'', PBool False),
     (''wallet_mutated'', PBool False),
     (''persistence_mutated'', PBool False),
     (''automatic_execution'', PBool False)]"

definition dr_unknown :: "string list \<Rightarrow> pydict \<Rightarrow> pyval" where
  "dr_unknown missing extra = PDict (dict_of (
    [(''status'', PStr ''UNKNOWN''),
     (''adapter_result'', PStr ''UNKNOWN''),
     (''dry_run_ready'', PBool False),
     (''authorization_transition_prepared'', PBool False),
     (''missing'', names (fromkeys missing))] @ extra @ dr_authority))"

definition dr_blocked :: "string list \<Rightarrow> pydict \<Rightarrow> pyval" where
  "dr_blocked blockers extra = PDict (dict_of (
    [(''status'', PStr ''OBSERVED''),
     (''adapter_result'', PStr ''BLOCKED''),
     (''dry_run_ready'', PBool False),
     (''authorization_transition_prepared'', PBool False),
     (''blockers'', names (fromkeys blockers))] @ extra @ dr_authority))"

definition dr_powers :: "string list" where
  "dr_powers =
    [''live_execution'', ''trading_authority'', ''trade_signal'', ''recommendation_authority'',
     ''rpc_contacted'', ''transaction_signed'', ''order_submitted'', ''wallet_mutated'',
     ''persistence_mutated'', ''automatic_execution'']"

record adapter_evidence =
  de_preorder :: pyval
  de_authorization_state :: pyval
  de_request :: pyval

definition dr_inputs :: "adapter_evidence \<Rightarrow> pydict" where
  "dr_inputs i =
    [(''preorder'', de_preorder i),
     (''authorization_state'', de_authorization_state i),
     (''request'', de_request i)]"

definition dr_screen :: "adapter_evidence \<Rightarrow> pyval option" where
  "dr_screen i =
     screen_inputs dr_powers dr_unknown ''non_executing_dry_run_inputs''
       ''execution_contamination'' [] (dr_inputs i)"

record adapter_reading =
  dn_authorization_id :: string
  dn_policy_version :: string
  dn_authorized_notional :: "rat option"
  dn_max_loss :: "rat option"
  dn_state_id :: string
  dn_attempt_id :: string
  dn_requested_at :: "py_datetime option"
  dn_request_authorization_id :: string
  dn_request_policy_version :: string
  dn_requested_notional :: "rat option"
  dn_adapter_mode :: string
  dn_idempotency_key :: string

definition dr_collect :: "adapter_evidence \<Rightarrow> (string list \<times> adapter_reading) res" where
  "dr_collect i =
    (let preorder = pget (de_preorder i); state = pget (de_authorization_state i);
         request = pget (de_request i);
         authorization_id = clean (preorder ''authorization_id'');
         policy_version = clean (preorder ''policy_version'');
         state_id = clean (state ''authorization_id'');
         attempt_id = clean (request ''attempt_id'');
         requested_at = iso_time (request ''requested_at'');
         request_authorization_id = clean (request ''authorization_id'');
         request_policy_version = clean (request ''policy_version'');
         adapter_mode = upper (clean (request ''adapter_mode''));
         idempotency_key = clean (request ''idempotency_key'')
     in
     bindE (number (preorder ''requested_notional_usd'')) (\<lambda>authorized_notional.
     bindE (number (preorder ''max_loss_usd'')) (\<lambda>max_loss.
     bindE (number (request ''requested_notional_usd'')) (\<lambda>requested_notional.
       Inr
        (need (eq_str (preorder ''status'') ''OBSERVED'') ''observed_preorder''
         @ need (eq_str (preorder ''preorder_result'') ''PASS'') ''passed_preorder''
         @ need (is_true (preorder ''execution_adapter_eligible'')) ''execution_adapter_eligibility''
         @ need (is_true (preorder ''authorization_consumable'')) ''authorization_consumable''
         @ need (is_true (preorder ''single_use'')) ''single_use_preorder''
         @ need (authorization_id \<noteq> []) ''authorization_id''
         @ need (policy_version \<noteq> []) ''policy_version''
         @ need (positive authorized_notional) ''valid_preorder_notional''
         @ need (positive max_loss) ''valid_preorder_loss_cap''
         @ need (state_id \<noteq> []) ''authorization_state_id''
         @ need (is_bool (state ''consumed'')) ''authorization_consumed_state''
         @ need (int_satisfies (\<lambda>n. 0 \<le> n) (state ''use_count'')) ''valid_authorization_use_count''
         @ need (int_satisfies (\<lambda>n. 0 \<le> n) (state ''version'')) ''valid_authorization_state_version''
         @ need (attempt_id \<noteq> []) ''attempt_id''
         @ need (requested_at \<noteq> None) ''requested_at''
         @ need (request_authorization_id \<noteq> []) ''request_authorization_id''
         @ need (request_policy_version \<noteq> []) ''request_policy_version''
         @ need (positive requested_notional) ''valid_requested_notional_usd''
         @ need (adapter_mode \<noteq> []) ''adapter_mode''
         @ need (idempotency_key \<noteq> []) ''idempotency_key'',
         \<lparr>dn_authorization_id = authorization_id,
          dn_policy_version = policy_version,
          dn_authorized_notional = authorized_notional,
          dn_max_loss = max_loss,
          dn_state_id = state_id,
          dn_attempt_id = attempt_id,
          dn_requested_at = requested_at,
          dn_request_authorization_id = request_authorization_id,
          dn_request_policy_version = request_policy_version,
          dn_requested_notional = requested_notional,
          dn_adapter_mode = adapter_mode,
          dn_idempotency_key = idempotency_key\<rparr>)))))"

definition dr_blockers :: "adapter_evidence \<Rightarrow> adapter_reading \<Rightarrow> string list" where
  "dr_blockers i n =
    (let state = pget (de_authorization_state i) in
       need (dn_adapter_mode n = ''DRY_RUN'') ''adapter_mode_must_be_dry_run''
     @ need (dn_state_id n = dn_authorization_id n \<and> dn_request_authorization_id n = dn_authorization_id n)
            ''authorization_id_mismatch''
     @ need (dn_request_policy_version n = dn_policy_version n) ''policy_version_mismatch''
     @ need (is_false (state ''consumed'') \<and> eq_int (state ''use_count'') 0) ''authorization_already_consumed''
     @ need (\<not> above (dn_requested_notional n) (Some max_canary_notional)) ''requested_notional_exceeds_20_usd''
     @ need (\<not> above (dn_requested_notional n) (dn_authorized_notional n))
            ''requested_notional_exceeds_preorder_notional''
     @ need (\<not> above (dn_max_loss n) (dn_authorized_notional n)) ''loss_cap_exceeds_preorder_notional'')"

text \<open>The state version, an integer once the evidence is complete.\<close>

definition dr_state_version :: "adapter_evidence \<Rightarrow> int" where
  "dr_state_version i =
    (case strict_int (pget (de_authorization_state i) ''version'') of Some v \<Rightarrow> v | None \<Rightarrow> 0)"

definition dr_requested_iso :: "adapter_reading \<Rightarrow> string" where
  "dr_requested_iso n = (case dn_requested_at n of Some d \<Rightarrow> isoformat d | None \<Rightarrow> [])"

definition dr_transition :: "adapter_evidence \<Rightarrow> adapter_reading \<Rightarrow> pydict" where
  "dr_transition i n =
    [(''operation'', PStr ''COMPARE_AND_SWAP_AUTHORIZATION_CONSUMPTION''),
     (''authorization_id'', PStr (dn_authorization_id n)),
     (''expected'', PDict
       [(''consumed'', PBool False),
        (''use_count'', PInt 0),
        (''version'', PInt (dr_state_version i))]),
     (''proposed'', PDict
       [(''consumed'', PBool True),
        (''use_count'', PInt 1),
        (''version'', PInt (dr_state_version i + 1)),
        (''consumed_by_attempt_id'', PStr (dn_attempt_id n)),
        (''consumed_at'', PStr (dr_requested_iso n)),
        (''idempotency_key'', PStr (dn_idempotency_key n))]),
     (''must_be_atomic_before_external_side_effect'', PBool True),
     (''applied'', PBool False)]"

definition dr_audit :: "adapter_reading \<Rightarrow> pydict" where
  "dr_audit n =
    [(''event'', PStr ''CANARY_EXECUTION_ADAPTER_DRY_RUN_PREPARED''),
     (''attempt_id'', PStr (dn_attempt_id n)),
     (''authorization_id'', PStr (dn_authorization_id n)),
     (''policy_version'', PStr (dn_policy_version n)),
     (''requested_at'', PStr (dr_requested_iso n)),
     (''requested_notional_usd'', num_val (dn_requested_notional n)),
     (''max_loss_usd'', num_val (dn_max_loss n)),
     (''adapter_mode'', PStr ''DRY_RUN''),
     (''idempotency_key'', PStr (dn_idempotency_key n)),
     (''external_side_effects'', PBool False),
     (''rpc_contacted'', PBool False),
     (''transaction_signed'', PBool False),
     (''order_submitted'', PBool False),
     (''authorization_transition_applied'', PBool False)]"

definition dr_unknown_result :: "adapter_evidence \<Rightarrow> adapter_reading \<Rightarrow> string list \<Rightarrow> pyval" where
  "dr_unknown_result i n ms = dr_unknown ms [(''authorization_id'', or_none (dn_authorization_id n))]"

definition dr_blocked_result :: "adapter_evidence \<Rightarrow> adapter_reading \<Rightarrow> string list \<Rightarrow> pyval" where
  "dr_blocked_result i n bs = dr_blocked bs
    [(''authorization_id'', PStr (dn_authorization_id n)),
     (''attempt_id'', PStr (dn_attempt_id n)),
     (''idempotency_key'', PStr (dn_idempotency_key n)),
     (''evidence'', PDict (dr_inputs i))]"

definition dr_ready :: "adapter_evidence \<Rightarrow> adapter_reading \<Rightarrow> pyval" where
  "dr_ready i n = PDict (dict_of (
    [(''status'', PStr ''OBSERVED''),
     (''adapter_result'', PStr ''DRY_RUN_READY''),
     (''dry_run_ready'', PBool True),
     (''authorization_transition_prepared'', PBool True),
     (''authorization_id'', PStr (dn_authorization_id n)),
     (''attempt_id'', PStr (dn_attempt_id n)),
     (''policy_version'', PStr (dn_policy_version n)),
     (''requested_notional_usd'', num_val (dn_requested_notional n)),
     (''maximum_canary_notional_usd'', PFloat (Fin max_canary_notional)),
     (''max_loss_usd'', num_val (dn_max_loss n)),
     (''idempotency_key'', PStr (dn_idempotency_key n)),
     (''authorization_transition'', PDict (dr_transition i n)),
     (''post_order_audit_record'', PDict (dr_audit n)),
     (''evidence'', PDict (dr_inputs i)),
     (''next_step'', PStr ''PERSIST_ATOMIC_SINGLE_USE_CONSUMPTION_AND_AUDIT_IN_DRY_RUN_ONLY'')]
    @ dr_authority))"

definition prepare_dry_run_canary_execution :: "adapter_evidence \<Rightarrow> pyval res" where
  "prepare_dry_run_canary_execution i =
    (case dr_screen i of
       Some r \<Rightarrow> Inr r
     | None \<Rightarrow> bindE (dr_collect i) (\<lambda>(missing, n).
         Inr (if missing \<noteq> [] then dr_unknown_result i n missing
              else if dr_blockers i n \<noteq> [] then dr_blocked_result i n (dr_blockers i n)
              else dr_ready i n)))"

interpretation dr: fail_closed prepare_dry_run_canary_execution dr_screen dr_collect
  dr_blockers dr_unknown_result dr_blocked_result dr_ready "''adapter_result''" "''DRY_RUN_READY''"
  by unfold_locales
    (auto simp: prepare_dry_run_canary_execution_def dr_screen_def dr_unknown_result_def
      dr_blocked_result_def dr_ready_def dr_unknown_def dr_blocked_def dr_authority_def dget_dlast
      split: option.splits elim!: screen_inputs_Some)

end
