(* ===== verification/Cas_Store.thy ===== *)
theory Cas_Store
  imports Fail_Closed "HOL-Library.Char_ord" "HOL-Library.List_Lexorder"
begin

text \<open>
  What the two durable state tables promise their callers: a row is changed only by a compare and
  swap on its version. The lemmas count, over any interleaving of attempts, how many can win. The
  theory also models the JSON column both tables store their evidence in.
\<close>

section \<open>Compare and swap on a version\<close>

locale cas_store =
  fixes inv :: "'db \<Rightarrow> bool"
    and row :: "'db \<Rightarrow> 'k \<Rightarrow> 'r option"
    and version :: "'r \<Rightarrow> int"
    and swap :: "'db \<Rightarrow> 'k \<Rightarrow> int \<Rightarrow> 'u \<Rightarrow> 'db option"
  assumes swap_inv: "inv db \<Longrightarrow> swap db k v u = Some db' \<Longrightarrow> inv db'"
    and swap_reads: "inv db \<Longrightarrow> swap db k v u = Some db' \<Longrightarrow> \<exists>r. row db k = Some r \<and> version r = v"
    and swap_bumps:
      "inv db \<Longrightarrow> swap db k v u = Some db' \<Longrightarrow> \<exists>r. row db' k = Some r \<and> version r = v + 1"
    and swap_frame: "inv db \<Longrightarrow> swap db k v u = Some db' \<Longrightarrow> k' \<noteq> k \<Longrightarrow> row db' k' = row db k'"
begin

text \<open>A schedule of attempts: a failed attempt leaves the store as it was.\<close>

fun winners :: "'db \<Rightarrow> ('k \<times> int \<times> 'u) list \<Rightarrow> ('k \<times> int) list" where
  "winners db [] = []"
| "winners db ((k, v, u) # ops) =
     (case swap db k v u of
        None \<Rightarrow> winners db ops
      | Some db' \<Rightarrow> (k, v) # winners db' ops)"

fun final :: "'db \<Rightarrow> ('k \<times> int \<times> 'u) list \<Rightarrow> 'db" where
  "final db [] = db"
| "final db ((k, v, u) # ops) =
     (case swap db k v u of None \<Rightarrow> final db ops | Some db' \<Rightarrow> final db' ops)"

lemma final_inv: "inv db \<Longrightarrow> inv (final db ops)"
  by (induction db ops rule: final.induct) (auto split: option.splits intro: swap_inv)

text \<open>Once a row has passed a version, no attempt at that version wins.\<close>

lemma winners_above:
  "inv db \<Longrightarrow> row db k = Some r \<Longrightarrow> v < version r \<Longrightarrow> (k, v) \<notin> set (winners db ops)"
proof (induction db ops arbitrary: r rule: winners.induct)
  case (1 db)
  show ?case by simp
next
  case (2 db k' v' u ops)
  show ?case
  proof (cases "swap db k' v' u")
    case None
    with 2 show ?thesis by simp
  next
    case (Some db')
    have inv': "inv db'" using 2 Some by (blast intro: swap_inv)
    obtain r' where r': "row db' k = Some r'" "version r \<le> version r'"
    proof (cases "k' = k")
      case True
      with swap_reads [OF "2.prems"(1) Some] swap_bumps [OF "2.prems"(1) Some] "2.prems"(2) that
      show ?thesis by auto
    next
      case False
      with swap_frame [OF "2.prems"(1) Some, of k] "2.prems"(2) that show ?thesis by auto
    qed
    have "(k', v') \<noteq> (k, v)"
      using swap_reads [OF "2.prems"(1) Some] "2.prems"(2,3) by auto
    moreover have "(k, v) \<notin> set (winners db' ops)"
      using "2.IH"(2) [OF Some inv' r'(1)] r'(2) "2.prems"(3) by auto
    ultimately show ?thesis using Some by auto
  qed
qed

text \<open>In any schedule at most one attempt per row and version wins.\<close>

lemma winners_distinct: "inv db \<Longrightarrow> distinct (winners db ops)"
proof (induction db ops rule: winners.induct)
  case (1 db)
  show ?case by simp
next
  case (2 db k v u ops)
  show ?case
  proof (cases "swap db k v u")
    case None
    with 2 show ?thesis by simp
  next
    case (Some db')
    have inv': "inv db'" using 2 Some by (blast intro: swap_inv)
    obtain r where "row db' k = Some r" "version r = v + 1"
      using swap_bumps [OF "2.prems" Some] by auto
    then have "(k, v) \<notin> set (winners db' ops)"
      using winners_above [OF inv'] by auto
    with Some "2.IH"(2) [OF Some inv'] show ?thesis by simp
  qed
qed

end

section \<open>Rows found by a key\<close>

lemma find_key_Some: "find (\<lambda>r. key r = a) xs = Some r \<Longrightarrow> r \<in> set xs \<and> key r = a"
  by (auto simp: find_Some_iff)

lemma find_key_None: "find (\<lambda>r. key r = a) xs = None \<longleftrightarrow> a \<notin> key ` set xs"
  by (auto simp: find_None_iff)

lemma find_key_iff:
  assumes d: "distinct (map key xs)"
  shows "find (\<lambda>r. key r = a) xs = Some r \<longleftrightarrow> r \<in> set xs \<and> key r = a"
proof
  assume r: "r \<in> set xs \<and> key r = a"
  then obtain r' where r': "find (\<lambda>r. key r = a) xs = Some r'"
    by (metis find_key_None image_eqI not_None_eq)
  then have "r' = r" using r d by (metis distinct_map find_key_Some inj_onD)
  with r' show "find (\<lambda>r. key r = a) xs = Some r" by simp
qed (rule find_key_Some)

lemma find_key_map:
  assumes "\<And>r. key (f r) = key r"
  shows "find (\<lambda>r. key r = a) (map f xs) = map_option f (find (\<lambda>r. key r = a) xs)"
  by (induction xs) (simp_all add: assms)

lemma find_SomeD: "find p xs = Some r \<Longrightarrow> r \<in> set xs \<and> p r"
  by (auto simp: find_Some_iff)

section \<open>JSON columns and TEXT parameters\<close>

text \<open>
  \<^verbatim>\<open>json.dumps\<close> raises on the first value it meets that it cannot write: TypeError on a datetime,
  ValueError on an integer past the digit limit. With \<^verbatim>\<open>sort_keys\<close> it meets the entries of a dictionary
  in the order of their keys.
\<close>

primrec first_some :: "'a option list \<Rightarrow> 'a option" where
  "first_some [] = None"
| "first_some (x # xs) = (case x of None \<Rightarrow> first_some xs | Some e \<Rightarrow> Some e)"

fun json_fault :: "pyval \<Rightarrow> exn option" where
  "json_fault (PDt d) = Some TypeError"
| "json_fault (PInt n) = (if text_limit \<le> \<bar>n\<bar> then Some ValueError else None)"
| "json_fault (PList xs) = first_some (map json_fault xs)"
| "json_fault (PDict kvs) = first_some (map (\<lambda>kv. json_fault (snd kv)) kvs)"
| "json_fault _ = None"

fun sorted_items :: "pyval \<Rightarrow> pyval" where
  "sorted_items (PList xs) = PList (map sorted_items xs)"
| "sorted_items (PDict kvs) = PDict (sort_key fst (map (\<lambda>kv. (fst kv, sorted_items (snd kv))) kvs))"
| "sorted_items v = v"

definition json_dumps :: "pyval \<Rightarrow> pyval res" where
  "json_dumps v = (case json_fault v of Some e \<Rightarrow> Inl e | None \<Rightarrow> Inr v)"

definition json_dumps_sorted :: "pyval \<Rightarrow> pyval res" where
  "json_dumps_sorted v = (case json_fault (sorted_items v) of Some e \<Rightarrow> Inl e | None \<Rightarrow> Inr v)"

text \<open>
  The cast to JSONB refuses the token of a non finite float, and U+0000 in a string or a key; a TEXT
  parameter refuses U+0000 as well.
\<close>

fun has_non_finite :: "pyval \<Rightarrow> bool" where
  "has_non_finite (PFloat f) = (f = PosInf \<or> f = NegInf \<or> f = NotANumber)"
| "has_non_finite (PList xs) = list_ex has_non_finite xs"
| "has_non_finite (PDict kvs) = list_ex (\<lambda>kv. has_non_finite (snd kv)) kvs"
| "has_non_finite _ = False"

definition has_nul :: "string \<Rightarrow> bool" where
  "has_nul s \<longleftrightarrow> CHR 0x00 \<in> set s"

fun holds_nul :: "pyval \<Rightarrow> bool" where
  "holds_nul (PStr s) = has_nul s"
| "holds_nul (PList xs) = list_ex holds_nul xs"
| "holds_nul (PDict kvs) = list_ex (\<lambda>kv. has_nul (fst kv) \<or> holds_nul (snd kv)) kvs"
| "holds_nul _ = False"

definition cast_jsonb :: "pyval \<Rightarrow> pyval res" where
  "cast_jsonb v = (if has_non_finite v \<or> holds_nul v then Inl DataError else Inr v)"

definition text_params :: "string list \<Rightarrow> unit res" where
  "text_params ss = (if list_ex has_nul ss then Inl DataError else Inr ())"

lemma has_nul_simps [simp]:
  "\<not> has_nul []"
  "has_nul (c # s) \<longleftrightarrow> c = CHR 0x00 \<or> has_nul s"
  "has_nul (s @ t) \<longleftrightarrow> has_nul s \<or> has_nul t"
  by (auto simp: has_nul_def)

text \<open>Which values \<^verbatim>\<open>json.dumps\<close> refuses, whatever the order it visits them in.\<close>

fun has_datetime :: "pyval \<Rightarrow> bool" where
  "has_datetime (PDt d) = True"
| "has_datetime (PList xs) = list_ex has_datetime xs"
| "has_datetime (PDict kvs) = list_ex (\<lambda>kv. has_datetime (snd kv)) kvs"
| "has_datetime _ = False"

fun has_huge_int :: "pyval \<Rightarrow> bool" where
  "has_huge_int (PInt n) = (text_limit \<le> \<bar>n\<bar>)"
| "has_huge_int (PList xs) = list_ex has_huge_int xs"
| "has_huge_int (PDict kvs) = list_ex (\<lambda>kv. has_huge_int (snd kv)) kvs"
| "has_huge_int _ = False"

lemma first_some_None: "first_some xs = None \<longleftrightarrow> (\<forall>x \<in> set xs. x = None)"
  by (induction xs) (auto split: option.splits)

lemma first_some_SomeD: "first_some xs = Some e \<Longrightarrow> Some e \<in> set xs"
  by (induction xs) (auto split: option.splits)

lemma json_fault_None: "json_fault v = None \<longleftrightarrow> \<not> has_datetime v \<and> \<not> has_huge_int v"
  by (induction v rule: json_fault.induct) (auto simp: first_some_None list_ex_iff)

lemma json_fault_SomeD:
  "json_fault v = Some e \<Longrightarrow> e = TypeError \<and> has_datetime v \<or> e = ValueError \<and> has_huge_int v"
proof (induction v rule: json_fault.induct)
  case (3 xs)
  then obtain x where "x \<in> set xs" "json_fault x = Some e" by (auto dest!: first_some_SomeD)
  with "3.IH" show ?case by (auto simp: list_ex_iff)
next
  case (4 kvs)
  then obtain kv where kv: "kv \<in> set kvs" "json_fault (snd kv) = Some e" by (auto dest!: first_some_SomeD)
  from "4.IH" [OF this] kv(1) show ?case unfolding has_datetime.simps has_huge_int.simps list_ex_iff by blast
qed (auto split: if_splits)

lemma sorted_items_same [simp]:
  "has_datetime (sorted_items v) = has_datetime v"
  "has_huge_int (sorted_items v) = has_huge_int v"
  by (induction v rule: sorted_items.induct) (auto simp: list_ex_iff)

lemma json_dumps_Inr:
  "json_dumps v = Inr j \<longleftrightarrow> j = v \<and> \<not> has_datetime v \<and> \<not> has_huge_int v"
  "json_dumps_sorted v = Inr j \<longleftrightarrow> j = v \<and> \<not> has_datetime v \<and> \<not> has_huge_int v"
  using json_fault_None [of v] json_fault_None [of "sorted_items v"]
  by (auto simp: json_dumps_def json_dumps_sorted_def split: option.splits)

lemma cast_jsonb_Inr: "cast_jsonb v = Inr j \<longleftrightarrow> j = v \<and> \<not> has_non_finite v \<and> \<not> holds_nul v"
  by (auto simp: cast_jsonb_def)

lemma text_params_Inr: "text_params ss = Inr u \<longleftrightarrow> (\<forall>s \<in> set ss. \<not> has_nul s)"
  by (auto simp: text_params_def list_ex_iff)

lemma json_dumps_Inl:
  "json_dumps v = Inl e \<Longrightarrow> e = TypeError \<and> has_datetime v \<or> e = ValueError \<and> has_huge_int v"
  by (auto simp: json_dumps_def dest: json_fault_SomeD split: option.splits)

lemmas json_Inr = json_dumps_Inr cast_jsonb_Inr text_params_Inr

text \<open>The largest value of an INTEGER column.\<close>

definition int4_max :: int where
  "int4_max = 2147483647"

end
