(* ===== verification/Canary_Tables.thy ===== *)
theory Canary_Tables
  imports Cas_Store
begin

text \<open>
  The tables of the canary authorization (\<^verbatim>\<open>002_dry_run_canary_persistence.sql\<close> and
  \<^verbatim>\<open>003_canary_authorization_provenance.sql\<close>) and the statements the services run on them, with the
  constraints and unique indexes as errors.
\<close>

section \<open>Comparing floats\<close>

text \<open>The order of a NUMERIC column: NaN is above every number.\<close>

definition sql_less :: "pyfloat \<Rightarrow> pyfloat \<Rightarrow> bool" where
  "sql_less x y \<longleftrightarrow> (if y = NotANumber then x \<noteq> NotANumber else fl_less x y)"

definition sql_le :: "pyfloat \<Rightarrow> pyfloat \<Rightarrow> bool" where
  "sql_le x y \<longleftrightarrow> \<not> sql_less y x"

lemma sql_Fin [simp]:
  "sql_less (Fin x) (Fin y) \<longleftrightarrow> x < y"
  "sql_le (Fin x) (Fin y) \<longleftrightarrow> x \<le> y"
  by (auto simp: sql_less_def sql_le_def)

lemma sql_NaN [simp]:
  "sql_less (Fin x) NotANumber"
  "\<not> sql_le NotANumber (Fin x)"
  by (auto simp: sql_less_def sql_le_def)

lemma sql_bounds: "sql_less (Fin a) x \<Longrightarrow> sql_le x (Fin b) \<Longrightarrow> \<exists>q. x = Fin q \<and> a < q \<and> q \<le> b"
  by (cases x) (auto simp: sql_less_def sql_le_def)

section \<open>Rows\<close>

record canary_row =
  cw_authorization :: string
  cw_policy :: string
  cw_consumed :: bool
  cw_use_count :: int
  cw_version :: int
  cw_attempt :: "string option"
  cw_consumed_at :: "py_datetime option"
  cw_key :: "string option"
  cw_authorized_at :: "py_datetime option"
  cw_notional :: "pyfloat option"
  cw_max_loss :: "pyfloat option"
  cw_evidence :: "pyval option"

record provision_audit_row =
  pa_authorization :: string
  pa_policy :: string
  pa_authorized_at :: py_datetime
  pa_notional :: pyfloat
  pa_max_loss :: pyfloat
  pa_evidence :: pyval

record dry_audit_row =
  da_attempt :: string
  da_key :: string
  da_authorization :: string
  da_policy :: string
  da_requested_at :: py_datetime
  da_notional :: pyfloat
  da_max_loss :: pyfloat
  da_version_before :: int
  da_version_after :: int
  da_payload :: pyval

record canary_db =
  cd_rows :: "canary_row list"
  cd_provisions :: "provision_audit_row list"
  cd_audit :: "dry_audit_row list"

definition canary_row_of :: "canary_db \<Rightarrow> string \<Rightarrow> canary_row option" where
  "canary_row_of db a = find (\<lambda>r. cw_authorization r = a) (cd_rows db)"

section \<open>Constraints\<close>

definition single_use_state :: "canary_row \<Rightarrow> bool" where
  "single_use_state r \<longleftrightarrow>
     (\<not> cw_consumed r \<and> cw_use_count r = 0 \<and> cw_attempt r = None \<and> cw_consumed_at r = None \<and> cw_key r = None)
     \<or> (cw_consumed r \<and> cw_use_count r = 1 \<and> cw_attempt r \<noteq> None \<and> cw_consumed_at r \<noteq> None \<and> cw_key r \<noteq> None)"

definition caps_valid :: "canary_row \<Rightarrow> bool" where
  "caps_valid r \<longleftrightarrow>
     (case cw_notional r of None \<Rightarrow> cw_max_loss r = None
      | Some n \<Rightarrow> sql_less (Fin 0) n \<and> sql_le n (Fin max_canary_notional)
          \<and> (case cw_max_loss r of None \<Rightarrow> True | Some l \<Rightarrow> sql_less (Fin 0) l \<and> sql_le l n))"

definition row_checks :: "canary_row \<Rightarrow> bool" where
  "row_checks r \<longleftrightarrow> 0 \<le> cw_version r \<and> single_use_state r \<and> caps_valid r"

definition provision_checks :: "provision_audit_row \<Rightarrow> bool" where
  "provision_checks x \<longleftrightarrow>
     sql_less (Fin 0) (pa_notional x) \<and> sql_le (pa_notional x) (Fin max_canary_notional)
     \<and> sql_less (Fin 0) (pa_max_loss x) \<and> sql_le (pa_max_loss x) (pa_notional x)"

definition dry_checks :: "dry_audit_row \<Rightarrow> bool" where
  "dry_checks x \<longleftrightarrow>
     sql_less (Fin 0) (da_notional x) \<and> sql_le (da_notional x) (Fin max_canary_notional)
     \<and> sql_less (Fin 0) (da_max_loss x)
     \<and> 0 \<le> da_version_before x \<and> da_version_after x = da_version_before x + 1"

section \<open>Statements\<close>

text \<open>INSERT of a new authorization, ON CONFLICT (authorization_id) DO NOTHING.\<close>

definition insert_state :: "canary_db \<Rightarrow> canary_row \<Rightarrow> (canary_db \<times> bool) res" where
  "insert_state db r =
    (if \<not> row_checks r then Inl IntegrityError
     else if canary_row_of db (cw_authorization r) \<noteq> None then Inr (db, False)
     else Inr (db\<lparr>cd_rows := cd_rows db @ [r]\<rparr>, True))"

definition insert_provision :: "canary_db \<Rightarrow> provision_audit_row \<Rightarrow> canary_db res" where
  "insert_provision db x =
    (if \<not> provision_checks x \<or> canary_row_of db (pa_authorization x) = None
        \<or> list_ex (\<lambda>y. pa_authorization y = pa_authorization x) (cd_provisions db)
     then Inl IntegrityError
     else Inr (db\<lparr>cd_provisions := cd_provisions db @ [x]\<rparr>))"

text \<open>The compare and swap that consumes an authorization.\<close>

record consume_request =
  cq_authorization :: string
  cq_policy :: string
  cq_expected :: int
  cq_proposed :: int
  cq_attempt :: string
  cq_consumed_at :: py_datetime
  cq_key :: string

definition consume_matches :: "consume_request \<Rightarrow> canary_row \<Rightarrow> bool" where
  "consume_matches q r \<longleftrightarrow>
     cw_authorization r = cq_authorization q \<and> cw_policy r = cq_policy q \<and> \<not> cw_consumed r
     \<and> cw_use_count r = 0 \<and> cw_version r = cq_expected q"

definition consume_set :: "consume_request \<Rightarrow> canary_row \<Rightarrow> canary_row" where
  "consume_set q r = r\<lparr>cw_consumed := True, cw_use_count := 1, cw_version := cq_proposed q,
     cw_attempt := Some (cq_attempt q), cw_consumed_at := to_utc (cq_consumed_at q),
     cw_key := Some (cq_key q)\<rparr>"

text \<open>
  A text with U+0000, a version outside INTEGER and an instant outside the calendar are refused before
  the statement runs; the partial unique indexes refuse an attempt or an idempotency key that another
  authorization has used.
\<close>

definition consume_update :: "canary_db \<Rightarrow> consume_request \<Rightarrow> canary_db option res" where
  "consume_update db q =
    bindE (text_params [cq_authorization q, cq_policy q, cq_attempt q, cq_key q]) (\<lambda>_.
     if \<not> (\<bar>cq_expected q\<bar> \<le> int4_max \<and> \<bar>cq_proposed q\<bar> \<le> int4_max) \<or> to_utc (cq_consumed_at q) = None
     then Inl DataError
     else (case find (consume_matches q) (cd_rows db) of
             None \<Rightarrow> Inr None
           | Some r \<Rightarrow>
               if \<not> row_checks (consume_set q r)
                  \<or> list_ex (\<lambda>x. x \<noteq> r \<and> (cw_attempt x = Some (cq_attempt q) \<or> cw_key x = Some (cq_key q)))
                      (cd_rows db)
               then Inl IntegrityError
               else Inr (Some (db\<lparr>cd_rows := map (\<lambda>x. if consume_matches q x then consume_set q x else x)
                                    (cd_rows db)\<rparr>))))"

definition insert_dry_audit :: "canary_db \<Rightarrow> dry_audit_row \<Rightarrow> canary_db res" where
  "insert_dry_audit db x =
    (if \<not> dry_checks x \<or> canary_row_of db (da_authorization x) = None
        \<or> list_ex (\<lambda>y. da_attempt y = da_attempt x \<or> da_key y = da_key x) (cd_audit db)
     then Inl IntegrityError
     else Inr (db\<lparr>cd_audit := cd_audit db @ [x]\<rparr>))"

section \<open>The invariant\<close>

text \<open>
  Every row is in one of its two states, at version 0 or 1; the audit rows are exactly the
  consumed rows' attempts, one each, within the hard cap.
\<close>

definition audit_of :: "canary_row \<Rightarrow> dry_audit_row \<Rightarrow> bool" where
  "audit_of r x \<longleftrightarrow>
     da_authorization x = cw_authorization r \<and> da_policy x = cw_policy r
     \<and> cw_attempt r = Some (da_attempt x) \<and> cw_key r = Some (da_key x)
     \<and> da_version_before x = 0 \<and> da_version_after x = cw_version r"

definition canary_ok :: "canary_db \<Rightarrow> bool" where
  "canary_ok db \<longleftrightarrow>
     distinct (map cw_authorization (cd_rows db)) \<and> distinct (map da_authorization (cd_audit db))
     \<and> (\<forall>r \<in> set (cd_rows db). row_checks r \<and> cw_version r = (if cw_consumed r then 1 else 0)
          \<and> (cw_consumed r \<longrightarrow> (\<exists>x \<in> set (cd_audit db). audit_of r x)))
     \<and> (\<forall>x \<in> set (cd_audit db). dry_checks x \<and> (\<exists>r \<in> set (cd_rows db). cw_consumed r \<and> audit_of r x))
     \<and> (\<forall>x \<in> set (cd_provisions db). pa_authorization x \<in> cw_authorization ` set (cd_rows db))"

lemma canary_ok_empty: "canary_ok \<lparr>cd_rows = [], cd_provisions = [], cd_audit = []\<rparr>"
  by (simp add: canary_ok_def)


section \<open>What the statements do\<close>

lemma canary_ok_unique:
  "canary_ok db \<Longrightarrow> r \<in> set (cd_rows db) \<Longrightarrow> r' \<in> set (cd_rows db) \<Longrightarrow>
     cw_authorization r = cw_authorization r' \<Longrightarrow> r = r'"
  unfolding canary_ok_def distinct_map by (metis inj_onD)

lemma canary_row_of_iff:
  "canary_ok db \<Longrightarrow> canary_row_of db a = Some r \<longleftrightarrow> r \<in> set (cd_rows db) \<and> cw_authorization r = a"
  unfolding canary_row_of_def canary_ok_def by (elim conjE) (rule find_key_iff)

lemma consume_set_simps [simp]:
  "cw_authorization (consume_set q r) = cw_authorization r"
  "cw_policy (consume_set q r) = cw_policy r"
  "cw_consumed (consume_set q r)"
  "cw_version (consume_set q r) = cq_proposed q"
  "cw_attempt (consume_set q r) = Some (cq_attempt q)"
  "cw_key (consume_set q r) = Some (cq_key q)"
  "cw_notional (consume_set q r) = cw_notional r"
  "cw_max_loss (consume_set q r) = cw_max_loss r"
  by (simp_all add: consume_set_def)

abbreviation consume_rows :: "consume_request \<Rightarrow> canary_row list \<Rightarrow> canary_row list" where
  "consume_rows q \<equiv> map (\<lambda>x. if consume_matches q x then consume_set q x else x)"

lemma consume_update_Some:
  assumes "consume_update db q = Inr (Some db')"
  obtains r where "r \<in> set (cd_rows db)" "consume_matches q r" "row_checks (consume_set q r)"
    "db' = db\<lparr>cd_rows := consume_rows q (cd_rows db)\<rparr>"
proof -
  obtain r where r: "find (consume_matches q) (cd_rows db) = Some r"
    using assms by (auto simp: consume_update_def bindE_eq_Inr split: option.splits if_splits)
  with find_SomeD [OF r] assms that show thesis
    by (auto simp: consume_update_def bindE_eq_Inr split: if_splits)
qed

text \<open>The audit row that goes with a consumption.\<close>

definition audit_for :: "consume_request \<Rightarrow> dry_audit_row \<Rightarrow> bool" where
  "audit_for q x \<longleftrightarrow>
     da_attempt x = cq_attempt q \<and> da_key x = cq_key q \<and> da_authorization x = cq_authorization q
     \<and> da_policy x = cq_policy q \<and> da_version_before x = cq_expected q
     \<and> da_version_after x = cq_proposed q"

lemma insert_dry_audit_Inr:
  "insert_dry_audit db x = Inr db' \<Longrightarrow> dry_checks x \<and> db' = db\<lparr>cd_audit := cd_audit db @ [x]\<rparr>"
  by (auto simp: insert_dry_audit_def split: if_splits)

lemma canary_row_of_consume:
  "canary_row_of (db\<lparr>cd_rows := consume_rows q (cd_rows db), cd_audit := xs\<rparr>) a =
     map_option (\<lambda>x. if consume_matches q x then consume_set q x else x) (canary_row_of db a)"
  unfolding canary_row_of_def by (simp add: find_key_map)

lemma canary_ok_consume:
  assumes ok: "canary_ok db" and u: "consume_update db q = Inr (Some db1)"
    and x: "insert_dry_audit db1 x = Inr db2" and pair: "audit_for q x"
  shows "canary_ok db2"
proof -
  let ?f = "\<lambda>y. if consume_matches q y then consume_set q y else y"
  obtain r where r: "r \<in> set (cd_rows db)" "consume_matches q r" "row_checks (consume_set q r)"
    and db1: "db1 = db\<lparr>cd_rows := map ?f (cd_rows db)\<rparr>"
    using u by (rule consume_update_Some)
  have chk: "dry_checks x" and db2: "db2 = db1\<lparr>cd_audit := cd_audit db1 @ [x]\<rparr>"
    using insert_dry_audit_Inr [OF x] by auto
  have rows: "cd_rows db2 = map ?f (cd_rows db)" and audit: "cd_audit db2 = cd_audit db @ [x]"
    and prov: "cd_provisions db2 = cd_provisions db"
    by (simp_all add: db1 db2)
  have r0: "\<not> cw_consumed r" "cw_version r = 0" "cq_expected q = 0" "cq_proposed q = 1"
    using ok r chk pair by (auto simp: canary_ok_def consume_matches_def audit_for_def dry_checks_def)
  have is_r: "y = r" if "y \<in> set (cd_rows db)" "consume_matches q y" for y
    using that r canary_ok_unique [OF ok] by (metis consume_matches_def)
  have rx: "audit_of (consume_set q r) x"
    using r(2) pair r0 by (simp add: audit_of_def audit_for_def consume_matches_def)
  have auth: "cw_authorization (?f y) = cw_authorization y" for y by simp
  have auths: "map cw_authorization (cd_rows db2) = map cw_authorization (cd_rows db)"
    by (simp add: rows)
  have no_audit: "da_authorization y \<noteq> da_authorization x" if "y \<in> set (cd_audit db)" for y
  proof -
    obtain r' where "r' \<in> set (cd_rows db)" "cw_consumed r'" "audit_of r' y"
      using ok \<open>y \<in> set (cd_audit db)\<close> by (auto simp: canary_ok_def)
    then show ?thesis
      using canary_ok_unique [OF ok r(1), of r'] r0(1) rx
      unfolding audit_of_def consume_set_simps by metis
  qed
  have row: "row_checks (?f y) \<and> cw_version (?f y) = (if cw_consumed (?f y) then 1 else 0)
      \<and> (cw_consumed (?f y) \<longrightarrow> (\<exists>x \<in> set (cd_audit db2). audit_of (?f y) x))"
    if "y \<in> set (cd_rows db)" for y
  proof (cases "consume_matches q y")
    case True
    with is_r [OF that] r r0 rx show ?thesis by (simp add: audit)
  next
    case False
    have "row_checks y \<and> cw_version y = (if cw_consumed y then 1 else 0)
        \<and> (cw_consumed y \<longrightarrow> (\<exists>x \<in> set (cd_audit db). audit_of y x))"
      using ok that by (simp add: canary_ok_def)
    with False show ?thesis by (auto simp: audit)
  qed
  have origin: "\<exists>r' \<in> set (cd_rows db2). cw_consumed r' \<and> audit_of r' y" if "y \<in> set (cd_audit db2)" for y
  proof (cases "y = x")
    case True
    have "?f r \<in> set (cd_rows db2)" unfolding rows set_map using r(1) by (rule imageI)
    with True r(2) rx show ?thesis by (metis consume_set_simps(3))
  next
    case False
    then obtain r' where r': "r' \<in> set (cd_rows db)" "cw_consumed r'" "audit_of r' y"
      using ok \<open>y \<in> set (cd_audit db2)\<close> by (auto simp: canary_ok_def audit)
    then have "?f r' \<in> set (cd_rows db2)" unfolding rows set_map by (blast intro: imageI)
    with r' show ?thesis by (auto simp: consume_matches_def)
  qed
  have "\<forall>y \<in> set (cd_audit db2). dry_checks y" using ok chk by (auto simp: canary_ok_def audit)
  moreover have "\<forall>y \<in> set (cd_provisions db2). pa_authorization y \<in> cw_authorization ` set (cd_rows db2)"
    using ok auths unfolding prov by (metis canary_ok_def set_map)
  moreover have "distinct (map da_authorization (cd_audit db2))"
  proof -
    have "da_authorization x \<notin> da_authorization ` set (cd_audit db)" using no_audit by (metis imageE)
    then show ?thesis using ok by (simp add: canary_ok_def audit)
  qed
  moreover have "distinct (map cw_authorization (cd_rows db2))"
    using ok unfolding auths by (simp add: canary_ok_def)
  moreover have "\<forall>y \<in> set (cd_rows db2). row_checks y \<and> cw_version y = (if cw_consumed y then 1 else 0)
      \<and> (cw_consumed y \<longrightarrow> (\<exists>x \<in> set (cd_audit db2). audit_of y x))"
  proof
    fix y
    assume "y \<in> set (cd_rows db2)"
    then obtain z where "z \<in> set (cd_rows db)" "y = ?f z" unfolding rows set_map by (rule imageE)
    with row show "row_checks y \<and> cw_version y = (if cw_consumed y then 1 else 0)
      \<and> (cw_consumed y \<longrightarrow> (\<exists>x \<in> set (cd_audit db2). audit_of y x))" by blast
  qed
  ultimately show ?thesis using origin unfolding canary_ok_def by blast
qed


section \<open>Provisioning keeps the invariant\<close>

lemma canary_ok_insert_state:
  assumes ok: "canary_ok db" and i: "insert_state db r = Inr (db', b)"
    and new: "\<not> cw_consumed r" "cw_version r = 0"
  shows "canary_ok db'"
proof (cases "canary_row_of db (cw_authorization r)")
  case None
  then have fresh: "cw_authorization r \<notin> cw_authorization ` set (cd_rows db)"
    by (simp add: canary_row_of_def find_key_None)
  have "row_checks r" "db' = db\<lparr>cd_rows := cd_rows db @ [r]\<rparr>"
    using i None by (auto simp: insert_state_def split: if_splits)
  with ok fresh new show ?thesis by (auto simp: canary_ok_def)
next
  case (Some r')
  with i ok show ?thesis by (auto simp: insert_state_def split: if_splits)
qed

lemma insert_state_Inr:
  assumes "insert_state db r = Inr (db', b)"
  shows "if b then row_checks r \<and> db' = db\<lparr>cd_rows := cd_rows db @ [r]\<rparr>
    \<and> canary_row_of db (cw_authorization r) = None
    else db' = db \<and> canary_row_of db (cw_authorization r) \<noteq> None"
  using assms by (auto simp: insert_state_def split: if_splits)

lemma canary_ok_insert_provision:
  assumes ok: "canary_ok db" and i: "insert_provision db x = Inr db'"
  shows "canary_ok db'"
proof -
  have "canary_row_of db (pa_authorization x) \<noteq> None"
    and db': "db' = db\<lparr>cd_provisions := cd_provisions db @ [x]\<rparr>"
    using i by (auto simp: insert_provision_def split: if_splits)
  then have "pa_authorization x \<in> cw_authorization ` set (cd_rows db)"
    by (simp add: canary_row_of_def find_key_None)
  with ok show ?thesis by (simp add: canary_ok_def db')
qed

section \<open>The consumption as a compare and swap\<close>

definition consume_swap ::
  "canary_db \<Rightarrow> string \<Rightarrow> int \<Rightarrow> consume_request \<times> dry_audit_row \<Rightarrow> canary_db option" where
  "consume_swap db a v u =
    (case u of (q, x) \<Rightarrow>
       if cq_authorization q = a \<and> cq_expected q = v \<and> audit_for q x
       then (case consume_update db q of
               Inr (Some db1) \<Rightarrow> (case insert_dry_audit db1 x of Inr db2 \<Rightarrow> Some db2 | Inl _ \<Rightarrow> None)
             | _ \<Rightarrow> None)
       else None)"

lemma consume_swap_Some:
  assumes "consume_swap db a v u = Some db2"
  obtains q x db1 where "u = (q, x)" "cq_authorization q = a" "cq_expected q = v" "audit_for q x"
    "consume_update db q = Inr (Some db1)" "insert_dry_audit db1 x = Inr db2"
  using assms
  by (cases u) (auto simp: consume_swap_def split: if_splits sum.splits option.splits)

lemma consume_swap_audit:
  assumes "consume_swap db a v u = Some db2"
  shows "cd_audit db2 = cd_audit db @ [snd u]"
  using assms
proof (rule consume_swap_Some)
  fix q x db1
  assume "u = (q, x)" and u: "consume_update db q = Inr (Some db1)" and i: "insert_dry_audit db1 x = Inr db2"
  moreover have "cd_audit db1 = cd_audit db" using u by (rule consume_update_Some) simp
  ultimately show ?thesis using insert_dry_audit_Inr [OF i] by simp
qed

lemma consume_swap_row':
  assumes ok: "canary_ok db" and w: "consume_swap db a v u = Some db2"
  obtains q r where "q = fst u" "r \<in> set (cd_rows db)" "cw_authorization r = a" "cw_version r = v" "\<not> cw_consumed r"
    "canary_row_of db2 a = Some (consume_set q r)" "cq_proposed q = v + 1"
    "\<And>k. k \<noteq> a \<Longrightarrow> canary_row_of db2 k = canary_row_of db k"
proof -
  obtain q x db1 where q: "u = (q, x)" "cq_authorization q = a" "cq_expected q = v" "audit_for q x"
    and u: "consume_update db q = Inr (Some db1)" and i: "insert_dry_audit db1 x = Inr db2"
    using w by (rule consume_swap_Some)
  obtain r where r: "r \<in> set (cd_rows db)" "consume_matches q r"
    and db1: "db1 = db\<lparr>cd_rows := consume_rows q (cd_rows db)\<rparr>"
    using u by (rule consume_update_Some)
  have chk: "dry_checks x" and db2: "db2 = db1\<lparr>cd_audit := cd_audit db1 @ [x]\<rparr>"
    using insert_dry_audit_Inr [OF i] by auto
  have row: "canary_row_of db2 k =
      map_option (\<lambda>y. if consume_matches q y then consume_set q y else y) (canary_row_of db k)" for k
    using canary_row_of_consume [where db = db and q = q and xs = "cd_audit db @ [x]" and a = k] by (simp add: db1 db2)
  show thesis
  proof (rule that)
    show "q = fst u" by (simp add: q)
    show "r \<in> set (cd_rows db)" "cw_authorization r = a" "cw_version r = v" "\<not> cw_consumed r"
      using r q by (auto simp: consume_matches_def)
    then have "canary_row_of db a = Some r" using ok by (simp add: canary_row_of_iff)
    with r(2) show "canary_row_of db2 a = Some (consume_set q r)" by (simp add: row)
    show "cq_proposed q = v + 1" using chk q by (auto simp: dry_checks_def audit_for_def)
    show "canary_row_of db2 k = canary_row_of db k" if "k \<noteq> a" for k
    proof (cases "canary_row_of db k")
      case None
      then show ?thesis by (simp add: row)
    next
      case (Some y)
      then have "cw_authorization y = k" using ok by (simp add: canary_row_of_iff)
      with that q(2) Some show ?thesis by (simp add: row consume_matches_def)
    qed
  qed
qed

lemma consume_swap_row:
  assumes "canary_ok db" "consume_swap db a v u = Some db2"
  obtains q r where "r \<in> set (cd_rows db)" "cw_authorization r = a" "cw_version r = v" "\<not> cw_consumed r"
    "canary_row_of db2 a = Some (consume_set q r)" "cq_proposed q = v + 1"
    "\<And>k. k \<noteq> a \<Longrightarrow> canary_row_of db2 k = canary_row_of db k"
  using assms by (rule consume_swap_row') (rule that)

interpretation ct: cas_store canary_ok canary_row_of cw_version consume_swap
proof
  fix db a v u db2
  assume ok: "canary_ok db" and w: "consume_swap db a v u = Some db2"
  show "canary_ok db2"
    using w by (rule consume_swap_Some) (metis canary_ok_consume ok)
  show "\<exists>r. canary_row_of db a = Some r \<and> cw_version r = v"
    using ok w by (rule consume_swap_row) (auto simp: canary_row_of_iff [OF ok])
  show "\<exists>r. canary_row_of db2 a = Some r \<and> cw_version r = v + 1"
    using ok w by (rule consume_swap_row) auto
  show "canary_row_of db2 k = canary_row_of db k" if "k \<noteq> a" for k
    using ok w by (rule consume_swap_row) (auto simp: that)
qed

text \<open>An unconsumed row is at version 0, so an authorization is consumed at most once.\<close>

lemma consume_swap_version:
  assumes "canary_ok db" "consume_swap db a v u = Some db2"
  shows "v = 0"
  using assms by (rule consume_swap_row) (use assms(1) in \<open>auto simp: canary_ok_def\<close>)

lemma winners_at_zero: "canary_ok db \<Longrightarrow> (a, v) \<in> set (ct.winners db ops) \<Longrightarrow> v = 0"
proof (induction db ops rule: ct.winners.induct)
  case (2 db k v' u ops)
  then show ?case
    by (cases "consume_swap db k v' u")
      (auto dest: consume_swap_version ct.swap_inv)
qed simp

lemma winners_once:
  assumes "canary_ok db"
  shows "distinct (map fst (ct.winners db ops))"
proof -
  have "inj_on fst (set (ct.winners db ops))"
    using winners_at_zero [OF assms] by (intro inj_onI) (metis prod.collapse)
  with ct.winners_distinct [OF assms, of ops] show ?thesis by (simp add: distinct_map)
qed

end
