(* ===== verification/Dry_Run_Persistence.thy ===== *)
theory Dry_Run_Persistence
  imports Canary_Tables
begin

text \<open>
  Staging a prepared dry run (\<^verbatim>\<open>dry_run_execution_persistence.py\<close>): the prepared adapter output is
  validated again, then the compare and swap and the audit row are written in the caller's
  transaction.
\<close>

definition dp_authority :: pydict where
  "dp_authority =
    [(''interpretation'', PStr ''DRY_RUN_EXECUTION_PERSISTENCE_ONLY''),
     (''adapter_mode'', PStr ''DRY_RUN''),
     (''live_execution'', PBool False),
     (''trading_authority'', PBool False),
     (''trade_signal'', PBool False),
     (''recommendation_authority'', PBool False),
     (''rpc_contacted'', PBool False),
     (''transaction_signed'', PBool False),
     (''order_submitted'', PBool False),
     (''wallet_mutated'', PBool False),
     (''automatic_execution'', PBool False)]"

definition dp_unknown :: "string list \<Rightarrow> pydict \<Rightarrow> pyval" where
  "dp_unknown missing extra = PDict (dict_of (
    [(''status'', PStr ''UNKNOWN''), (''persistence_result'', PStr ''UNKNOWN''),
     (''authorization_consumed_in_transaction'', PBool False),
     (''audit_inserted_in_transaction'', PBool False),
     (''missing'', names (fromkeys missing))] @ extra @ dp_authority))"

definition dp_blocked :: "string list \<Rightarrow> pydict \<Rightarrow> pyval" where
  "dp_blocked blockers extra = PDict (dict_of (
    [(''status'', PStr ''OBSERVED''), (''persistence_result'', PStr ''BLOCKED''),
     (''authorization_consumed_in_transaction'', PBool False),
     (''audit_inserted_in_transaction'', PBool False),
     (''blockers'', names (fromkeys blockers))] @ extra @ dp_authority))"

definition dp_powers :: "string list" where
  "dp_powers =
    [''live_execution'', ''trading_authority'', ''trade_signal'', ''recommendation_authority'',
     ''rpc_contacted'', ''transaction_signed'', ''order_submitted'', ''wallet_mutated'',
     ''automatic_execution'']"

section \<open>Validation\<close>

text \<open>\<^verbatim>\<open>isinstance(v, (int, float)) and not isinstance(v, bool)\<close>: the number.\<close>

fun amount :: "pyval \<Rightarrow> pyfloat option" where
  "amount (PInt n) = Some (Fin (of_int n))"
| "amount (PFloat f) = Some f"
| "amount _ = None"

definition valid_amount :: "pyval \<Rightarrow> bool" where
  "valid_amount v \<longleftrightarrow> (case amount v of Some f \<Rightarrow> \<not> fl_le f (Fin 0) | None \<Rightarrow> False)"

definition amount_above :: "pyval \<Rightarrow> pyfloat \<Rightarrow> bool" where
  "amount_above v y \<longleftrightarrow> (case amount v of Some f \<Rightarrow> fl_less y f | None \<Rightarrow> False)"

text \<open>\<^verbatim>\<open>isinstance(v, int)\<close>: a bool counts.\<close>

fun any_int :: "pyval \<Rightarrow> int option" where
  "any_int (PInt n) = Some n"
| "any_int (PBool b) = Some (if b then 1 else 0)"
| "any_int _ = None"

definition dp_missing :: "pyval \<Rightarrow> string list" where
  "dp_missing p =
     need (eq_str (pget p ''status'') ''OBSERVED'') ''observed_dry_run_adapter''
     @ need (eq_str (pget p ''adapter_result'') ''DRY_RUN_READY'') ''dry_run_adapter_ready''
     @ need (is_true (pget p ''dry_run_ready'')) ''dry_run_ready''
     @ need (is_true (pget p ''authorization_transition_prepared'')) ''authorization_transition_prepared''
     @ need (upper (py_str (if truthy (pget p ''adapter_mode'') then pget p ''adapter_mode'' else PStr []))
             = ''DRY_RUN'') ''dry_run_adapter_mode''
     @ need (clean (pget p ''authorization_id'') \<noteq> []) ''authorization_id''
     @ need (clean (pget p ''attempt_id'') \<noteq> []) ''attempt_id''
     @ need (clean (pget p ''policy_version'') \<noteq> []) ''policy_version''
     @ need (clean (pget p ''idempotency_key'') \<noteq> []) ''idempotency_key''
     @ need (valid_amount (pget p ''requested_notional_usd'')) ''valid_requested_notional_usd''
     @ need (valid_amount (pget p ''max_loss_usd'')) ''valid_max_loss_usd''
     @ need (is_dict (pget p ''authorization_transition'')) ''authorization_transition''
     @ need (is_dict (pget p ''post_order_audit_record'')) ''post_order_audit_record''"

definition dp_version_blockers :: "pyval \<Rightarrow> pyval \<Rightarrow> string list" where
  "dp_version_blockers expected proposed =
     (case strict_int proposed of
        None \<Rightarrow> [''invalid_proposed_version'']
      | Some w \<Rightarrow> need (case any_int expected of Some v \<Rightarrow> w = v + 1 | None \<Rightarrow> True) ''invalid_version_increment'')"

definition dp_blockers :: "pyval \<Rightarrow> string list" where
  "dp_blockers p =
    (let transition = pget p ''authorization_transition''; audit = pget p ''post_order_audit_record'';
         expected = pget transition ''expected''; proposed = pget transition ''proposed'';
         authorization_id = clean (pget p ''authorization_id''); attempt_id = clean (pget p ''attempt_id'');
         policy_version = clean (pget p ''policy_version''); idempotency_key = clean (pget p ''idempotency_key'');
         requested_notional = pget p ''requested_notional_usd''; max_loss = pget p ''max_loss_usd''
     in
       need (eq_str (pget transition ''operation'') ''COMPARE_AND_SWAP_AUTHORIZATION_CONSUMPTION'')
            ''unexpected_transition_operation''
     @ need (eq_str (pget transition ''authorization_id'') authorization_id) ''transition_authorization_id_mismatch''
     @ need (is_true (pget transition ''must_be_atomic_before_external_side_effect''))
            ''atomic_transition_requirement_missing''
     @ need (is_false (pget transition ''applied'')) ''transition_must_be_unapplied_before_persistence''
     @ need (is_false (pget expected ''consumed'') \<and> eq_int (pget expected ''use_count'') 0)
            ''invalid_expected_single_use_state''
     @ need (int_satisfies (\<lambda>n. 0 \<le> n) (pget expected ''version'')) ''invalid_expected_version''
     @ need (is_true (pget proposed ''consumed'') \<and> eq_int (pget proposed ''use_count'') 1)
            ''invalid_proposed_single_use_state''
     @ dp_version_blockers (pget expected ''version'') (pget proposed ''version'')
     @ need (eq_str (pget proposed ''consumed_by_attempt_id'') attempt_id) ''transition_attempt_id_mismatch''
     @ need (eq_str (pget proposed ''idempotency_key'') idempotency_key) ''transition_idempotency_key_mismatch''
     @ need (iso_time_stripped (pget proposed ''consumed_at'') \<noteq> None)
            ''transition_consumed_at_missing_or_invalid''
     @ need (iso_time_stripped (pget audit ''requested_at'') \<noteq> None) ''audit_requested_at_missing_or_invalid''
     @ need (eq_str (pget audit ''attempt_id'') attempt_id
             \<and> eq_str (pget audit ''authorization_id'') authorization_id) ''audit_identity_mismatch''
     @ need (eq_str (pget audit ''policy_version'') policy_version) ''audit_policy_version_mismatch''
     @ need (eq_str (pget audit ''idempotency_key'') idempotency_key) ''audit_idempotency_key_mismatch''
     @ need (eq_str (pget audit ''adapter_mode'') ''DRY_RUN'') ''audit_mode_must_be_dry_run''
     @ need (is_false (pget audit ''external_side_effects'')) ''audit_external_side_effects_must_be_false''
     @ need (list_all (\<lambda>k. is_false (pget audit k)) [''rpc_contacted'', ''transaction_signed'', ''order_submitted''])
            ''audit_execution_side_effects_must_be_false''
     @ need (is_false (pget audit ''authorization_transition_applied''))
            ''prepared_audit_transition_must_be_unapplied''
     @ need (\<not> amount_above requested_notional (Fin max_canary_notional)) ''requested_notional_exceeds_20_usd''
     @ need (case amount requested_notional of Some f \<Rightarrow> \<not> amount_above max_loss f | None \<Rightarrow> True)
            ''loss_cap_exceeds_requested_notional'')"

record dry_normal =
  dx_request :: consume_request
  dx_notional :: pyfloat
  dx_max_loss :: pyfloat
  dx_requested_at :: py_datetime
  dx_audit :: pydict

definition dp_versions :: "pyval \<Rightarrow> int \<times> int" where
  "dp_versions transition =
    (case (pget (pget transition ''expected'') ''version'', pget (pget transition ''proposed'') ''version'') of
       (PInt v, PInt w) \<Rightarrow> (v, w) | _ \<Rightarrow> (0, 0))"

definition dp_request :: "pyval \<Rightarrow> py_datetime \<Rightarrow> consume_request" where
  "dp_request p consumed_at =
    \<lparr>cq_authorization = clean (pget p ''authorization_id''),
     cq_policy = clean (pget p ''policy_version''),
     cq_expected = fst (dp_versions (pget p ''authorization_transition'')),
     cq_proposed = snd (dp_versions (pget p ''authorization_transition'')),
     cq_attempt = clean (pget p ''attempt_id''),
     cq_consumed_at = consumed_at,
     cq_key = clean (pget p ''idempotency_key'')\<rparr>"

definition dp_normalize :: "pyval \<Rightarrow> pyfloat \<Rightarrow> pyfloat \<Rightarrow> pyval + dry_normal" where
  "dp_normalize p notional max_loss =
    (let transition = pget p ''authorization_transition''; audit = pget p ''post_order_audit_record'' in
     case (iso_time_stripped (pget (pget transition ''proposed'') ''consumed_at''),
           iso_time_stripped (pget audit ''requested_at''), audit) of
       (Some consumed_at, Some requested_at, PDict d) \<Rightarrow>
         Inr \<lparr>dx_request = dp_request p consumed_at, dx_notional = notional,
              dx_max_loss = max_loss, dx_requested_at = requested_at, dx_audit = d\<rparr>
     | _ \<Rightarrow> Inl (dp_unknown [] []))"

definition validate_prepared :: "pyval \<Rightarrow> (pyval + dry_normal) res" where
  "validate_prepared p =
    (if \<not> is_dict p then Inr (Inl (dp_unknown [''prepared_dry_run_execution''] []))
     else if claims dp_powers p then Inr (Inl (dp_unknown [''non_executing_dry_run_prepared_evidence''] []))
     else if dp_missing p \<noteq> []
     then Inr (Inl (dp_unknown (dp_missing p)
            [(''authorization_id'', or_none (clean (pget p ''authorization_id'')))]))
     else if \<not> (is_dict (pget (pget p ''authorization_transition'') ''expected'')
                 \<and> is_dict (pget (pget p ''authorization_transition'') ''proposed''))
     then Inr (Inl (dp_unknown [''complete_compare_and_swap_transition'']
            [(''authorization_id'', PStr (clean (pget p ''authorization_id'')))]))
     else if dp_blockers p \<noteq> []
     then Inr (Inl (dp_blocked (dp_blockers p)
            [(''authorization_id'', PStr (clean (pget p ''authorization_id''))),
             (''attempt_id'', PStr (clean (pget p ''attempt_id'')))]))
     else
       bindE (py_float (pget p ''requested_notional_usd'')) (\<lambda>notional.
       bindE (py_float (pget p ''max_loss_usd'')) (\<lambda>max_loss.
         Inr (dp_normalize p notional max_loss))))"

section \<open>Staging\<close>

definition dp_persisted_audit :: "dry_normal \<Rightarrow> pydict" where
  "dp_persisted_audit n =
    foldl (\<lambda>d (k, v). AList.update k v d) (dx_audit n)
      [(''event'', PStr ''CANARY_EXECUTION_ADAPTER_DRY_RUN_PERSISTED''),
       (''authorization_transition_applied'', PBool True),
       (''external_side_effects'', PBool False),
       (''rpc_contacted'', PBool False),
       (''transaction_signed'', PBool False),
       (''order_submitted'', PBool False),
       (''wallet_mutated'', PBool False),
       (''authorization_version_before'', PInt (cq_expected (dx_request n))),
       (''authorization_version_after'', PInt (cq_proposed (dx_request n)))]"

definition dp_audit_row :: "dry_normal \<Rightarrow> dry_audit_row" where
  "dp_audit_row n =
    (let q = dx_request n in
     \<lparr>da_attempt = cq_attempt q, da_key = cq_key q, da_authorization = cq_authorization q,
      da_policy = cq_policy q, da_requested_at = dx_requested_at n, da_notional = dx_notional n,
      da_max_loss = dx_max_loss n, da_version_before = cq_expected q, da_version_after = cq_proposed q,
      da_payload = PDict (dp_persisted_audit n)\<rparr>)"

definition dp_cas_failed :: "dry_normal \<Rightarrow> pyval" where
  "dp_cas_failed n = dp_blocked [''authorization_compare_and_swap_failed'']
    [(''authorization_id'', PStr (cq_authorization (dx_request n))),
     (''attempt_id'', PStr (cq_attempt (dx_request n))),
     (''idempotency_key'', PStr (cq_key (dx_request n))),
     (''next_step'', PStr ''DO_NOT_INSERT_AUDIT_OR_REPLAY_AUTHORIZATION'')]"

definition dp_staged :: "pyval \<Rightarrow> dry_normal \<Rightarrow> pyval" where
  "dp_staged p n =
    (let q = dx_request n in PDict (dict_of (
    [(''status'', PStr ''OBSERVED''),
     (''persistence_result'', PStr ''TRANSACTION_STAGED''),
     (''authorization_consumed_in_transaction'', PBool True),
     (''audit_inserted_in_transaction'', PBool True),
     (''durable_commit_managed_by_request_session'', PBool True),
     (''authorization_id'', PStr (cq_authorization q)),
     (''attempt_id'', PStr (cq_attempt q)),
     (''idempotency_key'', PStr (cq_key q)),
     (''policy_version'', PStr (cq_policy q)),
     (''requested_notional_usd'', PFloat (dx_notional n)),
     (''authorization_version_before'', PInt (cq_expected q)),
     (''authorization_version_after'', PInt (cq_proposed q)),
     (''authorization_transition_applied'', PBool True),
     (''immutable_audit_staged'', PBool True),
     (''post_order_audit_record'', PDict (dp_persisted_audit n)),
     (''prepared_evidence'', p),
     (''next_step'', PStr ''REQUEST_TRANSACTION_MUST_COMMIT_SUCCESSFULLY_TO_BECOME_DURABLE'')]
    @ dp_authority)))"

definition persist_dry_run_canary_execution ::
  "canary_db \<Rightarrow> pyval \<Rightarrow> (canary_db \<times> pyval) res" where
  "persist_dry_run_canary_execution db p =
    bindE (validate_prepared p) (\<lambda>v.
      case v of
        Inl failure \<Rightarrow> Inr (db, failure)
      | Inr n \<Rightarrow>
          bindE (consume_update db (dx_request n)) (\<lambda>u.
            case u of
              None \<Rightarrow> Inr (db, dp_cas_failed n)
            | Some db1 \<Rightarrow>
                bindE (json_dumps_sorted (PDict (dp_persisted_audit n))) (\<lambda>j. bindE (cast_jsonb j) (\<lambda>_.
                if to_utc (dx_requested_at n) = None then Inl DataError
                else bindE (insert_dry_audit db1 (dp_audit_row n)) (\<lambda>db2. Inr (db2, dp_staged p n))))))"


section \<open>What staging does\<close>

lemma dp_results [simp]:
  "pget (dp_unknown ms []) ''persistence_result'' = PStr ''UNKNOWN''"
  "pget (dp_unknown ms [(''authorization_id'', x)]) ''persistence_result'' = PStr ''UNKNOWN''"
  "pget (dp_blocked bs [(''authorization_id'', x), (''attempt_id'', y)]) ''persistence_result'' = PStr ''BLOCKED''"
  "pget (dp_cas_failed n) ''persistence_result'' = PStr ''BLOCKED''"
  "pget (dp_staged p n) ''persistence_result'' = PStr ''TRANSACTION_STAGED''"
  by (simp_all add: dp_unknown_def dp_blocked_def dp_cas_failed_def dp_staged_def dp_authority_def
      dget_dlast Let_def)

lemma dp_staged_authorization [simp]:
  "pget (dp_staged p n) ''authorization_id'' = PStr (cq_authorization (dx_request n))"
  by (simp add: dp_staged_def dp_authority_def dget_dlast Let_def)

lemma dp_normalize_cases:
  obtains (failure) "dp_normalize p x y = Inl (dp_unknown [] [])"
  | (normal) c r d where
      "iso_time_stripped (pget (pget (pget p ''authorization_transition'') ''proposed'') ''consumed_at'') = Some c"
      "iso_time_stripped (pget (pget p ''post_order_audit_record'') ''requested_at'') = Some r"
      "pget p ''post_order_audit_record'' = PDict d"
      "dp_normalize p x y = Inr \<lparr>dx_request = dp_request p c, dx_notional = x, dx_max_loss = y,
         dx_requested_at = r, dx_audit = d\<rparr>"
  unfolding dp_normalize_def Let_def
  by (cases "iso_time_stripped (pget (pget (pget p ''authorization_transition'') ''proposed'') ''consumed_at'')";
      cases "iso_time_stripped (pget (pget p ''post_order_audit_record'') ''requested_at'')";
      cases "pget p ''post_order_audit_record''") simp_all

lemma validate_prepared_cases:
  assumes "validate_prepared p = Inr v"
  obtains (failure) f where "v = Inl f" "pget f ''persistence_result'' \<noteq> PStr ''TRANSACTION_STAGED''"
  | (normal) x y where "is_dict p" "\<not> claims dp_powers p" "dp_missing p = []" "dp_blockers p = []"
      "py_float (pget p ''requested_notional_usd'') = Inr x" "py_float (pget p ''max_loss_usd'') = Inr y"
      "v = dp_normalize p x y"
  using assms by (auto simp: validate_prepared_def bindE_eq_Inr split: if_split_asm)

lemma validate_prepared_failure:
  assumes "validate_prepared p = Inr (Inl f)"
  shows "pget f ''persistence_result'' \<noteq> PStr ''TRANSACTION_STAGED''"
  using assms
proof (cases rule: validate_prepared_cases)
  case (normal x y)
  then show ?thesis by (cases rule: dp_normalize_cases [of p x y]) simp_all
qed simp

lemma validate_prepared_normal:
  assumes "validate_prepared p = Inr (Inr n)"
  obtains consumed_at where
    "is_dict p" "\<not> claims dp_powers p" "dp_missing p = []" "dp_blockers p = []"
    "dx_request n = dp_request p consumed_at"
    "iso_time_stripped (pget (pget (pget p ''authorization_transition'') ''proposed'') ''consumed_at'')
       = Some consumed_at"
    "py_float (pget p ''requested_notional_usd'') = Inr (dx_notional n)"
    "py_float (pget p ''max_loss_usd'') = Inr (dx_max_loss n)"
  using assms
proof (cases rule: validate_prepared_cases)
  case (normal x y)
  then show ?thesis by (cases rule: dp_normalize_cases [of p x y]) (use that in simp_all)
qed simp

lemma audit_for_row: "audit_for (dx_request n) (dp_audit_row n)"
  by (simp add: audit_for_def dp_audit_row_def Let_def)

lemma persist_dry_cases:
  assumes "persist_dry_run_canary_execution db p = Inr (db2, out)"
  obtains (refused) "db2 = db" "pget out ''persistence_result'' \<noteq> PStr ''TRANSACTION_STAGED''"
  | (staged) n db1 where "validate_prepared p = Inr (Inr n)" "consume_update db (dx_request n) = Inr (Some db1)"
      "insert_dry_audit db1 (dp_audit_row n) = Inr db2" "out = dp_staged p n"
proof -
  obtain v where v: "validate_prepared p = Inr v"
    using assms by (auto simp: persist_dry_run_canary_execution_def bindE_eq_Inr)
  show thesis
  proof (cases v)
    case (Inl failure)
    with v have "pget failure ''persistence_result'' \<noteq> PStr ''TRANSACTION_STAGED''"
      using validate_prepared_failure by blast
    with assms v Inl refused show thesis by (simp add: persist_dry_run_canary_execution_def)
  next
    case (Inr n)
    obtain u where u: "consume_update db (dx_request n) = Inr u"
      using assms v Inr by (auto simp: persist_dry_run_canary_execution_def bindE_eq_Inr)
    show thesis
    proof (cases u)
      case None
      with assms v Inr u have "db2 = db" "out = dp_cas_failed n"
        by (auto simp: persist_dry_run_canary_execution_def)
      with refused show thesis by simp
    next
      case (Some db1)
      with assms v Inr u staged show thesis
        by (auto simp: persist_dry_run_canary_execution_def bindE_eq_Inr split: if_splits)
    qed
  qed
qed

lemma persist_dry_swap:
  assumes "persist_dry_run_canary_execution db p = Inr (db2, out)"
    and "pget out ''persistence_result'' = PStr ''TRANSACTION_STAGED''"
  obtains n where "validate_prepared p = Inr (Inr n)" "out = dp_staged p n"
    "consume_swap db (cq_authorization (dx_request n)) (cq_expected (dx_request n))
       (dx_request n, dp_audit_row n) = Some db2"
  using assms(1)
proof (cases rule: persist_dry_cases)
  case refused
  with assms(2) show ?thesis by simp
next
  case (staged n db1)
  have "consume_swap db (cq_authorization (dx_request n)) (cq_expected (dx_request n))
      (dx_request n, dp_audit_row n) = Some db2"
    by (simp add: consume_swap_def audit_for_row staged(2,3))
  with staged(1,4) show ?thesis by (rule that)
qed

lemma persist_dry_refused:
  assumes "persist_dry_run_canary_execution db p = Inr (db2, out)"
    and "pget out ''persistence_result'' \<noteq> PStr ''TRANSACTION_STAGED''"
  shows "db2 = db"
  using assms(1) by (cases rule: persist_dry_cases) (use assms(2) in simp_all)

lemma canary_ok_persist:
  assumes "canary_ok db" "persist_dry_run_canary_execution db p = Inr (db2, out)"
  shows "canary_ok db2"
proof (cases "pget out ''persistence_result'' = PStr ''TRANSACTION_STAGED''")
  case True
  with assms show ?thesis by (metis persist_dry_swap ct.swap_inv)
next
  case False
  with assms show ?thesis by (metis persist_dry_refused)
qed

section \<open>Many workers\<close>

text \<open>The authorizations that a schedule of calls has consumed; a call that raises is rolled back.\<close>

fun consumed_by :: "canary_db \<Rightarrow> pyval list \<Rightarrow> pyval list" where
  "consumed_by db [] = []"
| "consumed_by db (p # ps) =
     (case persist_dry_run_canary_execution db p of
        Inl _ \<Rightarrow> consumed_by db ps
      | Inr (db', out) \<Rightarrow>
          (if eq_str (pget out ''persistence_result'') ''TRANSACTION_STAGED''
           then [pget out ''authorization_id''] else []) @ consumed_by db' ps)"

lemma consumed_by_winners:
  "\<exists>ops. consumed_by db ps = map (\<lambda>a. PStr (fst a)) (ct.winners db ops)"
proof (induction db ps rule: consumed_by.induct)
  case (1 db)
  have "ct.winners db [] = []" by simp
  then show ?case by (metis list.simps(8) consumed_by.simps(1))
next
  case (2 db p ps)
  show ?case
  proof (cases "persist_dry_run_canary_execution db p")
    case (Inl e)
    with 2 show ?thesis by simp
  next
    case (Inr r)
    obtain db' out where r: "r = (db', out)" by (cases r)
    from Inr r obtain ops where ops: "consumed_by db' ps = map (\<lambda>a. PStr (fst a)) (ct.winners db' ops)"
      using "2.IH"(2) by blast
    show ?thesis
    proof (cases "eq_str (pget out ''persistence_result'') ''TRANSACTION_STAGED''")
      case False
      then have "db' = db" using Inr r persist_dry_refused by (simp add: eq_str_def)
      with Inr r False ops show ?thesis by auto
    next
      case True
      with Inr r obtain n where n: "out = dp_staged p n"
        "consume_swap db (cq_authorization (dx_request n)) (cq_expected (dx_request n))
           (dx_request n, dp_audit_row n) = Some db'"
        by (auto simp: eq_str_def elim: persist_dry_swap)
      then have "consumed_by db (p # ps) = map (\<lambda>a. PStr (fst a))
          (ct.winners db ((cq_authorization (dx_request n), cq_expected (dx_request n),
             (dx_request n, dp_audit_row n)) # ops))"
        using Inr r ops by simp
      then show ?thesis by blast
    qed
  qed
qed

lemma consumed_once_each: "canary_ok db \<Longrightarrow> distinct (consumed_by db ps)"
proof -
  assume ok: "canary_ok db"
  obtain ops where "consumed_by db ps = map PStr (map fst (ct.winners db ops))"
    using consumed_by_winners [of db ps] by (auto simp: comp_def)
  moreover have "inj PStr" by (simp add: inj_def)
  ultimately show ?thesis using winners_once [OF ok, of ops] by (metis distinct_map inj_on_subset subset_UNIV)
qed

end
