(* ===== verification/Canary_Lifecycle.thy ===== *)
theory Canary_Lifecycle
  imports Canary_Preorder Dry_Run_Adapter Dry_Run_Persistence
begin

text \<open>
  The dry run lifecycle (\<^verbatim>\<open>dry_run_canary_lifecycle.py\<close>): load the persisted state, check, prepare,
  load and check again, stage. The three statements on the database run at different instants, so
  each has its own view of the tables.
\<close>

definition lc_authority :: pydict where
  "lc_authority =
    [(''interpretation'', PStr ''PERSISTED_DRY_RUN_CANARY_LIFECYCLE_ONLY''),
     (''adapter_mode'', PStr ''DRY_RUN''),
     (''live_execution'', PBool False),
     (''trading_authority'', PBool False),
     (''trade_signal'', PBool False),
     (''recommendation_authority'', PBool False),
     (''rpc_contacted'', PBool False),
     (''transaction_signed'', PBool False),
     (''order_submitted'', PBool False),
     (''wallet_mutated'', PBool False),
     (''automatic_execution'', PBool False)]"

definition lc_unknown :: "string list \<Rightarrow> pydict \<Rightarrow> pyval" where
  "lc_unknown missing extra = PDict (dict_of (
    [(''status'', PStr ''UNKNOWN''), (''lifecycle_result'', PStr ''UNKNOWN''),
     (''preorder_passed'', PBool False), (''adapter_prepared'', PBool False),
     (''pre_persistence_recheck_passed'', PBool False), (''persistence_staged'', PBool False),
     (''missing'', names (fromkeys missing))] @ extra @ lc_authority))"

definition lc_stopped :: "string \<Rightarrow> pyval \<Rightarrow> pyval" where
  "lc_stopped stage result =
    (let status = (if eq_str (pget result ''status'') ''UNKNOWN'' then ''UNKNOWN'' else ''OBSERVED'') in
     PDict (dict_of (
      [(''status'', PStr status),
       (''lifecycle_result'', PStr (if status = ''UNKNOWN'' then ''UNKNOWN'' else ''BLOCKED'')),
       (''stopped_at'', PStr stage),
       (''preorder_passed'', PBool (stage \<notin> set [''authorization_state'', ''preorder''])),
       (''adapter_prepared'',
        PBool (stage \<in> set [''pre_persistence_authorization_state'', ''pre_persistence_recheck'', ''persistence''])),
       (''pre_persistence_recheck_passed'', PBool (stage = ''persistence'')),
       (''persistence_staged'', PBool False),
       (''stage_result'', result)] @ lc_authority)))"

section \<open>Loading the single use state\<close>

definition opt_str :: "string option \<Rightarrow> pyval" where
  "opt_str x = (case x of None \<Rightarrow> PNone | Some s \<Rightarrow> PStr s)"

definition canary_state :: "canary_row \<Rightarrow> pyval" where
  "canary_state r = PDict
    [(''authorization_id'', PStr (cw_authorization r)),
     (''policy_version'', PStr (cw_policy r)),
     (''consumed'', PBool (cw_consumed r)),
     (''use_count'', PInt (cw_use_count r)),
     (''version'', PInt (cw_version r)),
     (''consumed_by_attempt_id'', opt_str (cw_attempt r)),
     (''consumed_at'', opt_str (map_option isoformat (cw_consumed_at r))),
     (''idempotency_key'', opt_str (cw_key r))]"

definition load_canary_authorization_state :: "canary_db \<Rightarrow> pyval \<Rightarrow> pyval option res" where
  "load_canary_authorization_state db authorization_id =
    (let normalized_id = clean authorization_id in
     if normalized_id = [] then Inr None
     else bindE (text_params [normalized_id]) (\<lambda>_. Inr (map_option canary_state (canary_row_of db normalized_id))))"

section \<open>The lifecycle\<close>

record lifecycle_inputs =
  li_authorization :: pyval
  li_runtime :: pyval
  li_infrastructure :: pyval
  li_request :: pyval
  li_pre_runtime :: pyval
  li_pre_infrastructure :: pyval

definition lc_inputs :: "lifecycle_inputs \<Rightarrow> pydict" where
  "lc_inputs i =
    [(''canary_authorization'', li_authorization i),
     (''runtime'', li_runtime i),
     (''infrastructure'', li_infrastructure i),
     (''request'', li_request i),
     (''pre_persist_runtime'', li_pre_runtime i),
     (''pre_persist_infrastructure'', li_pre_infrastructure i)]"

definition lc_staged :: "string \<Rightarrow> pyval \<Rightarrow> pyval \<Rightarrow> pyval \<Rightarrow> pyval \<Rightarrow> pyval \<Rightarrow> pyval \<Rightarrow> pyval" where
  "lc_staged authorization_id state preorder prepared pre_state recheck persisted = PDict (dict_of (
    [(''status'', PStr ''OBSERVED''),
     (''lifecycle_result'', PStr ''TRANSACTION_STAGED''),
     (''preorder_passed'', PBool True),
     (''adapter_prepared'', PBool True),
     (''pre_persistence_recheck_passed'', PBool True),
     (''persistence_staged'', PBool True),
     (''durable_commit_managed_by_request_session'', PBool True),
     (''authorization_id'', PStr authorization_id),
     (''attempt_id'', pget persisted ''attempt_id''),
     (''idempotency_key'', pget persisted ''idempotency_key''),
     (''policy_version'', pget persisted ''policy_version''),
     (''requested_notional_usd'', pget persisted ''requested_notional_usd''),
     (''authorization_version_before'', pget persisted ''authorization_version_before''),
     (''authorization_version_after'', pget persisted ''authorization_version_after''),
     (''authorization_transition_applied'', PBool True),
     (''evidence'', PDict
       [(''authorization_state_before'', state),
        (''preorder'', preorder),
        (''prepared_adapter'', prepared),
        (''authorization_state_pre_persistence'', pre_state),
        (''pre_persistence_recheck'', recheck),
        (''persistence'', persisted)]),
     (''next_step'', PStr ''CALLER_TRANSACTION_MUST_COMMIT; ROLLBACK_OR_CRASH_BEFORE_COMMIT_MUST_NOT_CONSUME'')]
    @ lc_authority))"

text \<open>The first check and the adapter: what they stop with, or the state and the prepared output.\<close>

definition lc_prepare :: "lifecycle_inputs \<Rightarrow> pyval \<Rightarrow> (pyval + pyval \<times> pyval) res" where
  "lc_prepare i state =
    bindE (evaluate_canary_preorder_runtime_safety
             \<lparr>pe_canary_authorization = li_authorization i, pe_runtime = li_runtime i,
              pe_infrastructure = li_infrastructure i, pe_authorization_state = state\<rparr>) (\<lambda>preorder.
    if \<not> eq_str (pget preorder ''preorder_result'') ''PASS''
    then Inr (Inl (lc_stopped ''preorder'' preorder))
    else bindE (prepare_dry_run_canary_execution
                  \<lparr>de_preorder = preorder, de_authorization_state = state, de_request = li_request i\<rparr>)
      (\<lambda>prepared.
        if \<not> eq_str (pget prepared ''adapter_result'') ''DRY_RUN_READY''
        then Inr (Inl (lc_stopped ''adapter'' prepared))
        else Inr (Inr (preorder, prepared))))"

text \<open>The second load and check.\<close>

definition lc_recheck :: "lifecycle_inputs \<Rightarrow> canary_db \<Rightarrow> string \<Rightarrow> (pyval + pyval \<times> pyval) res" where
  "lc_recheck i second authorization_id =
    bindE (load_canary_authorization_state second (PStr authorization_id)) (\<lambda>loaded.
     case loaded of
       None \<Rightarrow> Inr (Inl (lc_unknown [''persisted_authorization_state_before_persistence'']
                 [(''authorization_id'', PStr authorization_id),
                  (''stopped_at'', PStr ''pre_persistence_authorization_state'')]))
     | Some pre_state \<Rightarrow>
         bindE (evaluate_canary_preorder_runtime_safety
                  \<lparr>pe_canary_authorization = li_authorization i, pe_runtime = li_pre_runtime i,
                   pe_infrastructure = li_pre_infrastructure i, pe_authorization_state = pre_state\<rparr>)
           (\<lambda>recheck.
             if \<not> eq_str (pget recheck ''preorder_result'') ''PASS''
             then Inr (Inl (lc_stopped ''pre_persistence_recheck'' recheck))
             else Inr (Inr (pre_state, recheck))))"

definition prepare_and_persist_dry_run_canary_lifecycle ::
  "canary_db \<Rightarrow> canary_db \<Rightarrow> canary_db \<Rightarrow> lifecycle_inputs \<Rightarrow> (canary_db \<times> pyval) res" where
  "prepare_and_persist_dry_run_canary_lifecycle first second db i =
    (let malformed = offenders (\<lambda>v. \<not> is_dict v) (lc_inputs i);
         authorization_id = clean (pget (li_authorization i) ''authorization_id'')
     in
     if malformed \<noteq> [] then Inr (db, lc_unknown (map (\<lambda>n. n @ ''_evidence'') malformed) [])
     else if authorization_id = [] then Inr (db, lc_unknown [''authorization_id''] [])
     else
       bindE (load_canary_authorization_state first (PStr authorization_id)) (\<lambda>loaded.
        case loaded of
          None \<Rightarrow> Inr (db, lc_unknown [''persisted_authorization_state'']
                    [(''authorization_id'', PStr authorization_id),
                     (''stopped_at'', PStr ''authorization_state'')])
        | Some state \<Rightarrow>
            bindE (lc_prepare i state) (\<lambda>p.
              case p of
                Inl stop \<Rightarrow> Inr (db, stop)
              | Inr (preorder, prepared) \<Rightarrow>
                  bindE (lc_recheck i second authorization_id) (\<lambda>c.
                    case c of
                      Inl stop \<Rightarrow> Inr (db, stop)
                    | Inr (pre_state, recheck) \<Rightarrow>
                        bindE (persist_dry_run_canary_execution db prepared) (\<lambda>(db2, persisted).
                          Inr (db2,
                            if \<not> eq_str (pget persisted ''persistence_result'') ''TRANSACTION_STAGED''
                            then lc_stopped ''persistence'' persisted
                            else lc_staged authorization_id state preorder prepared pre_state recheck
                                   persisted))))))"

end
