(* ===== verification/Canary_Handoff.thy ===== *)
theory Canary_Handoff
  imports Canary_Lifecycle
begin

text \<open>
  How the stages of the lifecycle fit: what the adapter prepares the persistence accepts, what a
  passed check says of the state, and what a staged lifecycle has done to the tables.
\<close>

section \<open>What a passed check says\<close>

lemma collect_cp:
  assumes "cp_collect i = Inr ([], n)"
  shows "pr_authorization_id n = clean (pget (pe_canary_authorization i) ''authorization_id'')"
    "pr_policy_version n = clean (pget (pe_canary_authorization i) ''policy_version'')"
    "pr_authorization_id n \<noteq> []" "pr_policy_version n \<noteq> []"
    "pr_state_authorization_id n = clean (pget (pe_authorization_state i) ''authorization_id'')"
    "\<exists>q. number (pget (pe_canary_authorization i) ''canary_notional_usd'') = Inr (Some q)
       \<and> pr_authorized_notional n = Some q \<and> 0 < q"
    "\<exists>q. number (pget (pe_canary_authorization i) ''max_loss_usd'') = Inr (Some q)
       \<and> pr_max_loss n = Some q \<and> 0 < q"
    "\<exists>q. number (pget (pe_runtime i) ''requested_notional_usd'') = Inr (Some q)
       \<and> pr_requested_notional n = Some q \<and> 0 < q"
    "\<exists>q. number (pget (pe_runtime i) ''realized_loss_usd'') = Inr (Some q)
       \<and> pr_realized_loss n = Some q \<and> 0 \<le> q"
  using assms
  by (auto simp: cp_collect_def Let_def bindE_eq_Inr positive_iff non_negative_iff)

text \<open>The safety conditions of the runtime evidence.\<close>

definition runtime_safe :: "pyval \<Rightarrow> bool" where
  "runtime_safe runtime \<longleftrightarrow>
     eq_int (pget runtime ''open_positions'') 0
     \<and> list_all (\<lambda>k. is_true (pget runtime k)) cp_runtime_keys"

definition infrastructure_safe :: "pyval \<Rightarrow> bool" where
  "infrastructure_safe infrastructure \<longleftrightarrow>
     in_str_set (pget infrastructure ''status'') [''HEALTHY'', ''OBSERVED''] = Inr True
     \<and> is_true (pget infrastructure ''critical_services_healthy'')
     \<and> eq_int (pget infrastructure ''unresolved_critical_incidents'') 0"

lemma preorder_safe:
  assumes "cp.verdict i ''PASS''"
  obtains n authorized max_loss requested realized where
    "evaluate_canary_preorder_runtime_safety i = Inr (cp_passed i n)" "cp_collect i = Inr ([], n)"
    "pr_authorized_notional n = Some authorized" "pr_max_loss n = Some max_loss"
    "pr_requested_notional n = Some requested" "pr_realized_loss n = Some realized"
    "0 < requested" "requested \<le> max_canary_notional" "requested \<le> authorized" "max_loss \<le> authorized"
    "0 \<le> realized" "realized < max_loss" "0 < max_loss"
    "is_false (pget (pe_authorization_state i) ''consumed'')"
    "eq_int (pget (pe_authorization_state i) ''use_count'') 0"
    "clean (pget (pe_authorization_state i) ''authorization_id'')
       = clean (pget (pe_canary_authorization i) ''authorization_id'')"
    "runtime_safe (pe_runtime i)" "infrastructure_safe (pe_infrastructure i)" "cp_recheck_fresh i n"
proof -
  obtain r where r: "evaluate_canary_preorder_runtime_safety i = Inr r" "pget r ''preorder_result'' = PStr ''PASS''"
    using assms by (auto simp: cp.verdict_def)
  obtain n where n: "cp_collect i = Inr ([], n)" "cp_blockers i n = []" "r = cp_passed i n"
    using cp.pass_result [OF r] by blast
  note c = collect_cp [OF n(1)]
  have "in_str_set (pget (pe_infrastructure i) ''status'') [''HEALTHY'', ''OBSERVED''] = Inr True"
    using n(1) by (auto simp: cp_collect_def Let_def bindE_eq_Inr)
  with c n r that show thesis
    by (auto simp: cp_blockers_def Let_def runtime_safe_def infrastructure_safe_def cp_runtime_keys_def not_less not_le)
qed


section \<open>What the adapter prepares\<close>

lemma collect_dr_raw:
  assumes "dr_collect i = Inr ([], n)"
  obtains authorized max_loss requested v where
    "n = \<lparr>dn_authorization_id = clean (pget (de_preorder i) ''authorization_id''),
      dn_policy_version = clean (pget (de_preorder i) ''policy_version''),
      dn_authorized_notional = Some authorized, dn_max_loss = Some max_loss,
      dn_state_id = clean (pget (de_authorization_state i) ''authorization_id''),
      dn_attempt_id = clean (pget (de_request i) ''attempt_id''),
      dn_requested_at = iso_time (pget (de_request i) ''requested_at''),
      dn_request_authorization_id = clean (pget (de_request i) ''authorization_id''),
      dn_request_policy_version = clean (pget (de_request i) ''policy_version''),
      dn_requested_notional = Some requested,
      dn_adapter_mode = upper (clean (pget (de_request i) ''adapter_mode'')),
      dn_idempotency_key = clean (pget (de_request i) ''idempotency_key'')\<rparr>"
    "0 < authorized" "0 < max_loss" "0 < requested"
    "pget (de_authorization_state i) ''version'' = PInt v" "0 \<le> v"
    "dn_authorization_id n \<noteq> []" "dn_policy_version n \<noteq> []" "dn_attempt_id n \<noteq> []"
    "dn_idempotency_key n \<noteq> []" "dn_requested_at n \<noteq> None"
  using assms unfolding dr_collect_def Let_def
  by (clarsimp simp: bindE_eq_Inr positive_iff int_satisfies_iff)

lemma collect_dr:
  assumes "dr_collect i = Inr ([], n)"
  shows "dn_authorization_id n = clean (pget (de_preorder i) ''authorization_id'')"
    "dn_policy_version n = clean (pget (de_preorder i) ''policy_version'')"
    "dn_attempt_id n = clean (pget (de_request i) ''attempt_id'')"
    "dn_idempotency_key n = clean (pget (de_request i) ''idempotency_key'')"
    "dn_requested_at n = iso_time (pget (de_request i) ''requested_at'')"
    "dn_authorization_id n \<noteq> []" "dn_policy_version n \<noteq> []" "dn_attempt_id n \<noteq> []"
    "dn_idempotency_key n \<noteq> []"
    "\<exists>d. dn_requested_at n = Some d"
    "\<exists>q. dn_requested_notional n = Some q \<and> 0 < q"
    "\<exists>q. dn_max_loss n = Some q \<and> 0 < q"
    "\<exists>q. dn_authorized_notional n = Some q \<and> 0 < q"
    "\<exists>v. pget (de_authorization_state i) ''version'' = PInt v \<and> 0 \<le> v"
    "dn_state_id n = clean (pget (de_authorization_state i) ''authorization_id'')"
  using assms by (auto elim!: collect_dr_raw)

lemma ready_fields:
  "pget (dr_ready i n) ''status'' = PStr ''OBSERVED''"
  "pget (dr_ready i n) ''adapter_result'' = PStr ''DRY_RUN_READY''"
  "pget (dr_ready i n) ''dry_run_ready'' = PBool True"
  "pget (dr_ready i n) ''authorization_transition_prepared'' = PBool True"
  "pget (dr_ready i n) ''adapter_mode'' = PStr ''DRY_RUN''"
  "pget (dr_ready i n) ''authorization_id'' = PStr (dn_authorization_id n)"
  "pget (dr_ready i n) ''attempt_id'' = PStr (dn_attempt_id n)"
  "pget (dr_ready i n) ''policy_version'' = PStr (dn_policy_version n)"
  "pget (dr_ready i n) ''idempotency_key'' = PStr (dn_idempotency_key n)"
  "pget (dr_ready i n) ''requested_notional_usd'' = num_val (dn_requested_notional n)"
  "pget (dr_ready i n) ''max_loss_usd'' = num_val (dn_max_loss n)"
  "pget (dr_ready i n) ''authorization_transition'' = PDict (dr_transition i n)"
  "pget (dr_ready i n) ''post_order_audit_record'' = PDict (dr_audit n)"
  by (simp_all add: dr_ready_def dr_authority_def dget_dlast)

lemma ready_not_contaminated: "\<not> claims dp_powers (dr_ready i n)"
  by (simp add: claims_def dp_powers_def dr_ready_def dr_authority_def dget_dlast)

lemma transition_fields:
  "dget (dr_transition i n) ''operation'' = PStr ''COMPARE_AND_SWAP_AUTHORIZATION_CONSUMPTION''"
  "dget (dr_transition i n) ''authorization_id'' = PStr (dn_authorization_id n)"
  "dget (dr_transition i n) ''must_be_atomic_before_external_side_effect'' = PBool True"
  "dget (dr_transition i n) ''applied'' = PBool False"
  "dget (dr_transition i n) ''expected'' = PDict
     [(''consumed'', PBool False), (''use_count'', PInt 0), (''version'', PInt (dr_state_version i))]"
  "dget (dr_transition i n) ''proposed'' = PDict
     [(''consumed'', PBool True), (''use_count'', PInt 1), (''version'', PInt (dr_state_version i + 1)),
      (''consumed_by_attempt_id'', PStr (dn_attempt_id n)), (''consumed_at'', PStr (dr_requested_iso n)),
      (''idempotency_key'', PStr (dn_idempotency_key n))]"
  by (simp_all add: dr_transition_def dget_def)

lemma audit_fields:
  "dget (dr_audit n) ''attempt_id'' = PStr (dn_attempt_id n)"
  "dget (dr_audit n) ''authorization_id'' = PStr (dn_authorization_id n)"
  "dget (dr_audit n) ''policy_version'' = PStr (dn_policy_version n)"
  "dget (dr_audit n) ''requested_at'' = PStr (dr_requested_iso n)"
  "dget (dr_audit n) ''adapter_mode'' = PStr ''DRY_RUN''"
  "dget (dr_audit n) ''idempotency_key'' = PStr (dn_idempotency_key n)"
  "dget (dr_audit n) ''external_side_effects'' = PBool False"
  "dget (dr_audit n) ''rpc_contacted'' = PBool False"
  "dget (dr_audit n) ''transaction_signed'' = PBool False"
  "dget (dr_audit n) ''order_submitted'' = PBool False"
  "dget (dr_audit n) ''authorization_transition_applied'' = PBool False"
  by (simp_all add: dr_audit_def dget_def)

lemma strip_clean: "x = clean v \<Longrightarrow> strip x = x"
  using clean_names [of v] by (simp only: clean_PStr)

text \<open>The adapter's output passes the persistence's validation, up to the loss cap.\<close>

lemma ready_missing:
  assumes "dr_collect i = Inr ([], n)"
  shows "dp_missing (dr_ready i n) = []"
proof -
  note c = collect_dr [OF assms]
  note st = strip_clean [OF c(1)] strip_clean [OF c(2)] strip_clean [OF c(3)] strip_clean [OF c(4)]
  have "upper ''DRY_RUN'' = ''DRY_RUN''" by (simp add: upper_def upper_char_def code_of_def)
  with c st show ?thesis
    by (auto simp: dp_missing_def ready_fields valid_amount_def)
qed

lemma ready_blockers:
  assumes c: "dr_collect i = Inr ([], n)" and b: "dr_blockers i n = []"
    and q: "dn_requested_notional n = Some q" "dn_max_loss n = Some l"
  shows "dp_blockers (dr_ready i n) = need (l \<le> q) ''loss_cap_exceeds_requested_notional''"
proof -
  note c' = collect_dr [OF c]
  note st = strip_clean [OF c'(1)] strip_clean [OF c'(2)] strip_clean [OF c'(3)] strip_clean [OF c'(4)]
  obtain v where v: "dr_state_version i = v" "0 \<le> v"
    using c'(14) by (auto simp: dr_state_version_def)
  obtain d where d: "iso_time (pget (de_request i) ''requested_at'') = Some d" "dr_requested_iso n = isoformat d"
    using c'(5,10) by (auto simp: dr_requested_iso_def)
  have iso: "iso_time_stripped (PStr (dr_requested_iso n)) = Some d"
    using iso_time_roundtrip [OF d(1)] d(2) by simp
  have cap: "q \<le> max_canary_notional"
    using b q by (simp add: dr_blockers_def Let_def not_less)
  show ?thesis
    using cap v q iso
    by (simp add: dp_blockers_def Let_def ready_fields transition_fields audit_fields st dget_def [of "[_, _, _]"]
        dget_def [of "(_ # _ # _ # _ # _)"] dp_version_blockers_def amount_above_def need_def not_less)
qed


definition ready_normal :: "adapter_evidence \<Rightarrow> adapter_reading \<Rightarrow> py_datetime \<Rightarrow> rat \<Rightarrow> rat \<Rightarrow> dry_normal" where
  "ready_normal i n d q l =
    \<lparr>dx_request =
       \<lparr>cq_authorization = dn_authorization_id n, cq_policy = dn_policy_version n,
        cq_expected = dr_state_version i, cq_proposed = dr_state_version i + 1,
        cq_attempt = dn_attempt_id n, cq_consumed_at = d, cq_key = dn_idempotency_key n\<rparr>,
     dx_notional = Fin q, dx_max_loss = Fin l, dx_requested_at = d, dx_audit = dr_audit n\<rparr>"

lemma validate_ready:
  assumes c: "dr_collect i = Inr ([], n)" and b: "dr_blockers i n = []"
    and q: "dn_requested_notional n = Some q" "dn_max_loss n = Some l" "dn_requested_at n = Some d"
  shows "validate_prepared (dr_ready i n) =
    Inr (if l \<le> q then Inr (ready_normal i n d q l)
         else Inl (dp_blocked [''loss_cap_exceeds_requested_notional'']
                [(''authorization_id'', PStr (dn_authorization_id n)),
                 (''attempt_id'', PStr (dn_attempt_id n))]))"
proof -
  note c' = collect_dr [OF c]
  note st = strip_clean [OF c'(1)] strip_clean [OF c'(2)] strip_clean [OF c'(3)] strip_clean [OF c'(4)]
  have iso: "iso_time_stripped (PStr (isoformat d)) = Some d"
    using iso_time_roundtrip [of "pget (de_request i) ''requested_at''" d] c'(5) q(3) by simp
  have dict: "is_dict (dr_ready i n)" by (simp add: dr_ready_def)
  note head = dict ready_not_contaminated [of i n] ready_missing [OF c] ready_blockers [OF c b q(1,2)]
  show ?thesis
  proof (cases "l \<le> q")
    case True
    then show ?thesis
      using head iso q
      by (simp add: validate_prepared_def ready_fields transition_fields dp_normalize_def
          audit_fields dr_requested_iso_def dget_def [of "_ # _ # _ # _"] dp_request_def dp_versions_def
          ready_normal_def st)
  next
    case False
    then show ?thesis
      using head
      by (simp add: validate_prepared_def ready_fields transition_fields need_def st)
  qed
qed

text \<open>The persisted audit of a prepared dry run is plain JSON, when its identities are free of U+0000.\<close>

definition plain_item :: "string \<times> pyval \<Rightarrow> bool" where
  "plain_item kv \<longleftrightarrow> \<not> has_nul (fst kv) \<and> \<not> holds_nul (snd kv) \<and> \<not> has_datetime (snd kv)
     \<and> \<not> has_huge_int (snd kv) \<and> \<not> has_non_finite (snd kv)"

lemma plain_json:
  "list_all plain_item kvs \<Longrightarrow> json_dumps_sorted (PDict kvs) = Inr (PDict kvs) \<and> cast_jsonb (PDict kvs) = Inr (PDict kvs)"
  unfolding json_Inr by (auto simp: plain_item_def list_all_iff list_ex_iff)

lemma plain_update:
  "list_all plain_item kvs \<Longrightarrow> list_all plain_item d \<Longrightarrow>
     list_all plain_item (foldl (\<lambda>d (k, v). AList.update k v d) d kvs)"
proof (induction kvs arbitrary: d)
  case Nil
  then show ?case by simp
next
  case (Cons kv kvs)
  have "list_all plain_item (AList.update (fst kv) (snd kv) d)"
    using Cons.prems by (induction d) (auto simp: plain_item_def)
  with Cons show ?case by (simp add: case_prod_beta)
qed

lemma has_nul_dec_nat [simp]: "\<not> has_nul (dec_nat n)"
  using dec_nat_digits [of n] by (auto simp: has_nul_def list_all_iff is_digit_def code_of_def)

lemma has_nul_pad [simp]: "\<not> has_nul (pad w n)"
  using has_nul_dec_nat [of n] by (auto simp: pad_def has_nul_def)

lemma has_nul_isoformat [simp]: "\<not> has_nul (isoformat d)"
  by (simp add: isoformat_def isoformat_sep_def format_time_def format_offset_def pad2_def Let_def split: option.splits)

text \<open>The texts the statements bind.\<close>

definition reading_texts :: "adapter_reading \<Rightarrow> string list" where
  "reading_texts n = [dn_authorization_id n, dn_policy_version n, dn_attempt_id n, dn_idempotency_key n]"

lemma ready_json:
  assumes "dn_requested_notional n = Some q" "dn_max_loss n = Some l" "dn_requested_at n = Some d"
    and "dr_state_version i = 0" "\<not> list_ex has_nul (reading_texts n)"
  shows "json_dumps_sorted (PDict (dp_persisted_audit (ready_normal i n d q l))) =
           Inr (PDict (dp_persisted_audit (ready_normal i n d q l)))"
    "cast_jsonb (PDict (dp_persisted_audit (ready_normal i n d q l))) =
           Inr (PDict (dp_persisted_audit (ready_normal i n d q l)))"
proof -
  have "list_all plain_item (dp_persisted_audit (ready_normal i n d q l))"
    unfolding dp_persisted_audit_def
  proof (rule plain_update)
    show "list_all plain_item (dx_audit (ready_normal i n d q l))"
      using assms by (simp add: ready_normal_def dr_audit_def plain_item_def reading_texts_def num_val_def dr_requested_iso_def)
  qed (simp add: ready_normal_def plain_item_def assms(4))
  from plain_json [OF this] show "json_dumps_sorted (PDict (dp_persisted_audit (ready_normal i n d q l))) =
           Inr (PDict (dp_persisted_audit (ready_normal i n d q l)))"
    "cast_jsonb (PDict (dp_persisted_audit (ready_normal i n d q l))) =
           Inr (PDict (dp_persisted_audit (ready_normal i n d q l)))" by simp_all
qed

text \<open>A text with U+0000 is refused by the first statement.\<close>

lemma ready_is_refused:
  assumes c: "dr_collect i = Inr ([], n)" and b: "dr_blockers i n = []"
    and q: "dn_requested_notional n = Some q" "dn_max_loss n = Some l" "dn_requested_at n = Some d"
    and cap: "l \<le> q" and nul: "list_ex has_nul (reading_texts n)"
  shows "persist_dry_run_canary_execution db (dr_ready i n) = Inl DataError"
proof -
  have "consume_update db (dx_request (ready_normal i n d q l)) = Inl DataError"
    using nul by (auto simp: consume_update_def text_params_def ready_normal_def reading_texts_def)
  then show ?thesis using validate_ready [OF c b q] cap by (simp add: persist_dry_run_canary_execution_def)
qed

text \<open>
  A prepared dry run against the state it was prepared from is staged, when its attempt and key are
  fresh, its texts are free of U+0000 and its instant has a UTC form.
\<close>

lemma ready_is_staged:
  assumes ok: "canary_ok db"
    and c: "dr_collect i = Inr ([], n)" and b: "dr_blockers i n = []"
    and q: "dn_requested_notional n = Some q" "dn_max_loss n = Some l" "dn_requested_at n = Some d"
    and cap: "l \<le> q" and utc: "to_utc d \<noteq> None"
    and row: "canary_row_of db (dn_authorization_id n) = Some r"
      "cw_policy r = dn_policy_version n" "\<not> cw_consumed r" "cw_version r = dr_state_version i"
    and fresh: "\<forall>x \<in> set (cd_audit db). da_attempt x \<noteq> dn_attempt_id n \<and> da_key x \<noteq> dn_idempotency_key n"
    and plain: "\<not> list_ex has_nul (reading_texts n)"
  shows "\<exists>db2. persist_dry_run_canary_execution db (dr_ready i n)
      = Inr (db2, dp_staged (dr_ready i n) (ready_normal i n d q l))
    \<and> canary_row_of db2 (dn_authorization_id n)
        = Some (consume_set (dx_request (ready_normal i n d q l)) r)"
proof -
  let ?n = "ready_normal i n d q l"
  let ?q = "dx_request ?n"
  have r: "r \<in> set (cd_rows db)" "cw_authorization r = dn_authorization_id n" "row_checks r"
      "cw_version r = 0" "cw_use_count r = 0"
    using row ok unfolding canary_row_of_iff [OF ok]
    by (auto simp: canary_ok_def row_checks_def single_use_state_def)
  have m: "consume_matches ?q r"
    using row r by (simp add: consume_matches_def ready_normal_def)
  have f: "find (consume_matches ?q) (cd_rows db) = Some r"
  proof -
    obtain r' where r': "find (consume_matches ?q) (cd_rows db) = Some r'"
      using m r(1) by (metis find_None_iff2 not_None_eq)
    then have "r' \<in> set (cd_rows db)" "consume_matches ?q r'" by (auto dest: find_SomeD)
    then have "r' = r" using canary_ok_unique [OF ok, of r' r] r(1) m by (simp add: consume_matches_def)
    with r' show ?thesis by simp
  qed
  have chk: "row_checks (consume_set ?q r)"
  proof -
    have "caps_valid (consume_set ?q r)" using r(3) unfolding row_checks_def caps_valid_def consume_set_simps by simp
    moreover have "single_use_state (consume_set ?q r)"
      using utc by (simp add: single_use_state_def consume_set_def ready_normal_def)
    ultimately show ?thesis using row(4) r(4) by (simp add: row_checks_def ready_normal_def)
  qed
  have no_other: "\<not> (cw_attempt x = Some (cq_attempt ?q) \<or> cw_key x = Some (cq_key ?q))"
    if "x \<in> set (cd_rows db)" for x
  proof (cases "cw_consumed x")
    case True
    then obtain y where "y \<in> set (cd_audit db)" "audit_of x y"
      using ok \<open>x \<in> set (cd_rows db)\<close> by (auto simp: canary_ok_def)
    with fresh show ?thesis by (auto simp: audit_of_def ready_normal_def)
  next
    case False
    then show ?thesis using ok that by (auto simp: canary_ok_def row_checks_def single_use_state_def)
  qed
  define db1 where "db1 = db\<lparr>cd_rows := consume_rows ?q (cd_rows db)\<rparr>"
  have ver: "cq_expected ?q = 0" "cq_proposed ?q = 1" "cq_consumed_at ?q = d" "dx_requested_at ?n = d"
    using row(4) r(4) by (simp_all add: ready_normal_def)
  have u: "consume_update db ?q = Inr (Some db1)"
  proof -
    have "text_params [cq_authorization ?q, cq_policy ?q, cq_attempt ?q, cq_key ?q] = Inr ()"
      using plain by (auto simp: text_params_def ready_normal_def reading_texts_def)
    then show ?thesis
      using f chk no_other utc by (auto simp: consume_update_def ver int4_max_def db1_def list_ex_iff)
  qed
  have after: "canary_row_of db1 (dn_authorization_id n) = Some (consume_set ?q r)"
    using canary_row_of_consume [where db = db and q = ?q and xs = "cd_audit db" and a = "dn_authorization_id n"]
      row(1) m by (simp add: db1_def)
  have chk2: "dry_checks (dp_audit_row ?n)"
  proof -
    have "0 < q" "0 < l" "q \<le> max_canary_notional"
      using collect_dr(11,12) [OF c] q b by (auto simp: dr_blockers_def Let_def not_less)
    then show ?thesis using ver by (simp add: dry_checks_def dp_audit_row_def Let_def ready_normal_def)
  qed
  define db2 where "db2 = db1\<lparr>cd_audit := cd_audit db1 @ [dp_audit_row ?n]\<rparr>"
  have i: "insert_dry_audit db1 (dp_audit_row ?n) = Inr db2"
  proof -
    have "\<not> list_ex (\<lambda>y. da_attempt y = da_attempt (dp_audit_row ?n) \<or> da_key y = da_key (dp_audit_row ?n))
        (cd_audit db1)"
      using fresh by (auto simp: list_ex_iff db1_def dp_audit_row_def Let_def ready_normal_def)
    moreover have "da_authorization (dp_audit_row ?n) = dn_authorization_id n"
      by (simp add: dp_audit_row_def Let_def ready_normal_def)
    ultimately show ?thesis using chk2 after by (simp add: insert_dry_audit_def db2_def)
  qed
  have "persist_dry_run_canary_execution db (dr_ready i n) = Inr (db2, dp_staged (dr_ready i n) ?n)"
    using validate_ready [OF c b q] cap u i utc ready_json [OF q _ plain, of i] row(4) r(4) ver(4)
    by (auto simp: persist_dry_run_canary_execution_def)
  moreover have "canary_row_of db2 (dn_authorization_id n) = Some (consume_set ?q r)"
    using after by (simp add: canary_row_of_def db2_def)
  ultimately show ?thesis by blast
qed


section \<open>What a lifecycle has done\<close>

lemma lc_results:
  "pget (lc_unknown ms []) ''lifecycle_result'' = PStr ''UNKNOWN''"
  "pget (lc_unknown ms [(''authorization_id'', x), (''stopped_at'', y)]) ''lifecycle_result'' = PStr ''UNKNOWN''"
  "pget (lc_stopped st r) ''lifecycle_result'' \<in> {PStr ''UNKNOWN'', PStr ''BLOCKED''}"
  "pget (lc_staged a s1 p1 p2 s2 p3 p4) ''lifecycle_result'' = PStr ''TRANSACTION_STAGED''"
  by (simp_all add: lc_unknown_def lc_stopped_def lc_staged_def lc_authority_def dget_dlast Let_def)

lemma lc_stopped_result: "pget (lc_stopped st r) ''lifecycle_result'' \<noteq> PStr ''TRANSACTION_STAGED''"
  using lc_results(3) [of st r] by auto

lemma lc_prepare_cases:
  assumes "lc_prepare i state = Inr v"
  obtains (stop) s where "v = Inl s" "pget s ''lifecycle_result'' \<noteq> PStr ''TRANSACTION_STAGED''"
  | (ready) preorder prepared where "v = Inr (preorder, prepared)"
      "evaluate_canary_preorder_runtime_safety
         \<lparr>pe_canary_authorization = li_authorization i, pe_runtime = li_runtime i,
          pe_infrastructure = li_infrastructure i, pe_authorization_state = state\<rparr> = Inr preorder"
      "pget preorder ''preorder_result'' = PStr ''PASS''"
      "prepare_dry_run_canary_execution
         \<lparr>de_preorder = preorder, de_authorization_state = state, de_request = li_request i\<rparr> = Inr prepared"
      "pget prepared ''adapter_result'' = PStr ''DRY_RUN_READY''"
  using assms lc_stopped_result
  by (auto simp: lc_prepare_def bindE_eq_Inr eq_str_def split: if_splits)

lemma lc_recheck_cases:
  assumes "lc_recheck i second a = Inr v"
  obtains (stop) s where "v = Inl s" "pget s ''lifecycle_result'' \<noteq> PStr ''TRANSACTION_STAGED''"
  | (ready) pre_state recheck where "v = Inr (pre_state, recheck)"
      "load_canary_authorization_state second (PStr a) = Inr (Some pre_state)"
      "evaluate_canary_preorder_runtime_safety
         \<lparr>pe_canary_authorization = li_authorization i, pe_runtime = li_pre_runtime i,
          pe_infrastructure = li_pre_infrastructure i, pe_authorization_state = pre_state\<rparr> = Inr recheck"
      "pget recheck ''preorder_result'' = PStr ''PASS''"
  using assms lc_stopped_result lc_results(2)
  by (auto simp: lc_recheck_def bindE_eq_Inr eq_str_def split: if_splits option.splits)

lemma lifecycle_cases:
  assumes "prepare_and_persist_dry_run_canary_lifecycle first second db i = Inr (db2, out)"
  obtains (refused) "db2 = db" "pget out ''lifecycle_result'' \<noteq> PStr ''TRANSACTION_STAGED''"
  | (staged) state preorder prepared pre_state recheck persisted where
      "load_canary_authorization_state first (PStr (clean (pget (li_authorization i) ''authorization_id'')))
         = Inr (Some state)"
      "lc_prepare i state = Inr (Inr (preorder, prepared))"
      "lc_recheck i second (clean (pget (li_authorization i) ''authorization_id''))
         = Inr (Inr (pre_state, recheck))"
      "persist_dry_run_canary_execution db prepared = Inr (db2, persisted)"
      "pget persisted ''persistence_result'' = PStr ''TRANSACTION_STAGED''"
      "out = lc_staged (clean (pget (li_authorization i) ''authorization_id'')) state preorder prepared
         pre_state recheck persisted"
proof -
  let ?a = "clean (pget (li_authorization i) ''authorization_id'')"
  note eq = assms [unfolded prepare_and_persist_dry_run_canary_lifecycle_def Let_def]
  show thesis
  proof (cases "offenders (\<lambda>v. \<not> is_dict v) (lc_inputs i) = [] \<and> ?a \<noteq> []")
    case False
    with eq lc_results(1) refused show thesis by (auto split: if_splits)
  next
    case True
    obtain loaded where load: "load_canary_authorization_state first (PStr ?a) = Inr loaded"
      using eq True by (auto simp: bindE_eq_Inr)
    show thesis
    proof (cases loaded)
      case None
      with eq True load have "db2 = db" "out = lc_unknown [''persisted_authorization_state'']
          [(''authorization_id'', PStr ?a), (''stopped_at'', PStr ''authorization_state'')]"
        by auto
      then show thesis using lc_results(2) refused by simp
    next
      case (Some state)
      with load have Some: "load_canary_authorization_state first (PStr ?a) = Inr (Some state)" by simp
      with eq True obtain v where v: "lc_prepare i state = Inr v" by (auto simp: bindE_eq_Inr)
      then show thesis
      proof (cases rule: lc_prepare_cases)
        case (stop s)
        with eq True Some v refused show thesis by auto
      next
        case (ready preorder prepared)
        with eq True Some v obtain w where w: "lc_recheck i second ?a = Inr w"
          by (auto simp: bindE_eq_Inr)
        then show thesis
        proof (cases rule: lc_recheck_cases)
          case (stop s)
          with eq True Some v ready(1) w refused show thesis by auto
        next
          case (ready pre_state recheck)
          note wr = ready(1)
          obtain persisted where p: "persist_dry_run_canary_execution db prepared = Inr (db2, persisted)"
            and out: "out = (if \<not> eq_str (pget persisted ''persistence_result'') ''TRANSACTION_STAGED''
              then lc_stopped ''persistence'' persisted
              else lc_staged ?a state preorder prepared pre_state recheck persisted)"
            using eq True Some v \<open>v = Inr (preorder, prepared)\<close> w wr by (auto simp: bindE_eq_Inr)
          show thesis
          proof (cases "eq_str (pget persisted ''persistence_result'') ''TRANSACTION_STAGED''")
            case True
            with staged [OF Some _ _ p] v \<open>v = Inr (preorder, prepared)\<close> w wr out show thesis
              by (simp add: eq_str_def)
          next
            case False
            then have "db2 = db" using persist_dry_refused [OF p] by (simp add: eq_str_def)
            with False out lc_stopped_result refused show thesis by simp
          qed
        qed
      qed
    qed
  qed
qed

lemma lifecycle_refused:
  assumes "prepare_and_persist_dry_run_canary_lifecycle first second db i = Inr (db2, out)"
    "pget out ''lifecycle_result'' \<noteq> PStr ''TRANSACTION_STAGED''"
  shows "db2 = db"
  using assms(1) by (cases rule: lifecycle_cases) (use assms(2) lc_results(4) in auto)

lemma canary_ok_lifecycle:
  assumes ok: "canary_ok db"
    and l: "prepare_and_persist_dry_run_canary_lifecycle first second db i = Inr (db2, out)"
  shows "canary_ok db2"
  using l
proof (cases rule: lifecycle_cases)
  case refused
  with ok show ?thesis by simp
next
  case staged
  with canary_ok_persist [OF ok staged(4)] show ?thesis by simp
qed


lemma passed_fields:
  "pget (cp_passed i n) ''authorization_id'' = PStr (pr_authorization_id n)"
  "pget (cp_passed i n) ''policy_version'' = PStr (pr_policy_version n)"
  "pget (cp_passed i n) ''requested_notional_usd'' = num_val (pr_requested_notional n)"
  "pget (cp_passed i n) ''max_loss_usd'' = num_val (pr_max_loss n)"
  by (simp_all add: cp_passed_def cp_authority_def dget_dlast)

lemma canary_state_fields:
  "pget (canary_state r) ''consumed'' = PBool (cw_consumed r)"
  "pget (canary_state r) ''version'' = PInt (cw_version r)"
  "pget (canary_state r) ''authorization_id'' = PStr (cw_authorization r)"
  by (simp_all add: canary_state_def dget_def)

lemma load_Some:
  "load_canary_authorization_state db (PStr (clean v)) = Inr (Some s) \<Longrightarrow>
     \<exists>r. canary_row_of db (clean v) = Some r \<and> s = canary_state r"
  using strip_clean [OF refl, of v]
  by (auto simp: load_canary_authorization_state_def Let_def bindE_eq_Inr split: if_splits)

text \<open>A ready adapter read the check's numbers and stays within them.\<close>

lemma ready_within:
  assumes "prepare_dry_run_canary_execution j = Inr prepared" "pget prepared ''adapter_result'' = PStr ''DRY_RUN_READY''"
    and "de_preorder j = cp_passed i m" "pr_requested_notional m = Some w" "pr_max_loss m = Some k"
  obtains n q d where "prepared = dr_ready j n" "dr_collect j = Inr ([], n)" "dr_blockers j n = []"
    "dn_requested_notional n = Some q" "dn_max_loss n = Some k" "dn_requested_at n = Some d"
    "0 < q" "q \<le> w" "q \<le> max_canary_notional" "k \<le> w"
proof -
  obtain n where n: "dr_collect j = Inr ([], n)" "dr_blockers j n = []" "prepared = dr_ready j n"
    using dr.pass_result [OF assms(1,2)] by blast
  obtain q d where q: "dn_requested_notional n = Some q" "0 < q" "dn_requested_at n = Some d"
    using collect_dr(10,11) [OF n(1)] by auto
  have "dn_authorized_notional n = Some w" "dn_max_loss n = Some k"
    using n(1) assms(3-5) by (auto simp: dr_collect_def Let_def bindE_eq_Inr passed_fields)
  with n q that show thesis by (auto simp: dr_blockers_def Let_def not_less)
qed

lemma lifecycle_staged:
  assumes l: "prepare_and_persist_dry_run_canary_lifecycle first second db i = Inr (db2, out)"
    and st: "pget out ''lifecycle_result'' = PStr ''TRANSACTION_STAGED''"
    and ok: "canary_ok db"
  obtains r1 r2 r q authorized x where
    "canary_row_of first (clean (pget (li_authorization i) ''authorization_id'')) = Some r1" "\<not> cw_consumed r1"
    "canary_row_of second (clean (pget (li_authorization i) ''authorization_id'')) = Some r2" "\<not> cw_consumed r2"
    "canary_row_of db (clean (pget (li_authorization i) ''authorization_id'')) = Some r" "\<not> cw_consumed r"
    "cw_version r = cw_version r1"
    "canary_row_of db2 (clean (pget (li_authorization i) ''authorization_id'')) = Some (consume_set x r)"
    "cq_attempt x = clean (pget (li_request i) ''attempt_id'')" "cq_proposed x = cw_version r1 + 1"
    "runtime_safe (li_runtime i)" "infrastructure_safe (li_infrastructure i)"
    "runtime_safe (li_pre_runtime i)" "infrastructure_safe (li_pre_infrastructure i)"
    "number (pget (li_authorization i) ''canary_notional_usd'') = Inr (Some authorized)"
    "\<exists>y. cd_audit db2 = cd_audit db @ [y] \<and> da_notional y = Fin q
       \<and> da_attempt y = clean (pget (li_request i) ''attempt_id'')"
    "0 < q" "q \<le> authorized" "q \<le> max_canary_notional"
  using l
proof (cases rule: lifecycle_cases)
  case refused
  with st show ?thesis by simp
next
  case (staged state preorder prepared pre_state recheck persisted)
  let ?a = "clean (pget (li_authorization i) ''authorization_id'')"
  let ?i1 = "\<lparr>pe_canary_authorization = li_authorization i, pe_runtime = li_runtime i,
      pe_infrastructure = li_infrastructure i, pe_authorization_state = state\<rparr>"
  let ?i2 = "\<lparr>pe_canary_authorization = li_authorization i, pe_runtime = li_pre_runtime i,
      pe_infrastructure = li_pre_infrastructure i, pe_authorization_state = pre_state\<rparr>"
  obtain r1 where r1: "canary_row_of first ?a = Some r1" "state = canary_state r1"
    using load_Some [OF staged(1)] by auto
  have p: "evaluate_canary_preorder_runtime_safety ?i1 = Inr preorder"
      "pget preorder ''preorder_result'' = PStr ''PASS''"
      "prepare_dry_run_canary_execution
         \<lparr>de_preorder = preorder, de_authorization_state = state, de_request = li_request i\<rparr> = Inr prepared"
      "pget prepared ''adapter_result'' = PStr ''DRY_RUN_READY''"
    using staged(2) by (auto elim: lc_prepare_cases)
  have c: "load_canary_authorization_state second (PStr ?a) = Inr (Some pre_state)"
      "evaluate_canary_preorder_runtime_safety ?i2 = Inr recheck" "pget recheck ''preorder_result'' = PStr ''PASS''"
    using staged(3) by (auto elim: lc_recheck_cases)
  obtain r2 where r2: "canary_row_of second ?a = Some r2" "pre_state = canary_state r2"
    using load_Some [OF c(1)] by auto
  have "cp.verdict ?i1 ''PASS''" using p by (auto simp: cp.verdict_def)
  then obtain m authorized k w where m: "evaluate_canary_preorder_runtime_safety ?i1 = Inr (cp_passed ?i1 m)"
      "cp_collect ?i1 = Inr ([], m)" "pr_authorized_notional m = Some authorized"
      "pr_requested_notional m = Some w" "pr_max_loss m = Some k" "w \<le> authorized"
      "is_false (pget state ''consumed'')" "runtime_safe (li_runtime i)" "infrastructure_safe (li_infrastructure i)"
    by (rule preorder_safe) (use that in simp)
  have "cp.verdict ?i2 ''PASS''" using c by (auto simp: cp.verdict_def)
  then have m2: "is_false (pget pre_state ''consumed'')" "runtime_safe (li_pre_runtime i)"
      "infrastructure_safe (li_pre_infrastructure i)"
    by (rule preorder_safe, simp)+
  have pre: "preorder = cp_passed ?i1 m" using p(1) m(1) by simp
  let ?j = "\<lparr>de_preorder = preorder, de_authorization_state = state, de_request = li_request i\<rparr>"
  have jp: "de_preorder ?j = cp_passed ?i1 m" by (simp only: adapter_evidence.simps pre)
  obtain n q d where n: "prepared = dr_ready ?j n" "dr_collect ?j = Inr ([], n)" "dr_blockers ?j n = []"
      "dn_requested_notional n = Some q" "dn_max_loss n = Some k" "dn_requested_at n = Some d"
      "0 < q" "q \<le> w" "q \<le> max_canary_notional"
    by (rule ready_within [OF p(3,4) jp m(4,5)])
  obtain dn where dn: "validate_prepared prepared = Inr (Inr dn)" "persisted = dp_staged prepared dn"
      "consume_swap db (cq_authorization (dx_request dn)) (cq_expected (dx_request dn))
         (dx_request dn, dp_audit_row dn) = Some db2"
    using persist_dry_swap [OF staged(4,5)] by blast
  have dn': "dn = ready_normal ?j n d q k"
    using validate_ready [OF n(2-6)] dn(1) n(1) by (auto split: if_splits)
  have auth: "dn_authorization_id n = ?a"
    using collect_dr(1) [OF n(2)] collect_cp(1) [OF m(2)] strip_clean [OF collect_cp(1) [OF m(2)]]
    by (simp add: pre passed_fields)
  have att: "dn_attempt_id n = clean (pget (li_request i) ''attempt_id'')"
    using collect_dr(3) [OF n(2)] by simp
  have ver: "dr_state_version ?j = cw_version r1"
    by (simp add: dr_state_version_def r1(2) canary_state_fields)
  have sw: "consume_swap db ?a (cw_version r1) (dx_request dn, dp_audit_row dn) = Some db2"
    using dn(3) auth ver by (simp add: dn' ready_normal_def)
  have aud: "cd_audit db2 = cd_audit db @ [dp_audit_row dn]"
    using consume_swap_audit [OF sw] by simp
  let ?x = "dx_request dn"
  from ok sw obtain r where xr: "r \<in> set (cd_rows db)" "cw_authorization r = ?a" "cw_version r = cw_version r1"
      "\<not> cw_consumed r" "canary_row_of db2 ?a = Some (consume_set ?x r)"
    by (rule consume_swap_row') (rule that, simp_all)
  have num: "number (pget (li_authorization i) ''canary_notional_usd'') = Inr (Some authorized)"
    using collect_cp(6) [OF m(2)] m(3) by auto
  show ?thesis
  proof (rule that [OF r1(1) _ r2(1) _ _ xr(4,3,5) _ _ m(8,9) m2(2,3) num])
    show "\<not> cw_consumed r1" using m(7) by (simp add: r1(2) canary_state_fields)
    show "\<not> cw_consumed r2" using m2(1) by (simp add: r2(2) canary_state_fields)
    show "canary_row_of db ?a = Some r" using xr(1,2) by (simp add: canary_row_of_iff [OF ok])
    show "cq_attempt ?x = clean (pget (li_request i) ''attempt_id'')"
      by (simp add: dn' ready_normal_def att)
    show "cq_proposed ?x = cw_version r1 + 1" by (simp add: dn' ready_normal_def ver)
    show "\<exists>y. cd_audit db2 = cd_audit db @ [y] \<and> da_notional y = Fin q
       \<and> da_attempt y = clean (pget (li_request i) ''attempt_id'')"
      using aud by (simp add: dp_audit_row_def Let_def dn' ready_normal_def att)
    show "0 < q" "q \<le> max_canary_notional" by (rule n)+
    show "q \<le> authorized" using n(8) m(6) by simp
  qed
qed

end
