(* ===== verification/Final_Readiness.thy ===== *)
theory Final_Readiness
  imports Fail_Closed
begin

text \<open>
  The final readiness aggregation (\<^verbatim>\<open>final_canary_readiness.py\<close>): release gate, authorization,
  verification history, infrastructure and safety evidence into one verdict.
\<close>

definition fr_authority :: pydict where
  "fr_authority =
    [(''interpretation'', PStr ''FINAL_PRELIVE_CANARY_READINESS_EVIDENCE_ONLY''),
     (''live_execution'', PBool False),
     (''trading_authority'', PBool False),
     (''trade_signal'', PBool False),
     (''recommendation_authority'', PBool False),
     (''rpc_contact_allowed'', PBool False),
     (''transaction_signing_allowed'', PBool False),
     (''order_submission_allowed'', PBool False),
     (''automatic_execution'', PBool False),
     (''automatic_canary_activation'', PBool False)]"

definition fr_required_verifications :: "string list" where
  "fr_required_verifications =
    [''paper_walk_forward_integration_verified'',
     ''authorization_provisioning_verified'',
     ''real_postgres_concurrency_verified'',
     ''persisted_dry_run_lifecycle_verified'',
     ''restart_persistence_verified'',
     ''replay_rejection_verified'',
     ''rollback_before_commit_verified'',
     ''audit_failure_atomic_rollback_verified'',
     ''kill_switch_pre_persistence_recheck_verified'',
     ''zero_external_side_effects_verified'']"

definition fr_unknown :: "string list \<Rightarrow> pydict \<Rightarrow> pyval" where
  "fr_unknown missing extra = PDict (dict_of (
    [(''status'', PStr ''UNKNOWN''),
     (''operational_readiness_result'', PStr ''UNKNOWN''),
     (''eligible_for_live_executor_review'', PBool False),
     (''missing'', names (fromkeys missing))] @ extra @ fr_authority))"

definition fr_blocked :: "string list \<Rightarrow> pydict \<Rightarrow> pyval" where
  "fr_blocked blockers extra = PDict (dict_of (
    [(''status'', PStr ''OBSERVED''),
     (''operational_readiness_result'', PStr ''BLOCKED''),
     (''eligible_for_live_executor_review'', PBool False),
     (''blockers'', names (fromkeys blockers))] @ extra @ fr_authority))"

definition fr_powers :: "string list" where
  "fr_powers =
    [''live_execution'', ''trading_authority'', ''trade_signal'', ''recommendation_authority'',
     ''rpc_contact_allowed'', ''transaction_signing_allowed'', ''order_submission_allowed'',
     ''rpc_contacted'', ''transaction_signed'', ''order_submitted'', ''wallet_mutated'',
     ''automatic_execution'', ''automatic_canary_activation'']"

record readiness_evidence =
  fe_release_gate :: pyval
  fe_canary_authorization :: pyval
  fe_verification :: pyval
  fe_infrastructure :: pyval
  fe_safety :: pyval
  fe_policy_version :: pyval

definition fr_inputs :: "readiness_evidence \<Rightarrow> pydict" where
  "fr_inputs i =
    [(''release_gate'', fe_release_gate i),
     (''canary_authorization'', fe_canary_authorization i),
     (''verification'', fe_verification i),
     (''infrastructure'', fe_infrastructure i),
     (''safety'', fe_safety i)]"

definition fr_screen :: "readiness_evidence \<Rightarrow> pyval option" where
  "fr_screen i =
    (let version = clean (fe_policy_version i) in
     if version = [] then Some (fr_unknown [''operational_policy_version''] [])
     else screen_inputs fr_powers fr_unknown ''non_authoritative_operational_evidence''
            ''authority_contamination'' [(''policy_version'', PStr version)] (fr_inputs i))"

record readiness_reading =
  rd_version :: string
  rd_release_policy :: string
  rd_authorization_id :: string
  rd_authorization_policy :: string
  rd_notional :: "rat option"
  rd_max_loss :: "rat option"
  rd_proof_policy :: string
  rd_tested_main_sha :: string
  rd_proof_source :: string

definition fr_collect :: "readiness_evidence \<Rightarrow> (string list \<times> readiness_reading) res" where
  "fr_collect i =
    (let release_gate = pget (fe_release_gate i); authorization = pget (fe_canary_authorization i);
         verification = pget (fe_verification i); infrastructure = pget (fe_infrastructure i);
         safety = pget (fe_safety i);
         release_policy = clean (release_gate ''policy_version'');
         authorization_id = clean (authorization ''authorization_id'');
         authorization_policy = clean (authorization ''policy_version'');
         proof_policy = clean (verification ''policy_version'');
         tested_main_sha = clean (verification ''tested_main_sha'');
         proof_source = clean (verification ''proof_source'')
     in
     bindE (number_strict (authorization ''canary_notional_usd'')) (\<lambda>notional.
     bindE (number_strict (authorization ''max_loss_usd'')) (\<lambda>max_loss.
     bindE (in_str_set (infrastructure ''status'') [''HEALTHY'', ''OBSERVED'']) (\<lambda>healthy.
       Inr
        (need (eq_str (release_gate ''status'') ''OBSERVED'') ''observed_release_gate''
         @ need (eq_str (release_gate ''release_gate_result'') ''PASS'') ''passed_release_gate''
         @ need (is_true (release_gate ''eligible_for_isolated_canary_review''))
                ''release_gate_canary_review_eligibility''
         @ need (is_false (release_gate ''live_canary_unlocked'')) ''release_gate_does_not_unlock_live''
         @ need (release_policy \<noteq> []) ''release_gate_policy_version''
         @ need (eq_str (authorization ''status'') ''OBSERVED'') ''observed_canary_authorization''
         @ need (eq_str (authorization ''canary_authorization_result'') ''PASS'')
                ''passed_canary_authorization''
         @ need (is_true (authorization ''canary_execution_eligible'')) ''canary_execution_eligibility''
         @ need (is_true (authorization ''human_authorized'')) ''human_authorization''
         @ need (authorization_id \<noteq> []) ''authorization_id''
         @ need (authorization_policy \<noteq> []) ''authorization_policy_version''
         @ need (positive notional) ''valid_canary_notional_usd''
         @ need (positive max_loss) ''valid_max_loss_usd''
         @ need (eq_str (verification ''status'') ''OBSERVED'') ''observed_verification_evidence''
         @ need (proof_policy \<noteq> []) ''verification_policy_version''
         @ need (tested_main_sha \<noteq> []) ''tested_main_sha''
         @ need (proof_source \<noteq> []) ''verification_proof_source''
         @ concat (map (\<lambda>k. need (present (fe_verification i) k) k) fr_required_verifications)
         @ need healthy ''observed_infrastructure_health''
         @ need (present (fe_infrastructure i) ''critical_services_healthy'')
                ''critical_services_healthy_evidence''
         @ need (present (fe_infrastructure i) ''unresolved_critical_incidents'') ''critical_incident_evidence''
         @ need (is_true (infrastructure ''revalidated_for_canary'')) ''canary_infrastructure_revalidated''
         @ need (clean (infrastructure ''checked_at'') \<noteq> []) ''infrastructure_checked_at''
         @ need (eq_str (safety ''status'') ''OBSERVED'') ''observed_safety_evidence''
         @ need (is_true (safety ''safety_checks_complete'')) ''completed_safety_checks''
         @ need (is_list (safety ''unresolved_safety_failures'')) ''unresolved_safety_failures_list'',
         \<lparr>rd_version = clean (fe_policy_version i),
          rd_release_policy = release_policy,
          rd_authorization_id = authorization_id,
          rd_authorization_policy = authorization_policy,
          rd_notional = notional,
          rd_max_loss = max_loss,
          rd_proof_policy = proof_policy,
          rd_tested_main_sha = tested_main_sha,
          rd_proof_source = proof_source\<rparr>)))))"

definition fr_blockers :: "readiness_evidence \<Rightarrow> readiness_reading \<Rightarrow> string list" where
  "fr_blockers i n =
    (let authorization = pget (fe_canary_authorization i); verification = pget (fe_verification i);
         infrastructure = pget (fe_infrastructure i); safety = pget (fe_safety i)
     in
       need (rd_release_policy n = rd_version n \<and> rd_authorization_policy n = rd_version n
             \<and> rd_proof_policy n = rd_version n) ''policy_version_mismatch''
     @ need (\<not> above (rd_notional n) (Some max_canary_notional)) ''canary_notional_exceeds_20_usd''
     @ need (\<not> above (rd_max_loss n) (rd_notional n)) ''loss_cap_exceeds_canary_notional''
     @ need (eq_int (authorization ''max_open_positions'') 1) ''single_position_isolation_required''
     @ concat (map (\<lambda>k. need (is_true (authorization k)) (k @ ''_required''))
                 [''kill_switch_armed'', ''isolated_funds'', ''isolated_account_or_wallet''])
     @ filter (\<lambda>k. \<not> is_true (verification k)) fr_required_verifications
     @ need (is_true (infrastructure ''critical_services_healthy'')) ''critical_services_unhealthy''
     @ need (eq_int (infrastructure ''unresolved_critical_incidents'') 0) ''unresolved_critical_incidents''
     @ need (\<not> truthy (safety ''unresolved_safety_failures'')) ''unresolved_safety_failures'')"

definition fr_unknown_result :: "readiness_evidence \<Rightarrow> readiness_reading \<Rightarrow> string list \<Rightarrow> pyval" where
  "fr_unknown_result i n ms = fr_unknown ms
    [(''policy_version'', PStr (rd_version n)), (''authorization_id'', or_none (rd_authorization_id n))]"

definition fr_blocked_result :: "readiness_evidence \<Rightarrow> readiness_reading \<Rightarrow> string list \<Rightarrow> pyval" where
  "fr_blocked_result i n bs = fr_blocked bs
    [(''policy_version'', PStr (rd_version n)),
     (''authorization_id'', PStr (rd_authorization_id n)),
     (''tested_main_sha'', PStr (rd_tested_main_sha n)),
     (''evidence'', PDict (fr_inputs i)),
     (''next_step'', PStr ''REMAIN_NON_LIVE_AND_FIX_BLOCKERS'')]"

definition fr_checks :: pydict where
  "fr_checks =
    (''release_gate_passed'', PBool True)
    # (''isolated_canary_authorization_passed'', PBool True)
    # map (\<lambda>k. (k, PBool True)) fr_required_verifications
    @ [(''critical_infrastructure_healthy'', PBool True),
       (''no_unresolved_critical_incidents'', PBool True),
       (''no_unresolved_safety_failures'', PBool True)]"

definition fr_passed :: "readiness_evidence \<Rightarrow> readiness_reading \<Rightarrow> pyval" where
  "fr_passed i n = PDict (dict_of (
    [(''status'', PStr ''OBSERVED''),
     (''operational_readiness_result'', PStr ''PASS''),
     (''eligible_for_live_executor_review'', PBool True),
     (''live_canary_unlocked'', PBool False),
     (''live_executor_implemented'', PBool False),
     (''policy_version'', PStr (rd_version n)),
     (''authorization_id'', PStr (rd_authorization_id n)),
     (''canary_notional_usd'', num_val (rd_notional n)),
     (''max_loss_usd'', num_val (rd_max_loss n)),
     (''maximum_canary_notional_usd'', PFloat (Fin max_canary_notional)),
     (''tested_main_sha'', PStr (rd_tested_main_sha n)),
     (''proof_source'', PStr (rd_proof_source n)),
     (''checks'', PDict fr_checks),
     (''evidence'', PDict (fr_inputs i)),
     (''next_step'', PStr ''SEPARATE_REVIEW_OF_NON_AUTOMATIC_LIVE_EXECUTOR_BOUNDARY'')]
    @ fr_authority))"

definition evaluate_final_canary_readiness :: "readiness_evidence \<Rightarrow> pyval res" where
  "evaluate_final_canary_readiness i =
    (case fr_screen i of
       Some r \<Rightarrow> Inr r
     | None \<Rightarrow> bindE (fr_collect i) (\<lambda>(missing, n).
         Inr (if missing \<noteq> [] then fr_unknown_result i n missing
              else if fr_blockers i n \<noteq> [] then fr_blocked_result i n (fr_blockers i n)
              else fr_passed i n)))"

interpretation fr: fail_closed evaluate_final_canary_readiness fr_screen fr_collect
  fr_blockers fr_unknown_result fr_blocked_result fr_passed "''operational_readiness_result''" "''PASS''"
  by unfold_locales
    (auto simp: evaluate_final_canary_readiness_def fr_screen_def Let_def fr_unknown_result_def
      fr_blocked_result_def fr_passed_def fr_unknown_def fr_blocked_def fr_authority_def dget_dlast
      split: option.splits if_splits elim!: screen_inputs_Some)

end
