(* ===== verification/Executor_Boundary.thy ===== *)
theory Executor_Boundary
  imports Fail_Closed
begin

text \<open>
  The boundary contract of a future live executor (\<^verbatim>\<open>live_executor_boundary_contract.py\<close>): final
  readiness, durable authorization state, runtime, quote and request.
\<close>

definition eb_submission_states :: "string list" where
  "eb_submission_states =
    [''NOT_SENT'', ''SUBMISSION_UNKNOWN'', ''SUBMITTED'', ''CONFIRMED'', ''FAILED'']"

definition eb_authority :: pydict where
  "eb_authority =
    [(''interpretation'', PStr ''NON_BROADCASTING_LIVE_EXECUTOR_BOUNDARY_CONTRACT_ONLY''),
     (''live_execution'', PBool False),
     (''trading_authority'', PBool False),
     (''trade_signal'', PBool False),
     (''recommendation_authority'', PBool False),
     (''rpc_contact_allowed'', PBool False),
     (''transaction_signing_allowed'', PBool False),
     (''order_submission_allowed'', PBool False),
     (''wallet_mutation_allowed'', PBool False),
     (''automatic_execution'', PBool False),
     (''automatic_retry_allowed'', PBool False)]"

definition eb_unknown :: "string list \<Rightarrow> pydict \<Rightarrow> pyval" where
  "eb_unknown missing extra = PDict (dict_of (
    [(''status'', PStr ''UNKNOWN''),
     (''executor_boundary_result'', PStr ''UNKNOWN''),
     (''executor_contract_ready'', PBool False),
     (''submission_state'', PStr ''NOT_SENT''),
     (''safe_to_retry'', PBool False),
     (''missing'', names (fromkeys missing))] @ extra @ eb_authority))"

definition eb_blocked :: "string list \<Rightarrow> pydict \<Rightarrow> pyval" where
  "eb_blocked blockers extra = PDict (dict_of (
    [(''status'', PStr ''OBSERVED''),
     (''executor_boundary_result'', PStr ''BLOCKED''),
     (''executor_contract_ready'', PBool False),
     (''submission_state'', PStr ''NOT_SENT''),
     (''safe_to_retry'', PBool False),
     (''blockers'', names (fromkeys blockers))] @ extra @ eb_authority))"

definition executor_powers :: "string list" where
  "executor_powers =
    [''live_execution'', ''trading_authority'', ''trade_signal'', ''recommendation_authority'',
     ''rpc_contact_allowed'', ''transaction_signing_allowed'', ''order_submission_allowed'',
     ''rpc_contacted'', ''transaction_signed'', ''order_submitted'', ''wallet_mutated'',
     ''wallet_mutation_allowed'', ''automatic_execution'', ''automatic_retry_allowed'']"

record boundary_evidence =
  be_final_readiness :: pyval
  be_authorization_state :: pyval
  be_runtime :: pyval
  be_quote :: pyval
  be_request :: pyval

definition eb_inputs :: "boundary_evidence \<Rightarrow> pydict" where
  "eb_inputs i =
    [(''final_readiness'', be_final_readiness i),
     (''authorization_state'', be_authorization_state i),
     (''runtime'', be_runtime i),
     (''quote'', be_quote i),
     (''request'', be_request i)]"

definition eb_screen :: "boundary_evidence \<Rightarrow> pyval option" where
  "eb_screen i =
     screen_inputs executor_powers eb_unknown ''non_authoritative_executor_boundary_evidence''
       ''authority_contamination'' [] (eb_inputs i)"

definition eb_runtime_keys :: "string list" where
  "eb_runtime_keys =
    [''kill_switch_armed'', ''isolated_funds'', ''isolated_account_or_wallet'', ''no_borrowing'',
     ''no_leverage'']"

record boundary_reading =
  bn_readiness_policy :: string
  bn_readiness_auth :: string
  bn_readiness_notional :: "rat option"
  bn_readiness_loss :: "rat option"
  bn_state_auth :: string
  bn_state_policy :: string
  bn_requested_notional :: "rat option"
  bn_realized_loss :: "rat option"
  bn_evaluated_at :: "py_datetime option"
  bn_quote_id :: string
  bn_quoted_at :: "py_datetime option"
  bn_expires_at :: "py_datetime option"
  bn_quote_notional :: "rat option"
  bn_request_auth :: string
  bn_request_policy :: string
  bn_attempt_id :: string
  bn_idempotency_key :: string
  bn_request_quote :: string
  bn_requested_at :: "py_datetime option"
  bn_prior_state :: string

text \<open>The fields of the five inputs as the function reads them; only the numbers can raise.\<close>

definition eb_read :: "boundary_evidence \<Rightarrow> boundary_reading res" where
  "eb_read i =
    (let readiness = pget (be_final_readiness i); state = pget (be_authorization_state i);
         runtime = pget (be_runtime i); quote = pget (be_quote i); request = pget (be_request i)
     in
     bindE (number_strict (readiness ''canary_notional_usd'')) (\<lambda>readiness_notional.
     bindE (number_strict (readiness ''max_loss_usd'')) (\<lambda>readiness_loss.
     bindE (number_strict (runtime ''requested_notional_usd'')) (\<lambda>requested_notional.
     bindE (number_strict (runtime ''realized_loss_usd'')) (\<lambda>realized_loss.
     bindE (number_strict (quote ''notional_usd'')) (\<lambda>quote_notional.
       Inr \<lparr>bn_readiness_policy = clean (readiness ''policy_version''),
            bn_readiness_auth = clean (readiness ''authorization_id''),
            bn_readiness_notional = readiness_notional,
            bn_readiness_loss = readiness_loss,
            bn_state_auth = clean (state ''authorization_id''),
            bn_state_policy = clean (state ''policy_version''),
            bn_requested_notional = requested_notional,
            bn_realized_loss = realized_loss,
            bn_evaluated_at = iso_time_stripped (runtime ''evaluated_at''),
            bn_quote_id = clean (quote ''quote_id''),
            bn_quoted_at = iso_time_stripped (quote ''quoted_at''),
            bn_expires_at = iso_time_stripped (quote ''expires_at''),
            bn_quote_notional = quote_notional,
            bn_request_auth = clean (request ''authorization_id''),
            bn_request_policy = clean (request ''policy_version''),
            bn_attempt_id = clean (request ''attempt_id''),
            bn_idempotency_key = clean (request ''idempotency_key''),
            bn_request_quote = clean (request ''quote_id''),
            bn_requested_at = iso_time_stripped (request ''requested_at''),
            bn_prior_state = clean (request ''prior_submission_state'')\<rparr>))))))"

definition eb_missing :: "boundary_evidence \<Rightarrow> boundary_reading \<Rightarrow> string list" where
  "eb_missing i n =
    (let readiness = pget (be_final_readiness i); state = pget (be_authorization_state i);
         runtime = pget (be_runtime i)
     in
       need (eq_str (readiness ''status'') ''OBSERVED'') ''observed_final_readiness''
     @ need (eq_str (readiness ''operational_readiness_result'') ''PASS'') ''passed_final_readiness''
     @ need (is_true (readiness ''eligible_for_live_executor_review'')) ''live_executor_review_eligibility''
     @ need (is_false (readiness ''live_canary_unlocked'')) ''final_readiness_does_not_unlock_live''
     @ need (bn_readiness_policy n \<noteq> []) ''readiness_policy_version''
     @ need (bn_readiness_auth n \<noteq> []) ''readiness_authorization_id''
     @ need (positive (bn_readiness_notional n)) ''readiness_canary_notional_usd''
     @ need (positive (bn_readiness_loss n)) ''readiness_max_loss_usd''
     @ need (bn_state_auth n \<noteq> []) ''authorization_state_id''
     @ need (bn_state_policy n \<noteq> []) ''authorization_state_policy_version''
     @ need (int_satisfies (\<lambda>v. 0 \<le> v) (state ''version'')) ''authorization_state_version''
     @ need (present (be_authorization_state i) ''consumed'') ''authorization_consumed_state''
     @ need (present (be_authorization_state i) ''use_count'') ''authorization_use_count''
     @ concat (map (\<lambda>k. need (present (be_runtime i) k) k) eb_runtime_keys)
     @ need (positive (bn_requested_notional n)) ''valid_requested_notional_usd''
     @ need (non_negative (bn_realized_loss n)) ''valid_realized_loss_usd''
     @ need (int_satisfies (\<lambda>v. 0 \<le> v) (runtime ''open_positions'')) ''valid_open_positions''
     @ need (bn_evaluated_at n \<noteq> None) ''runtime_evaluated_at''
     @ need (bn_quote_id n \<noteq> []) ''quote_id''
     @ need (bn_quoted_at n \<noteq> None) ''quote_quoted_at''
     @ need (bn_expires_at n \<noteq> None) ''quote_expires_at''
     @ need (positive (bn_quote_notional n)) ''quote_notional_usd''
     @ need (bn_request_auth n \<noteq> []) ''request_authorization_id''
     @ need (bn_request_policy n \<noteq> []) ''request_policy_version''
     @ need (bn_attempt_id n \<noteq> []) ''attempt_id''
     @ need (bn_idempotency_key n \<noteq> []) ''idempotency_key''
     @ need (bn_request_quote n \<noteq> []) ''request_quote_id''
     @ need (bn_requested_at n \<noteq> None) ''request_requested_at''
     @ need (bn_prior_state n \<in> set eb_submission_states) ''valid_prior_submission_state'')"

definition eb_collect :: "boundary_evidence \<Rightarrow> (string list \<times> boundary_reading) res" where
  "eb_collect i = bindE (eb_read i) (\<lambda>n. Inr (eb_missing i n, n))"

text \<open>\<^verbatim>\<open>a < b\<close> on two instants that are both there.\<close>

fun before :: "py_datetime option \<Rightarrow> py_datetime option \<Rightarrow> bool" where
  "before (Some a) (Some b) = (utc_micros a < utc_micros b)"
| "before _ _ = True"

definition eb_blockers :: "boundary_evidence \<Rightarrow> boundary_reading \<Rightarrow> string list" where
  "eb_blockers i n =
    (let state = pget (be_authorization_state i); runtime = pget (be_runtime i) in
       need (bn_readiness_policy n = bn_state_policy n \<and> bn_state_policy n = bn_request_policy n)
            ''policy_version_mismatch''
     @ need (bn_readiness_auth n = bn_state_auth n \<and> bn_state_auth n = bn_request_auth n)
            ''authorization_id_mismatch''
     @ need (is_false (state ''consumed'') \<and> eq_int (state ''use_count'') 0) ''authorization_not_fresh_single_use''
     @ need (\<not> above (bn_requested_notional n) (Some max_canary_notional)) ''requested_notional_exceeds_20_usd''
     @ need (\<not> above (bn_requested_notional n) (bn_readiness_notional n))
            ''requested_notional_exceeds_readiness_notional''
     @ need (bn_quote_notional n = bn_requested_notional n) ''quote_notional_mismatch''
     @ need (\<not> at_least (bn_realized_loss n) (bn_readiness_loss n)) ''max_loss_reached''
     @ need (eq_int (runtime ''open_positions'') 0) ''existing_open_position''
     @ need (is_true (runtime ''kill_switch_armed'')) ''kill_switch_not_armed''
     @ need (is_true (runtime ''isolated_funds'')) ''funds_not_isolated''
     @ need (is_true (runtime ''isolated_account_or_wallet'')) ''account_or_wallet_not_isolated''
     @ need (is_true (runtime ''no_borrowing'')) ''borrowing_not_prohibited''
     @ need (is_true (runtime ''no_leverage'')) ''leverage_not_prohibited''
     @ need (bn_request_quote n = bn_quote_id n) ''quote_id_mismatch''
     @ need (before (bn_quoted_at n) (bn_expires_at n)) ''invalid_quote_expiry_window''
     @ need (\<not> before (bn_requested_at n) (bn_quoted_at n)) ''request_precedes_quote''
     @ need (before (bn_requested_at n) (bn_expires_at n) \<and> before (bn_evaluated_at n) (bn_expires_at n))
            ''quote_expired''
     @ need (bn_prior_state n = ''NOT_SENT'') ''prior_submission_not_proven_not_sent'')"

text \<open>\<^verbatim>\<open>readiness_auth or request_auth or None\<close>\<close>

definition eb_unknown_result :: "boundary_evidence \<Rightarrow> boundary_reading \<Rightarrow> string list \<Rightarrow> pyval" where
  "eb_unknown_result i n ms = eb_unknown ms
    [(''authorization_id'',
      if bn_readiness_auth n \<noteq> [] then PStr (bn_readiness_auth n) else or_none (bn_request_auth n))]"

definition eb_blocked_result :: "boundary_evidence \<Rightarrow> boundary_reading \<Rightarrow> string list \<Rightarrow> pyval" where
  "eb_blocked_result i n bs = eb_blocked bs
    [(''authorization_id'', PStr (bn_readiness_auth n)),
     (''attempt_id'', PStr (bn_attempt_id n)),
     (''idempotency_key'', PStr (bn_idempotency_key n)),
     (''prior_submission_state'', PStr (bn_prior_state n)),
     (''evidence'', PDict (eb_inputs i)),
     (''next_step'', PStr (if bn_prior_state n = ''SUBMISSION_UNKNOWN''
                           then ''DO_NOT_RETRY; RECONCILE_SUBMISSION_STATE''
                           else ''REMAIN_NON_BROADCASTING_AND_FIX_BLOCKERS''))]"

definition eb_checks :: pydict where
  "eb_checks = map (\<lambda>k. (k, PBool True))
    [''final_readiness_passed'', ''fresh_single_use_authorization'', ''policy_and_authorization_match'',
     ''hard_20_usd_cap'', ''loss_cap_not_reached'', ''no_existing_open_position'', ''kill_switch_armed'',
     ''isolated_no_borrowing_no_leverage'', ''quote_fresh_and_matching'', ''idempotency_present'',
     ''prior_submission_proven_not_sent'']"

definition eb_contract :: "boundary_evidence \<Rightarrow> boundary_reading \<Rightarrow> pyval" where
  "eb_contract i n = PDict (dict_of (
    [(''status'', PStr ''OBSERVED''),
     (''executor_boundary_result'', PStr ''CONTRACT_READY''),
     (''executor_contract_ready'', PBool True),
     (''authorization_id'', PStr (bn_readiness_auth n)),
     (''authorization_version'', pget (be_authorization_state i) ''version''),
     (''policy_version'', PStr (bn_readiness_policy n)),
     (''attempt_id'', PStr (bn_attempt_id n)),
     (''idempotency_key'', PStr (bn_idempotency_key n)),
     (''quote_id'', PStr (bn_quote_id n)),
     (''requested_notional_usd'', num_val (bn_requested_notional n)),
     (''max_loss_usd'', num_val (bn_readiness_loss n)),
     (''submission_state'', PStr ''NOT_SENT''),
     (''safe_to_retry'', PBool False),
     (''private_key_material_required'', PBool False),
     (''private_key_material_logged'', PBool False),
     (''intelligence_direct_executor_access'', PBool False),
     (''checks'', PDict eb_checks),
     (''evidence'', PDict (eb_inputs i)),
     (''next_step'', PStr ''EXECUTOR_FAILURE_MODE_SIMULATION_REVIEW_ONLY'')]
    @ eb_authority))"

definition evaluate_live_executor_boundary_contract :: "boundary_evidence \<Rightarrow> pyval res" where
  "evaluate_live_executor_boundary_contract i =
    (case eb_screen i of
       Some r \<Rightarrow> Inr r
     | None \<Rightarrow> bindE (eb_collect i) (\<lambda>(missing, n).
         Inr (if missing \<noteq> [] then eb_unknown_result i n missing
              else if eb_blockers i n \<noteq> [] then eb_blocked_result i n (eb_blockers i n)
              else eb_contract i n)))"

interpretation eb: fail_closed evaluate_live_executor_boundary_contract eb_screen eb_collect
  eb_blockers eb_unknown_result eb_blocked_result eb_contract "''executor_boundary_result''"
  "''CONTRACT_READY''"
  by unfold_locales
    (auto simp: evaluate_live_executor_boundary_contract_def eb_screen_def eb_unknown_result_def
      eb_blocked_result_def eb_contract_def eb_unknown_def eb_blocked_def eb_authority_def dget_dlast
      split: option.splits elim!: screen_inputs_Some)

end
