(* ===== verification/Executor_Failure.thy ===== *)
theory Executor_Failure
  imports Executor_Boundary
begin

text \<open>
  The executor failure mode state machine (\<^verbatim>\<open>executor_failure_mode_state_machine.py\<close>): the states
  of a submission, the events that move it, the transition table, and the evaluator that applies
  one event to a prior state under an identity check.
\<close>

section \<open>States and events\<close>

datatype submission_state = Not_Sent | Submission_Unknown | Submitted | Confirmed | Failed

datatype failure_event =
    Build_Failed
  | Signing_Preparation_Failed
  | Rpc_Unreachable_Before_Submission
  | Rpc_Timeout_Before_Submission
  | Submission_Timeout_Unknown
  | Known_Rejection
  | Submission_Accepted
  | Confirmation_Delayed
  | Confirmed_Success
  | Confirmed_Chain_Failure
  | Process_Crash_Before_Submission
  | Process_Crash_After_Submission_May_Have_Occurred
  | Reconciled_Not_Found
  | Reconciled_Submitted
  | Reconciled_Confirmed
  | Reconciled_Failed

definition allowed_states :: "(string \<times> submission_state) list" where
  "allowed_states =
    [(''NOT_SENT'', Not_Sent),
     (''SUBMISSION_UNKNOWN'', Submission_Unknown),
     (''SUBMITTED'', Submitted),
     (''CONFIRMED'', Confirmed),
     (''FAILED'', Failed)]"

definition allowed_events :: "(string \<times> failure_event) list" where
  "allowed_events =
    [(''BUILD_FAILED'', Build_Failed),
     (''SIGNING_PREPARATION_FAILED'', Signing_Preparation_Failed),
     (''RPC_UNREACHABLE_BEFORE_SUBMISSION'', Rpc_Unreachable_Before_Submission),
     (''RPC_TIMEOUT_BEFORE_SUBMISSION'', Rpc_Timeout_Before_Submission),
     (''SUBMISSION_TIMEOUT_UNKNOWN'', Submission_Timeout_Unknown),
     (''KNOWN_REJECTION'', Known_Rejection),
     (''SUBMISSION_ACCEPTED'', Submission_Accepted),
     (''CONFIRMATION_DELAYED'', Confirmation_Delayed),
     (''CONFIRMED_SUCCESS'', Confirmed_Success),
     (''CONFIRMED_CHAIN_FAILURE'', Confirmed_Chain_Failure),
     (''PROCESS_CRASH_BEFORE_SUBMISSION'', Process_Crash_Before_Submission),
     (''PROCESS_CRASH_AFTER_SUBMISSION_MAY_HAVE_OCCURRED'', Process_Crash_After_Submission_May_Have_Occurred),
     (''RECONCILED_NOT_FOUND'', Reconciled_Not_Found),
     (''RECONCILED_SUBMITTED'', Reconciled_Submitted),
     (''RECONCILED_CONFIRMED'', Reconciled_Confirmed),
     (''RECONCILED_FAILED'', Reconciled_Failed)]"

fun state_name :: "submission_state \<Rightarrow> string" where
  "state_name Not_Sent = ''NOT_SENT''"
| "state_name Submission_Unknown = ''SUBMISSION_UNKNOWN''"
| "state_name Submitted = ''SUBMITTED''"
| "state_name Confirmed = ''CONFIRMED''"
| "state_name Failed = ''FAILED''"

lemma state_of_name [simp]: "map_of allowed_states (state_name s) = Some s"
  by (cases s) (simp_all add: allowed_states_def)

lemma state_name_inject [simp]: "state_name s = state_name t \<longleftrightarrow> s = t"
  by (metis option.inject state_of_name)

lemma map_of_allowed_states: "map_of allowed_states x = Some s \<longleftrightarrow> x = state_name s"
proof
  assume "map_of allowed_states x = Some s"
  then show "x = state_name s"
    by (auto simp: allowed_states_def split: if_splits)
qed simp

section \<open>The transition table\<close>

text \<open>
  An entry gives the new state, whether reconciliation is required, whether a new manual review
  may be requested, and the next step; a pair that is not listed is no transition.
\<close>

definition transition_entries ::
  "((submission_state \<times> failure_event) \<times> (submission_state \<times> bool \<times> bool \<times> string)) list"
  where
  "transition_entries =
    [((Not_Sent, Build_Failed),
      (Not_Sent, False, True, ''MAY_REQUEST_NEW_MANUAL_EXECUTOR_REVIEW'')),
     ((Not_Sent, Signing_Preparation_Failed),
      (Not_Sent, False, True, ''MAY_REQUEST_NEW_MANUAL_EXECUTOR_REVIEW'')),
     ((Not_Sent, Rpc_Unreachable_Before_Submission),
      (Not_Sent, False, True, ''MAY_REQUEST_NEW_MANUAL_EXECUTOR_REVIEW'')),
     ((Not_Sent, Rpc_Timeout_Before_Submission),
      (Not_Sent, False, True, ''MAY_REQUEST_NEW_MANUAL_EXECUTOR_REVIEW'')),
     ((Not_Sent, Known_Rejection),
      (Failed, False, False, ''NO_RETRY_TERMINAL_FAILURE'')),
     ((Not_Sent, Process_Crash_Before_Submission),
      (Not_Sent, False, True, ''MAY_REQUEST_NEW_MANUAL_EXECUTOR_REVIEW'')),
     ((Not_Sent, Submission_Timeout_Unknown),
      (Submission_Unknown, True, False, ''DO_NOT_RETRY; RECONCILE_SUBMISSION_STATE'')),
     ((Not_Sent, Process_Crash_After_Submission_May_Have_Occurred),
      (Submission_Unknown, True, False, ''DO_NOT_RETRY; RECONCILE_SUBMISSION_STATE'')),
     ((Not_Sent, Submission_Accepted),
      (Submitted, True, False, ''WAIT_OR_RECONCILE_CONFIRMATION'')),
     ((Submission_Unknown, Reconciled_Not_Found),
      (Not_Sent, False, True, ''MAY_REQUEST_NEW_MANUAL_EXECUTOR_REVIEW'')),
     ((Submission_Unknown, Reconciled_Submitted),
      (Submitted, True, False, ''WAIT_OR_RECONCILE_CONFIRMATION'')),
     ((Submission_Unknown, Reconciled_Confirmed),
      (Confirmed, False, False, ''NO_RETRY_CONFIRMED'')),
     ((Submission_Unknown, Reconciled_Failed),
      (Failed, False, False, ''NO_RETRY_TERMINAL_FAILURE'')),
     ((Submitted, Confirmation_Delayed),
      (Submitted, True, False, ''WAIT_OR_RECONCILE_CONFIRMATION'')),
     ((Submitted, Confirmed_Success),
      (Confirmed, False, False, ''NO_RETRY_CONFIRMED'')),
     ((Submitted, Confirmed_Chain_Failure),
      (Failed, False, False, ''NO_RETRY_TERMINAL_FAILURE'')),
     ((Submitted, Reconciled_Confirmed),
      (Confirmed, False, False, ''NO_RETRY_CONFIRMED'')),
     ((Submitted, Reconciled_Failed),
      (Failed, False, False, ''NO_RETRY_TERMINAL_FAILURE''))]"

definition transition_table ::
  "submission_state \<Rightarrow> failure_event \<Rightarrow> (submission_state \<times> bool \<times> bool \<times> string) option" where
  "transition_table s e = map_of transition_entries (s, e)"

lemma transition_SomeD: "transition_table s e = Some t \<Longrightarrow> ((s, e), t) \<in> set transition_entries"
  unfolding transition_table_def by (rule map_of_SomeD)

lemma table_all:
  "\<forall>((s, e), t) \<in> set transition_entries. p s e t \<Longrightarrow> transition_table s e = Some t \<Longrightarrow> p s e t"
  by (auto dest: transition_SomeD)

section \<open>Outputs\<close>

definition ef_authority :: pydict where
  "ef_authority =
    [(''interpretation'', PStr ''NON_BROADCASTING_EXECUTOR_FAILURE_MODE_STATE_MACHINE_ONLY''),
     (''live_execution'', PBool False),
     (''trading_authority'', PBool False),
     (''trade_signal'', PBool False),
     (''recommendation_authority'', PBool False),
     (''rpc_contacted'', PBool False),
     (''transaction_signed'', PBool False),
     (''order_submitted'', PBool False),
     (''wallet_mutated'', PBool False),
     (''automatic_execution'', PBool False),
     (''automatic_retry_allowed'', PBool False)]"

definition ef_unknown :: "string \<Rightarrow> string list \<Rightarrow> pydict \<Rightarrow> pyval" where
  "ef_unknown submission missing extra = PDict (dict_of (
    [(''status'', PStr ''UNKNOWN''),
     (''state_machine_result'', PStr ''UNKNOWN''),
     (''submission_state'', PStr submission),
     (''safe_to_retry'', PBool False),
     (''reconciliation_required'', PBool True),
     (''missing'', names (fromkeys missing))] @ extra @ ef_authority))"

definition ef_blocked :: "string list \<Rightarrow> string \<Rightarrow> pydict \<Rightarrow> pyval" where
  "ef_blocked blockers submission extra = PDict (dict_of (
    [(''status'', PStr ''OBSERVED''),
     (''state_machine_result'', PStr ''BLOCKED''),
     (''submission_state'', PStr submission),
     (''safe_to_retry'', PBool False),
     (''reconciliation_required'',
      PBool (submission \<in> set [''SUBMISSION_UNKNOWN'', ''SUBMITTED''])),
     (''blockers'', names (fromkeys blockers))] @ extra @ ef_authority))"

section \<open>The evaluator\<close>

record identity =
  id_authorization :: string
  id_policy :: string
  id_attempt :: string
  id_key :: string

definition read_identity :: "pyval \<Rightarrow> identity" where
  "read_identity v =
    \<lparr>id_authorization = clean (pget v ''authorization_id''),
     id_policy = clean (pget v ''policy_version''),
     id_attempt = clean (pget v ''attempt_id''),
     id_key = clean (pget v ''idempotency_key'')\<rparr>"

definition identity_missing :: "string \<Rightarrow> identity \<Rightarrow> string list" where
  "identity_missing prefix d =
     need (id_authorization d \<noteq> []) (prefix @ ''authorization_id'')
     @ need (id_policy d \<noteq> []) (prefix @ ''policy_version'')
     @ need (id_attempt d \<noteq> []) (prefix @ ''attempt_id'')
     @ need (id_key d \<noteq> []) (prefix @ ''idempotency_key'')"

record failure_evidence =
  xe_contract :: pyval
  xe_prior :: pyval
  xe_observation :: pyval

definition ef_inputs :: "failure_evidence \<Rightarrow> pydict" where
  "ef_inputs i =
    [(''executor_contract'', xe_contract i),
     (''prior'', xe_prior i),
     (''observation'', xe_observation i)]"

definition ef_screen :: "failure_evidence \<Rightarrow> pyval option" where
  "ef_screen i =
     screen_inputs executor_powers (ef_unknown ''NOT_SENT'') ''non_authoritative_failure_mode_evidence''
       ''authority_contamination'' [] (ef_inputs i)"

definition ef_prior_state :: "failure_evidence \<Rightarrow> string" where
  "ef_prior_state i = clean (pget (xe_prior i) ''submission_state'')"

definition ef_event :: "failure_evidence \<Rightarrow> string" where
  "ef_event i = clean (pget (xe_observation i) ''event'')"

definition ef_missing :: "failure_evidence \<Rightarrow> string list" where
  "ef_missing i =
    (let contract = pget (xe_contract i) in
       need (eq_str (contract ''status'') ''OBSERVED'') ''observed_executor_contract''
     @ need (eq_str (contract ''executor_boundary_result'') ''CONTRACT_READY'') ''ready_executor_contract''
     @ need (is_true (contract ''executor_contract_ready'')) ''executor_contract_readiness''
     @ need (eq_str (contract ''submission_state'') ''NOT_SENT'') ''contract_submission_state_not_sent''
     @ identity_missing ''contract_'' (read_identity (xe_contract i))
     @ need (map_of allowed_states (ef_prior_state i) \<noteq> None) ''valid_prior_submission_state''
     @ identity_missing ''prior_'' (read_identity (xe_prior i))
     @ need (map_of allowed_events (ef_event i) \<noteq> None) ''valid_failure_mode_event''
     @ identity_missing ''observation_'' (read_identity (xe_observation i)))"

definition ef_identity_matches :: "failure_evidence \<Rightarrow> bool" where
  "ef_identity_matches i \<longleftrightarrow>
     read_identity (xe_contract i) = read_identity (xe_prior i)
     \<and> read_identity (xe_prior i) = read_identity (xe_observation i)"

definition ef_observed :: "failure_evidence \<Rightarrow> submission_state \<times> bool \<times> bool \<times> string \<Rightarrow> pyval" where
  "ef_observed i t =
    (case t of (new_state, reconciliation_required, manual_retry_review_eligible, next_step) \<Rightarrow>
      (let d = read_identity (xe_contract i) in
       PDict (dict_of (
        [(''status'', PStr ''OBSERVED''),
         (''state_machine_result'', PStr ''TRANSITION_OBSERVED''),
         (''prior_submission_state'', PStr (ef_prior_state i)),
         (''submission_state'', PStr (state_name new_state)),
         (''event'', PStr (ef_event i)),
         (''authorization_id'', PStr (id_authorization d)),
         (''policy_version'', PStr (id_policy d)),
         (''attempt_id'', PStr (id_attempt d)),
         (''idempotency_key'', PStr (id_key d)),
         (''reconciliation_required'', PBool reconciliation_required),
         (''safe_to_retry'', PBool False),
         (''manual_retry_review_eligible'', PBool manual_retry_review_eligible),
         (''automatic_retry_allowed'', PBool False),
         (''duplicate_submission_allowed'', PBool False),
         (''evidence'', PDict (ef_inputs i)),
         (''next_step'', PStr next_step)] @ ef_authority))))"

text \<open>
  After the screen: missing evidence, then the identity of the three records, then the terminal
  states, then the table. Nothing here raises: the fields it reads become text.
\<close>

definition ef_apply :: "failure_evidence \<Rightarrow> submission_state \<Rightarrow> failure_event \<Rightarrow> pyval" where
  "ef_apply i prior event =
    (if \<not> ef_identity_matches i
     then ef_blocked [''execution_identity_mismatch''] (state_name prior)
            [(''evidence'', PDict (ef_inputs i)), (''next_step'', PStr ''DO_NOT_ADVANCE_STATE'')]
     else if prior = Confirmed \<or> prior = Failed
     then ef_blocked [''terminal_submission_state''] (state_name prior)
            [(''evidence'', PDict (ef_inputs i)), (''next_step'', PStr ''NO_RETRY_TERMINAL_STATE'')]
     else (case transition_table prior event of
             None \<Rightarrow> ef_blocked [''invalid_submission_state_transition''] (state_name prior)
               [(''event'', PStr (ef_event i)), (''evidence'', PDict (ef_inputs i)),
                (''next_step'', PStr ''DO_NOT_RETRY; INVALID_STATE_TRANSITION'')]
           | Some t \<Rightarrow> ef_observed i t))"

definition evaluate_executor_failure_transition :: "failure_evidence \<Rightarrow> pyval" where
  "evaluate_executor_failure_transition i =
    (case ef_screen i of
       Some r \<Rightarrow> r
     | None \<Rightarrow>
         if ef_missing i \<noteq> []
         then ef_unknown (if map_of allowed_states (ef_prior_state i) \<noteq> None then ef_prior_state i
                          else ''NOT_SENT'') (ef_missing i) []
         else (case (map_of allowed_states (ef_prior_state i), map_of allowed_events (ef_event i)) of
                 (Some prior, Some event) \<Rightarrow> ef_apply i prior event
               | _ \<Rightarrow> ef_unknown ''NOT_SENT'' (ef_missing i) []))"

section \<open>Facts about the table\<close>

definition may_be_on_chain :: "submission_state \<Rightarrow> bool" where
  "may_be_on_chain s \<longleftrightarrow> s = Submission_Unknown \<or> s = Submitted"

definition terminal :: "submission_state \<Rightarrow> bool" where
  "terminal s \<longleftrightarrow> s = Confirmed \<or> s = Failed"

lemma table_terminal: "terminal s \<Longrightarrow> transition_table s e = None"
  by (cases s) (simp_all add: terminal_def transition_table_def transition_entries_def)

lemma table_reconciliation:
  "transition_table s e = Some (t, rec, man, nxt) \<Longrightarrow> rec \<longleftrightarrow> may_be_on_chain t"
  by (drule table_all [where p = "\<lambda>s e (t, rec, man, nxt). rec \<longleftrightarrow> may_be_on_chain t", rotated])
    (simp_all add: transition_entries_def may_be_on_chain_def)

lemma table_manual_review:
  "transition_table s e = Some (t, rec, man, nxt) \<Longrightarrow> man \<longleftrightarrow> t = Not_Sent"
  by (drule table_all [where p = "\<lambda>s e (t, rec, man, nxt). man \<longleftrightarrow> t = Not_Sent", rotated])
    (simp_all add: transition_entries_def)

lemma table_back_to_not_sent:
  "transition_table s e = Some (Not_Sent, rec, man, nxt) \<Longrightarrow> s \<noteq> Not_Sent \<Longrightarrow>
     s = Submission_Unknown \<and> e = Reconciled_Not_Found"
  by (drule table_all [where p = "\<lambda>s e (t, rec, man, nxt). t = Not_Sent \<longrightarrow> s \<noteq> Not_Sent \<longrightarrow>
       s = Submission_Unknown \<and> e = Reconciled_Not_Found", rotated])
    (simp_all add: transition_entries_def)

lemma table_next_step: "transition_table s e = Some (t, rec, man, nxt) \<Longrightarrow> CHR 0x00 \<notin> set nxt"
  by (drule table_all [where p = "\<lambda>s e (t, rec, man, nxt). CHR 0x00 \<notin> set nxt", rotated])
    (simp_all add: transition_entries_def)

section \<open>The machine by rules\<close>

text \<open>
  What the design asks of the machine, independently of the table: a failure before submission keeps
  the order unsent, doubt leads to SUBMISSION_UNKNOWN, only a reconciliation leads out of it, and the
  chain settles a submitted order.
\<close>

inductive legal_move :: "submission_state \<Rightarrow> failure_event \<Rightarrow> submission_state \<Rightarrow> bool" where
  lm_unsent: "e \<in> {Build_Failed, Signing_Preparation_Failed, Rpc_Unreachable_Before_Submission,
      Rpc_Timeout_Before_Submission, Process_Crash_Before_Submission} \<Longrightarrow> legal_move Not_Sent e Not_Sent"
| lm_rejected: "legal_move Not_Sent Known_Rejection Failed"
| lm_in_doubt: "e \<in> {Submission_Timeout_Unknown, Process_Crash_After_Submission_May_Have_Occurred} \<Longrightarrow>
    legal_move Not_Sent e Submission_Unknown"
| lm_accepted: "legal_move Not_Sent Submission_Accepted Submitted"
| lm_never_sent: "legal_move Submission_Unknown Reconciled_Not_Found Not_Sent"
| lm_was_sent: "legal_move Submission_Unknown Reconciled_Submitted Submitted"
| lm_delayed: "legal_move Submitted Confirmation_Delayed Submitted"
| lm_success: "legal_move Submitted Confirmed_Success Confirmed"
| lm_chain_failure: "legal_move Submitted Confirmed_Chain_Failure Failed"
| lm_settled: "s \<in> {Submission_Unknown, Submitted} \<Longrightarrow> legal_move s Reconciled_Confirmed Confirmed"
| lm_lost: "s \<in> {Submission_Unknown, Submitted} \<Longrightarrow> legal_move s Reconciled_Failed Failed"

inductive_simps legal_move_simps: "legal_move s e t"

lemma table_legal: "transition_table s e = Some (t, rec, man, nxt) \<Longrightarrow> legal_move s e t"
  by (drule table_all [where p = "\<lambda>s e (t, rec, man, nxt). legal_move s e t", rotated])
    (simp_all add: transition_entries_def legal_move.intros)

lemma legal_table: "legal_move s e t \<Longrightarrow> \<exists>rec man nxt. transition_table s e = Some (t, rec, man, nxt)"
  by (induction rule: legal_move.induct) (auto simp: transition_table_def transition_entries_def)

lemma legal_deterministic: "legal_move s e t \<Longrightarrow> legal_move s e u \<Longrightarrow> t = u"
  by (drule legal_table)+ auto

fun event_name :: "failure_event \<Rightarrow> string" where
  "event_name Build_Failed = ''BUILD_FAILED''"
| "event_name Signing_Preparation_Failed = ''SIGNING_PREPARATION_FAILED''"
| "event_name Rpc_Unreachable_Before_Submission = ''RPC_UNREACHABLE_BEFORE_SUBMISSION''"
| "event_name Rpc_Timeout_Before_Submission = ''RPC_TIMEOUT_BEFORE_SUBMISSION''"
| "event_name Submission_Timeout_Unknown = ''SUBMISSION_TIMEOUT_UNKNOWN''"
| "event_name Known_Rejection = ''KNOWN_REJECTION''"
| "event_name Submission_Accepted = ''SUBMISSION_ACCEPTED''"
| "event_name Confirmation_Delayed = ''CONFIRMATION_DELAYED''"
| "event_name Confirmed_Success = ''CONFIRMED_SUCCESS''"
| "event_name Confirmed_Chain_Failure = ''CONFIRMED_CHAIN_FAILURE''"
| "event_name Process_Crash_Before_Submission = ''PROCESS_CRASH_BEFORE_SUBMISSION''"
| "event_name Process_Crash_After_Submission_May_Have_Occurred =
     ''PROCESS_CRASH_AFTER_SUBMISSION_MAY_HAVE_OCCURRED''"
| "event_name Reconciled_Not_Found = ''RECONCILED_NOT_FOUND''"
| "event_name Reconciled_Submitted = ''RECONCILED_SUBMITTED''"
| "event_name Reconciled_Confirmed = ''RECONCILED_CONFIRMED''"
| "event_name Reconciled_Failed = ''RECONCILED_FAILED''"

lemma map_of_allowed_events: "map_of allowed_events x = Some e \<longleftrightarrow> x = event_name e"
proof
  assume "map_of allowed_events x = Some e"
  then show "x = event_name e" by (auto simp: allowed_events_def split: if_splits)
next
  assume "x = event_name e"
  then show "map_of allowed_events x = Some e" by (cases e) (simp_all add: allowed_events_def)
qed

lemma event_name_inject [simp]: "event_name e = event_name f \<longleftrightarrow> e = f"
  by (metis map_of_allowed_events option.inject)

section \<open>Runs of the machine\<close>

inductive moves :: "submission_state \<Rightarrow> failure_event \<Rightarrow> submission_state \<Rightarrow> bool" where
  moves: "transition_table s e = Some (t, rec, man, nxt) \<Longrightarrow> moves s e t"

inductive_cases moves_cases: "moves s e t"
inductive_simps moves_simps: "moves s e t"

inductive run :: "submission_state \<Rightarrow> failure_event list \<Rightarrow> submission_state \<Rightarrow> bool" where
  run_Nil: "run s [] s"
| run_Cons: "moves s e t \<Longrightarrow> run t es u \<Longrightarrow> run s (e # es) u"

inductive_cases run_NilE: "run s [] t"
inductive_cases run_ConsE: "run s (e # es) t"

lemma moves_deterministic: "moves s e t \<Longrightarrow> moves s e u \<Longrightarrow> t = u"
  by (auto elim!: moves_cases)

lemma run_deterministic: "run s es t \<Longrightarrow> run s es u \<Longrightarrow> t = u"
proof (induction arbitrary: u rule: run.induct)
  case (run_Nil s)
  then show ?case by (auto elim: run_NilE)
next
  case (run_Cons s e t es v)
  from run_Cons.prems obtain t' where t': "moves s e t'" "run t' es u"
    by (auto elim: run_ConsE)
  with run_Cons.hyps(1) have "t' = t" by (blast dest: moves_deterministic)
  with t'(2) show ?case by (blast intro: run_Cons.IH)
qed

lemma run_append: "run s (xs @ ys) u \<longleftrightarrow> (\<exists>t. run s xs t \<and> run t ys u)"
proof (induction xs arbitrary: s)
  case Nil
  show ?case by (auto intro: run.intros elim: run_NilE)
next
  case (Cons x xs)
  then show ?case by (fastforce intro: run.intros elim!: run_ConsE)
qed

lemma run_terminal: "run s es t \<Longrightarrow> terminal s \<Longrightarrow> es = [] \<and> t = s"
  by (induction rule: run.induct) (auto simp: moves_simps table_terminal)

text \<open>An event after which the order may be on the chain.\<close>

definition submission_event :: "failure_event \<Rightarrow> bool" where
  "submission_event e \<longleftrightarrow>
     e \<in> set [Submission_Timeout_Unknown, Submission_Accepted,
              Process_Crash_After_Submission_May_Have_Occurred]"

lemma table_submission:
  "transition_table s e = Some (t, rec, man, nxt) \<Longrightarrow> submission_event e \<Longrightarrow>
     s = Not_Sent \<and> may_be_on_chain t"
  by (drule table_all [where p = "\<lambda>s e (t, rec, man, nxt). submission_event e \<longrightarrow>
       s = Not_Sent \<and> may_be_on_chain t", rotated])
    (simp_all add: transition_entries_def submission_event_def may_be_on_chain_def)

lemma moves_submission_event: "moves s e t \<Longrightarrow> submission_event e \<Longrightarrow> s = Not_Sent \<and> may_be_on_chain t"
  unfolding moves_simps by (blast dest: table_submission)

lemma moves_to_not_sent: "moves s e Not_Sent \<Longrightarrow> s \<noteq> Not_Sent \<Longrightarrow> e = Reconciled_Not_Found"
  unfolding moves_simps by (blast dest: table_back_to_not_sent)

lemma run_back_to_not_sent:
  "run s es Not_Sent \<Longrightarrow> s \<noteq> Not_Sent \<Longrightarrow> Reconciled_Not_Found \<in> set es"
proof (induction s es "Not_Sent" rule: run.induct)
  case run_Nil
  then show ?case by simp
next
  case (run_Cons s e t es)
  then show ?case by (cases "t = Not_Sent") (auto dest: moves_to_not_sent)
qed

text \<open>
  No double submission: between two events that may have put the order on the chain there is one
  that reconciled the first as not found.
\<close>

lemma run_no_double_submission:
  assumes "run s (es1 @ e1 # es2 @ e2 # es3) u" "submission_event e1" "submission_event e2"
  shows "Reconciled_Not_Found \<in> set es2"
proof -
  obtain t1 t2 t3 t4 where
    "run s es1 t1" "moves t1 e1 t2" "run t2 es2 t3" "moves t3 e2 t4"
    using assms(1) by (auto simp: run_append elim!: run_ConsE)
  then have "may_be_on_chain t2" "t3 = Not_Sent"
    using assms(2,3) moves_submission_event by blast+
  with \<open>run t2 es2 t3\<close> show ?thesis
    by (auto dest: run_back_to_not_sent simp: may_be_on_chain_def)
qed

end
