(* ===== verification/Executor_Submission.thy ===== *)
theory Executor_Submission
  imports Cas_Store Executor_Failure
begin

text \<open>
  The durable executor submission state (\<^verbatim>\<open>executor_submission_persistence.py\<close> over the tables,
  constraints and trigger of \<^verbatim>\<open>004_executor_submission_state.sql\<close>). A call takes the tables as its
  first statement and as its write see them, so another session may have committed in between.
\<close>

section \<open>Tables\<close>

record submission_row =
  sr_attempt :: string
  sr_authorization :: string
  sr_policy :: string
  sr_key :: string
  sr_state :: string
  sr_version :: int
  sr_last_event :: "string option"
  sr_reconciliation_required :: bool
  sr_manual_review :: bool
  sr_evidence :: pyval
  sr_created_at :: py_datetime
  sr_updated_at :: py_datetime

record transition_audit =
  ta_attempt :: string
  ta_authorization :: string
  ta_policy :: string
  ta_key :: string
  ta_prior_state :: string
  ta_new_state :: string
  ta_event :: string
  ta_prior_version :: int
  ta_new_version :: int
  ta_reconciliation_required :: bool
  ta_manual_review :: bool
  ta_evidence :: pyval

record executor_db =
  ed_rows :: "submission_row list"
  ed_audit :: "transition_audit list"

definition es_states :: "string list" where
  "es_states = [''NOT_SENT'', ''SUBMISSION_UNKNOWN'', ''SUBMITTED'', ''CONFIRMED'', ''FAILED'']"

definition forbidden_keys :: "string list" where
  "forbidden_keys =
    [''private_key'', ''private_key_material'', ''secret_key'', ''seed_phrase'', ''mnemonic'',
     ''signature'', ''signed_transaction'', ''raw_transaction'']"

fun contains_forbidden :: "pyval \<Rightarrow> bool" where
  "contains_forbidden (PDict kvs) =
     list_ex (\<lambda>kv. lower (fst kv) \<in> set forbidden_keys \<or> contains_forbidden (snd kv)) kvs"
| "contains_forbidden (PList xs) = list_ex contains_forbidden xs"
| "contains_forbidden _ = False"

text \<open>The CHECK on the evidence column: no forbidden key at the top level.\<close>

definition secret_free :: "pyval \<Rightarrow> bool" where
  "secret_free v \<longleftrightarrow> list_all (\<lambda>k. \<not> present v k) forbidden_keys"

definition es_authority :: pydict where
  "es_authority =
    [(''interpretation'', PStr ''DURABLE_NON_BROADCASTING_EXECUTOR_SUBMISSION_STATE_ONLY''),
     (''live_execution'', PBool False),
     (''trading_authority'', PBool False),
     (''rpc_contacted'', PBool False),
     (''transaction_signed'', PBool False),
     (''order_submitted'', PBool False),
     (''wallet_mutated'', PBool False),
     (''automatic_execution'', PBool False),
     (''automatic_retry_allowed'', PBool False)]"

definition es_unknown :: "string list \<Rightarrow> pyval" where
  "es_unknown missing = PDict (dict_of (
    [(''status'', PStr ''UNKNOWN''), (''persistence_result'', PStr ''UNKNOWN''),
     (''missing'', names missing)] @ es_authority))"

definition es_blocked :: "string \<Rightarrow> pyval" where
  "es_blocked reason = PDict (dict_of (
    [(''status'', PStr ''OBSERVED''), (''persistence_result'', PStr ''BLOCKED''),
     (''blockers'', names [reason])] @ es_authority))"

section \<open>Loading\<close>

definition es_row :: "executor_db \<Rightarrow> string \<Rightarrow> submission_row option" where
  "es_row db a = find (\<lambda>r. sr_attempt r = a) (ed_rows db)"

text \<open>\<^verbatim>\<open>dict(row)\<close>\<close>

definition row_dict :: "submission_row \<Rightarrow> pyval" where
  "row_dict r = PDict
    [(''attempt_id'', PStr (sr_attempt r)),
     (''authorization_id'', PStr (sr_authorization r)),
     (''policy_version'', PStr (sr_policy r)),
     (''idempotency_key'', PStr (sr_key r)),
     (''submission_state'', PStr (sr_state r)),
     (''version'', PInt (sr_version r)),
     (''last_event'', case sr_last_event r of None \<Rightarrow> PNone | Some e \<Rightarrow> PStr e),
     (''reconciliation_required'', PBool (sr_reconciliation_required r)),
     (''manual_retry_review_eligible'', PBool (sr_manual_review r)),
     (''state_evidence'', sr_evidence r),
     (''created_at'', PDt (sr_created_at r)),
     (''updated_at'', PDt (sr_updated_at r))]"

definition load_executor_submission_state :: "executor_db \<Rightarrow> pyval \<Rightarrow> submission_row option res" where
  "load_executor_submission_state db attempt_id =
    (let attempt = clean attempt_id in
     if attempt = [] then Inr None else bindE (text_params [attempt]) (\<lambda>_. Inr (es_row db attempt)))"

section \<open>Provisioning\<close>

text \<open>The INSERT with ON CONFLICT DO NOTHING: a taken attempt or idempotency key inserts nothing.\<close>

definition es_insert :: "executor_db \<Rightarrow> submission_row \<Rightarrow> (executor_db \<times> bool) res" where
  "es_insert db r =
    (if \<not> secret_free (sr_evidence r) then Inl IntegrityError
     else if list_ex (\<lambda>x. sr_attempt x = sr_attempt r \<or> sr_key x = sr_key r) (ed_rows db)
     then Inr (db, False)
     else Inr (db\<lparr>ed_rows := ed_rows db @ [r]\<rparr>, True))"

definition provision_missing :: "pyval \<Rightarrow> string list" where
  "provision_missing contract =
     need (clean (pget contract ''authorization_id'') \<noteq> []) ''authorization_id''
     @ need (clean (pget contract ''policy_version'') \<noteq> []) ''policy_version''
     @ need (clean (pget contract ''attempt_id'') \<noteq> []) ''attempt_id''
     @ need (clean (pget contract ''idempotency_key'') \<noteq> []) ''idempotency_key''
     @ need (eq_str (pget contract ''status'') ''OBSERVED''
             \<and> eq_str (pget contract ''executor_boundary_result'') ''CONTRACT_READY''
             \<and> is_true (pget contract ''executor_contract_ready'')) ''ready_executor_contract''
     @ need (eq_str (pget contract ''submission_state'') ''NOT_SENT'') ''initial_not_sent_state''
     @ need (\<not> contains_forbidden contract) ''forbidden_secret_or_transaction_material''"

definition provision_row :: "py_datetime \<Rightarrow> pyval \<Rightarrow> submission_row" where
  "provision_row now contract =
    \<lparr>sr_attempt = clean (pget contract ''attempt_id''),
     sr_authorization = clean (pget contract ''authorization_id''),
     sr_policy = clean (pget contract ''policy_version''),
     sr_key = clean (pget contract ''idempotency_key''),
     sr_state = ''NOT_SENT'', sr_version = 0, sr_last_event = None,
     sr_reconciliation_required = False, sr_manual_review = False,
     sr_evidence = contract, sr_created_at = now, sr_updated_at = now\<rparr>"

definition es_provisioned :: "submission_row \<Rightarrow> pyval" where
  "es_provisioned r = PDict (dict_of (
    [(''status'', PStr ''OBSERVED''), (''persistence_result'', PStr ''PROVISIONED''),
     (''state'', PDict
       [(''attempt_id'', PStr (sr_attempt r)),
        (''authorization_id'', PStr (sr_authorization r)),
        (''policy_version'', PStr (sr_policy r)),
        (''idempotency_key'', PStr (sr_key r)),
        (''submission_state'', PStr (sr_state r)),
        (''version'', PInt (sr_version r))])] @ es_authority))"

definition provision_executor_submission_state ::
  "py_datetime \<Rightarrow> executor_db \<Rightarrow> pyval \<Rightarrow> (executor_db \<times> pyval) res" where
  "provision_executor_submission_state now db contract =
    (if \<not> is_dict contract then Inr (db, es_unknown [''executor_contract''])
     else if provision_missing contract \<noteq> []
     then Inr (db, es_unknown (fromkeys (provision_missing contract)))
     else
       (let r = provision_row now contract in
        bindE (json_dumps contract) (\<lambda>j.
        bindE (text_params [sr_attempt r, sr_authorization r, sr_policy r, sr_key r]) (\<lambda>_.
        bindE (cast_jsonb j) (\<lambda>_.
        bindE (es_insert db r) (\<lambda>(db', inserted).
          Inr (db',
            if inserted then es_provisioned r
            else es_blocked ''executor_submission_identity_or_idempotency_already_exists'')))))))"

lemma es_results [simp]:
  "pget (es_unknown ms) ''persistence_result'' = PStr ''UNKNOWN''"
  "pget (es_blocked b) ''persistence_result'' = PStr ''BLOCKED''"
  "pget (es_provisioned r) ''persistence_result'' = PStr ''PROVISIONED''"
  by (simp_all add: es_unknown_def es_blocked_def es_provisioned_def es_authority_def dget_dlast)

section \<open>One transition\<close>

record transition_request =
  tr_attempt :: string
  tr_authorization :: string
  tr_policy :: string
  tr_key :: string
  tr_prior :: string
  tr_new :: string
  tr_event :: string
  tr_reconcile :: bool
  tr_review :: bool
  tr_evidence :: pyval

definition read_transition :: "pyval \<Rightarrow> transition_request" where
  "read_transition t =
    \<lparr>tr_attempt = clean (pget t ''attempt_id''),
     tr_authorization = clean (pget t ''authorization_id''),
     tr_policy = clean (pget t ''policy_version''),
     tr_key = clean (pget t ''idempotency_key''),
     tr_prior = clean (pget t ''prior_submission_state''),
     tr_new = clean (pget t ''submission_state''),
     tr_event = clean (pget t ''event''),
     tr_reconcile = is_true (pget t ''reconciliation_required''),
     tr_review = is_true (pget t ''manual_retry_review_eligible''),
     tr_evidence = t\<rparr>"

definition transition_complete :: "transition_request \<Rightarrow> bool" where
  "transition_complete q \<longleftrightarrow>
     tr_attempt q \<noteq> [] \<and> tr_authorization q \<noteq> [] \<and> tr_policy q \<noteq> [] \<and> tr_key q \<noteq> [] \<and> tr_event q \<noteq> []
     \<and> tr_prior q \<in> set es_states \<and> tr_new q \<in> set es_states"

text \<open>The WHERE clause of the UPDATE and its SET list.\<close>

definition cas_matches :: "transition_request \<Rightarrow> int \<Rightarrow> submission_row \<Rightarrow> bool" where
  "cas_matches q v r \<longleftrightarrow>
     sr_attempt r = tr_attempt q \<and> sr_authorization r = tr_authorization q \<and> sr_policy r = tr_policy q
     \<and> sr_key r = tr_key q \<and> sr_state r = tr_prior q \<and> sr_version r = v"

definition cas_set :: "py_datetime \<Rightarrow> transition_request \<Rightarrow> submission_row \<Rightarrow> submission_row" where
  "cas_set now q r = r\<lparr>sr_state := tr_new q, sr_version := sr_version r + 1,
     sr_last_event := Some (tr_event q), sr_reconciliation_required := tr_reconcile q,
     sr_manual_review := tr_review q, sr_evidence := tr_evidence q, sr_updated_at := now\<rparr>"

text \<open>
  The UPDATE: the trigger refuses to touch a terminal row, the version must stay an INTEGER, the
  evidence must be free of forbidden keys. No matching row is no row returned.
\<close>

definition es_update ::
  "py_datetime \<Rightarrow> executor_db \<Rightarrow> transition_request \<Rightarrow> int \<Rightarrow> (executor_db \<times> int) option res" where
  "es_update now db q v =
    (case find (cas_matches q v) (ed_rows db) of
       None \<Rightarrow> Inr None
     | Some r \<Rightarrow>
         if v = int4_max then Inl DataError
         else if sr_state r \<in> set [''CONFIRMED'', ''FAILED''] then Inl DatabaseError
         else if \<not> secret_free (tr_evidence q) then Inl IntegrityError
         else Inr (Some (db\<lparr>ed_rows := map (\<lambda>x. if cas_matches q v x then cas_set now q x else x)
                              (ed_rows db)\<rparr>, v + 1)))"

definition es_append_audit :: "executor_db \<Rightarrow> transition_audit \<Rightarrow> executor_db res" where
  "es_append_audit db x =
    (if list_ex (\<lambda>y. ta_attempt y = ta_attempt x \<and> ta_new_version y = ta_new_version x) (ed_audit db)
        \<or> ta_new_version x \<noteq> ta_prior_version x + 1 \<or> es_row db (ta_attempt x) = None
     then Inl IntegrityError
     else Inr (db\<lparr>ed_audit := ed_audit db @ [x]\<rparr>))"

definition es_staged :: "int \<Rightarrow> int \<Rightarrow> string \<Rightarrow> pyval" where
  "es_staged prior_version new_version new_state = PDict (dict_of (
    [(''status'', PStr ''OBSERVED''), (''persistence_result'', PStr ''TRANSITION_STAGED''),
     (''prior_version'', PInt prior_version), (''new_version'', PInt new_version),
     (''submission_state'', PStr new_state), (''commit_required'', PBool True)] @ es_authority))"

definition audit_row :: "transition_request \<Rightarrow> int \<Rightarrow> int \<Rightarrow> transition_audit" where
  "audit_row q v w =
    \<lparr>ta_attempt = tr_attempt q, ta_authorization = tr_authorization q, ta_policy = tr_policy q,
     ta_key = tr_key q, ta_prior_state = tr_prior q, ta_new_state = tr_new q,
     ta_event = tr_event q, ta_prior_version = v, ta_new_version = w,
     ta_reconciliation_required = tr_reconcile q, ta_manual_review = tr_review q,
     ta_evidence = tr_evidence q\<rparr>"

lemma es_staged_result [simp]:
  "pget (es_staged v w t) ''persistence_result'' = PStr ''TRANSITION_STAGED''"
  by (simp add: es_staged_def es_authority_def dget_dlast)

text \<open>
  The two writes, after the checks on the row that was read. The evidence is written to JSON before
  either statement; both bind the same texts.
\<close>

definition write_params :: "transition_request \<Rightarrow> string list" where
  "write_params q = [tr_new q, tr_event q, tr_attempt q, tr_authorization q, tr_policy q, tr_key q, tr_prior q]"

definition es_write ::
  "py_datetime \<Rightarrow> executor_db \<Rightarrow> transition_request \<Rightarrow> int \<Rightarrow> (executor_db \<times> pyval) res" where
  "es_write now db q v =
    bindE (json_dumps (tr_evidence q)) (\<lambda>j.
    bindE (text_params (write_params q)) (\<lambda>_.
    bindE (cast_jsonb j) (\<lambda>_.
    bindE (es_update now db q v) (\<lambda>u.
      case u of
        None \<Rightarrow> Inr (db, es_blocked ''executor_submission_compare_and_swap_failed'')
      | Some (db', w) \<Rightarrow>
          bindE (es_append_audit db' (audit_row q v w))
            (\<lambda>db''. Inr (db'', es_staged v w (tr_new q)))))))"

definition persist_executor_failure_transition ::
  "py_datetime \<Rightarrow> executor_db \<Rightarrow> executor_db \<Rightarrow> pyval \<Rightarrow> (executor_db \<times> pyval) res" where
  "persist_executor_failure_transition now seen db transition =
    (if \<not> is_dict transition then Inr (db, es_unknown [''transition''])
     else if \<not> (eq_str (pget transition ''status'') ''OBSERVED''
                 \<and> eq_str (pget transition ''state_machine_result'') ''TRANSITION_OBSERVED'')
     then Inr (db, es_unknown [''observed_state_machine_transition''])
     else if contains_forbidden transition
     then Inr (db, es_unknown [''forbidden_secret_or_transaction_material''])
     else
       (let q = read_transition transition in
        if \<not> transition_complete q
        then Inr (db, es_unknown [''complete_valid_transition_identity_and_state''])
        else
          bindE (load_executor_submission_state seen (PStr (tr_attempt q))) (\<lambda>loaded.
           case loaded of
             None \<Rightarrow> Inr (db, es_blocked ''executor_submission_state_missing'')
           | Some current \<Rightarrow>
               if sr_authorization current \<noteq> tr_authorization q \<or> sr_policy current \<noteq> tr_policy q
                  \<or> sr_key current \<noteq> tr_key q
               then Inr (db, es_blocked ''execution_identity_mismatch'')
               else if sr_state current \<noteq> tr_prior q
               then Inr (db, es_blocked ''durable_prior_state_mismatch'')
               else es_write now db q (sr_version current))))"

section \<open>The invariant of the tables\<close>

text \<open>
  \<open>replays s v xs t w\<close>: the audit rows \<open>xs\<close> lead from state \<open>s\<close> at version \<open>v\<close> to state \<open>t\<close> at
  version \<open>w\<close>, one version at a time.
\<close>

fun replays :: "string \<Rightarrow> int \<Rightarrow> transition_audit list \<Rightarrow> string \<Rightarrow> int \<Rightarrow> bool" where
  "replays s v [] t w = (s = t \<and> v = w)"
| "replays s v (x # xs) t w =
     (ta_prior_state x = s \<and> ta_prior_version x = v \<and> ta_new_version x = v + 1
      \<and> replays (ta_new_state x) (v + 1) xs t w)"

definition history :: "executor_db \<Rightarrow> string \<Rightarrow> transition_audit list" where
  "history db a = filter (\<lambda>x. ta_attempt x = a) (ed_audit db)"

definition store_ok :: "executor_db \<Rightarrow> bool" where
  "store_ok db \<longleftrightarrow>
     distinct (map sr_attempt (ed_rows db)) \<and> distinct (map sr_key (ed_rows db))
     \<and> (\<forall>r \<in> set (ed_rows db). sr_state r \<in> set es_states
          \<and> replays ''NOT_SENT'' 0 (history db (sr_attempt r)) (sr_state r) (sr_version r))
     \<and> (\<forall>x \<in> set (ed_audit db). ta_attempt x \<in> sr_attempt ` set (ed_rows db))"

lemma replays_snoc:
  "replays s v (xs @ [x]) t w \<longleftrightarrow>
     replays s v xs (ta_prior_state x) (ta_prior_version x)
     \<and> ta_new_version x = ta_prior_version x + 1 \<and> t = ta_new_state x \<and> w = ta_new_version x"
  by (induction xs arbitrary: s v) auto

lemma replays_length: "replays s v xs t w \<Longrightarrow> w = v + int (length xs)"
  by (induction xs arbitrary: s v) fastforce+

lemma es_row_Some: "es_row db a = Some r \<Longrightarrow> r \<in> set (ed_rows db) \<and> sr_attempt r = a"
  by (auto simp: es_row_def find_Some_iff)

lemma es_row_iff:
  "distinct (map sr_attempt (ed_rows db)) \<Longrightarrow>
     es_row db a = Some r \<longleftrightarrow> r \<in> set (ed_rows db) \<and> sr_attempt r = a"
proof
  assume d: "distinct (map sr_attempt (ed_rows db))" and r: "r \<in> set (ed_rows db) \<and> sr_attempt r = a"
  then have "es_row db a \<noteq> None" by (auto simp: es_row_def find_None_iff)
  then obtain r' where r': "es_row db a = Some r'" by auto
  then have "r' \<in> set (ed_rows db)" "sr_attempt r' = a" by (auto dest: es_row_Some)
  with r d have "r' = r" by (auto simp: distinct_map inj_on_def)
  with r' show "es_row db a = Some r" by simp
qed (rule es_row_Some)

lemma es_row_None: "es_row db a = None \<longleftrightarrow> a \<notin> sr_attempt ` set (ed_rows db)"
  by (auto simp: es_row_def find_None_iff)

lemma cas_matches_unique:
  "distinct (map sr_attempt (ed_rows db)) \<Longrightarrow> r \<in> set (ed_rows db) \<Longrightarrow> cas_matches q v r \<Longrightarrow>
     x \<in> set (ed_rows db) \<Longrightarrow> cas_matches q v x \<longleftrightarrow> x = r"
  unfolding cas_matches_def distinct_map by (metis inj_onD)

lemma cas_set_keeps [simp]:
  "sr_attempt (cas_set now q r) = sr_attempt r"
  "sr_key (cas_set now q r) = sr_key r"
  "sr_authorization (cas_set now q r) = sr_authorization r"
  "sr_policy (cas_set now q r) = sr_policy r"
  "sr_created_at (cas_set now q r) = sr_created_at r"
  by (simp_all add: cas_set_def)

lemma cas_set_sets [simp]:
  "sr_state (cas_set now q r) = tr_new q"
  "sr_version (cas_set now q r) = sr_version r + 1"
  by (simp_all add: cas_set_def)

lemma es_update_Some:
  assumes "es_update now db q v = Inr (Some (db', w))"
  obtains r where "r \<in> set (ed_rows db)" "cas_matches q v r" "w = v + 1"
    "sr_state r \<notin> set [''CONFIRMED'', ''FAILED'']"
    "db' = db\<lparr>ed_rows := map (\<lambda>x. if cas_matches q v x then cas_set now q x else x) (ed_rows db)\<rparr>"
proof -
  obtain r where r: "find (cas_matches q v) (ed_rows db) = Some r"
    using assms by (auto simp: es_update_def split: option.splits)
  have "r \<in> set (ed_rows db)" "cas_matches q v r"
    using r by (auto simp: find_Some_iff)
  with r assms that show thesis by (auto simp: es_update_def split: if_splits)
qed

text \<open>The row of an attempt after the UPDATE.\<close>

lemma es_row_update:
  assumes d: "distinct (map sr_attempt (ed_rows db))"
    and r: "r \<in> set (ed_rows db)" "cas_matches q v r"
  shows "es_row (db\<lparr>ed_rows := map (\<lambda>x. if cas_matches q v x then cas_set now q x else x) (ed_rows db)\<rparr>) a
    = (if a = tr_attempt q then Some (cas_set now q r) else es_row db a)"
proof -
  let ?f = "\<lambda>x. if cas_matches q v x then cas_set now q x else x"
  let ?db = "db\<lparr>ed_rows := map ?f (ed_rows db)\<rparr>"
  have att: "sr_attempt (?f x) = sr_attempt x" for x by simp
  have d': "distinct (map sr_attempt (ed_rows ?db))"
    using d by (simp add: comp_def att)
  have ra: "sr_attempt r = tr_attempt q" using r by (simp add: cas_matches_def)
  show ?thesis
  proof (cases "a = tr_attempt q")
    case True
    have "?f r \<in> set (ed_rows ?db)" using r(1) by auto
    then have "cas_set now q r \<in> set (ed_rows ?db)" using r(2) by simp
    then have "es_row ?db a = Some (cas_set now q r)"
      using True ra es_row_iff [OF d'] by simp
    with True show ?thesis by simp
  next
    case False
    show ?thesis
    proof (cases "es_row db a")
      case None
      then have "es_row ?db a = None"
        by (auto simp: es_row_None image_iff split: if_splits)
      with None False show ?thesis by simp
    next
      case (Some x)
      then have x: "x \<in> set (ed_rows db)" "sr_attempt x = a" by (auto dest: es_row_Some)
      then have "\<not> cas_matches q v x" using False by (auto simp: cas_matches_def)
      then have "x \<in> set (ed_rows ?db)" using x(1) by force
      then have "es_row ?db a = Some x" using x(2) es_row_iff [OF d'] by simp
      with Some False show ?thesis by simp
    qed
  qed
qed


section \<open>What the two writes do\<close>

abbreviation updated_rows :: "py_datetime \<Rightarrow> executor_db \<Rightarrow> transition_request \<Rightarrow> int \<Rightarrow> submission_row list" where
  "updated_rows now db q v \<equiv> map (\<lambda>x. if cas_matches q v x then cas_set now q x else x) (ed_rows db)"

lemma es_write_Inr:
  assumes "es_write now db q v = Inr (db2, out)"
  obtains (blocked) "db2 = db" "out = es_blocked ''executor_submission_compare_and_swap_failed''"
  | (staged) r where "r \<in> set (ed_rows db)" "cas_matches q v r"
      "sr_state r \<notin> set [''CONFIRMED'', ''FAILED'']"
      "db2 = db\<lparr>ed_rows := updated_rows now db q v, ed_audit := ed_audit db @ [audit_row q v (v + 1)]\<rparr>"
      "out = es_staged v (v + 1) (tr_new q)"
proof -
  obtain u where u: "es_update now db q v = Inr u"
    using assms by (auto simp: es_write_def bindE_eq_Inr)
  show thesis
  proof (cases u)
    case None
    with u assms blocked show thesis
      by (auto simp: es_write_def bindE_eq_Inr)
  next
    case (Some p)
    obtain db' w where p: "p = (db', w)" by (cases p)
    obtain r where r: "r \<in> set (ed_rows db)" "cas_matches q v r" "w = v + 1"
      "sr_state r \<notin> set [''CONFIRMED'', ''FAILED'']"
      "db' = db\<lparr>ed_rows := updated_rows now db q v\<rparr>"
      using u Some p by (auto elim: es_update_Some)
    have "es_append_audit db' (audit_row q v w) = Inr db2" "out = es_staged v w (tr_new q)"
      using assms u Some p
      by (auto simp: es_write_def bindE_eq_Inr)
    then show thesis using r staged by (auto simp: es_append_audit_def split: if_splits)
  qed
qed

lemma history_append:
  "history (db\<lparr>ed_rows := rs, ed_audit := ed_audit db @ [x]\<rparr>) a =
     history db a @ (if ta_attempt x = a then [x] else [])"
  by (simp add: history_def)

lemma es_row_audit [simp]: "es_row (db\<lparr>ed_rows := rs, ed_audit := xs\<rparr>) a = es_row (db\<lparr>ed_rows := rs\<rparr>) a"
  by (simp add: es_row_def)

lemma store_ok_staged:
  assumes ok: "store_ok db" and r: "r \<in> set (ed_rows db)" "cas_matches q v r"
    and new: "tr_new q \<in> set es_states"
  shows "store_ok (db\<lparr>ed_rows := updated_rows now db q v, ed_audit := ed_audit db @ [audit_row q v (v + 1)]\<rparr>)"
    (is "store_ok ?db2")
proof -
  let ?f = "\<lambda>x. if cas_matches q v x then cas_set now q x else x"
  have att: "sr_attempt (?f x) = sr_attempt x" and key: "sr_key (?f x) = sr_key x" for x by simp_all
  have d: "distinct (map sr_attempt (ed_rows db))" using ok by (simp add: store_ok_def)
  have "distinct (map sr_attempt (ed_rows ?db2))" "distinct (map sr_key (ed_rows ?db2))"
    using ok by (simp_all add: store_ok_def comp_def att key)
  moreover have "sr_state x' \<in> set es_states
      \<and> replays ''NOT_SENT'' 0 (history ?db2 (sr_attempt x')) (sr_state x') (sr_version x')"
    if "x' \<in> set (ed_rows ?db2)" for x'
  proof -
    have "x' \<in> ?f ` set (ed_rows db)" using that by simp
    then obtain x where x: "x \<in> set (ed_rows db)" "x' = ?f x" by (rule imageE)
    have old: "sr_state x \<in> set es_states"
      "replays ''NOT_SENT'' 0 (history db (sr_attempt x)) (sr_state x) (sr_version x)"
      using ok x(1) by (auto simp: store_ok_def)
    show ?thesis
    proof (cases "cas_matches q v x")
      case True
      with x(2) old new show ?thesis
        by (simp add: history_append replays_snoc audit_row_def cas_matches_def)
    next
      case False
      have "sr_attempt x \<noteq> tr_attempt q"
      proof
        assume "sr_attempt x = tr_attempt q"
        then have "x = r" using d x(1) r by (metis cas_matches_def distinct_map inj_onD)
        with r(2) False show False by simp
      qed
      with False x(2) old show ?thesis by (simp add: history_append audit_row_def)
    qed
  qed
  moreover have "sr_attempt ` set (ed_rows ?db2) = sr_attempt ` set (ed_rows db)"
  proof -
    have "map sr_attempt (ed_rows ?db2) = map sr_attempt (ed_rows db)" by (simp add: att)
    then show ?thesis by (metis set_map)
  qed
  moreover have "tr_attempt q \<in> sr_attempt ` set (ed_rows db)"
    using r by (metis cas_matches_def image_eqI)
  ultimately show ?thesis using ok by (auto simp: store_ok_def audit_row_def)
qed

lemma store_ok_write:
  assumes "store_ok db" "tr_new q \<in> set es_states" "es_write now db q v = Inr (db2, out)"
  shows "store_ok db2"
  using assms(3)
proof (cases rule: es_write_Inr)
  case blocked
  with assms(1) show ?thesis by simp
next
  case (staged r)
  with store_ok_staged [OF assms(1) staged(1,2) assms(2)] show ?thesis by simp
qed


text \<open>A staged call is the two writes at the version of the row it read.\<close>

lemma persist_Inr:
  assumes "persist_executor_failure_transition now seen db t = Inr (db2, out)"
  obtains (refused) "db2 = db" "pget out ''persistence_result'' \<noteq> PStr ''TRANSITION_STAGED''"
  | (written) current where
      "es_row seen (tr_attempt (read_transition t)) = Some current"
      "eq_str (pget t ''status'') ''OBSERVED''"
      "eq_str (pget t ''state_machine_result'') ''TRANSITION_OBSERVED''"
      "\<not> contains_forbidden t" "transition_complete (read_transition t)"
      "sr_state current = tr_prior (read_transition t)"
      "es_write now db (read_transition t) (sr_version current) = Inr (db2, out)"
proof (cases "db2 = db \<and> pget out ''persistence_result'' \<noteq> PStr ''TRANSITION_STAGED''")
  case True
  then show ?thesis using refused by simp
next
  case False
  let ?q = "read_transition t"
  have cl: "clean (PStr (tr_attempt ?q)) = tr_attempt ?q"
    using clean_names [of "pget t ''attempt_id''"] by (simp only: read_transition_def transition_request.simps)
  note eq = assms [unfolded persist_executor_failure_transition_def Let_def]
  have 1: "is_dict t" using False eq by (rule_tac ccontr) auto
  have 2: "eq_str (pget t ''status'') ''OBSERVED''"
      "eq_str (pget t ''state_machine_result'') ''TRANSITION_OBSERVED''"
    using False eq 1 by (rule_tac ccontr, auto)+
  have 3: "\<not> contains_forbidden t" using False eq 1 2 by (rule_tac ccontr) auto
  have 4: "transition_complete ?q" using False eq 1 2 3 by (rule_tac ccontr) auto
  then have ne: "tr_attempt ?q \<noteq> []" by (simp add: transition_complete_def)
  show ?thesis
  proof (cases "es_row seen (tr_attempt ?q)")
    case None
    with False eq 1 2 3 4 ne cl show ?thesis
      by (auto simp: load_executor_submission_state_def bindE_eq_Inr)
  next
    case (Some current)
    moreover from this have "load_executor_submission_state seen (PStr (tr_attempt ?q)) = Inr (Some current)"
      using assms 1 2 3 4 ne cl
      by (cases "text_params [tr_attempt ?q]")
        (auto simp: load_executor_submission_state_def persist_executor_failure_transition_def Let_def)
    ultimately have "sr_state current = tr_prior ?q"
      "es_write now db ?q (sr_version current) = Inr (db2, out)"
      using False eq 1 2 3 4 by (auto split: if_splits)
    with written Some 2 3 4 show ?thesis by blast
  qed
qed

lemma store_ok_persist:
  assumes "store_ok db" "persist_executor_failure_transition now seen db t = Inr (db2, out)"
  shows "store_ok db2"
  using assms(2)
proof (cases rule: persist_Inr)
  case refused
  with assms(1) show ?thesis by simp
next
  case (written current)
  then show ?thesis using store_ok_write [OF assms(1)] by (auto simp: transition_complete_def)
qed

lemma store_ok_empty: "store_ok \<lparr>ed_rows = [], ed_audit = []\<rparr>"
  by (simp add: store_ok_def)

lemma es_insert_Inr:
  assumes "es_insert db r = Inr (db2, inserted)"
  shows "db2 = db \<or> (\<forall>x \<in> set (ed_rows db). sr_attempt x \<noteq> sr_attempt r \<and> sr_key x \<noteq> sr_key r)
    \<and> db2 = db\<lparr>ed_rows := ed_rows db @ [r]\<rparr>"
  using assms unfolding es_insert_def list_ex_iff by (simp split: if_split_asm)

lemma provision_Inr:
  assumes "provision_executor_submission_state now db c = Inr (db2, out)"
  obtains (refused) "db2 = db"
  | (provisioned) r where "sr_state r = ''NOT_SENT''" "sr_version r = 0"
      "\<forall>x \<in> set (ed_rows db). sr_attempt x \<noteq> sr_attempt r \<and> sr_key x \<noteq> sr_key r"
      "db2 = db\<lparr>ed_rows := ed_rows db @ [r]\<rparr>"
proof (cases "provision_missing c = [] \<and> is_dict c")
  case False
  with assms refused show thesis
    by (auto simp: provision_executor_submission_state_def split: if_splits)
next
  case True
  have state: "sr_state (provision_row now c) = ''NOT_SENT''" "sr_version (provision_row now c) = 0"
    by (simp_all add: provision_row_def)
  obtain inserted where "es_insert db (provision_row now c) = Inr (db2, inserted)"
    using assms True by (auto simp: provision_executor_submission_state_def Let_def bindE_eq_Inr)
  from es_insert_Inr [OF this] provisioned [OF state] refused show thesis by metis
qed

lemma store_ok_provision:
  assumes ok: "store_ok db" and "provision_executor_submission_state now db c = Inr (db2, out)"
  shows "store_ok db2"
  using assms(2)
proof (cases rule: provision_Inr)
  case refused
  with ok show ?thesis by simp
next
  case (provisioned r)
  have "history db (sr_attempt r) = []"
    using ok provisioned(3) by (fastforce simp: history_def store_ok_def filter_empty_conv)
  with ok provisioned show ?thesis
    by (auto simp: store_ok_def history_def es_states_def)
qed


section \<open>The store as a compare and swap store\<close>

definition es_swap ::
  "executor_db \<Rightarrow> string \<Rightarrow> int \<Rightarrow> py_datetime \<times> transition_request \<Rightarrow> executor_db option" where
  "es_swap db a v u =
    (case u of (now, q) \<Rightarrow>
       if tr_attempt q = a \<and> tr_new q \<in> set es_states
       then (case es_write now db q v of
               Inr (db', out) \<Rightarrow>
                 if eq_str (pget out ''persistence_result'') ''TRANSITION_STAGED'' then Some db' else None
             | Inl _ \<Rightarrow> None)
       else None)"

lemma es_swap_Some:
  assumes "es_swap db a v u = Some db'"
  obtains now q r where "u = (now, q)" "tr_attempt q = a" "tr_new q \<in> set es_states"
    "r \<in> set (ed_rows db)" "cas_matches q v r"
    "db' = db\<lparr>ed_rows := updated_rows now db q v, ed_audit := ed_audit db @ [audit_row q v (v + 1)]\<rparr>"
proof -
  obtain now q where u: "u = (now, q)" by (cases u)
  obtain out where w: "es_write now db q v = Inr (db', out)"
    "eq_str (pget out ''persistence_result'') ''TRANSITION_STAGED''" "tr_attempt q = a"
    "tr_new q \<in> set es_states"
    using assms u by (auto simp: es_swap_def split: if_splits sum.splits)
  from w(1) show thesis
    by (cases rule: es_write_Inr) (use u w that in auto)
qed

lemma es_swap_ok: "store_ok db \<Longrightarrow> es_swap db a v u = Some db' \<Longrightarrow> store_ok db'"
  by (auto elim!: es_swap_Some intro: store_ok_staged)

lemma es_swap_reads:
  "store_ok db \<Longrightarrow> es_swap db a v u = Some db' \<Longrightarrow> \<exists>r. es_row db a = Some r \<and> sr_version r = v"
  by (erule es_swap_Some) (auto simp: es_row_iff store_ok_def cas_matches_def)

lemma es_swap_row:
  assumes "store_ok db" "es_swap db a v u = Some db'"
  obtains now q r where "r \<in> set (ed_rows db)" "cas_matches q v r" "tr_attempt q = a"
    "\<And>k. es_row db' k = (if k = a then Some (cas_set now q r) else es_row db k)"
proof -
  have d: "distinct (map sr_attempt (ed_rows db))" using assms(1) by (simp add: store_ok_def)
  from assms(2) show thesis
  proof (rule es_swap_Some)
    fix now q r
    assume q: "tr_attempt q = a" and r: "r \<in> set (ed_rows db)" "cas_matches q v r"
      and db': "db' = db\<lparr>ed_rows := updated_rows now db q v,
                         ed_audit := ed_audit db @ [audit_row q v (v + 1)]\<rparr>"
    have "es_row db' k = (if k = a then Some (cas_set now q r) else es_row db k)" for k
      using es_row_update [OF d r, of now k] q db' by simp
    with r q show thesis by (rule that)
  qed
qed

interpretation es: cas_store store_ok es_row sr_version es_swap
proof
  fix db a v u db'
  assume ok: "store_ok db" and w: "es_swap db a v u = Some db'"
  show "store_ok db'" using ok w by (rule es_swap_ok)
  show "\<exists>r. es_row db a = Some r \<and> sr_version r = v" using ok w by (rule es_swap_reads)
  show "\<exists>r. es_row db' a = Some r \<and> sr_version r = v + 1"
    using ok w by (rule es_swap_row) (auto simp: cas_matches_def)
  show "es_row db' k = es_row db k" if "k \<noteq> a" for k
    using ok w by (rule es_swap_row) (simp add: that)
qed

text \<open>Any number of workers, each writing on what it read, in the order of their writes.\<close>

type_synonym persist_call = "py_datetime \<times> executor_db \<times> pyval"

fun staged_calls :: "executor_db \<Rightarrow> persist_call list \<Rightarrow> (string \<times> pyval) list" where
  "staged_calls db [] = []"
| "staged_calls db ((now, seen, t) # cs) =
     (case persist_executor_failure_transition now seen db t of
        Inl _ \<Rightarrow> staged_calls db cs
      | Inr (db', out) \<Rightarrow>
          (if eq_str (pget out ''persistence_result'') ''TRANSITION_STAGED''
           then [(clean (pget t ''attempt_id''), pget out ''prior_version'')] else [])
          @ staged_calls db' cs)"

lemma es_staged_prior [simp]: "pget (es_staged v w t) ''prior_version'' = PInt v"
  by (simp add: es_staged_def es_authority_def dget_dlast)

lemma staged_calls_winners:
  "\<exists>ops. staged_calls db cs = map (\<lambda>(k, v). (k, PInt v)) (es.winners db ops)"
proof (induction db cs rule: staged_calls.induct)
  case (1 db)
  have "es.winners db [] = []" by simp
  then show ?case by (metis list.simps(8) staged_calls.simps(1))
next
  case (2 db now seen t cs)
  show ?case
  proof (cases "persist_executor_failure_transition now seen db t")
    case (Inl e)
    with 2 show ?thesis by simp
  next
    case (Inr p)
    obtain db' out where p: "p = (db', out)" by (cases p)
    from Inr p obtain ops where ops:
      "staged_calls db' cs = map (\<lambda>(k, v). (k, PInt v)) (es.winners db' ops)"
      using "2.IH"(2) by blast
    from Inr p have "persist_executor_failure_transition now seen db t = Inr (db', out)" by simp
    then show ?thesis
    proof (cases rule: persist_Inr)
      case refused
      with Inr p ops show ?thesis by (auto simp: eq_str_def)
    next
      case (written current)
      let ?q = "read_transition t" and ?v = "sr_version current"
      have att: "clean (pget t ''attempt_id'') = tr_attempt ?q" by (simp add: read_transition_def)
      from written(7) show ?thesis
      proof (cases rule: es_write_Inr)
        case blocked
        with Inr p ops show ?thesis by (auto simp: eq_str_def)
      next
        case (staged r)
        have "es_swap db (tr_attempt ?q) ?v (now, ?q) = Some db'"
          using written(5,7) staged(5) by (simp add: es_swap_def transition_complete_def)
        then have "staged_calls db ((now, seen, t) # cs) =
            map (\<lambda>(k, v). (k, PInt v)) (es.winners db ((tr_attempt ?q, ?v, (now, ?q)) # ops))"
          using Inr p ops staged(5) att by simp
        then show ?thesis by blast
      qed
    qed
  qed
qed


section \<open>When a transition is staged\<close>

lemma forbidden_lower: "k \<in> set forbidden_keys \<Longrightarrow> lower k = k"
  by (auto simp: forbidden_keys_def lower_def lower_char_def code_of_def)

lemma no_forbidden_secret_free:
  assumes "\<not> contains_forbidden t"
  shows "secret_free t"
proof (cases t)
  case (PDict d)
  have "\<not> has_key d k" if "k \<in> set forbidden_keys" for k
  proof
    assume "has_key d k"
    then obtain v where "(k, v) \<in> set d" by (auto simp: has_key_def dest: map_of_SomeD)
    with assms PDict that forbidden_lower show False by (auto simp: list_ex_iff)
  qed
  with PDict show ?thesis by (simp add: secret_free_def list_all_iff)
qed (simp_all add: secret_free_def present_def list_all_iff)

lemma replays_versions: "replays s v xs t w \<Longrightarrow> x \<in> set xs \<Longrightarrow> ta_new_version x \<le> w"
proof (induction xs arbitrary: s v)
  case Nil
  then show ?case by simp
next
  case (Cons y ys)
  then have "replays (ta_new_state y) (v + 1) ys t w" by simp
  moreover from this have "v + 1 \<le> w" by (auto dest: replays_length)
  ultimately show ?case using Cons by auto
qed

text \<open>
  The current row, an untouched state, evidence that JSON can carry and texts without U+0000: then
  the call stages the transition, changes that row alone and appends one audit row.
\<close>

lemma persist_succeeds:
  assumes ok: "store_ok db" and r: "r \<in> set (ed_rows db)" "cas_matches (read_transition t) v r"
    and t: "is_dict t" "eq_str (pget t ''status'') ''OBSERVED''"
      "eq_str (pget t ''state_machine_result'') ''TRANSITION_OBSERVED''"
      "\<not> contains_forbidden t" "json_dumps t = Inr t" "cast_jsonb t = Inr t"
      "transition_complete (read_transition t)"
      "\<forall>x \<in> set (write_params (read_transition t)). \<not> has_nul x"
    and live: "sr_state r \<notin> set [''CONFIRMED'', ''FAILED'']" "v \<noteq> int4_max"
  shows "persist_executor_failure_transition now db db t =
    Inr (db\<lparr>ed_rows := updated_rows now db (read_transition t) v,
            ed_audit := ed_audit db @ [audit_row (read_transition t) v (v + 1)]\<rparr>,
         es_staged v (v + 1) (tr_new (read_transition t)))"
proof -
  let ?q = "read_transition t"
  have d: "distinct (map sr_attempt (ed_rows db))" using ok by (simp add: store_ok_def)
  have rq: "sr_attempt r = tr_attempt ?q" "sr_version r = v" "sr_state r = tr_prior ?q"
    "sr_authorization r = tr_authorization ?q" "sr_policy r = tr_policy ?q" "sr_key r = tr_key ?q"
    using r(2) by (auto simp: cas_matches_def)
  have row: "es_row db (tr_attempt ?q) = Some r" using r(1) rq(1) by (simp add: es_row_iff [OF d])
  have cl: "clean (PStr (tr_attempt ?q)) = tr_attempt ?q"
    using clean_names [of "pget t ''attempt_id''"] by (simp only: read_transition_def transition_request.simps)
  have texts: "text_params (write_params ?q) = Inr ()" "text_params [tr_attempt ?q] = Inr ()"
    using t(8) unfolding text_params_Inr by (simp_all add: write_params_def)
  have load: "load_executor_submission_state db (PStr (tr_attempt ?q)) = Inr (Some r)"
    using t(7) row cl texts(2) by (simp add: load_executor_submission_state_def transition_complete_def)
  have ev: "tr_evidence ?q = t" by (simp add: read_transition_def)
  have f: "find (cas_matches ?q v) (ed_rows db) = Some r"
  proof -
    obtain r' where r': "find (cas_matches ?q v) (ed_rows db) = Some r'"
      using r by (metis find_None_iff2 not_None_eq)
    then have "r' \<in> set (ed_rows db)" "cas_matches ?q v r'" by (auto dest: find_SomeD)
    then have "r' = r" using cas_matches_unique [OF d r] by blast
    with r' show ?thesis by simp
  qed
  have u: "es_update now db ?q v = Inr (Some (db\<lparr>ed_rows := updated_rows now db ?q v\<rparr>, v + 1))"
    using f live no_forbidden_secret_free [OF t(4)] by (simp add: es_update_def ev)
  have fresh: "\<not> (ta_attempt y = tr_attempt ?q \<and> ta_new_version y = v + 1)" if "y \<in> set (ed_audit db)" for y
  proof
    assume y: "ta_attempt y = tr_attempt ?q \<and> ta_new_version y = v + 1"
    have "replays ''NOT_SENT'' 0 (history db (sr_attempt r)) (sr_state r) (sr_version r)"
      using ok r(1) by (simp add: store_ok_def)
    moreover have "y \<in> set (history db (sr_attempt r))" using y that rq(1) by (simp add: history_def)
    ultimately show False using replays_versions rq(2) y by fastforce
  qed
  have there: "es_row (db\<lparr>ed_rows := updated_rows now db ?q v\<rparr>) (tr_attempt ?q) \<noteq> None"
    using es_row_update [OF d r] by simp
  have a: "es_append_audit (db\<lparr>ed_rows := updated_rows now db ?q v\<rparr>) (audit_row ?q v (v + 1)) =
      Inr (db\<lparr>ed_rows := updated_rows now db ?q v, ed_audit := ed_audit db @ [audit_row ?q v (v + 1)]\<rparr>)"
    using fresh there by (simp add: es_append_audit_def audit_row_def list_ex_iff)
  show ?thesis
    using t(1-7) load rq u a texts(1)
    by (simp add: persist_executor_failure_transition_def Let_def es_write_def ev)
qed

end
