(* ===== verification/Executor_Audit.thy ===== *)
theory Executor_Audit
  imports Executor_Submission
begin

text \<open>
  The state machine and its durable store together: the audit trail of a table that only
  provisioning and the evaluator's own transitions have written is a run of the machine.
\<close>

section \<open>What the evaluator emits\<close>

lemma ef_results [simp]:
  "pget (ef_unknown s ms []) ''state_machine_result'' = PStr ''UNKNOWN''"
  "pget (ef_unknown s ms [(''authority_contamination'', x)]) ''state_machine_result'' = PStr ''UNKNOWN''"
  "pget (ef_blocked bs s [(''evidence'', e), (''next_step'', n)]) ''state_machine_result'' = PStr ''BLOCKED''"
  "pget (ef_blocked bs s [(''event'', v), (''evidence'', e), (''next_step'', n)]) ''state_machine_result''
     = PStr ''BLOCKED''"
  by (simp_all add: ef_unknown_def ef_blocked_def ef_authority_def dget_dlast)

lemma ef_screen_result: "ef_screen i = Some r \<Longrightarrow> pget r ''state_machine_result'' = PStr ''UNKNOWN''"
  unfolding ef_screen_def by (erule screen_inputs_Some) simp_all

lemma evaluate_observed:
  assumes "pget (evaluate_executor_failure_transition i) ''state_machine_result'' = PStr ''TRANSITION_OBSERVED''"
  obtains prior event t where
    "evaluate_executor_failure_transition i = ef_observed i t"
    "ef_prior_state i = state_name prior" "map_of allowed_events (ef_event i) = Some event"
    "transition_table prior event = Some t" "ef_identity_matches i" "ef_missing i = []"
proof (cases "ef_screen i")
  case (Some r)
  with assms ef_screen_result [OF Some] show ?thesis
    by (simp add: evaluate_executor_failure_transition_def)
next
  case None
  note screened = this
  show ?thesis
  proof (cases "ef_missing i = []")
    case False
    with assms None show ?thesis by (simp add: evaluate_executor_failure_transition_def)
  next
    case True
    show ?thesis
    proof (cases "map_of allowed_states (ef_prior_state i)")
      case None
      with assms screened True show ?thesis by (simp add: evaluate_executor_failure_transition_def)
    next
      case (Some prior)
      show ?thesis
      proof (cases "map_of allowed_events (ef_event i)")
        case None
        with assms screened True Some show ?thesis
          by (simp add: evaluate_executor_failure_transition_def)
      next
        case (Some event)
        have eval: "evaluate_executor_failure_transition i = ef_apply i prior event"
          using screened True Some \<open>map_of allowed_states (ef_prior_state i) = Some prior\<close>
          by (simp add: evaluate_executor_failure_transition_def)
        with assms obtain t where "ef_identity_matches i" "transition_table prior event = Some t"
          by (auto simp: ef_apply_def split: if_splits option.splits)
        moreover from this have "\<not> (prior = Confirmed \<or> prior = Failed)"
          using table_terminal [of prior event] by (auto simp: terminal_def)
        ultimately have "ef_apply i prior event = ef_observed i t" by (simp add: ef_apply_def)
        with that eval Some True \<open>ef_identity_matches i\<close> \<open>transition_table prior event = Some t\<close>
          \<open>map_of allowed_states (ef_prior_state i) = Some prior\<close>
        show ?thesis by (simp add: map_of_allowed_states)
      qed
    qed
  qed
qed

text \<open>What the store reads back from an observed transition.\<close>

lemma clean_state_name [simp]: "strip (state_name s) = state_name s"
  by (cases s) (simp_all add: strip_def lstrip_def is_space_def)

lemma strip_of_clean [simp]: "strip (clean v) = clean v"
  using clean_names [of v] by (simp only: clean_PStr)

lemma observed_fields:
  "pget (ef_observed i (s, rec, man, nxt)) ''attempt_id'' = PStr (clean (pget (xe_contract i) ''attempt_id''))"
  "pget (ef_observed i (s, rec, man, nxt)) ''authorization_id'' =
     PStr (clean (pget (xe_contract i) ''authorization_id''))"
  "pget (ef_observed i (s, rec, man, nxt)) ''policy_version'' =
     PStr (clean (pget (xe_contract i) ''policy_version''))"
  "pget (ef_observed i (s, rec, man, nxt)) ''idempotency_key'' =
     PStr (clean (pget (xe_contract i) ''idempotency_key''))"
  "pget (ef_observed i (s, rec, man, nxt)) ''prior_submission_state'' = PStr (ef_prior_state i)"
  "pget (ef_observed i (s, rec, man, nxt)) ''submission_state'' = PStr (state_name s)"
  "pget (ef_observed i (s, rec, man, nxt)) ''event'' = PStr (ef_event i)"
  "pget (ef_observed i (s, rec, man, nxt)) ''reconciliation_required'' = PBool rec"
  "pget (ef_observed i (s, rec, man, nxt)) ''manual_retry_review_eligible'' = PBool man"
  by (simp_all add: ef_observed_def Let_def ef_authority_def dget_dlast read_identity_def)

lemma observed_evidence: "pget (ef_observed i t) ''evidence'' = PDict (ef_inputs i)"
  by (cases t) (simp add: ef_observed_def Let_def ef_authority_def dget_dlast)

lemma observed_flags:
  "pget (ef_observed i (s, rec, man, nxt)) ''safe_to_retry'' = PBool False"
  "pget (ef_observed i (s, rec, man, nxt)) ''automatic_retry_allowed'' = PBool False"
  "pget (ef_observed i (s, rec, man, nxt)) ''duplicate_submission_allowed'' = PBool False"
  by (simp_all add: ef_observed_def Let_def ef_authority_def dget_dlast)

lemma read_observed:
  "read_transition (ef_observed i (s, rec, man, nxt)) =
     \<lparr>tr_attempt = id_attempt (read_identity (xe_contract i)),
      tr_authorization = id_authorization (read_identity (xe_contract i)),
      tr_policy = id_policy (read_identity (xe_contract i)),
      tr_key = id_key (read_identity (xe_contract i)),
      tr_prior = ef_prior_state i, tr_new = state_name s, tr_event = ef_event i,
      tr_reconcile = rec, tr_review = man, tr_evidence = ef_observed i (s, rec, man, nxt)\<rparr>"
  by (simp add: read_transition_def observed_fields read_identity_def ef_prior_state_def ef_event_def)


section \<open>Tables the evaluator writes\<close>

lemma provisioned_flags:
  assumes "provision_executor_submission_state now db c = Inr (db2, out)"
    and "r \<in> set (ed_rows db2)" "r \<notin> set (ed_rows db)"
  shows "sr_state r = ''NOT_SENT'' \<and> \<not> sr_reconciliation_required r \<and> \<not> sr_manual_review r"
  using assms
  by (auto simp: provision_executor_submission_state_def es_insert_def Let_def bindE_eq_Inr
      provision_row_def split: if_splits)

text \<open>
  The tables that provisioning and the evaluator's transitions lead to from empty ones. Each call
  reads some tables \<open>seen\<close>, not necessarily the ones it writes.
\<close>

inductive executor_reachable :: "executor_db \<Rightarrow> bool" where
  er_empty: "executor_reachable \<lparr>ed_rows = [], ed_audit = []\<rparr>"
| er_provision: "executor_reachable db \<Longrightarrow>
    provision_executor_submission_state now db contract = Inr (db', out) \<Longrightarrow> executor_reachable db'"
| er_persist: "executor_reachable db \<Longrightarrow>
    persist_executor_failure_transition now seen db (evaluate_executor_failure_transition i) = Inr (db', out) \<Longrightarrow>
    executor_reachable db'"

definition audit_follows_table :: "transition_audit \<Rightarrow> bool" where
  "audit_follows_table x \<longleftrightarrow>
     (\<exists>s e t nxt. ta_prior_state x = state_name s \<and> map_of allowed_events (ta_event x) = Some e
        \<and> transition_table s e = Some (t, ta_reconciliation_required x, ta_manual_review x, nxt)
        \<and> ta_new_state x = state_name t)"

definition row_flags_ok :: "submission_row \<Rightarrow> bool" where
  "row_flags_ok r \<longleftrightarrow>
     (\<exists>s. sr_state r = state_name s \<and> sr_reconciliation_required r = may_be_on_chain s
        \<and> (sr_manual_review r \<longrightarrow> s = Not_Sent))"

lemma observed_request:
  assumes "pget (evaluate_executor_failure_transition i) ''state_machine_result'' = PStr ''TRANSITION_OBSERVED''"
  defines "q \<equiv> read_transition (evaluate_executor_failure_transition i)"
  shows "audit_follows_table (audit_row q v w)" "row_flags_ok (cas_set now q r)"
proof -
  obtain prior event s rec man nxt where
    o: "evaluate_executor_failure_transition i = ef_observed i (s, rec, man, nxt)"
    "ef_prior_state i = state_name prior" "map_of allowed_events (ef_event i) = Some event"
    "transition_table prior event = Some (s, rec, man, nxt)"
    using assms(1) by (elim evaluate_observed) (metis prod_cases4)
  have q: "tr_prior q = state_name prior" "tr_new q = state_name s" "tr_event q = ef_event i"
    "tr_reconcile q = rec" "tr_review q = man"
    by (simp_all add: q_def o(1,2) read_observed)
  show "audit_follows_table (audit_row q v w)"
    using o(3,4) by (auto simp: audit_follows_table_def audit_row_def q)
  show "row_flags_ok (cas_set now q r)"
    using table_reconciliation [OF o(4)] table_manual_review [OF o(4)]
    by (auto simp: row_flags_ok_def cas_set_def q)
qed

lemma executor_reachable_inv:
  "executor_reachable db \<Longrightarrow>
     store_ok db \<and> (\<forall>x \<in> set (ed_audit db). audit_follows_table x)
     \<and> (\<forall>r \<in> set (ed_rows db). row_flags_ok r)"
proof (induction rule: executor_reachable.induct)
  case er_empty
  show ?case using store_ok_empty by simp
next
  case (er_provision db now c db' out)
  have ok: "store_ok db'" using er_provision store_ok_provision by blast
  from er_provision.hyps(2) show ?case
  proof (cases rule: provision_Inr)
    case refused
    with er_provision.IH show ?thesis by simp
  next
    case (provisioned r)
    have "r \<notin> set (ed_rows db)" using provisioned(3) by blast
    with provisioned_flags [OF er_provision.hyps(2)] provisioned(4) have
      "sr_state r = state_name Not_Sent \<and> \<not> sr_reconciliation_required r \<and> \<not> sr_manual_review r"
      by simp
    then have "row_flags_ok r" unfolding row_flags_ok_def may_be_on_chain_def by blast
    with provisioned er_provision.IH ok show ?thesis by auto
  qed
next
  case (er_persist db now seen i db' out)
  let ?t = "evaluate_executor_failure_transition i"
  have ok: "store_ok db'" using er_persist store_ok_persist by blast
  from er_persist.hyps(2) show ?case
  proof (cases rule: persist_Inr)
    case refused
    with er_persist.IH show ?thesis by simp
  next
    case (written current)
    have obs: "pget ?t ''state_machine_result'' = PStr ''TRANSITION_OBSERVED''"
      using written(3) by (simp add: eq_str_def)
    from written(7) show ?thesis
    proof (cases rule: es_write_Inr)
      case blocked
      with er_persist.IH show ?thesis by simp
    next
      case (staged r)
      with er_persist.IH ok observed_request [OF obs] show ?thesis by auto
    qed
  qed
qed

text \<open>The events of an attempt, in the order of its audit trail.\<close>

definition audit_events :: "executor_db \<Rightarrow> string \<Rightarrow> failure_event list" where
  "audit_events db a = map (\<lambda>x. the (map_of allowed_events (ta_event x))) (history db a)"

lemma replays_run:
  "replays (state_name s) v xs (state_name t) w \<Longrightarrow> \<forall>x \<in> set xs. audit_follows_table x \<Longrightarrow>
     run s (map (\<lambda>x. the (map_of allowed_events (ta_event x))) xs) t"
proof (induction xs arbitrary: s v)
  case Nil
  then show ?case by (simp add: run_Nil)
next
  case (Cons x xs)
  obtain e u nxt where x: "map_of allowed_events (ta_event x) = Some e"
    "transition_table s e = Some (u, ta_reconciliation_required x, ta_manual_review x, nxt)"
    "ta_new_state x = state_name u"
    using Cons.prems by (auto simp: audit_follows_table_def)
  then have "run u (map (\<lambda>x. the (map_of allowed_events (ta_event x))) xs) t"
    using Cons.prems by (intro Cons.IH [where v = "v + 1"]) auto
  with x moves.intros [OF x(2)] show ?case by (auto intro: run_Cons)
qed

lemma reachable_run:
  assumes "executor_reachable db" "r \<in> set (ed_rows db)"
  obtains s where "sr_state r = state_name s" "run Not_Sent (audit_events db (sr_attempt r)) s"
    "sr_reconciliation_required r = may_be_on_chain s" "sr_manual_review r \<longrightarrow> s = Not_Sent"
    "sr_version r = int (length (audit_events db (sr_attempt r)))"
proof -
  from executor_reachable_inv [OF assms(1)] assms(2) obtain s where
    s: "sr_state r = state_name s" "sr_reconciliation_required r = may_be_on_chain s"
      "sr_manual_review r \<longrightarrow> s = Not_Sent"
    by (auto simp: row_flags_ok_def)
  have rep: "replays ''NOT_SENT'' 0 (history db (sr_attempt r)) (sr_state r) (sr_version r)"
    and fol: "\<forall>x \<in> set (history db (sr_attempt r)). audit_follows_table x"
    using executor_reachable_inv [OF assms(1)] assms(2) by (auto simp: store_ok_def history_def)
  have "run Not_Sent (audit_events db (sr_attempt r)) s"
    using replays_run [of Not_Sent 0 "history db (sr_attempt r)" s "sr_version r"] rep fol
    by (simp add: s(1) audit_events_def)
  moreover have "sr_version r = int (length (audit_events db (sr_attempt r)))"
    using replays_length [OF rep] by (simp add: audit_events_def)
  ultimately show thesis using s that by blast
qed


section \<open>A run of the machine, recorded\<close>

text \<open>
  One attempt that times out, is reconciled as never sent, and is accepted the second time; the
  witnesses below evaluate on it.
\<close>

definition demo_time :: py_datetime where
  "demo_time = \<lparr>dt_year = 2026, dt_month = 1, dt_day = 2, dt_hour = 3, dt_minute = 4, dt_second = 5,
     dt_micro = 0, dt_offset = Some 0\<rparr>"

definition demo_identity :: pydict where
  "demo_identity =
    [(''authorization_id'', PStr ''A''), (''policy_version'', PStr ''P''),
     (''attempt_id'', PStr ''T''), (''idempotency_key'', PStr ''K'')]"

definition demo_contract :: pyval where
  "demo_contract = PDict (demo_identity @
    [(''status'', PStr ''OBSERVED''), (''executor_boundary_result'', PStr ''CONTRACT_READY''),
     (''executor_contract_ready'', PBool True), (''submission_state'', PStr ''NOT_SENT'')])"

definition demo_failure :: "string \<Rightarrow> string \<Rightarrow> failure_evidence" where
  "demo_failure state event =
    \<lparr>xe_contract = demo_contract,
     xe_prior = PDict (demo_identity @ [(''submission_state'', PStr state)]),
     xe_observation = PDict (demo_identity @ [(''event'', PStr event)])\<rparr>"

definition demo_row :: submission_row where
  "demo_row = provision_row demo_time demo_contract"

definition demo_request :: "string \<Rightarrow> string \<Rightarrow> submission_state \<times> bool \<times> bool \<times> string \<Rightarrow> transition_request" where
  "demo_request state event t = read_transition (ef_observed (demo_failure state event) t)"

text \<open>The three transitions, and the tables after each.\<close>

definition demo_q1 :: transition_request where
  "demo_q1 = demo_request ''NOT_SENT'' ''SUBMISSION_TIMEOUT_UNKNOWN''
    (Submission_Unknown, True, False, ''DO_NOT_RETRY; RECONCILE_SUBMISSION_STATE'')"

definition demo_q2 :: transition_request where
  "demo_q2 = demo_request ''SUBMISSION_UNKNOWN'' ''RECONCILED_NOT_FOUND''
    (Not_Sent, False, True, ''MAY_REQUEST_NEW_MANUAL_EXECUTOR_REVIEW'')"

definition demo_q3 :: transition_request where
  "demo_q3 = demo_request ''NOT_SENT'' ''SUBMISSION_ACCEPTED''
    (Submitted, True, False, ''WAIT_OR_RECONCILE_CONFIRMATION'')"

definition demo_db0 :: executor_db where
  "demo_db0 = \<lparr>ed_rows = [demo_row], ed_audit = []\<rparr>"

definition demo_db1 :: executor_db where
  "demo_db1 = \<lparr>ed_rows = [cas_set demo_time demo_q1 demo_row], ed_audit = [audit_row demo_q1 0 1]\<rparr>"

definition demo_db2 :: executor_db where
  "demo_db2 = \<lparr>ed_rows = [cas_set demo_time demo_q2 (cas_set demo_time demo_q1 demo_row)],
     ed_audit = [audit_row demo_q1 0 1, audit_row demo_q2 1 2]\<rparr>"

definition demo_db3 :: executor_db where
  "demo_db3 = \<lparr>ed_rows = [cas_set demo_time demo_q3 (cas_set demo_time demo_q2 (cas_set demo_time demo_q1 demo_row))],
     ed_audit = [audit_row demo_q1 0 1, audit_row demo_q2 1 2, audit_row demo_q3 2 3]\<rparr>"

lemma demo_identity_read:
  "read_identity (PDict (demo_identity @ xs)) =
     \<lparr>id_authorization = ''A'', id_policy = ''P'', id_attempt = ''T'', id_key = ''K''\<rparr>"
  by (simp add: read_identity_def demo_identity_def dget_def strip_def lstrip_def is_space_def)

lemma demo_priors:
  "ef_prior_state (demo_failure ''NOT_SENT'' y) = state_name Not_Sent"
  "ef_prior_state (demo_failure ''SUBMISSION_UNKNOWN'' y) = state_name Submission_Unknown"
  by (simp_all add: ef_prior_state_def demo_failure_def demo_identity_def dget_def strip_def lstrip_def is_space_def)

lemma demo_events:
  "ef_event (demo_failure x ''SUBMISSION_TIMEOUT_UNKNOWN'') = ''SUBMISSION_TIMEOUT_UNKNOWN''"
  "ef_event (demo_failure x ''RECONCILED_NOT_FOUND'') = ''RECONCILED_NOT_FOUND''"
  "ef_event (demo_failure x ''SUBMISSION_ACCEPTED'') = ''SUBMISSION_ACCEPTED''"
  by (simp_all add: ef_event_def demo_failure_def demo_identity_def dget_def strip_def lstrip_def is_space_def)

lemma evaluate_observes:
  assumes "ef_screen i = None" "ef_missing i = []" "ef_identity_matches i" "ef_prior_state i = state_name prior"
    "map_of allowed_events (ef_event i) = Some event" "transition_table prior event = Some t"
  shows "evaluate_executor_failure_transition i = ef_observed i t"
proof -
  have "\<not> (prior = Confirmed \<or> prior = Failed)"
    using assms(6) table_terminal [of prior event] by (auto simp: terminal_def)
  with assms show ?thesis by (simp add: evaluate_executor_failure_transition_def ef_apply_def)
qed

lemma demo_screen: "ef_screen (demo_failure x y) = None"
  by (simp add: ef_screen_def screen_inputs_None ef_inputs_def demo_failure_def demo_contract_def
      demo_identity_def claims_def executor_powers_def dget_def)

lemma demo_contract_fields:
  "pget demo_contract ''status'' = PStr ''OBSERVED''"
  "pget demo_contract ''executor_boundary_result'' = PStr ''CONTRACT_READY''"
  "pget demo_contract ''executor_contract_ready'' = PBool True"
  "pget demo_contract ''submission_state'' = PStr ''NOT_SENT''"
  "read_identity demo_contract =
     \<lparr>id_authorization = ''A'', id_policy = ''P'', id_attempt = ''T'', id_key = ''K''\<rparr>"
  by (simp_all add: demo_contract_def demo_identity_read) (simp_all add: demo_identity_def dget_def)

lemma demo_missing:
  assumes "ef_prior_state (demo_failure x y) = state_name s"
    and "map_of allowed_events (ef_event (demo_failure x y)) = Some e"
  shows "ef_missing (demo_failure x y) = []" "ef_identity_matches (demo_failure x y)"
proof -
  have "xe_contract (demo_failure x y) = demo_contract"
    "read_identity (xe_prior (demo_failure x y)) = read_identity demo_contract"
    "read_identity (xe_observation (demo_failure x y)) = read_identity demo_contract"
    by (simp_all add: demo_failure_def demo_contract_fields demo_identity_read)
  then show "ef_missing (demo_failure x y) = []" "ef_identity_matches (demo_failure x y)"
    using assms by (simp_all add: ef_missing_def Let_def demo_contract_fields identity_missing_def ef_identity_matches_def)
qed

lemma demo_named:
  "map_of allowed_events (ef_event (demo_failure x ''SUBMISSION_TIMEOUT_UNKNOWN'')) = Some Submission_Timeout_Unknown"
  "map_of allowed_events (ef_event (demo_failure x ''RECONCILED_NOT_FOUND'')) = Some Reconciled_Not_Found"
  "map_of allowed_events (ef_event (demo_failure x ''SUBMISSION_ACCEPTED'')) = Some Submission_Accepted"
  by (simp_all add: demo_events allowed_events_def)

lemma demo_table:
  "transition_table Not_Sent Submission_Timeout_Unknown =
     Some (Submission_Unknown, True, False, ''DO_NOT_RETRY; RECONCILE_SUBMISSION_STATE'')"
  "transition_table Submission_Unknown Reconciled_Not_Found =
     Some (Not_Sent, False, True, ''MAY_REQUEST_NEW_MANUAL_EXECUTOR_REVIEW'')"
  "transition_table Not_Sent Submission_Accepted =
     Some (Submitted, True, False, ''WAIT_OR_RECONCILE_CONFIRMATION'')"
  by (simp_all add: transition_table_def transition_entries_def)

lemma demo_observes:
  assumes "ef_prior_state (demo_failure x y) = state_name s"
    and "map_of allowed_events (ef_event (demo_failure x y)) = Some e" and "transition_table s e = Some t"
  shows "evaluate_executor_failure_transition (demo_failure x y) = ef_observed (demo_failure x y) t"
  using assms demo_missing [OF assms(1,2)] demo_screen by (intro evaluate_observes)

lemma demo_evaluates:
  "evaluate_executor_failure_transition (demo_failure ''NOT_SENT'' ''SUBMISSION_TIMEOUT_UNKNOWN'') =
     ef_observed (demo_failure ''NOT_SENT'' ''SUBMISSION_TIMEOUT_UNKNOWN'')
       (Submission_Unknown, True, False, ''DO_NOT_RETRY; RECONCILE_SUBMISSION_STATE'')"
  "evaluate_executor_failure_transition (demo_failure ''SUBMISSION_UNKNOWN'' ''RECONCILED_NOT_FOUND'') =
     ef_observed (demo_failure ''SUBMISSION_UNKNOWN'' ''RECONCILED_NOT_FOUND'')
       (Not_Sent, False, True, ''MAY_REQUEST_NEW_MANUAL_EXECUTOR_REVIEW'')"
  "evaluate_executor_failure_transition (demo_failure ''NOT_SENT'' ''SUBMISSION_ACCEPTED'') =
     ef_observed (demo_failure ''NOT_SENT'' ''SUBMISSION_ACCEPTED'')
       (Submitted, True, False, ''WAIT_OR_RECONCILE_CONFIRMATION'')"
  by (rule demo_observes [OF demo_priors(1) demo_named(1) demo_table(1)]
        demo_observes [OF demo_priors(2) demo_named(2) demo_table(2)]
        demo_observes [OF demo_priors(1) demo_named(3) demo_table(3)])+

lemma demo_contract_ok:
  "provision_missing demo_contract = []" "secret_free demo_contract"
  "json_dumps demo_contract = Inr demo_contract" "cast_jsonb demo_contract = Inr demo_contract"
  by code_simp (simp_all add: demo_contract_def demo_identity_def secret_free_def forbidden_keys_def has_key_def json_Inr)

lemma demo_row_fields [simp]:
  "sr_attempt demo_row = ''T''" "sr_authorization demo_row = ''A''" "sr_policy demo_row = ''P''"
  "sr_key demo_row = ''K''" "sr_state demo_row = ''NOT_SENT''" "sr_version demo_row = 0"
  by code_simp+

lemma demo_reachable0: "executor_reachable demo_db0"
proof (rule er_provision [OF er_empty])
  have row: "provision_row demo_time demo_contract = demo_row" "sr_evidence demo_row = demo_contract"
    by (simp_all add: demo_row_def provision_row_def)
  have "text_params [sr_attempt demo_row, sr_authorization demo_row, sr_policy demo_row, sr_key demo_row] = Inr ()"
    unfolding demo_row_fields by (simp add: text_params_Inr)
  then show "provision_executor_submission_state demo_time \<lparr>ed_rows = [], ed_audit = []\<rparr> demo_contract
      = Inr (demo_db0, es_provisioned demo_row)"
    using demo_contract_ok row
    by (simp add: provision_executor_submission_state_def Let_def es_insert_def demo_db0_def)
      (simp add: demo_contract_def)
qed

text \<open>What JSON can carry and the store may keep.\<close>

definition storable :: "pyval \<Rightarrow> bool" where
  "storable t \<longleftrightarrow> \<not> contains_forbidden t \<and> \<not> has_datetime t \<and> \<not> has_huge_int t \<and> \<not> has_non_finite t
     \<and> \<not> holds_nul t"

definition storable_items :: "pydict \<Rightarrow> bool" where
  "storable_items kvs \<longleftrightarrow>
     list_all (\<lambda>kv. lower (fst kv) \<notin> set forbidden_keys \<and> \<not> has_nul (fst kv) \<and> storable (snd kv)) kvs"

lemma storable_json: "storable t \<Longrightarrow> json_dumps t = Inr t \<and> cast_jsonb t = Inr t"
  by (simp add: storable_def json_Inr)

lemma storable_PDict: "storable (PDict kvs) \<longleftrightarrow> storable_items kvs"
  by (induction kvs) (auto simp: storable_def storable_items_def)

lemma storable_dict_of: "storable_items kvs \<Longrightarrow> storable (PDict (dict_of kvs))"
  using set_dict_of [of kvs] by (auto simp: storable_PDict storable_items_def list_all_iff)

lemma storable_simps [simp]:
  "storable (PStr x) \<longleftrightarrow> \<not> has_nul x"
  "storable (PInt n) \<longleftrightarrow> \<bar>n\<bar> < text_limit"
  "storable (PBool b)" "storable PNone"
  by (auto simp: storable_def)

lemma storable_items_simps [simp]:
  "storable_items []"
  "storable_items (kv # kvs) \<longleftrightarrow>
     lower (fst kv) \<notin> set forbidden_keys \<and> \<not> has_nul (fst kv) \<and> storable (snd kv) \<and> storable_items kvs"
  "storable_items (xs @ ys) \<longleftrightarrow> storable_items xs \<and> storable_items ys"
  by (auto simp: storable_items_def)

lemma lower_plain: "list_all (\<lambda>c. c \<in> set ''abcdefghijklmnopqrstuvwxyz_'') s \<Longrightarrow> lower s = s"
  by (induction s) (auto simp: lower_def lower_char_def code_of_def)

definition keys_allowed :: "pydict \<Rightarrow> bool" where
  "keys_allowed kvs \<longleftrightarrow> \<not> contains_forbidden (PDict kvs)"

lemma keys_allowed_simps [simp]:
  "keys_allowed []"
  "keys_allowed (kv # kvs) \<longleftrightarrow>
     lower (fst kv) \<notin> set forbidden_keys \<and> \<not> contains_forbidden (snd kv) \<and> keys_allowed kvs"
  "keys_allowed (xs @ ys) \<longleftrightarrow> keys_allowed xs \<and> keys_allowed ys"
  by (auto simp: keys_allowed_def)

lemma keys_allowed_dict_of: "keys_allowed kvs \<Longrightarrow> \<not> contains_forbidden (PDict (dict_of kvs))"
  using set_dict_of [of kvs] by (auto simp: keys_allowed_def list_ex_iff)

lemma observed_not_forbidden:
  assumes "keys_allowed (ef_inputs i)"
  shows "\<not> contains_forbidden (ef_observed i (s, rec, man, nxt))"
proof -
  have e: "\<not> contains_forbidden (PDict (ef_inputs i))" using assms by (simp add: keys_allowed_def)
  show ?thesis
    unfolding ef_observed_def Let_def prod.case
    by (rule keys_allowed_dict_of)
      (simp add: e ef_authority_def lower_plain forbidden_keys_def del: contains_forbidden.simps(1))
qed

definition plain_identity :: "identity \<Rightarrow> bool" where
  "plain_identity d \<longleftrightarrow>
     \<not> has_nul (id_authorization d) \<and> \<not> has_nul (id_policy d) \<and> \<not> has_nul (id_attempt d) \<and> \<not> has_nul (id_key d)"

lemma plain_state [simp]: "\<not> has_nul (state_name x)"
  by (cases x) simp_all

lemma plain_event [simp]: "\<not> has_nul (event_name x)"
  by (cases x) simp_all

lemma observed_storable:
  assumes "storable_items (ef_inputs i)" "plain_identity (read_identity (xe_contract i))"
    "\<not> has_nul (ef_prior_state i)" "\<not> has_nul (ef_event i)" "\<not> has_nul nxt"
  shows "storable (ef_observed i (s, rec, man, nxt))"
  unfolding ef_observed_def Let_def prod.case
  by (rule storable_dict_of)
    (simp add: assms assms(2) [unfolded plain_identity_def] storable_PDict ef_authority_def lower_plain forbidden_keys_def)

definition evidence_ok :: "pyval \<Rightarrow> bool" where
  "evidence_ok t \<longleftrightarrow> is_dict t \<and> eq_str (pget t ''status'') ''OBSERVED''
     \<and> eq_str (pget t ''state_machine_result'') ''TRANSITION_OBSERVED'' \<and> storable t
     \<and> transition_complete (read_transition t)
     \<and> (\<forall>x \<in> set (write_params (read_transition t)). \<not> has_nul x)"

lemma observed_evidence_ok:
  assumes "storable_items (ef_inputs i)" "plain_identity (read_identity (xe_contract i))"
    "ef_missing i = []" "ef_prior_state i = state_name prior" "map_of allowed_events (ef_event i) = Some event"
    "transition_table prior event = Some (s, rec, man, nxt)"
  shows "evidence_ok (ef_observed i (s, rec, man, nxt))"
proof -
  have plain: "\<not> has_nul (ef_prior_state i)" "\<not> has_nul (ef_event i)" "\<not> has_nul nxt"
    using assms(4,5) table_next_step [OF assms(6)] by (simp_all add: map_of_allowed_events has_nul_def [of nxt])
  have "state_name x \<in> set es_states" for x by (cases x) (simp_all add: es_states_def)
  moreover have "ef_event i \<noteq> []" using assms(5) by (auto simp: allowed_events_def)
  ultimately have "transition_complete (read_transition (ef_observed i (s, rec, man, nxt)))"
    using assms(3,4) by (simp add: transition_complete_def read_observed ef_missing_def Let_def identity_missing_def)
  moreover have "\<forall>x \<in> set (write_params (read_transition (ef_observed i (s, rec, man, nxt)))). \<not> has_nul x"
    using assms(2) plain by (simp add: write_params_def read_observed plain_identity_def)
  moreover have "is_dict (ef_observed i (s, rec, man, nxt))"
    "eq_str (pget (ef_observed i (s, rec, man, nxt)) ''status'') ''OBSERVED''"
    "eq_str (pget (ef_observed i (s, rec, man, nxt)) ''state_machine_result'') ''TRANSITION_OBSERVED''"
    by (simp_all add: ef_observed_def Let_def ef_authority_def dget_dlast)
  ultimately show ?thesis using observed_storable [OF assms(1,2) plain] by (simp add: evidence_ok_def)
qed

lemma demo_plain: "plain_identity (read_identity (xe_contract (demo_failure x y)))"
  by (simp add: plain_identity_def demo_failure_def demo_contract_fields)

lemma demo_inputs_storable:
  "\<not> has_nul x \<Longrightarrow> \<not> has_nul y \<Longrightarrow> storable_items (ef_inputs (demo_failure x y))"
  by (simp add: ef_inputs_def demo_failure_def demo_contract_def demo_identity_def storable_PDict
      lower_plain forbidden_keys_def)

lemma demo_evidence_ok:
  assumes "ef_prior_state (demo_failure x y) = state_name p"
    "map_of allowed_events (ef_event (demo_failure x y)) = Some e" "transition_table p e = Some t"
    "\<not> has_nul x" "\<not> has_nul y"
  shows "evidence_ok (ef_observed (demo_failure x y) t)"
proof -
  obtain s rec man nxt where t: "t = (s, rec, man, nxt)" by (cases t)
  show ?thesis
    using observed_evidence_ok [OF demo_inputs_storable [OF assms(4,5)] demo_plain demo_missing(1) [OF assms(1,2)]
        assms(1,2) assms(3) [unfolded t]]
    by (simp add: t)
qed

lemma demo_evidence:
  "evidence_ok (tr_evidence demo_q1)" "evidence_ok (tr_evidence demo_q2)" "evidence_ok (tr_evidence demo_q3)"
  unfolding demo_q1_def demo_q2_def demo_q3_def demo_request_def read_observed transition_request.simps
  by (rule demo_evidence_ok [OF demo_priors(1) demo_named(1) demo_table(1)]
        demo_evidence_ok [OF demo_priors(2) demo_named(2) demo_table(2)]
        demo_evidence_ok [OF demo_priors(1) demo_named(3) demo_table(3)]; simp)+

lemma demo_read [simp]:
  "tr_attempt demo_q1 = ''T''" "tr_authorization demo_q1 = ''A''" "tr_policy demo_q1 = ''P''" "tr_key demo_q1 = ''K''"
  "tr_attempt demo_q2 = ''T''" "tr_authorization demo_q2 = ''A''" "tr_policy demo_q2 = ''P''" "tr_key demo_q2 = ''K''"
  "tr_attempt demo_q3 = ''T''" "tr_authorization demo_q3 = ''A''" "tr_policy demo_q3 = ''P''" "tr_key demo_q3 = ''K''"
  "tr_prior demo_q1 = ''NOT_SENT''" "tr_new demo_q1 = ''SUBMISSION_UNKNOWN''"
  "tr_prior demo_q2 = ''SUBMISSION_UNKNOWN''" "tr_new demo_q2 = ''NOT_SENT''"
  "tr_prior demo_q3 = ''NOT_SENT''" "tr_new demo_q3 = ''SUBMITTED''"
  "tr_event demo_q1 = ''SUBMISSION_TIMEOUT_UNKNOWN''" "tr_event demo_q2 = ''RECONCILED_NOT_FOUND''"
  "tr_event demo_q3 = ''SUBMISSION_ACCEPTED''"
  unfolding demo_q1_def demo_q2_def demo_q3_def demo_request_def read_observed
  by (simp_all add: demo_priors demo_events) (simp_all add: demo_failure_def demo_contract_def demo_identity_read)

lemma demo_step:
  assumes reach: "executor_reachable db" and rows: "ed_rows db = [r]"
    and t: "evaluate_executor_failure_transition i = t" "evidence_ok t" "q = read_transition t"
    and m: "cas_matches q (sr_version r) r" "sr_state r \<notin> set [''CONFIRMED'', ''FAILED'']"
      "sr_version r \<noteq> int4_max"
  shows "executor_reachable
    \<lparr>ed_rows = [cas_set demo_time q r], ed_audit = ed_audit db @ [audit_row q (sr_version r) (sr_version r + 1)]\<rparr>"
proof -
  have ok: "store_ok db" using executor_reachable_inv [OF reach] by simp
  have "persist_executor_failure_transition demo_time db db t =
      Inr (db\<lparr>ed_rows := updated_rows demo_time db q (sr_version r),
              ed_audit := ed_audit db @ [audit_row q (sr_version r) (sr_version r + 1)]\<rparr>,
           es_staged (sr_version r) (sr_version r + 1) (tr_new q))"
    unfolding t(3)
    by (rule persist_succeeds [OF ok])
      (use rows t m storable_json [of t] in \<open>simp_all add: evidence_ok_def, simp add: storable_def\<close>)
  then have "executor_reachable (db\<lparr>ed_rows := updated_rows demo_time db q (sr_version r),
      ed_audit := ed_audit db @ [audit_row q (sr_version r) (sr_version r + 1)]\<rparr>)"
    using er_persist [OF reach] t(1) by blast
  moreover have "db\<lparr>ed_rows := rs, ed_audit := xs\<rparr> = \<lparr>ed_rows = rs, ed_audit = xs\<rparr>" for rs xs
    by simp
  ultimately show ?thesis using rows m(1) by simp
qed

lemma demo_reachable:
  "executor_reachable demo_db1" "executor_reachable demo_db2" "executor_reachable demo_db3"
proof -
  have q: "tr_evidence demo_q1 = ef_observed (demo_failure ''NOT_SENT'' ''SUBMISSION_TIMEOUT_UNKNOWN'')
         (Submission_Unknown, True, False, ''DO_NOT_RETRY; RECONCILE_SUBMISSION_STATE'')"
    "tr_evidence demo_q2 = ef_observed (demo_failure ''SUBMISSION_UNKNOWN'' ''RECONCILED_NOT_FOUND'')
         (Not_Sent, False, True, ''MAY_REQUEST_NEW_MANUAL_EXECUTOR_REVIEW'')"
    "tr_evidence demo_q3 = ef_observed (demo_failure ''NOT_SENT'' ''SUBMISSION_ACCEPTED'')
         (Submitted, True, False, ''WAIT_OR_RECONCILE_CONFIRMATION'')"
    by (simp_all add: demo_q1_def demo_q2_def demo_q3_def demo_request_def read_transition_def)
  have rd: "demo_q1 = read_transition (tr_evidence demo_q1)" "demo_q2 = read_transition (tr_evidence demo_q2)"
    "demo_q3 = read_transition (tr_evidence demo_q3)"
    unfolding q by (simp_all add: demo_q1_def demo_q2_def demo_q3_def demo_request_def)
  note ev = demo_evaluates [folded q]
  show 1: "executor_reachable demo_db1"
    using demo_step [OF demo_reachable0 _ ev(1) demo_evidence(1) rd(1), of demo_row]
    by (simp add: demo_db0_def demo_db1_def cas_matches_def int4_max_def)
  show 2: "executor_reachable demo_db2"
    using demo_step [OF 1 _ ev(2) demo_evidence(2) rd(2), of "cas_set demo_time demo_q1 demo_row"]
    by (simp add: demo_db1_def demo_db2_def cas_matches_def int4_max_def)
  show "executor_reachable demo_db3"
    using demo_step [OF 2 _ ev(3) demo_evidence(3) rd(3),
        of "cas_set demo_time demo_q2 (cas_set demo_time demo_q1 demo_row)"]
    by (simp add: demo_db2_def demo_db3_def cas_matches_def int4_max_def)
qed


section \<open>Properties\<close>

text \<open>
  C1: Take any tables that provisioning and the evaluator's transitions have written, with any
  stale reads in between. The audit trail of every attempt is a run of the transition table from
  NOT_SENT to the state its row holds, with one entry per version; the row asks for reconciliation
  exactly when the order may be on the chain, and offers a manual review only in NOT_SENT.
\<close>

theorem audit_trail_is_a_run:
  assumes "executor_reachable db" "r \<in> set (ed_rows db)"
  shows "\<exists>s. sr_state r = state_name s \<and> run Not_Sent (audit_events db (sr_attempt r)) s
    \<and> sr_version r = int (length (audit_events db (sr_attempt r)))
    \<and> sr_reconciliation_required r = may_be_on_chain s \<and> (sr_manual_review r \<longrightarrow> s = Not_Sent)"
  using assms by (rule reachable_run) blast

lemma demo_db3_row: "\<exists>r. ed_rows demo_db3 = [r] \<and> sr_attempt r = ''T'' \<and> sr_state r = ''SUBMITTED''"
  by (simp add: demo_db3_def)

lemma demo_audit_events:
  "audit_events demo_db3 ''T'' = [Submission_Timeout_Unknown, Reconciled_Not_Found, Submission_Accepted]"
  by (simp add: audit_events_def history_def demo_db3_def audit_row_def allowed_events_def)

theorem audit_trail_is_a_run_witness:
  "executor_reachable demo_db3
   \<and> (\<exists>s. run Not_Sent [Submission_Timeout_Unknown, Reconciled_Not_Found, Submission_Accepted] s
        \<and> state_name s = ''SUBMITTED'')"
proof -
  obtain r where r: "ed_rows demo_db3 = [r]" "sr_attempt r = ''T''" "sr_state r = ''SUBMITTED''"
    using demo_db3_row by blast
  then show ?thesis
    using audit_trail_is_a_run [OF demo_reachable(3), of r] demo_reachable(3) by (auto simp: demo_audit_events)
qed

text \<open>
  C2: In such tables no attempt is submitted twice: between two events after which its order may
  be on the chain, the trail records a reconciliation that found the first one was never sent.
\<close>

theorem no_double_submission:
  assumes "executor_reachable db" "r \<in> set (ed_rows db)"
    and "audit_events db (sr_attempt r) = es1 @ e1 # es2 @ e2 # es3"
    and "submission_event e1" "submission_event e2"
  shows "Reconciled_Not_Found \<in> set es2"
  using assms by (metis reachable_run run_no_double_submission)

theorem no_double_submission_witness: "Reconciled_Not_Found \<in> set [Reconciled_Not_Found]"
proof -
  obtain r where r: "ed_rows demo_db3 = [r]" "sr_attempt r = ''T''"
    using demo_db3_row by blast
  then have e: "audit_events demo_db3 (sr_attempt r)
      = [] @ Submission_Timeout_Unknown # [Reconciled_Not_Found] @ Submission_Accepted # []"
    by (simp add: demo_audit_events)
  show ?thesis
    by (rule no_double_submission [OF demo_reachable(3) _ e]) (simp_all add: r submission_event_def)
qed

text \<open>
  C3: Workers race: each call reads the tables at some moment and writes later, in any order.
  However they interleave, at most one of them stages a transition of a given attempt from a given
  version.
\<close>

theorem persist_calls_win_once:
  assumes "store_ok db"
  shows "distinct (staged_calls db cs)"
proof -
  obtain ops where "staged_calls db cs = map (\<lambda>(k, v). (k, PInt v)) (es.winners db ops)"
    using staged_calls_winners [of db cs] by blast
  moreover have "inj (\<lambda>(k :: string, v). (k, PInt v))" by (auto simp: inj_def)
  ultimately show ?thesis using es.winners_distinct [OF assms] by (metis distinct_map inj_on_subset subset_UNIV)
qed

lemma demo_ok: "store_ok demo_db0" "store_ok demo_db1" "store_ok demo_db2"
  using executor_reachable_inv demo_reachable0 demo_reachable(1,2) by blast+

theorem persist_calls_win_once_witness:
  "distinct (staged_calls demo_db0 [(demo_time, demo_db0, tr_evidence demo_q1), (demo_time, demo_db0, tr_evidence demo_q3)])"
  by (rule persist_calls_win_once [OF demo_ok(1)])

text \<open>C4: A row whose state is terminal is never changed again, whatever is persisted.\<close>

theorem terminal_rows_stay:
  assumes ok: "store_ok db" and row: "es_row db a = Some r"
    and terminal: "sr_state r \<in> {''CONFIRMED'', ''FAILED''}"
    and call: "persist_executor_failure_transition now seen db t = Inr (db2, out)"
  shows "es_row db2 a = Some r"
  using call
proof (cases rule: persist_Inr)
  case refused
  with row show ?thesis by simp
next
  case (written current)
  have d: "distinct (map sr_attempt (ed_rows db))" using ok by (simp add: store_ok_def)
  from written(7) show ?thesis
  proof (cases rule: es_write_Inr)
    case blocked
    with row show ?thesis by simp
  next
    case (staged r')
    have "a \<noteq> tr_attempt (read_transition t)"
    proof
      assume a: "a = tr_attempt (read_transition t)"
      have "es_row db (tr_attempt (read_transition t)) = Some r'"
        using staged(1,2) by (simp add: es_row_iff [OF d] cas_matches_def)
      with a row have "r' = r" by simp
      with staged(3) terminal show False by simp
    qed
    with row staged(4) es_row_update [OF d staged(1,2), of now a] show ?thesis by simp
  qed
qed

definition demo_terminal :: executor_db where
  "demo_terminal = \<lparr>ed_rows = [demo_row\<lparr>sr_state := ''FAILED'', sr_version := 1\<rparr>],
     ed_audit = [audit_row (demo_q1\<lparr>tr_new := ''FAILED'', tr_event := ''KNOWN_REJECTION''\<rparr>) 0 1]\<rparr>"

theorem terminal_rows_stay_witness:
  "es_row demo_terminal ''T'' = Some (demo_row\<lparr>sr_state := ''FAILED'', sr_version := 1\<rparr>)"
proof -
  have ok: "store_ok demo_terminal"
    by (simp add: store_ok_def demo_terminal_def es_states_def history_def audit_row_def)
  have row: "es_row demo_terminal ''T'' = Some (demo_row\<lparr>sr_state := ''FAILED'', sr_version := 1\<rparr>)"
    by (simp add: es_row_def demo_terminal_def)
  have "persist_executor_failure_transition demo_time demo_terminal demo_terminal PNone
      = Inr (demo_terminal, es_unknown [''transition''])"
    by (simp add: persist_executor_failure_transition_def)
  then show ?thesis by (rule terminal_rows_stay [OF ok row, rotated]) simp
qed

text \<open>
  A call whose read is stale, because the row has since moved to another version, stages
  nothing and leaves the tables as they are: no update is lost.
\<close>

theorem stale_read_never_stages:
  assumes ok: "store_ok db"
    and seen: "es_row seen (clean (pget t ''attempt_id'')) = Some old"
    and now: "es_row db (clean (pget t ''attempt_id'')) = Some new" "sr_version new \<noteq> sr_version old"
    and call: "persist_executor_failure_transition tm seen db t = Inr (db2, out)"
  shows "db2 = db \<and> pget out ''persistence_result'' \<noteq> PStr ''TRANSITION_STAGED''"
  using call
proof (cases rule: persist_Inr)
  case refused
  then show ?thesis by simp
next
  case (written current)
  have att: "tr_attempt (read_transition t) = clean (pget t ''attempt_id'')"
    by (simp add: read_transition_def)
  have "current = old" using written(1) seen att by simp
  have d: "distinct (map sr_attempt (ed_rows db))" using ok by (simp add: store_ok_def)
  from written(7) show ?thesis
  proof (cases rule: es_write_Inr)
    case blocked
    then show ?thesis by simp
  next
    case (staged r)
    then have "es_row db (clean (pget t ''attempt_id'')) = Some r" "sr_version r = sr_version old"
      using att \<open>current = old\<close> by (auto simp: es_row_iff [OF d] cas_matches_def)
    with now show ?thesis by simp
  qed
qed

lemma demo_load: "load_executor_submission_state demo_db0 (PStr ''T'') = Inr (Some demo_row)"
  by (simp add: load_executor_submission_state_def es_row_def demo_db0_def strip_def lstrip_def is_space_def
      text_params_def)

lemma demo_stale_call:
  "persist_executor_failure_transition demo_time demo_db0 demo_db1 (tr_evidence demo_q3)
     = Inr (demo_db1, es_blocked ''executor_submission_compare_and_swap_failed'')"
proof -
  have q: "read_transition (tr_evidence demo_q3) = demo_q3"
    by (simp add: demo_q3_def demo_request_def) (simp add: read_transition_def)
  have l: "load_executor_submission_state demo_db0 (PStr ''T'') = Inr (Some demo_row)" by (rule demo_load)
  have ev: "evidence_ok (tr_evidence demo_q3)" by (rule demo_evidence)
  then have w: "json_dumps (tr_evidence demo_q3) = Inr (tr_evidence demo_q3)"
      "cast_jsonb (tr_evidence demo_q3) = Inr (tr_evidence demo_q3)" "text_params (write_params demo_q3) = Inr ()"
      "\<not> contains_forbidden (tr_evidence demo_q3)"
    using storable_json [of "tr_evidence demo_q3"]
    by (auto simp: evidence_ok_def storable_def text_params_Inr q)
  then show ?thesis using ev
    by (simp add: evidence_ok_def persist_executor_failure_transition_def Let_def q l
        es_write_def es_update_def demo_db1_def cas_matches_def)
qed

theorem stale_read_never_stages_witness:
  "pget (es_blocked ''executor_submission_compare_and_swap_failed'') ''persistence_result''
     \<noteq> PStr ''TRANSITION_STAGED''"
proof -
  have a: "clean (pget (tr_evidence demo_q3) ''attempt_id'') = ''T''"
  proof -
    have "read_transition (tr_evidence demo_q3) = demo_q3"
      by (simp add: demo_q3_def demo_request_def) (simp add: read_transition_def)
    then have "tr_attempt (read_transition (tr_evidence demo_q3)) = ''T''" by simp
    then show ?thesis by (simp add: read_transition_def)
  qed
  have "es_row demo_db0 ''T'' = Some demo_row" "es_row demo_db1 ''T'' = Some (cas_set demo_time demo_q1 demo_row)"
    by (simp_all add: es_row_def demo_db0_def demo_db1_def)
  then show ?thesis
    using stale_read_never_stages [OF demo_ok(2) _ _ _ demo_stale_call, unfolded a] by simp
qed


lemma demo_observed1:
  "pget (evaluate_executor_failure_transition (demo_failure ''NOT_SENT'' ''SUBMISSION_TIMEOUT_UNKNOWN''))
     ''state_machine_result'' = PStr ''TRANSITION_OBSERVED''"
  unfolding demo_evaluates by (simp add: ef_observed_def Let_def ef_authority_def dget_dlast)

text \<open>The phases of the evaluator on the raw inputs.\<close>

lemma transition_phases:
  "pget (evaluate_executor_failure_transition i) ''state_machine_result'' = PStr ''TRANSITION_OBSERVED'' \<longleftrightarrow>
     ef_screen i = None \<and> ef_missing i = [] \<and> ef_identity_matches i
     \<and> (\<exists>s e t. clean (pget (xe_prior i) ''submission_state'') = state_name s
          \<and> clean (pget (xe_observation i) ''event'') = event_name e \<and> legal_move s e t)"
  (is "?observed \<longleftrightarrow> ?conditions")
proof
  assume o: ?observed
  have "ef_screen i = None"
  proof (rule ccontr)
    assume "ef_screen i \<noteq> None"
    then obtain r where "ef_screen i = Some r" by blast
    with o ef_screen_result show False by (simp add: evaluate_executor_failure_transition_def)
  qed
  with o show ?conditions
    by (elim evaluate_observed)
      (auto simp: map_of_allowed_events ef_prior_state_def ef_event_def dest: table_legal)
next
  assume c: ?conditions
  then obtain s e t where "ef_prior_state i = state_name s" "map_of allowed_events (ef_event i) = Some e"
      "legal_move s e t"
    by (auto simp: map_of_allowed_events ef_prior_state_def ef_event_def)
  with c legal_table [of s e t] evaluate_observes [of i s e] show ?observed
    by (fastforce simp: ef_observed_def Let_def ef_authority_def dget_dlast)
qed

lemma ef_screen_ready:
  "ef_screen i = None \<longleftrightarrow>
     (\<forall>v \<in> {xe_contract i, xe_prior i, xe_observation i}. is_dict v \<and> (\<forall>k \<in> set executor_powers. pget v k \<noteq> PBool True))"
  by (auto simp: ef_screen_def screen_inputs_None ef_inputs_def claims_def list_ex_iff is_true_def)

lemma ef_identity_ready:
  "ef_identity_matches i \<longleftrightarrow>
     (\<forall>k \<in> {''authorization_id'', ''policy_version'', ''attempt_id'', ''idempotency_key''}.
        clean (pget (xe_prior i) k) = clean (pget (xe_contract i) k)
        \<and> clean (pget (xe_observation i) k) = clean (pget (xe_contract i) k))"
  by (auto simp: ef_identity_matches_def read_identity_def)

lemma identity_missing_ready:
  "identity_missing prefix (read_identity v) = [] \<longleftrightarrow>
     (\<forall>k \<in> {''authorization_id'', ''policy_version'', ''attempt_id'', ''idempotency_key''}. clean (pget v k) \<noteq> [])"
  by (simp add: identity_missing_def read_identity_def)

lemma ef_missing_ready:
  "ef_missing i = [] \<longleftrightarrow>
     pget (xe_contract i) ''status'' = PStr ''OBSERVED''
     \<and> pget (xe_contract i) ''executor_boundary_result'' = PStr ''CONTRACT_READY''
     \<and> pget (xe_contract i) ''executor_contract_ready'' = PBool True
     \<and> pget (xe_contract i) ''submission_state'' = PStr ''NOT_SENT''
     \<and> (\<forall>v \<in> {xe_contract i, xe_prior i, xe_observation i}.
          \<forall>k \<in> {''authorization_id'', ''policy_version'', ''attempt_id'', ''idempotency_key''}. clean (pget v k) \<noteq> [])
     \<and> (\<exists>s. clean (pget (xe_prior i) ''submission_state'') = state_name s)
     \<and> (\<exists>e. clean (pget (xe_observation i) ''event'') = event_name e)"
proof -
  have "map_of allowed_states (ef_prior_state i) \<noteq> None \<longleftrightarrow>
      (\<exists>s. clean (pget (xe_prior i) ''submission_state'') = state_name s)"
    "map_of allowed_events (ef_event i) \<noteq> None \<longleftrightarrow> (\<exists>e. clean (pget (xe_observation i) ''event'') = event_name e)"
    by (simp_all add: map_of_allowed_states map_of_allowed_events ef_prior_state_def ef_event_def)
  note known = this
  have regroup: "A \<and> B \<and> C \<and> D \<and> I1 \<and> S \<and> I2 \<and> E \<and> I3 \<longleftrightarrow> A \<and> B \<and> C \<and> D \<and> (I1 \<and> I2 \<and> I3) \<and> S \<and> E"
    for A B C D I1 S I2 E I3 :: bool by blast
  have each: "(\<forall>v \<in> {a, b, c}. P v) \<longleftrightarrow> P a \<and> P b \<and> P c" for a b c and P :: "pyval \<Rightarrow> bool"
    by simp
  show ?thesis
    by (simp only: ef_missing_def Let_def append_is_Nil_conv need_Nil identity_missing_ready eq_str_def is_true_def
        known regroup each)
qed

lemma ef_inputs_ready:
  "ef_missing i = [] \<and> ef_identity_matches i
      \<and> (\<exists>s e t. clean (pget (xe_prior i) ''submission_state'') = state_name s
           \<and> clean (pget (xe_observation i) ''event'') = event_name e \<and> legal_move s e t) \<longleftrightarrow>
     pget (xe_contract i) ''status'' = PStr ''OBSERVED''
     \<and> pget (xe_contract i) ''executor_boundary_result'' = PStr ''CONTRACT_READY''
     \<and> pget (xe_contract i) ''executor_contract_ready'' = PBool True
     \<and> pget (xe_contract i) ''submission_state'' = PStr ''NOT_SENT''
     \<and> (\<forall>k \<in> {''authorization_id'', ''policy_version'', ''attempt_id'', ''idempotency_key''}.
          clean (pget (xe_contract i) k) \<noteq> [] \<and> clean (pget (xe_prior i) k) = clean (pget (xe_contract i) k)
          \<and> clean (pget (xe_observation i) k) = clean (pget (xe_contract i) k))
     \<and> (\<exists>s e t. clean (pget (xe_prior i) ''submission_state'') = state_name s
          \<and> clean (pget (xe_observation i) ''event'') = event_name e \<and> legal_move s e t)"
proof -
  let ?ids = "{''authorization_id'', ''policy_version'', ''attempt_id'', ''idempotency_key''}"
  have ids: "(\<forall>v \<in> {xe_contract i, xe_prior i, xe_observation i}. \<forall>k \<in> K. clean (pget v k) \<noteq> [])
      \<and> (\<forall>k \<in> K. clean (pget (xe_prior i) k) = clean (pget (xe_contract i) k)
            \<and> clean (pget (xe_observation i) k) = clean (pget (xe_contract i) k)) \<longleftrightarrow>
    (\<forall>k \<in> K. clean (pget (xe_contract i) k) \<noteq> [] \<and> clean (pget (xe_prior i) k) = clean (pget (xe_contract i) k)
            \<and> clean (pget (xe_observation i) k) = clean (pget (xe_contract i) k))" for K
    by auto
  have absorb: "(A \<and> B \<and> C \<and> D \<and> N \<and> S \<and> E) \<and> I \<and> M \<longleftrightarrow> A \<and> B \<and> C \<and> D \<and> (N \<and> I) \<and> M" if "M \<longrightarrow> S \<and> E"
    for A B C D N S E I M :: bool using that by blast
  show ?thesis unfolding ef_missing_ready ef_identity_ready ids [of ?ids, symmetric] by (rule absorb) blast
qed

lemma observed_reports:
  assumes "pget (evaluate_executor_failure_transition i) ''state_machine_result'' = PStr ''TRANSITION_OBSERVED''"
  shows "\<exists>s e t. clean (pget (xe_prior i) ''submission_state'') = state_name s
    \<and> clean (pget (xe_observation i) ''event'') = event_name e \<and> legal_move s e t
    \<and> (\<forall>(k, v) \<in> set [(''prior_submission_state'', PStr (state_name s)), (''event'', PStr (event_name e)),
         (''submission_state'', PStr (state_name t)),
         (''reconciliation_required'', PBool (t \<in> {Submission_Unknown, Submitted})),
         (''manual_retry_review_eligible'', PBool (t = Not_Sent)), (''safe_to_retry'', PBool False),
         (''automatic_retry_allowed'', PBool False), (''duplicate_submission_allowed'', PBool False),
         (''authorization_id'', PStr (clean (pget (xe_contract i) ''authorization_id''))),
         (''policy_version'', PStr (clean (pget (xe_contract i) ''policy_version''))),
         (''attempt_id'', PStr (clean (pget (xe_contract i) ''attempt_id''))), (''evidence'', PDict (ef_inputs i)),
         (''idempotency_key'', PStr (clean (pget (xe_contract i) ''idempotency_key'')))].
        pget (evaluate_executor_failure_transition i) k = v)"
proof -
  obtain s e t rec man nxt where o: "evaluate_executor_failure_transition i = ef_observed i (t, rec, man, nxt)"
      "ef_prior_state i = state_name s" "map_of allowed_events (ef_event i) = Some e"
      "transition_table s e = Some (t, rec, man, nxt)"
    using assms by (elim evaluate_observed) (metis prod_cases4)
  have "rec = (t \<in> {Submission_Unknown, Submitted})" "man = (t = Not_Sent)"
    using table_reconciliation [OF o(4)] table_manual_review [OF o(4)] by (auto simp: may_be_on_chain_def)
  then have "\<forall>(k, v) \<in> set [(''prior_submission_state'', PStr (state_name s)), (''event'', PStr (event_name e)),
         (''submission_state'', PStr (state_name t)),
         (''reconciliation_required'', PBool (t \<in> {Submission_Unknown, Submitted})),
         (''manual_retry_review_eligible'', PBool (t = Not_Sent)), (''safe_to_retry'', PBool False),
         (''automatic_retry_allowed'', PBool False), (''duplicate_submission_allowed'', PBool False),
         (''authorization_id'', PStr (clean (pget (xe_contract i) ''authorization_id''))),
         (''policy_version'', PStr (clean (pget (xe_contract i) ''policy_version''))),
         (''attempt_id'', PStr (clean (pget (xe_contract i) ''attempt_id''))), (''evidence'', PDict (ef_inputs i)),
         (''idempotency_key'', PStr (clean (pget (xe_contract i) ''idempotency_key'')))].
        pget (ef_observed i (t, rec, man, nxt)) k = v"
    using o(2,3) by (simp add: observed_fields observed_flags observed_evidence map_of_allowed_events)
  then show ?thesis
    unfolding o(1) using o(2,3) table_legal [OF o(4)]
    by (intro exI [of _ s] exI [of _ e] exI [of _ t]) (simp add: ef_prior_state_def ef_event_def map_of_allowed_events)
qed

text \<open>
  C5: The evaluator reports a transition exactly when the contract, the prior state and the observation
  are dictionaries that claim no power, the contract is a ready one that was not sent, the four
  identities are given and the same in all three, and the rules of the machine have a move for the
  prior state and the event. Then it reports that move: the new state, reconciliation exactly when the
  order may be on the chain, a manual review exactly when the order is unsent, the identities of the
  contract, and never that a retry is safe.
\<close>

theorem transition_observed_iff:
  "(pget (evaluate_executor_failure_transition i) ''state_machine_result'' = PStr ''TRANSITION_OBSERVED'' \<longleftrightarrow>
     (\<forall>v \<in> {xe_contract i, xe_prior i, xe_observation i}. is_dict v
        \<and> (\<forall>k \<in> set [''live_execution'', ''trading_authority'', ''trade_signal'', ''recommendation_authority'',
              ''rpc_contact_allowed'', ''transaction_signing_allowed'', ''order_submission_allowed'',
              ''rpc_contacted'', ''transaction_signed'', ''order_submitted'', ''wallet_mutated'',
              ''wallet_mutation_allowed'', ''automatic_execution'', ''automatic_retry_allowed''].
            pget v k \<noteq> PBool True))
     \<and> pget (xe_contract i) ''status'' = PStr ''OBSERVED''
     \<and> pget (xe_contract i) ''executor_boundary_result'' = PStr ''CONTRACT_READY''
     \<and> pget (xe_contract i) ''executor_contract_ready'' = PBool True
     \<and> pget (xe_contract i) ''submission_state'' = PStr ''NOT_SENT''
     \<and> (\<forall>k \<in> {''authorization_id'', ''policy_version'', ''attempt_id'', ''idempotency_key''}.
          clean (pget (xe_contract i) k) \<noteq> [] \<and> clean (pget (xe_prior i) k) = clean (pget (xe_contract i) k)
          \<and> clean (pget (xe_observation i) k) = clean (pget (xe_contract i) k))
     \<and> (\<exists>s e t. clean (pget (xe_prior i) ''submission_state'') = state_name s
          \<and> clean (pget (xe_observation i) ''event'') = event_name e \<and> legal_move s e t))
   \<and> (pget (evaluate_executor_failure_transition i) ''state_machine_result'' = PStr ''TRANSITION_OBSERVED'' \<longrightarrow>
      (\<exists>s e t. clean (pget (xe_prior i) ''submission_state'') = state_name s
         \<and> clean (pget (xe_observation i) ''event'') = event_name e \<and> legal_move s e t
         \<and> (\<forall>(k, v) \<in> set [(''prior_submission_state'', PStr (state_name s)), (''event'', PStr (event_name e)),
              (''submission_state'', PStr (state_name t)),
              (''reconciliation_required'', PBool (t \<in> {Submission_Unknown, Submitted})),
              (''manual_retry_review_eligible'', PBool (t = Not_Sent)), (''safe_to_retry'', PBool False),
              (''automatic_retry_allowed'', PBool False), (''duplicate_submission_allowed'', PBool False),
              (''authorization_id'', PStr (clean (pget (xe_contract i) ''authorization_id''))),
              (''policy_version'', PStr (clean (pget (xe_contract i) ''policy_version''))),
              (''attempt_id'', PStr (clean (pget (xe_contract i) ''attempt_id''))), (''evidence'', PDict (ef_inputs i)),
              (''idempotency_key'', PStr (clean (pget (xe_contract i) ''idempotency_key'')))].
             pget (evaluate_executor_failure_transition i) k = v)))"
proof (rule conjI, goal_cases)
  case 1
  show ?case unfolding transition_phases ef_screen_ready ef_inputs_ready executor_powers_def [symmetric] by blast
next
  case 2
  show ?case by (rule impI) (erule observed_reports)
qed

theorem transition_observed_iff_witness:
  "pget (evaluate_executor_failure_transition (demo_failure ''NOT_SENT'' ''SUBMISSION_TIMEOUT_UNKNOWN''))
     ''submission_state'' = PStr ''SUBMISSION_UNKNOWN''"
proof -
  let ?i = "demo_failure ''NOT_SENT'' ''SUBMISSION_TIMEOUT_UNKNOWN''"
  have names: "clean (pget (xe_prior ?i) ''submission_state'') = state_name Not_Sent"
    "clean (pget (xe_observation ?i) ''event'') = event_name Submission_Timeout_Unknown"
    using demo_priors(1) demo_events(1) by (simp_all add: ef_prior_state_def ef_event_def del: state_name.simps)
  obtain s e t where "clean (pget (xe_prior ?i) ''submission_state'') = state_name s"
      "clean (pget (xe_observation ?i) ''event'') = event_name e" "legal_move s e t"
      "pget (evaluate_executor_failure_transition ?i) ''submission_state'' = PStr (state_name t)"
    using conjunct2 [OF transition_observed_iff [of ?i], rule_format, OF demo_observed1] by (elim exE conjE) (auto simp del: state_name.simps event_name.simps)
  moreover from this names have "legal_move Not_Sent Submission_Timeout_Unknown t"
    by (simp only: state_name_inject event_name_inject)
  then have "t = Submission_Unknown" by (simp add: legal_move_simps)
  ultimately show ?thesis by simp
qed

text \<open>
  Whatever it is given, the evaluator never says a retry is safe or automatic, and whenever the
  state it reports may be on the chain it requires reconciliation.
\<close>

theorem failure_verdict_is_safe:
  "is_false (pget (evaluate_executor_failure_transition i) ''safe_to_retry'')
   \<and> is_false (pget (evaluate_executor_failure_transition i) ''automatic_retry_allowed'')
   \<and> (\<forall>s. may_be_on_chain s \<longrightarrow>
        pget (evaluate_executor_failure_transition i) ''submission_state'' = PStr (state_name s) \<longrightarrow>
        is_true (pget (evaluate_executor_failure_transition i) ''reconciliation_required''))"
proof -
  define safe where "safe r \<longleftrightarrow> is_false (pget r ''safe_to_retry'') \<and> is_false (pget r ''automatic_retry_allowed'')
    \<and> (\<forall>s. may_be_on_chain s \<longrightarrow> pget r ''submission_state'' = PStr (state_name s) \<longrightarrow>
          is_true (pget r ''reconciliation_required''))" for r
  have u: "safe (ef_unknown s ms [])" "safe (ef_unknown s ms [(''authority_contamination'', x)])" for s ms x
    by (simp_all add: safe_def ef_unknown_def ef_authority_def dget_dlast)
  have names: "state_name s \<in> set [''SUBMISSION_UNKNOWN'', ''SUBMITTED'']" if "may_be_on_chain s" for s
    using that by (auto simp: may_be_on_chain_def)
  have b: "safe (ef_blocked bs s [(''evidence'', e), (''next_step'', n)])"
    "safe (ef_blocked bs s [(''event'', v), (''evidence'', e), (''next_step'', n)])" for bs s e n v
    using names by (simp_all add: safe_def ef_blocked_def ef_authority_def dget_dlast)
  have o: "safe (ef_observed i t)" if "transition_table prior event = Some t" for prior event t
  proof -
    obtain s rec man nxt where t: "t = (s, rec, man, nxt)" by (cases t)
    then show ?thesis using table_reconciliation [of prior event s rec man nxt] that
      by (auto simp: safe_def ef_observed_def Let_def ef_authority_def dget_dlast)
  qed
  have s: "safe r" if "ef_screen i = Some r" for r
    using that unfolding ef_screen_def by (rule screen_inputs_Some) (simp_all add: u)
  have "safe (evaluate_executor_failure_transition i)"
    by (auto simp: evaluate_executor_failure_transition_def ef_apply_def u s b o split: option.splits)
  then show ?thesis by (simp add: safe_def)
qed

text \<open>
  C6: An observed transition from the state the store holds is staged, when its inputs are evidence
  the store may keep (no forbidden key, no datetime, non finite float or U+0000, and no integer of
  more than 4300 digits) and the row's texts are free of U+0000, as those of a TEXT column are. The row
  moves to the state the rules of the machine give, one version on, under the same identity.
\<close>

theorem observed_transition_is_staged:
  assumes ok: "store_ok db"
    and obs: "pget (evaluate_executor_failure_transition i) ''state_machine_result'' = PStr ''TRANSITION_OBSERVED''"
    and row: "es_row db (id_attempt (read_identity (xe_contract i))) = Some r"
      "sr_authorization r = id_authorization (read_identity (xe_contract i))"
      "sr_policy r = id_policy (read_identity (xe_contract i))"
      "sr_key r = id_key (read_identity (xe_contract i))" "sr_state r = ef_prior_state i"
    and json: "storable_items (ef_inputs i)" and small: "sr_version r < int4_max"
    and plain: "list_all (\<lambda>x. CHR 0x00 \<notin> set x) [sr_attempt r, sr_authorization r, sr_policy r, sr_key r]"
  shows "\<exists>db2 r2 s0 e s. persist_executor_failure_transition now db db (evaluate_executor_failure_transition i)
      = Inr (db2, es_staged (sr_version r) (sr_version r + 1) (state_name s))
    \<and> sr_state r = state_name s0 \<and> ef_event i = event_name e \<and> legal_move s0 e s
    \<and> es_row db2 (sr_attempt r) = Some r2 \<and> sr_state r2 = state_name s \<and> sr_version r2 = sr_version r + 1
    \<and> sr_key r2 = sr_key r \<and> sr_reconciliation_required r2 = may_be_on_chain s"
proof -
  obtain prior event s rec man nxt where o:
    "evaluate_executor_failure_transition i = ef_observed i (s, rec, man, nxt)"
    "ef_prior_state i = state_name prior" "map_of allowed_events (ef_event i) = Some event"
    "transition_table prior event = Some (s, rec, man, nxt)" "ef_missing i = []"
    using obs by (elim evaluate_observed) (metis prod_cases4)
  let ?q = "read_transition (ef_observed i (s, rec, man, nxt))"
  have d: "distinct (map sr_attempt (ed_rows db))" using ok by (simp add: store_ok_def)
  have r: "r \<in> set (ed_rows db)" "sr_attempt r = id_attempt (read_identity (xe_contract i))"
    using row(1) by (auto dest: es_row_Some)
  have m: "cas_matches ?q (sr_version r) r"
    using r row by (simp add: cas_matches_def read_observed)
  have "plain_identity (read_identity (xe_contract i))"
    using plain row r(2) by (simp add: plain_identity_def has_nul_def)
  then have e: "evidence_ok (ef_observed i (s, rec, man, nxt))"
    using observed_evidence_ok [OF json _ o(5,2,3,4)] by simp
  have live: "sr_state r \<notin> set [''CONFIRMED'', ''FAILED'']"
    using table_terminal [of prior event] o(4) row(5) o(2) by (cases prior) (auto simp: terminal_def)
  have "persist_executor_failure_transition now db db (ef_observed i (s, rec, man, nxt)) =
    Inr (db\<lparr>ed_rows := updated_rows now db ?q (sr_version r),
            ed_audit := ed_audit db @ [audit_row ?q (sr_version r) (sr_version r + 1)]\<rparr>,
         es_staged (sr_version r) (sr_version r + 1) (tr_new ?q))"
    by (rule persist_succeeds [OF ok r(1) m])
      (use e live small storable_json [of "ef_observed i (s, rec, man, nxt)"] in \<open>auto simp: evidence_ok_def storable_def\<close>)
  moreover have "es_row (db\<lparr>ed_rows := updated_rows now db ?q (sr_version r), ed_audit := xs\<rparr>) (sr_attempt r)
      = Some (cas_set now ?q r)" for xs
    using es_row_update [OF d r(1) m, of now "sr_attempt r"] r(2) by (simp add: read_observed)
  moreover have "rec = may_be_on_chain s" using table_reconciliation [OF o(4)] by simp
  moreover have "sr_state r = state_name prior \<and> ef_event i = event_name event \<and> legal_move prior event s"
    using row(5) o(2,3) table_legal [OF o(4)] by (simp add: map_of_allowed_events)
  ultimately show ?thesis
    unfolding o(1) by (intro exI conjI) (assumption | simp add: read_observed cas_set_def)+
qed


lemma demo_contract_identity:
  "read_identity (xe_contract (demo_failure x y)) =
     \<lparr>id_authorization = ''A'', id_policy = ''P'', id_attempt = ''T'', id_key = ''K''\<rparr>"
  by (simp add: demo_failure_def demo_contract_def demo_identity_read)

theorem observed_transition_is_staged_witness:
  "\<exists>db2 r2. es_row db2 ''T'' = Some r2 \<and> sr_version r2 = 1 \<and> store_ok demo_db0"
proof -
  have "es_row demo_db0 ''T'' = Some demo_row" by (simp add: es_row_def demo_db0_def)
  then show ?thesis
    using observed_transition_is_staged [OF demo_ok(1) demo_observed1 _ _ _ _ _ demo_inputs_storable, of demo_row demo_time]
      demo_ok(1)
    by (auto simp: demo_contract_identity demo_priors int4_max_def)
qed

theorem failure_verdict_is_safe_witness:
  "is_true (pget (evaluate_executor_failure_transition (demo_failure ''NOT_SENT'' ''SUBMISSION_TIMEOUT_UNKNOWN''))
     ''reconciliation_required'')"
proof -
  have "pget (evaluate_executor_failure_transition (demo_failure ''NOT_SENT'' ''SUBMISSION_TIMEOUT_UNKNOWN''))
      ''submission_state'' = PStr (state_name Submission_Unknown)"
    unfolding demo_evaluates by (simp only: observed_fields)
  then show ?thesis
    using failure_verdict_is_safe [of "demo_failure ''NOT_SENT'' ''SUBMISSION_TIMEOUT_UNKNOWN''"]
    by (simp add: may_be_on_chain_def)
qed

text \<open>
  The row that \<^verbatim>\<open>load_executor_submission_state\<close> returns carries two datetimes, and the evaluator
  embeds its prior in the transition.
\<close>

lemma has_datetime_dget:
  assumes "has_datetime (dget d k)"
  shows "has_datetime (PDict d)"
proof -
  obtain v where "map_of d k = Some v" "has_datetime v"
    using assms by (auto simp: dget_def split: option.splits)
  then show ?thesis by (auto simp: list_ex_iff dest!: map_of_SomeD intro!: bexI [of _ "(k, v)"])
qed

lemma observed_has_datetime:
  assumes prior: "xe_prior i = row_dict r"
  shows "has_datetime (ef_observed i t)"
proof -
  have "has_datetime (PDict (ef_inputs i))" by (simp add: ef_inputs_def prior row_dict_def)
  moreover obtain d where d: "ef_observed i t = PDict d"
    by (cases t) (simp add: ef_observed_def Let_def)
  ultimately show ?thesis
    using has_datetime_dget [of d "''evidence''"] observed_evidence [of i t] by (simp only: d pget_PDict)
qed

lemma has_huge_dict_of: "has_huge_int (PDict (dict_of kvs)) \<Longrightarrow> has_huge_int (PDict kvs)"
  using set_dict_of [of kvs] by (auto simp: list_ex_iff)

lemma observed_huge: "has_huge_int (ef_observed i t) \<Longrightarrow> has_huge_int (PDict (ef_inputs i))"
  by (cases t) (auto simp: ef_observed_def Let_def ef_authority_def simp del: has_huge_int.simps(3)
      dest!: has_huge_dict_of, simp add: list_ex_iff)

lemma observed_write_raises:
  assumes "xe_prior i = row_dict r"
  obtains e where "\<And>v. es_write now db (read_transition (ef_observed i t)) v = Inl e"
    "e = TypeError \<or> e = ValueError \<and> has_huge_int (PDict (ef_inputs i))"
proof -
  have "json_fault (ef_observed i t) \<noteq> None"
    using observed_has_datetime [OF assms] by (simp add: json_fault_None)
  then obtain e where "json_fault (ef_observed i t) = Some e" by blast
  with json_fault_SomeD [OF this] observed_huge [of i t] show thesis
    by (intro that [of e]) (auto simp: es_write_def json_dumps_def read_transition_def)
qed

text \<open>
  C7: A transition evaluated from the row the store itself loads cannot be recorded: the row's
  datetimes reach the JSON encoder, so a call that gets as far as the write raises TypeError, unless
  the encoder meets an integer of more than 4300 digits first and raises ValueError; a read of an
  attempt with U+0000 raises DataError; and every other call leaves the tables as they are.
\<close>

theorem loaded_prior_is_never_staged:
  assumes prior: "xe_prior i = row_dict r"
    and obs: "pget (evaluate_executor_failure_transition i) ''state_machine_result'' = PStr ''TRANSITION_OBSERVED''"
  shows "(case persist_executor_failure_transition now seen db (evaluate_executor_failure_transition i) of
            Inl e \<Rightarrow> e = TypeError \<or> e = ValueError \<and> has_huge_int (PDict (ef_inputs i))
              \<or> e = DataError \<and> CHR 0x00 \<in> set (id_attempt (read_identity (xe_contract i)))
          | Inr (db2, out) \<Rightarrow> db2 = db \<and> pget out ''persistence_result'' \<noteq> PStr ''TRANSITION_STAGED'')"
proof -
  obtain t where t: "evaluate_executor_failure_transition i = ef_observed i t"
    using obs by (elim evaluate_observed)
  obtain e0 where w: "\<And>v. es_write now db (read_transition (ef_observed i t)) v = Inl e0"
    "e0 = TypeError \<or> e0 = ValueError \<and> has_huge_int (PDict (ef_inputs i))"
    using observed_write_raises [OF prior, of now db t] by blast
  have att: "tr_attempt (read_transition (ef_observed i t)) = id_attempt (read_identity (xe_contract i))"
    by (cases t) (simp add: read_observed)
  show ?thesis
  proof (cases "persist_executor_failure_transition now seen db (ef_observed i t)")
    case (Inl e)
    then have "e = e0 \<or> load_executor_submission_state seen (PStr (tr_attempt (read_transition (ef_observed i t)))) = Inl e"
      by (auto simp: persist_executor_failure_transition_def Let_def w(1) bindE_eq_Inl split: if_splits option.splits)
    then have "e = e0 \<or> e = DataError \<and> CHR 0x00 \<in> set (id_attempt (read_identity (xe_contract i)))"
      by (auto simp: load_executor_submission_state_def Let_def text_params_def att read_identity_def has_nul_def
          split: if_splits)
    with w(2) Inl t show ?thesis by auto
  next
    case (Inr p)
    obtain db2 out where p: "p = (db2, out)" by (cases p)
    from Inr p have "persist_executor_failure_transition now seen db (ef_observed i t) = Inr (db2, out)" by simp
    then show ?thesis
    proof (cases rule: persist_Inr)
      case refused
      with Inr p t show ?thesis by simp
    next
      case (written current)
      with w(1) show ?thesis by simp
    qed
  qed
qed

definition demo_loaded :: failure_evidence where
  "demo_loaded = (demo_failure ''NOT_SENT'' ''SUBMISSION_ACCEPTED'')\<lparr>xe_prior := row_dict demo_row\<rparr>"

theorem loaded_prior_is_never_staged_witness:
  "persist_executor_failure_transition demo_time demo_db0 demo_db0 (evaluate_executor_failure_transition demo_loaded)
     = Inl TypeError"
proof -
  have prior: "xe_prior demo_loaded = row_dict demo_row" by (simp add: demo_loaded_def)
  have c: "xe_contract demo_loaded = demo_contract" "ef_event demo_loaded = ''SUBMISSION_ACCEPTED''"
    "read_identity (xe_observation demo_loaded) = read_identity demo_contract"
    using demo_events(3) by (simp_all add: demo_loaded_def demo_failure_def ef_event_def demo_contract_fields demo_identity_read)
  have st: "ef_prior_state demo_loaded = ''NOT_SENT''"
    by (simp add: ef_prior_state_def prior row_dict_def dget_def strip_def lstrip_def is_space_def)
  have id: "read_identity (row_dict demo_row) = read_identity demo_contract"
    by (simp add: demo_contract_fields) (simp add: read_identity_def row_dict_def dget_def strip_def lstrip_def is_space_def)
  have o: "evaluate_executor_failure_transition demo_loaded = ef_observed demo_loaded
      (Submitted, True, False, ''WAIT_OR_RECONCILE_CONFIRMATION'')"
  proof (rule evaluate_observes)
    show "ef_screen demo_loaded = None"
      using demo_screen [of "''NOT_SENT''" "''SUBMISSION_ACCEPTED''"] unfolding ef_screen_def screen_inputs_None
      by (simp add: ef_inputs_def demo_loaded_def row_dict_def claims_def executor_powers_def dget_def)
    show "ef_missing demo_loaded = []" "ef_identity_matches demo_loaded"
      using c id st demo_named(3) [of "''NOT_SENT''"]
      by (simp_all add: ef_missing_def Let_def prior demo_contract_fields identity_missing_def ef_identity_matches_def
          allowed_states_def allowed_events_def)
    show "ef_prior_state demo_loaded = state_name Not_Sent" using st by simp
    show "map_of allowed_events (ef_event demo_loaded) = Some Submission_Accepted"
      by (simp add: c allowed_events_def)
  qed (rule demo_table)
  have obs: "pget (evaluate_executor_failure_transition demo_loaded) ''state_machine_result''
      = PStr ''TRANSITION_OBSERVED''"
    unfolding o by (simp add: ef_observed_def Let_def ef_authority_def dget_dlast)
  have q: "read_transition (ef_observed demo_loaded (Submitted, True, False, ''WAIT_OR_RECONCILE_CONFIRMATION''))
      = \<lparr>tr_attempt = ''T'', tr_authorization = ''A'', tr_policy = ''P'', tr_key = ''K'', tr_prior = ''NOT_SENT'',
         tr_new = ''SUBMITTED'', tr_event = ''SUBMISSION_ACCEPTED'', tr_reconcile = True, tr_review = False,
         tr_evidence = ef_observed demo_loaded (Submitted, True, False, ''WAIT_OR_RECONCILE_CONFIRMATION'')\<rparr>"
  proof -
    show ?thesis using c st by (simp add: read_observed demo_contract_fields)
  qed
  have "\<not> contains_forbidden (ef_observed demo_loaded (Submitted, True, False, ''WAIT_OR_RECONCILE_CONFIRMATION''))"
  proof (rule observed_not_forbidden)
    have "\<not> contains_forbidden (PDict (demo_identity @ xs))" if "keys_allowed xs" for xs
    proof -
      have "keys_allowed (demo_identity @ xs)"
        using that by (simp add: demo_identity_def lower_plain forbidden_keys_def)
      then show ?thesis unfolding keys_allowed_def .
    qed
    moreover have "keys_allowed [(''event'', PStr ''SUBMISSION_ACCEPTED'')]"
      "keys_allowed
        [(''status'', PStr ''OBSERVED''), (''executor_boundary_result'', PStr ''CONTRACT_READY''),
         (''executor_contract_ready'', PBool True), (''submission_state'', PStr ''NOT_SENT'')]"
      by (simp_all add: lower_plain forbidden_keys_def)
    ultimately have parts: "\<not> contains_forbidden demo_contract" "\<not> contains_forbidden (xe_observation demo_loaded)"
      by (simp_all only: demo_contract_def demo_loaded_def demo_failure_def failure_evidence.simps failure_evidence.update_convs not_False_eq_True)
    have "sr_evidence demo_row = demo_contract" "sr_last_event demo_row = None"
      by (simp_all add: demo_row_def provision_row_def)
    then have "\<not> contains_forbidden (row_dict demo_row)"
      unfolding row_dict_def keys_allowed_def [symmetric] using parts
      by (simp add: lower_plain forbidden_keys_def del: contains_forbidden.simps(1))
    with parts show "keys_allowed (ef_inputs demo_loaded)"
      by (simp add: ef_inputs_def prior c lower_plain forbidden_keys_def del: contains_forbidden.simps(1))
  qed
  moreover note demo_load
  moreover have "is_dict (ef_observed demo_loaded (Submitted, True, False, ''WAIT_OR_RECONCILE_CONFIRMATION''))"
    "eq_str (pget (ef_observed demo_loaded (Submitted, True, False, ''WAIT_OR_RECONCILE_CONFIRMATION'')) ''status'') ''OBSERVED''"
    by (simp_all add: ef_observed_def Let_def ef_authority_def dget_dlast)
  ultimately have "persist_executor_failure_transition demo_time demo_db0 demo_db0 (evaluate_executor_failure_transition demo_loaded)
      = es_write demo_time demo_db0 (read_transition (evaluate_executor_failure_transition demo_loaded)) 0"
    using obs unfolding o
    by (simp add: persist_executor_failure_transition_def q transition_complete_def es_states_def eq_str_def)
  moreover have "\<exists>e. es_write demo_time demo_db0 (read_transition (evaluate_executor_failure_transition demo_loaded)) 0 = Inl e"
    unfolding o by (rule observed_write_raises [OF prior]) blast
  moreover have "\<not> has_huge_int (PDict (ef_inputs demo_loaded))"
    by (simp add: ef_inputs_def demo_loaded_def demo_failure_def demo_contract_def demo_identity_def row_dict_def
        demo_row_def provision_row_def)
  moreover have "id_attempt (read_identity (xe_contract demo_loaded)) = ''T''"
    by (simp add: c demo_contract_fields)
  ultimately show ?thesis
    using loaded_prior_is_never_staged [OF prior obs, where now = demo_time and seen = demo_db0 and db = demo_db0]
    by auto
qed

end
