(* ===== verification/Canary_Provisioning.thy ===== *)
theory Canary_Provisioning
  imports Canary_Tables
begin

text \<open>
  Provisioning the single use state of a passed canary authorization
  (\<^verbatim>\<open>canary_authorization_provisioning.py\<close>).
\<close>

definition pv_authority :: pydict where
  "pv_authority =
    [(''interpretation'', PStr ''CANARY_AUTHORIZATION_PROVISIONING_ONLY''),
     (''live_execution'', PBool False),
     (''trading_authority'', PBool False),
     (''trade_signal'', PBool False),
     (''recommendation_authority'', PBool False),
     (''rpc_contacted'', PBool False),
     (''transaction_signed'', PBool False),
     (''order_submitted'', PBool False),
     (''wallet_mutated'', PBool False),
     (''automatic_execution'', PBool False)]"

definition pv_unknown :: "string list \<Rightarrow> pydict \<Rightarrow> pyval" where
  "pv_unknown missing extra = PDict (dict_of (
    [(''status'', PStr ''UNKNOWN''), (''provisioning_result'', PStr ''UNKNOWN''),
     (''authorization_state_staged'', PBool False), (''provision_audit_staged'', PBool False),
     (''missing'', names (fromkeys missing))] @ extra @ pv_authority))"

definition pv_blocked :: "string list \<Rightarrow> pydict \<Rightarrow> pyval" where
  "pv_blocked blockers extra = PDict (dict_of (
    [(''status'', PStr ''OBSERVED''), (''provisioning_result'', PStr ''BLOCKED''),
     (''authorization_state_staged'', PBool False), (''provision_audit_staged'', PBool False),
     (''blockers'', names (fromkeys blockers))] @ extra @ pv_authority))"

definition pv_powers :: "string list" where
  "pv_powers =
    [''live_execution'', ''trading_authority'', ''trade_signal'', ''recommendation_authority'',
     ''rpc_contact_allowed'', ''transaction_signing_allowed'', ''order_submission_allowed'',
     ''rpc_contacted'', ''transaction_signed'', ''order_submitted'', ''wallet_mutated'',
     ''automatic_canary_activation'', ''automatic_execution'']"

section \<open>Validation\<close>

record provision_normal =
  pn_authorization :: string
  pn_policy :: string
  pn_authorized_at :: py_datetime
  pn_notional :: rat
  pn_max_loss :: rat
  pn_evidence :: pyval

definition pv_missing ::
  "pyval \<Rightarrow> py_datetime option \<Rightarrow> rat option \<Rightarrow> rat option \<Rightarrow> string list" where
  "pv_missing a authorized_at notional max_loss =
     need (eq_str (pget a ''status'') ''OBSERVED'') ''observed_canary_authorization''
     @ need (eq_str (pget a ''canary_authorization_result'') ''PASS'') ''passed_canary_authorization''
     @ need (is_true (pget a ''canary_execution_eligible'')) ''canary_execution_eligibility''
     @ need (is_true (pget a ''human_authorized'')) ''human_authorization''
     @ need (clean (pget a ''authorization_id'') \<noteq> []) ''authorization_id''
     @ need (clean (pget a ''policy_version'') \<noteq> []) ''policy_version''
     @ need (authorized_at \<noteq> None) ''valid_authorized_at''
     @ need (positive notional) ''valid_canary_notional_usd''
     @ need (positive max_loss) ''valid_max_loss_usd''"

definition pv_blockers :: "pyval \<Rightarrow> rat \<Rightarrow> rat \<Rightarrow> string list" where
  "pv_blockers a notional max_loss =
     need (notional \<le> max_canary_notional) ''canary_notional_exceeds_20_usd''
     @ need (max_loss \<le> notional) ''loss_cap_exceeds_canary_notional''
     @ need (eq_int (pget a ''max_open_positions'') 1) ''single_position_isolation_required''
     @ concat (map (\<lambda>k. need (is_true (pget a k)) (k @ ''_required''))
         [''kill_switch_armed'', ''isolated_funds'', ''isolated_account_or_wallet''])"

text \<open>\<open>Inl\<close> is the failure that is returned, \<open>Inr\<close> the normalized authorization.\<close>

definition validate_canary_authorization_for_provisioning ::
  "pyval \<Rightarrow> (pyval + provision_normal) res" where
  "validate_canary_authorization_for_provisioning a =
    (if \<not> is_dict a then Inr (Inl (pv_unknown [''canary_authorization_evidence''] []))
     else if claims pv_powers a then Inr (Inl (pv_unknown [''non_authoritative_canary_authorization''] []))
     else
       (let authorization_id = clean (pget a ''authorization_id'');
            authorized_at = iso_time_stripped (pget a ''authorized_at'')
        in bindE (number (pget a ''canary_notional_usd'')) (\<lambda>notional.
           bindE (number (pget a ''max_loss_usd'')) (\<lambda>max_loss.
           Inr
            (if pv_missing a authorized_at notional max_loss \<noteq> []
             then Inl (pv_unknown (pv_missing a authorized_at notional max_loss)
                        [(''authorization_id'', or_none authorization_id)])
             else
               (case (authorized_at, notional, max_loss) of
                  (Some ts, Some n, Some l) \<Rightarrow>
                    if pv_blockers a n l \<noteq> []
                    then Inl (pv_blocked (pv_blockers a n l) [(''authorization_id'', PStr authorization_id)])
                    else Inr \<lparr>pn_authorization = authorization_id,
                              pn_policy = clean (pget a ''policy_version''),
                              pn_authorized_at = ts, pn_notional = n, pn_max_loss = l,
                              pn_evidence = a\<rparr>
                | _ \<Rightarrow> Inl (pv_unknown [] [])))))))"

section \<open>Staging\<close>

definition pv_row :: "provision_normal \<Rightarrow> canary_row" where
  "pv_row n =
    \<lparr>cw_authorization = pn_authorization n, cw_policy = pn_policy n, cw_consumed = False,
     cw_use_count = 0, cw_version = 0, cw_attempt = None, cw_consumed_at = None, cw_key = None,
     cw_authorized_at = to_utc (pn_authorized_at n), cw_notional = Some (Fin (pn_notional n)),
     cw_max_loss = Some (Fin (pn_max_loss n)), cw_evidence = Some (pn_evidence n)\<rparr>"

definition pv_audit :: "provision_normal \<Rightarrow> provision_audit_row" where
  "pv_audit n =
    \<lparr>pa_authorization = pn_authorization n, pa_policy = pn_policy n,
     pa_authorized_at = pn_authorized_at n, pa_notional = Fin (pn_notional n),
     pa_max_loss = Fin (pn_max_loss n), pa_evidence = pn_evidence n\<rparr>"

definition pv_staged :: "provision_normal \<Rightarrow> pyval" where
  "pv_staged n = PDict (dict_of (
    [(''status'', PStr ''OBSERVED''),
     (''provisioning_result'', PStr ''TRANSACTION_STAGED''),
     (''authorization_state_staged'', PBool True),
     (''provision_audit_staged'', PBool True),
     (''durable_commit_managed_by_request_session'', PBool True),
     (''authorization_id'', PStr (pn_authorization n)),
     (''policy_version'', PStr (pn_policy n)),
     (''authorized_at'', PStr (isoformat (pn_authorized_at n))),
     (''authorized_notional_usd'', PFloat (Fin (pn_notional n))),
     (''max_loss_usd'', PFloat (Fin (pn_max_loss n))),
     (''consumed'', PBool False),
     (''use_count'', PInt 0),
     (''version'', PInt 0),
     (''authorization_evidence'', pn_evidence n),
     (''next_step'', PStr ''RUNTIME_PREORDER_RECHECK_MAY_READ_THIS_SINGLE_USE_STATE'')]
    @ pv_authority))"

text \<open>
  The evidence is written to JSON first. The statements bind the two texts, which must be free of
  U+0000, and the instant, which the driver refuses outside the calendar.
\<close>

definition provision_canary_authorization_state ::
  "canary_db \<Rightarrow> pyval \<Rightarrow> (canary_db \<times> pyval) res" where
  "provision_canary_authorization_state db a =
    bindE (validate_canary_authorization_for_provisioning a) (\<lambda>v.
      case v of
        Inl failure \<Rightarrow> Inr (db, failure)
      | Inr n \<Rightarrow>
          bindE (json_dumps_sorted (pn_evidence n)) (\<lambda>j.
          bindE (text_params [pn_authorization n, pn_policy n]) (\<lambda>_.
          bindE (cast_jsonb j) (\<lambda>_.
          if to_utc (pn_authorized_at n) = None then Inl DataError
          else bindE (insert_state db (pv_row n)) (\<lambda>(db1, inserted).
            if \<not> inserted
            then Inr (db1, pv_blocked [''authorization_id_already_provisioned'']
                   [(''authorization_id'', PStr (pn_authorization n)),
                    (''next_step'', PStr ''DO_NOT_REPROVISION_OR_RESET_SINGLE_USE_STATE'')])
            else bindE (insert_provision db1 (pv_audit n)) (\<lambda>db2. Inr (db2, pv_staged n)))))))"

section \<open>What provisioning keeps\<close>

lemma pv_results [simp]:
  "pget (pv_unknown ms []) ''provisioning_result'' = PStr ''UNKNOWN''"
  "pget (pv_unknown ms [(''authorization_id'', x)]) ''provisioning_result'' = PStr ''UNKNOWN''"
  "pget (pv_blocked bs [(''authorization_id'', x)]) ''provisioning_result'' = PStr ''BLOCKED''"
  "pget (pv_blocked bs [(''authorization_id'', x), (''next_step'', y)]) ''provisioning_result'' = PStr ''BLOCKED''"
  "pget (pv_staged n) ''provisioning_result'' = PStr ''TRANSACTION_STAGED''"
  by (simp_all add: pv_unknown_def pv_blocked_def pv_staged_def pv_authority_def dget_dlast)

text \<open>The normalized authorization satisfies every requirement of the tables.\<close>

lemma validate_normal:
  assumes "validate_canary_authorization_for_provisioning a = Inr (Inr n)"
  shows "pn_authorization n = clean (pget a ''authorization_id'')" "pn_authorization n \<noteq> []"
    "0 < pn_notional n" "pn_notional n \<le> max_canary_notional"
    "0 < pn_max_loss n" "pn_max_loss n \<le> pn_notional n"
    "is_true (pget a ''human_authorized'')" "eq_str (pget a ''canary_authorization_result'') ''PASS''"
    "is_true (pget a ''kill_switch_armed'')" "is_true (pget a ''isolated_funds'')"
    "is_true (pget a ''isolated_account_or_wallet'')" "pn_evidence n = a" "\<not> claims pv_powers a" "is_dict a"
proof -
  obtain ts nn l where v: "pv_missing a (Some ts) (Some nn) (Some l) = []" "pv_blockers a nn l = []"
    "n = \<lparr>pn_authorization = clean (pget a ''authorization_id''),
          pn_policy = clean (pget a ''policy_version''), pn_authorized_at = ts, pn_notional = nn,
          pn_max_loss = l, pn_evidence = a\<rparr>"
    using assms
    by (auto simp: validate_canary_authorization_for_provisioning_def Let_def bindE_eq_Inr
        split: if_splits option.splits)
  from v show "pn_authorization n = clean (pget a ''authorization_id'')" "pn_authorization n \<noteq> []"
    "0 < pn_notional n" "0 < pn_max_loss n"
    "is_true (pget a ''human_authorized'')" "eq_str (pget a ''canary_authorization_result'') ''PASS''"
    "pn_evidence n = a"
    by (auto simp: pv_missing_def)
  from v show "pn_notional n \<le> max_canary_notional" "pn_max_loss n \<le> pn_notional n"
    "is_true (pget a ''kill_switch_armed'')" "is_true (pget a ''isolated_funds'')"
    "is_true (pget a ''isolated_account_or_wallet'')"
    by (auto simp: pv_blockers_def)
  from assms show "\<not> claims pv_powers a" "is_dict a"
    by (auto simp: validate_canary_authorization_for_provisioning_def split: if_splits)
qed

lemma pv_row_checks:
  assumes "validate_canary_authorization_for_provisioning a = Inr (Inr n)"
  shows "row_checks (pv_row n)"
  using validate_normal(3-6) [OF assms]
  by (simp add: row_checks_def single_use_state_def caps_valid_def pv_row_def)

lemma provision_cases:
  assumes "provision_canary_authorization_state db a = Inr (db2, out)"
  obtains (refused) "db2 = db" "pget out ''provisioning_result'' \<noteq> PStr ''TRANSACTION_STAGED''"
  | (staged) n db1 where "validate_canary_authorization_for_provisioning a = Inr (Inr n)"
      "insert_state db (pv_row n) = Inr (db1, True)"
      "insert_provision db1 (pv_audit n) = Inr db2" "out = pv_staged n"
proof -
  obtain v where v: "validate_canary_authorization_for_provisioning a = Inr v"
    using assms by (auto simp: provision_canary_authorization_state_def bindE_eq_Inr)
  show thesis
  proof (cases v)
    case (Inl failure)
    have "pget failure ''provisioning_result'' \<noteq> PStr ''TRANSACTION_STAGED''"
      using v Inl
      by (auto simp: validate_canary_authorization_for_provisioning_def Let_def bindE_eq_Inr
          split: if_splits option.splits)
    with assms v Inl refused show thesis by (simp add: provision_canary_authorization_state_def)
  next
    case (Inr n)
    obtain db1 b where b: "insert_state db (pv_row n) = Inr (db1, b)"
      using assms v Inr
      by (auto simp: provision_canary_authorization_state_def bindE_eq_Inr split: if_splits)
    show thesis
    proof (cases b)
      case True
      with assms v Inr b staged show thesis
        by (auto simp: provision_canary_authorization_state_def bindE_eq_Inr split: if_splits)
    next
      case False
      with assms v Inr b insert_state_Inr [OF b] refused show thesis
        by (auto simp: provision_canary_authorization_state_def bindE_eq_Inr split: if_splits)
    qed
  qed
qed

lemma canary_ok_provision:
  assumes ok: "canary_ok db" and p: "provision_canary_authorization_state db a = Inr (db2, out)"
  shows "canary_ok db2"
  using p
proof (cases rule: provision_cases)
  case refused
  with ok show ?thesis by simp
next
  case (staged n db1)
  have "canary_ok db1"
    using ok staged(2) by (rule canary_ok_insert_state) (simp_all add: pv_row_def)
  then show ?thesis using staged(3) by (rule canary_ok_insert_provision)
qed

text \<open>An authorization that has a row keeps it: provisioning never resets a consumed state.\<close>

lemma provision_keeps_rows:
  assumes "provision_canary_authorization_state db a = Inr (db2, out)" "canary_row_of db k = Some r"
  shows "canary_row_of db2 k = Some r"
  using assms(1)
proof (cases rule: provision_cases)
  case refused
  with assms(2) show ?thesis by simp
next
  case (staged n db1)
  have "db1 = db\<lparr>cd_rows := cd_rows db @ [pv_row n]\<rparr>"
    using insert_state_Inr [OF staged(2)] by simp
  moreover have "cd_rows db2 = cd_rows db1"
    using staged(3) by (auto simp: insert_provision_def split: if_splits)
  ultimately have "cd_rows db2 = cd_rows db @ [pv_row n]" by simp
  moreover have "find p (xs @ ys) = Some x" if "find p xs = Some x" for p :: "canary_row \<Rightarrow> bool" and xs ys x
    using that by (induction xs) (auto split: if_splits)
  ultimately show ?thesis using assms(2) by (simp add: canary_row_of_def)
qed

end
