(* ===== verification/Authority_Chain.thy ===== *)
theory Authority_Chain
  imports Release_Gate Canary_Authorization Canary_Handoff Final_Readiness Executor_Audit Canary_Provisioning
begin

text \<open>
  No output of the pipeline claims a power, and so no stage turns another's output away as
  contaminated.
\<close>

section \<open>Outputs that claim nothing\<close>

text \<open>Every power that a screen of the pipeline looks for.\<close>

definition all_powers :: "string list" where
  "all_powers =
    [''live_execution'', ''trading_authority'', ''trade_signal'', ''recommendation_authority'',
     ''rpc_contact_allowed'', ''transaction_signing_allowed'', ''order_submission_allowed'',
     ''rpc_contacted'', ''transaction_signed'', ''order_submitted'', ''wallet_mutated'',
     ''wallet_mutation_allowed'', ''persistence_mutated'', ''automatic_execution'',
     ''automatic_canary_activation'', ''automatic_retry_allowed'']"

definition powerless :: "pydict \<Rightarrow> bool" where
  "powerless kvs \<longleftrightarrow> list_all (\<lambda>kv. fst kv \<notin> set all_powers \<or> \<not> is_true (snd kv)) kvs"

lemma powerless_simps [simp]:
  "powerless []"
  "powerless (kv # kvs) \<longleftrightarrow> (fst kv \<notin> set all_powers \<or> \<not> is_true (snd kv)) \<and> powerless kvs"
  "powerless (xs @ ys) \<longleftrightarrow> powerless xs \<and> powerless ys"
  by (simp_all add: powerless_def)

lemma powerless_dlast:
  "powerless kvs \<Longrightarrow> k \<in> set all_powers \<Longrightarrow> \<not> is_true v \<Longrightarrow> \<not> is_true (dlast k v kvs)"
  by (induction k v kvs rule: dlast.induct) auto

definition claims_nothing :: "pyval \<Rightarrow> bool" where
  "claims_nothing r \<longleftrightarrow> (\<forall>k \<in> set all_powers. \<not> is_true (pget r k))"

lemma claims_nothing_output: "powerless kvs \<Longrightarrow> claims_nothing (PDict (dict_of kvs))"
  by (simp add: claims_nothing_def dget_dlast powerless_dlast)

lemma never_true [simp]:
  "\<not> is_true (names xs)" "\<not> is_true (num_val q)" "\<not> is_true (or_none s)"
  by (simp_all add: names_def num_val_def or_none_def is_true_def split: option.splits)

lemma powerless_authority [simp]:
  "powerless rg_authority" "powerless ca_authority" "powerless cp_authority" "powerless dr_authority"
  "powerless fr_authority" "powerless eb_authority" "powerless ef_authority" "powerless pv_authority"
  "powerless dp_authority" "powerless lc_authority" "powerless es_authority"
  by (simp_all add: rg_authority_def ca_authority_def cp_authority_def dr_authority_def
      fr_authority_def eb_authority_def ef_authority_def pv_authority_def dp_authority_def
      lc_authority_def es_authority_def all_powers_def)

section \<open>The outputs of each stage\<close>

lemma unknown_claims_nothing:
  assumes "powerless extra"
  shows "claims_nothing (rg_unknown ms extra)" "claims_nothing (ca_unknown ms extra)"
    "claims_nothing (cp_unknown ms extra)" "claims_nothing (dr_unknown ms extra)"
    "claims_nothing (fr_unknown ms extra)" "claims_nothing (eb_unknown ms extra)"
    "claims_nothing (ef_unknown s ms extra)"
  unfolding rg_unknown_def ca_unknown_def cp_unknown_def dr_unknown_def fr_unknown_def eb_unknown_def
    ef_unknown_def
  by (rule claims_nothing_output, simp add: assms, simp add: all_powers_def)+

lemma blocked_claims_nothing:
  assumes "powerless extra"
  shows "claims_nothing (ca_blocked ms extra)" "claims_nothing (cp_blocked ms extra)"
    "claims_nothing (dr_blocked ms extra)" "claims_nothing (fr_blocked ms extra)"
    "claims_nothing (eb_blocked ms extra)" "claims_nothing (ef_blocked ms s extra)"
  unfolding ca_blocked_def cp_blocked_def dr_blocked_def fr_blocked_def eb_blocked_def ef_blocked_def
  by (rule claims_nothing_output, simp add: assms, simp add: all_powers_def)+

lemma screen_claims_nothing:
  assumes "screen_inputs powers unknown reason key extra inputs = Some r"
    and "\<And>ms e. powerless e \<Longrightarrow> claims_nothing (unknown ms e)"
    and "powerless extra" "key \<notin> set all_powers"
  shows "claims_nothing r"
  using assms(1) by (rule screen_inputs_Some) (use assms(2-4) in auto)

lemma passed_claims_nothing:
  "claims_nothing (rg_result i1 bs)" "claims_nothing (ca_passed i2 n2)" "claims_nothing (cp_passed i3 n3)"
  "claims_nothing (dr_ready i4 n4)" "claims_nothing (fr_passed i5 n5)" "claims_nothing (eb_contract i6 n6)"
  "claims_nothing (ef_observed i7 (s, rec, man, nxt))"
  unfolding rg_result_def ca_passed_def cp_passed_def dr_ready_def fr_passed_def eb_contract_def
    ef_observed_def Let_def prod.case
  by (rule claims_nothing_output, simp, simp add: all_powers_def)+


section \<open>The pipeline as non authoritative stages\<close>

lemmas stage_outputs = unknown_claims_nothing blocked_claims_nothing passed_claims_nothing

lemma claims_nothing_powers: "claims_nothing r \<Longrightarrow> k \<in> set all_powers \<Longrightarrow> \<not> is_true (pget r k)"
  by (simp add: claims_nothing_def)

lemma extra_keys:
  "''authority_contamination'' \<notin> set all_powers" "''execution_contamination'' \<notin> set all_powers"
  "''policy_version'' \<notin> set all_powers" "''authorization_id'' \<notin> set all_powers"
  "''evidence'' \<notin> set all_powers" "''next_step'' \<notin> set all_powers"
  "''attempt_id'' \<notin> set all_powers" "''idempotency_key'' \<notin> set all_powers" "''event'' \<notin> set all_powers"
  "''canary_notional_usd'' \<notin> set all_powers" "''max_loss_usd'' \<notin> set all_powers"
  "''requested_notional_usd'' \<notin> set all_powers" "''tested_main_sha'' \<notin> set all_powers"
  "''prior_submission_state'' \<notin> set all_powers"
  by (simp_all add: all_powers_def)

interpretation rg_na: non_authoritative evaluate_release_gate all_powers
proof
  fix i r k
  assume r: "evaluate_release_gate i = Inr r" and k: "k \<in> set all_powers"
  have "claims_nothing r"
    using r by (cases i rule: rg.evaluate_cases)
      (auto simp: rg_screen_def Let_def extra_keys split: if_splits
        intro!: stage_outputs elim!: screen_claims_nothing)
  then show "\<not> is_true (pget r k)" using k by (rule claims_nothing_powers)
qed

interpretation ca_na: non_authoritative evaluate_isolated_canary_authorization all_powers
proof
  fix i r k
  assume r: "evaluate_isolated_canary_authorization i = Inr r" and k: "k \<in> set all_powers"
  have "claims_nothing r"
    using r by (cases i rule: ca.evaluate_cases)
      (auto simp: ca_screen_def Let_def extra_keys ca_unknown_result_def ca_blocked_result_def split: if_splits
        intro!: stage_outputs elim!: screen_claims_nothing)
  then show "\<not> is_true (pget r k)" using k by (rule claims_nothing_powers)
qed

interpretation cp_na: non_authoritative evaluate_canary_preorder_runtime_safety all_powers
proof
  fix i r k
  assume r: "evaluate_canary_preorder_runtime_safety i = Inr r" and k: "k \<in> set all_powers"
  have "claims_nothing r"
    using r by (cases i rule: cp.evaluate_cases)
      (auto simp: cp_screen_def extra_keys cp_unknown_result_def cp_blocked_result_def
        intro!: stage_outputs elim!: screen_claims_nothing)
  then show "\<not> is_true (pget r k)" using k by (rule claims_nothing_powers)
qed

interpretation dr_na: non_authoritative prepare_dry_run_canary_execution all_powers
proof
  fix i r k
  assume r: "prepare_dry_run_canary_execution i = Inr r" and k: "k \<in> set all_powers"
  have "claims_nothing r"
    using r by (cases i rule: dr.evaluate_cases)
      (auto simp: dr_screen_def extra_keys dr_unknown_result_def dr_blocked_result_def
        intro!: stage_outputs elim!: screen_claims_nothing)
  then show "\<not> is_true (pget r k)" using k by (rule claims_nothing_powers)
qed

interpretation fr_na: non_authoritative evaluate_final_canary_readiness all_powers
proof
  fix i r k
  assume r: "evaluate_final_canary_readiness i = Inr r" and k: "k \<in> set all_powers"
  have "claims_nothing r"
    using r by (cases i rule: fr.evaluate_cases)
      (auto simp: fr_screen_def Let_def extra_keys fr_unknown_result_def fr_blocked_result_def split: if_splits
        intro!: stage_outputs elim!: screen_claims_nothing)
  then show "\<not> is_true (pget r k)" using k by (rule claims_nothing_powers)
qed

interpretation eb_na: non_authoritative evaluate_live_executor_boundary_contract all_powers
proof
  fix i r k
  assume r: "evaluate_live_executor_boundary_contract i = Inr r" and k: "k \<in> set all_powers"
  have "claims_nothing r"
    using r by (cases i rule: eb.evaluate_cases)
      (auto simp: eb_screen_def extra_keys eb_unknown_result_def eb_blocked_result_def
        intro!: stage_outputs elim!: screen_claims_nothing)
  then show "\<not> is_true (pget r k)" using k by (rule claims_nothing_powers)
qed

lemma ef_claims_nothing: "claims_nothing (evaluate_executor_failure_transition i)"
proof -
  have "claims_nothing (ef_apply i prior event)" for prior event
    by (auto simp: ef_apply_def extra_keys split: option.splits prod.splits intro!: stage_outputs)
  then show ?thesis
    by (auto simp: evaluate_executor_failure_transition_def ef_screen_def extra_keys split: option.splits
        intro!: stage_outputs elim!: screen_claims_nothing)
qed

interpretation ef_na: non_authoritative "\<lambda>i. Inr (evaluate_executor_failure_transition i)" all_powers
  by unfold_locales (use ef_claims_nothing in \<open>auto simp: claims_nothing_def\<close>)

text \<open>The powers each screen looks for are among them.\<close>

lemma screened_powers:
  "set rg_powers \<subseteq> set all_powers" "set ca_powers \<subseteq> set all_powers" "set cp_powers \<subseteq> set all_powers"
  "set dr_powers \<subseteq> set all_powers" "set fr_powers \<subseteq> set all_powers"
  "set executor_powers \<subseteq> set all_powers" "set pv_powers \<subseteq> set all_powers" "set dp_powers \<subseteq> set all_powers"
  by (simp_all add: all_powers_def rg_powers_def ca_powers_def cp_powers_def dr_powers_def fr_powers_def
      executor_powers_def pv_powers_def dp_powers_def)

end
