(* ===== verification/Canary_Safety.thy ===== *)
theory Canary_Safety
  imports Canary_Handoff Canary_Provisioning
begin

text \<open>
  The canary tables over any history of provisioning, persistence and lifecycle calls: every spend
  traces back to a human authorization, and each authorization is spent at most once.
\<close>

section \<open>Reachable tables\<close>

inductive canary_reachable :: "canary_db \<Rightarrow> bool" where
  cr_empty: "canary_reachable \<lparr>cd_rows = [], cd_provisions = [], cd_audit = []\<rparr>"
| cr_provision:
    "canary_reachable db \<Longrightarrow> provision_canary_authorization_state db a = Inr (db2, out)
       \<Longrightarrow> canary_reachable db2"
| cr_persist:
    "canary_reachable db \<Longrightarrow> persist_dry_run_canary_execution db p = Inr (db2, out)
       \<Longrightarrow> canary_reachable db2"
| cr_lifecycle:
    "canary_reachable db \<Longrightarrow> prepare_and_persist_dry_run_canary_lifecycle first second db i = Inr (db2, out)
       \<Longrightarrow> canary_reachable db2"

text \<open>The evidence a row was provisioned with.\<close>

definition human_evidence :: "string \<Rightarrow> pyval \<Rightarrow> bool" where
  "human_evidence a e \<longleftrightarrow>
     clean (pget e ''authorization_id'') = a \<and> is_true (pget e ''human_authorized'')
     \<and> eq_str (pget e ''canary_authorization_result'') ''PASS''
     \<and> list_all (\<lambda>k. is_true (pget e k)) [''kill_switch_armed'', ''isolated_funds'', ''isolated_account_or_wallet'']
     \<and> \<not> claims pv_powers e"

definition authorized_by_human :: "canary_row \<Rightarrow> bool" where
  "authorized_by_human r \<longleftrightarrow>
     (case (cw_evidence r, cw_notional r) of
        (Some e, Some (Fin q)) \<Rightarrow> human_evidence (cw_authorization r) e \<and> 0 < q \<and> q \<le> max_canary_notional
      | _ \<Rightarrow> False)"

lemma authorized_by_humanE:
  assumes "authorized_by_human r"
  obtains e q where "cw_evidence r = Some e" "cw_notional r = Some (Fin q)"
    "human_evidence (cw_authorization r) e" "0 < q" "q \<le> max_canary_notional"
  using assms by (cases "cw_evidence r"; cases "cw_notional r"; cases "the (cw_notional r)")
    (auto simp: authorized_by_human_def)

lemma provisioned_authorized:
  "validate_canary_authorization_for_provisioning a = Inr (Inr n) \<Longrightarrow> authorized_by_human (pv_row n)"
  using validate_normal [of a n] by (simp add: authorized_by_human_def human_evidence_def pv_row_def)

lemma authorized_consume_set [simp]: "authorized_by_human (consume_set q r) = authorized_by_human r"
  by (auto simp: authorized_by_human_def consume_set_def split: option.splits pyfloat.splits)

lemma provision_rows:
  assumes "provision_canary_authorization_state db a = Inr (db2, out)"
  obtains "db2 = db"
  | n where "validate_canary_authorization_for_provisioning a = Inr (Inr n)"
      "cd_rows db2 = cd_rows db @ [pv_row n]" "cd_provisions db2 = cd_provisions db @ [pv_audit n]"
      "cd_audit db2 = cd_audit db"
  using assms
proof (cases rule: provision_cases)
  case refused
  then show ?thesis using that(1) by simp
next
  case (staged n db1)
  then show ?thesis using that(2) [of n] insert_state_Inr [OF staged(2)]
    by (auto simp: insert_provision_def split: if_splits)
qed

lemma persist_rows:
  assumes "persist_dry_run_canary_execution db p = Inr (db2, out)"
  shows "\<exists>q. cd_rows db2 = consume_rows q (cd_rows db) \<or> db2 = db"
  using assms
proof (cases rule: persist_dry_cases)
  case (staged n db1)
  have "cd_rows db2 = cd_rows db1" using staged(3) by (auto simp: insert_dry_audit_def split: if_splits)
  moreover have "cd_rows db1 = consume_rows (dx_request n) (cd_rows db)"
    by (rule consume_update_Some [OF staged(2)]) simp
  ultimately have "cd_rows db2 = consume_rows (dx_request n) (cd_rows db)" by (simp only:)
  then show ?thesis by blast
qed simp

lemma lifecycle_rows:
  assumes "prepare_and_persist_dry_run_canary_lifecycle first second db i = Inr (db2, out)"
  shows "\<exists>q. cd_rows db2 = consume_rows q (cd_rows db) \<or> db2 = db"
  using assms
proof (cases rule: lifecycle_cases)
  case staged
  show ?thesis using staged(4) by (rule persist_rows)
qed simp

lemma authorized_consume_rows:
  assumes "\<exists>q. cd_rows db2 = consume_rows q (cd_rows db) \<or> db2 = db"
    and "\<forall>r \<in> set (cd_rows db). authorized_by_human r"
  shows "\<forall>r \<in> set (cd_rows db2). authorized_by_human r"
proof -
  obtain q where "cd_rows db2 = consume_rows q (cd_rows db) \<or> db2 = db" using assms(1) by blast
  then show ?thesis
  proof
    assume "cd_rows db2 = consume_rows q (cd_rows db)"
    with assms(2) show ?thesis by auto
  next
    assume "db2 = db"
    with assms(2) show ?thesis by simp
  qed
qed

lemma canary_reachable_inv:
  "canary_reachable db \<Longrightarrow> canary_ok db \<and> (\<forall>r \<in> set (cd_rows db). authorized_by_human r)"
proof (induction rule: canary_reachable.induct)
  case cr_empty
  then show ?case using canary_ok_empty by simp
next
  case (cr_provision db a db2 out)
  then have ok: "canary_ok db2" by (blast intro: canary_ok_provision)
  show ?case
    using cr_provision(2)
  proof (cases rule: provision_rows)
    case 1
    with cr_provision show ?thesis by simp
  next
    case (2 n)
    with cr_provision ok show ?thesis by (simp add: provisioned_authorized)
  qed
next
  case (cr_persist db p db2 out)
  then show ?case
    using canary_ok_persist [of db p db2 out] authorized_consume_rows [OF persist_rows [OF cr_persist(2)]] by simp
next
  case (cr_lifecycle db first second i db2 out)
  then show ?case
    using canary_ok_lifecycle [OF _ cr_lifecycle(2)] authorized_consume_rows [OF lifecycle_rows [OF cr_lifecycle(2)]]
    by simp
qed

lemma filter_key_unique:
  "distinct (map f xs) \<Longrightarrow> x \<in> set xs \<Longrightarrow> filter (\<lambda>y. f y = f x) xs = [x]"
proof (induction xs)
  case (Cons z xs)
  then show ?case
    by (cases "z = x") (auto simp: filter_empty_conv image_iff)
qed simp

text \<open>A loss cap that is not a number.\<close>

definition with_max_loss :: "pyval \<Rightarrow> pyval \<Rightarrow> pyval" where
  "with_max_loss p v = (case p of PDict d \<Rightarrow> PDict (AList.update ''max_loss_usd'' v d) | _ \<Rightarrow> p)"

lemma with_max_loss_get:
  "is_dict p \<Longrightarrow> pget (with_max_loss p v) k = (if k = ''max_loss_usd'' then v else pget p k)"
  by (cases p) (auto simp: with_max_loss_def dget_def update_conv')

lemma with_max_loss_dict: "is_dict (with_max_loss p v) = is_dict p"
  by (cases p) (simp_all add: with_max_loss_def)


lemma fl_less_NaN [simp]: "\<not> fl_less x NotANumber"
  by (cases x) simp_all

lemma validate_nan:
  assumes "validate_prepared p = Inr (Inr n)"
  shows "validate_prepared (with_max_loss p (PFloat NotANumber)) = Inr (Inr (n\<lparr>dx_max_loss := NotANumber\<rparr>))"
  using assms
proof (cases rule: validate_prepared_cases)
  case (normal x y)
  let ?p = "with_max_loss p (PFloat NotANumber)"
  note get = with_max_loss_get [OF normal(1), of "PFloat NotANumber"]
  have nan: "\<not> fl_le NotANumber (Fin 0)" by (simp add: fl_le_def)
  have "dp_missing ?p = []"
    using normal(3) nan by (auto simp: dp_missing_def get valid_amount_def)
  moreover have "dp_blockers ?p = []"
    using normal(4)
    by (simp add: dp_blockers_def get amount_above_def Let_def split: option.splits)
  moreover have "\<not> claims dp_powers ?p"
    using normal(2) by (simp add: claims_def dp_powers_def get)
  moreover have "dp_normalize ?p x NotANumber = Inr (n\<lparr>dx_max_loss := NotANumber\<rparr>)"
    using normal(7)
    by (cases rule: dp_normalize_cases [of p x y]) (simp_all add: dp_normalize_def dp_request_def get)
  moreover have "is_dict (pget (pget p ''authorization_transition'') ''expected'')"
      "is_dict (pget (pget p ''authorization_transition'') ''proposed'')"
    using assms by (auto simp: validate_prepared_def split: if_split_asm)
  ultimately show ?thesis
    using normal(1,5) by (simp add: validate_prepared_def with_max_loss_dict get)
qed simp

section \<open>A demonstration\<close>

text \<open>One authorization of ten dollars, and a request to spend five of them.\<close>

definition canary_time :: py_datetime where
  "canary_time = \<lparr>dt_year = 2026, dt_month = 1, dt_day = 2, dt_hour = 3, dt_minute = 4, dt_second = 5,
     dt_micro = 0, dt_offset = Some 0\<rparr>"

definition canary_evidence :: pyval where
  "canary_evidence = PDict
    [(''status'', PStr ''OBSERVED''), (''canary_authorization_result'', PStr ''PASS''),
     (''canary_execution_eligible'', PBool True), (''human_authorized'', PBool True),
     (''authorization_id'', PStr ''A''), (''policy_version'', PStr ''P''),
     (''authorized_at'', PStr (isoformat canary_time)),
     (''canary_notional_usd'', PInt 10), (''max_loss_usd'', PInt 2), (''max_open_positions'', PInt 1),
     (''kill_switch_armed'', PBool True), (''isolated_funds'', PBool True),
     (''isolated_account_or_wallet'', PBool True)]"

definition canary_normal :: provision_normal where
  "canary_normal = \<lparr>pn_authorization = ''A'', pn_policy = ''P'', pn_authorized_at = canary_time,
     pn_notional = 10, pn_max_loss = 2, pn_evidence = canary_evidence\<rparr>"

definition canary_db0 :: canary_db where
  "canary_db0 = \<lparr>cd_rows = [pv_row canary_normal], cd_provisions = [pv_audit canary_normal], cd_audit = []\<rparr>"

definition canary_runtime :: pyval where
  "canary_runtime = PDict
    [(''requested_notional_usd'', PInt 5), (''realized_loss_usd'', PInt 0), (''open_positions'', PInt 0),
     (''kill_switch_armed'', PBool True), (''isolated_funds'', PBool True),
     (''isolated_account_or_wallet'', PBool True), (''no_borrowing'', PBool True),
     (''no_leverage'', PBool True), (''evaluated_at'', PStr (isoformat canary_time)),
     (''max_infrastructure_age_seconds'', PInt 60)]"

definition canary_infrastructure :: pyval where
  "canary_infrastructure = PDict
    [(''status'', PStr ''HEALTHY''), (''critical_services_healthy'', PBool True),
     (''unresolved_critical_incidents'', PInt 0), (''checked_at'', PStr (isoformat canary_time))]"

definition canary_request :: pyval where
  "canary_request = PDict
    [(''attempt_id'', PStr ''T''), (''requested_at'', PStr (isoformat canary_time)),
     (''authorization_id'', PStr ''A''), (''policy_version'', PStr ''P''),
     (''requested_notional_usd'', PInt 5), (''adapter_mode'', PStr ''DRY_RUN''),
     (''idempotency_key'', PStr ''K'')]"

definition canary_call :: lifecycle_inputs where
  "canary_call = \<lparr>li_authorization = canary_evidence, li_runtime = canary_runtime,
     li_infrastructure = canary_infrastructure, li_request = canary_request,
     li_pre_runtime = canary_runtime, li_pre_infrastructure = canary_infrastructure\<rparr>"

definition canary_check :: preorder_evidence where
  "canary_check = \<lparr>pe_canary_authorization = canary_evidence, pe_runtime = canary_runtime,
     pe_infrastructure = canary_infrastructure, pe_authorization_state = canary_state (pv_row canary_normal)\<rparr>"

definition canary_checked :: preorder_reading where
  "canary_checked = \<lparr>pr_authorization_id = ''A'', pr_policy_version = ''P'', pr_authorized_notional = Some 10,
     pr_max_loss = Some 2, pr_requested_notional = Some 5, pr_realized_loss = Some 0,
     pr_checked_at = Some canary_time, pr_evaluated_at = Some canary_time, pr_state_authorization_id = ''A''\<rparr>"

definition canary_adapter :: adapter_evidence where
  "canary_adapter = \<lparr>de_preorder = cp_passed canary_check canary_checked,
     de_authorization_state = canary_state (pv_row canary_normal), de_request = canary_request\<rparr>"

definition canary_prepared :: adapter_reading where
  "canary_prepared = \<lparr>dn_authorization_id = ''A'', dn_policy_version = ''P'', dn_authorized_notional = Some 5,
     dn_max_loss = Some 2, dn_state_id = ''A'', dn_attempt_id = ''T'', dn_requested_at = Some canary_time,
     dn_request_authorization_id = ''A'', dn_request_policy_version = ''P'', dn_requested_notional = Some 5,
     dn_adapter_mode = ''DRY_RUN'', dn_idempotency_key = ''K''\<rparr>"

lemma canary_texts [simp]:
  "strip ''A'' = ''A''" "strip ''P'' = ''P''" "strip ''T'' = ''T''"
  "strip ''K'' = ''K''" "upper (strip ''DRY_RUN'') = ''DRY_RUN''"
  by code_simp+

lemma canary_instant [simp]:
  "iso_time (PStr (isoformat canary_time)) = Some canary_time"
  "iso_time_stripped (PStr (isoformat canary_time)) = Some canary_time"
proof -
  have "valid_datetime canary_time" "dt_offset canary_time \<noteq> None" by code_simp+
  then have "parse_instant (isoformat canary_time) = Some canary_time" by (rule parse_instant_isoformat)
  then show "iso_time (PStr (isoformat canary_time)) = Some canary_time"
    "iso_time_stripped (PStr (isoformat canary_time)) = Some canary_time"
    by (simp_all add: iso_time_def iso_time_stripped_def Let_def)
qed

lemma canary_utc: "to_utc canary_time = Some canary_time"
  by code_simp

lemma canary_evidence_fields:
  "pget canary_evidence ''status'' = PStr ''OBSERVED''"
  "pget canary_evidence ''canary_authorization_result'' = PStr ''PASS''"
  "pget canary_evidence ''canary_execution_eligible'' = PBool True"
  "pget canary_evidence ''human_authorized'' = PBool True"
  "pget canary_evidence ''authorization_id'' = PStr ''A''"
  "pget canary_evidence ''policy_version'' = PStr ''P''"
  "pget canary_evidence ''authorized_at'' = PStr (isoformat canary_time)"
  "pget canary_evidence ''canary_notional_usd'' = PInt 10"
  "pget canary_evidence ''max_loss_usd'' = PInt 2"
  "pget canary_evidence ''max_open_positions'' = PInt 1"
  "pget canary_evidence ''kill_switch_armed'' = PBool True"
  "pget canary_evidence ''isolated_funds'' = PBool True"
  "pget canary_evidence ''isolated_account_or_wallet'' = PBool True"
  by (simp_all add: canary_evidence_def dget_def)

lemma canary_validates:
  "validate_canary_authorization_for_provisioning canary_evidence = Inr (Inr canary_normal)"
proof -
  have "\<not> claims pv_powers canary_evidence" "is_dict canary_evidence"
    by (simp_all add: claims_def pv_powers_def canary_evidence_def dget_def)
  then show ?thesis
    by (simp add: validate_canary_authorization_for_provisioning_def canary_evidence_fields pv_missing_def
        pv_blockers_def max_canary_notional_def canary_normal_def need_def Let_def)
qed

lemma canary_json:
  "json_dumps_sorted canary_evidence = Inr canary_evidence" "cast_jsonb canary_evidence = Inr canary_evidence"
  "text_params [pn_authorization canary_normal, pn_policy canary_normal] = Inr ()"
  unfolding json_Inr by (simp_all add: canary_evidence_def canary_normal_def)

lemma canary_provisioned:
  "provision_canary_authorization_state \<lparr>cd_rows = [], cd_provisions = [], cd_audit = []\<rparr> canary_evidence
     = Inr (canary_db0, pv_staged canary_normal)"
proof -
  note json = canary_json
  have "pn_evidence canary_normal = canary_evidence" "pn_authorized_at canary_normal = canary_time"
    by (simp_all add: canary_normal_def)
  then show ?thesis
    using json pv_row_checks [OF canary_validates]
    by (simp add: provision_canary_authorization_state_def canary_validates canary_utc insert_state_def
        canary_row_of_def insert_provision_def provision_checks_def canary_db0_def)
      (simp add: pv_audit_def pv_row_def canary_normal_def max_canary_notional_def)
qed

lemma canary_reachable0: "canary_reachable canary_db0"
  by (rule cr_provision [OF cr_empty canary_provisioned])


lemma canary_inputs_quiet:
  "\<not> claims cp_powers canary_evidence" "\<not> claims cp_powers canary_runtime"
  "\<not> claims cp_powers canary_infrastructure" "\<not> claims cp_powers (canary_state r)"
  "\<not> claims dr_powers (canary_state r)" "\<not> claims dr_powers canary_request"
  "is_dict canary_evidence" "is_dict canary_runtime" "is_dict canary_infrastructure" "is_dict canary_request"
  "is_dict (canary_state r)"
  by (simp_all add: claims_def cp_powers_def dr_powers_def canary_evidence_def canary_runtime_def
      canary_infrastructure_def canary_state_def canary_request_def dget_def)

lemma canary_runtime_fields:
  "pget canary_runtime ''requested_notional_usd'' = PInt 5" "pget canary_runtime ''realized_loss_usd'' = PInt 0"
  "pget canary_runtime ''open_positions'' = PInt 0" "pget canary_runtime ''evaluated_at'' = PStr (isoformat canary_time)"
  "pget canary_runtime ''max_infrastructure_age_seconds'' = PInt 60"
  "k \<in> set cp_runtime_keys \<Longrightarrow> pget canary_runtime k = PBool True"
  "k \<in> set cp_runtime_keys \<Longrightarrow> present canary_runtime k"
  "pget canary_infrastructure ''status'' = PStr ''HEALTHY''"
  "pget canary_infrastructure ''critical_services_healthy'' = PBool True"
  "pget canary_infrastructure ''unresolved_critical_incidents'' = PInt 0"
  "pget canary_infrastructure ''checked_at'' = PStr (isoformat canary_time)"
  "present canary_infrastructure ''critical_services_healthy''"
  "present canary_infrastructure ''unresolved_critical_incidents''"
  by (auto simp: canary_runtime_def canary_infrastructure_def dget_def has_key_def cp_runtime_keys_def)

lemma canary_state_use:
  "pget (canary_state r) ''use_count'' = PInt (cw_use_count r)" "present (canary_state r) ''consumed''"
  by (simp_all add: canary_state_def dget_def has_key_def)

lemma canary_runtime_needs: "concat (map (\<lambda>k. need (present canary_runtime k) k) cp_runtime_keys) = []"
  using canary_runtime_fields(7) by simp

lemma canary_row0: "cw_authorization (pv_row canary_normal) = ''A''" "\<not> cw_consumed (pv_row canary_normal)"
    "cw_use_count (pv_row canary_normal) = 0" "cw_version (pv_row canary_normal) = 0" "cw_policy (pv_row canary_normal) = ''P''"
  by (simp_all add: pv_row_def canary_normal_def)

lemma canary_fresh: "cp_recheck_fresh canary_check canary_checked"
proof -
  have "total_seconds 0 = 0" by code_simp
  then show ?thesis by (simp add: cp_recheck_fresh_def canary_check_def canary_checked_def canary_runtime_fields)
qed

lemma canary_check_passes:
  "cp_screen canary_check = None" "cp_collect canary_check = Inr ([], canary_checked)"
  "cp_blockers canary_check canary_checked = []"
proof -
  show "cp_screen canary_check = None"
    by (simp add: cp_screen_def screen_inputs_None cp_inputs_def canary_check_def canary_inputs_quiet)
  show "cp_collect canary_check = Inr ([], canary_checked)"
    by (simp add: cp_collect_def canary_check_def canary_checked_def canary_evidence_fields canary_runtime_fields
        canary_state_fields canary_state_use canary_row0 canary_runtime_needs Let_def need_def)
  show "cp_blockers canary_check canary_checked = []"
    using canary_fresh
    by (simp add: cp_blockers_def) (simp add: canary_check_def canary_checked_def
        canary_runtime_fields cp_runtime_keys_def canary_state_fields canary_state_use canary_row0
        max_canary_notional_def)
qed

lemma canary_preorder_passes:
  "evaluate_canary_preorder_runtime_safety canary_check = Inr (cp_passed canary_check canary_checked)"
  using canary_check_passes by (simp add: evaluate_canary_preorder_runtime_safety_def)


lemma canary_passed_fields:
  "pget (cp_passed i n) ''status'' = PStr ''OBSERVED''" "pget (cp_passed i n) ''preorder_result'' = PStr ''PASS''"
  "pget (cp_passed i n) ''execution_adapter_eligible'' = PBool True"
  "pget (cp_passed i n) ''authorization_consumable'' = PBool True" "pget (cp_passed i n) ''single_use'' = PBool True"
  "\<not> claims dr_powers (cp_passed i n)" "is_dict (cp_passed i n)"
  by (simp_all add: cp_passed_def cp_authority_def claims_def dr_powers_def dget_dlast)

lemma canary_request_fields:
  "pget canary_request ''attempt_id'' = PStr ''T''" "pget canary_request ''requested_at'' = PStr (isoformat canary_time)"
  "pget canary_request ''authorization_id'' = PStr ''A''" "pget canary_request ''policy_version'' = PStr ''P''"
  "pget canary_request ''requested_notional_usd'' = PInt 5" "pget canary_request ''adapter_mode'' = PStr ''DRY_RUN''"
  "pget canary_request ''idempotency_key'' = PStr ''K''"
  by (simp_all add: canary_request_def dget_def)

lemma canary_adapter_ready:
  "dr_screen canary_adapter = None" "dr_collect canary_adapter = Inr ([], canary_prepared)"
  "dr_blockers canary_adapter canary_prepared = []" "dr_state_version canary_adapter = 0"
proof -
  show "dr_screen canary_adapter = None"
    by (simp add: dr_screen_def screen_inputs_None dr_inputs_def canary_adapter_def canary_inputs_quiet canary_passed_fields)
  show "dr_collect canary_adapter = Inr ([], canary_prepared)"
    by (simp add: dr_collect_def canary_adapter_def canary_passed_fields passed_fields canary_request_fields
        canary_state_fields canary_state_use canary_row0 Let_def need_def)
      (simp add: canary_prepared_def canary_checked_def)
  show "dr_blockers canary_adapter canary_prepared = []"
    by (simp add: dr_blockers_def canary_adapter_def canary_prepared_def canary_state_fields canary_state_use
        canary_row0 max_canary_notional_def)
  show "dr_state_version canary_adapter = 0"
    by (simp add: dr_state_version_def canary_adapter_def canary_state_fields canary_row0)
qed

lemma canary_adapter_prepares:
  "prepare_dry_run_canary_execution canary_adapter = Inr (dr_ready canary_adapter canary_prepared)"
  "pget (dr_ready canary_adapter canary_prepared) ''adapter_result'' = PStr ''DRY_RUN_READY''"
  using canary_adapter_ready by (simp_all add: prepare_dry_run_canary_execution_def dr.passed_verdict)

lemma canary_ok0: "canary_ok canary_db0"
  using canary_reachable_inv [OF canary_reachable0] by simp

lemma canary_row_of0: "canary_row_of canary_db0 ''A'' = Some (pv_row canary_normal)"
  by (simp add: canary_row_of_def canary_db0_def canary_row0)

lemma canary_plain: "\<not> list_ex has_nul (reading_texts canary_prepared)"
  by (simp add: reading_texts_def canary_prepared_def)

lemma canary_persists:
  "\<exists>db2. persist_dry_run_canary_execution canary_db0 (dr_ready canary_adapter canary_prepared)
      = Inr (db2, dp_staged (dr_ready canary_adapter canary_prepared)
          (ready_normal canary_adapter canary_prepared canary_time 5 2))
    \<and> canary_row_of db2 ''A'' = Some (consume_set (dx_request
          (ready_normal canary_adapter canary_prepared canary_time 5 2)) (pv_row canary_normal))"
proof -
  have n: "dn_requested_notional canary_prepared = Some 5" "dn_max_loss canary_prepared = Some 2"
    "dn_requested_at canary_prepared = Some canary_time" "dn_authorization_id canary_prepared = ''A''"
    "dn_policy_version canary_prepared = ''P''"
    by (simp_all add: canary_prepared_def)
  have "cd_audit canary_db0 = []" by (simp add: canary_db0_def)
  then show ?thesis
    using ready_is_staged [OF canary_ok0 canary_adapter_ready(2,3) n(1,2,3), of "pv_row canary_normal"]
    by (simp add: n canary_utc canary_row_of0 canary_row0 canary_adapter_ready canary_plain)
qed

lemma canary_loads: "load_canary_authorization_state canary_db0 (PStr ''A'') = Inr (Some (canary_state (pv_row canary_normal)))"
  by (simp add: load_canary_authorization_state_def canary_row_of0 text_params_def)

lemma canary_lifecycle_stages:
  obtains db2 out where
    "prepare_and_persist_dry_run_canary_lifecycle canary_db0 canary_db0 canary_db0 canary_call = Inr (db2, out)"
    "pget out ''lifecycle_result'' = PStr ''TRANSACTION_STAGED''"
    "canary_row_of db2 ''A'' = Some (consume_set (dx_request
        (ready_normal canary_adapter canary_prepared canary_time 5 2)) (pv_row canary_normal))"
proof -
  obtain db2 where p: "persist_dry_run_canary_execution canary_db0 (dr_ready canary_adapter canary_prepared)
      = Inr (db2, dp_staged (dr_ready canary_adapter canary_prepared)
          (ready_normal canary_adapter canary_prepared canary_time 5 2))"
    "canary_row_of db2 ''A'' = Some (consume_set (dx_request
        (ready_normal canary_adapter canary_prepared canary_time 5 2)) (pv_row canary_normal))"
    using canary_persists by blast
  have prep: "lc_prepare canary_call (canary_state (pv_row canary_normal))
      = Inr (Inr (cp_passed canary_check canary_checked, dr_ready canary_adapter canary_prepared))"
    using canary_preorder_passes canary_adapter_prepares
    by (simp add: lc_prepare_def canary_call_def canary_check_def [symmetric] canary_adapter_def [symmetric]
        canary_passed_fields)
  have check: "lc_recheck canary_call canary_db0 ''A''
      = Inr (Inr (canary_state (pv_row canary_normal), cp_passed canary_check canary_checked))"
    using canary_preorder_passes
    by (simp add: lc_recheck_def canary_loads canary_call_def canary_check_def [symmetric] canary_passed_fields)
  have inputs: "offenders (\<lambda>v. \<not> is_dict v) (lc_inputs canary_call) = []"
    by (simp add: offenders_Nil lc_inputs_def canary_call_def canary_inputs_quiet)
  have auth: "clean (pget (li_authorization canary_call) ''authorization_id'') = ''A''"
    by (simp add: canary_call_def canary_evidence_fields)
  have "prepare_and_persist_dry_run_canary_lifecycle canary_db0 canary_db0 canary_db0 canary_call =
    Inr (db2, lc_staged ''A'' (canary_state (pv_row canary_normal)) (cp_passed canary_check canary_checked)
      (dr_ready canary_adapter canary_prepared) (canary_state (pv_row canary_normal))
      (cp_passed canary_check canary_checked)
      (dp_staged (dr_ready canary_adapter canary_prepared)
        (ready_normal canary_adapter canary_prepared canary_time 5 2)))"
    by (simp add: prepare_and_persist_dry_run_canary_lifecycle_def inputs auth canary_loads prep check p(1))
  then show thesis by (rule that) (simp_all add: lc_results p)
qed


section \<open>Properties\<close>

text \<open>
  C8: However provisioning, persistence and lifecycle calls follow one another, every audited spend
  belongs to an authorization that a human gave with the kill switch armed and the funds isolated;
  the authorization is consumed by that attempt alone, and the spend is positive and within the cap.
\<close>

theorem spend_has_human_authorization:
  assumes "canary_reachable db" "x \<in> set (cd_audit db)"
  shows "\<exists>r e q. r \<in> set (cd_rows db) \<and> cw_authorization r = da_authorization x
    \<and> cw_consumed r \<and> cw_use_count r = 1 \<and> cw_attempt r = Some (da_attempt x)
    \<and> cw_evidence r = Some e \<and> human_evidence (da_authorization x) e
    \<and> da_notional x = Fin q \<and> 0 < q \<and> q \<le> max_canary_notional"
proof -
  note inv = canary_reachable_inv [OF assms(1)]
  obtain r where r: "r \<in> set (cd_rows db)" "cw_consumed r" "audit_of r x" "dry_checks x"
    using inv assms(2) by (auto simp: canary_ok_def)
  obtain e where e: "cw_evidence r = Some e" "human_evidence (cw_authorization r) e"
    using inv r(1) by (blast elim: authorized_by_humanE)
  obtain q where q: "da_notional x = Fin q" "0 < q" "q \<le> max_canary_notional"
    using sql_bounds r(4) unfolding dry_checks_def by blast
  have "cw_use_count r = 1"
    using inv r(1,2) by (auto simp: canary_ok_def row_checks_def single_use_state_def)
  with r e q show ?thesis by (auto simp: audit_of_def)
qed

theorem spend_has_human_authorization_witness:
  "\<exists>db x. canary_reachable db \<and> x \<in> set (cd_audit db) \<and> (\<exists>e. human_evidence (da_authorization x) e)"
proof (rule canary_lifecycle_stages)
  fix db2 out
  assume l: "prepare_and_persist_dry_run_canary_lifecycle canary_db0 canary_db0 canary_db0 canary_call = Inr (db2, out)"
    and row: "canary_row_of db2 ''A'' = Some (consume_set (dx_request
        (ready_normal canary_adapter canary_prepared canary_time 5 2)) (pv_row canary_normal))"
  have reach: "canary_reachable db2" by (rule cr_lifecycle [OF canary_reachable0 l])
  have "consume_set (dx_request (ready_normal canary_adapter canary_prepared canary_time 5 2)) (pv_row canary_normal)
      \<in> set (cd_rows db2)"
    using row canary_reachable_inv [OF reach] by (auto simp: canary_row_of_iff)
  then obtain x where x: "x \<in> set (cd_audit db2)"
    using canary_reachable_inv [OF reach] by (auto simp: canary_ok_def)
  then show ?thesis using spend_has_human_authorization [OF reach x] reach by blast
qed

text \<open>
  In such tables the number of audited spends of an authorization is its use count, which is
  at most one.
\<close>

theorem audits_equal_use_count:
  assumes "canary_reachable db" "r \<in> set (cd_rows db)"
  shows "int (length (filter (\<lambda>x. da_authorization x = cw_authorization r) (cd_audit db))) = cw_use_count r
    \<and> cw_use_count r \<le> 1"
proof -
  let ?same = "\<lambda>x. da_authorization x = cw_authorization r"
  have ok: "canary_ok db" using canary_reachable_inv [OF assms(1)] by simp
  then have d: "distinct (map da_authorization (cd_audit db))"
    and checks: "single_use_state r" using assms(2) by (auto simp: canary_ok_def row_checks_def)
  show ?thesis
  proof (cases "cw_consumed r")
    case True
    then obtain x where x: "x \<in> set (cd_audit db)" "?same x"
      using ok assms(2) by (auto simp: canary_ok_def audit_of_def)
    have "length (filter ?same (cd_audit db)) = 1"
      using filter_key_unique [OF d x(1)] x(2) by simp
    then show ?thesis using True checks by (simp add: single_use_state_def)
  next
    case False
    have "filter ?same (cd_audit db) = []"
    proof (rule ccontr)
      assume "filter ?same (cd_audit db) \<noteq> []"
      then obtain x where "x \<in> set (cd_audit db)" "?same x" by (auto simp: filter_empty_conv)
      then obtain r' where "r' \<in> set (cd_rows db)" "cw_consumed r'" "cw_authorization r' = cw_authorization r"
        using ok by (auto simp: canary_ok_def audit_of_def)
      then show False using canary_ok_unique [OF ok, of r' r] assms(2) False by simp
    qed
    then show ?thesis using False checks by (simp add: single_use_state_def)
  qed
qed

theorem audits_equal_use_count_witness: "cw_use_count (pv_row canary_normal) = 0 \<and> cd_audit canary_db0 = []"
proof -
  have "pv_row canary_normal \<in> set (cd_rows canary_db0)" by (simp add: canary_db0_def)
  from audits_equal_use_count [OF canary_reachable0 this] show ?thesis by (simp add: canary_db0_def)
qed

text \<open>
  C9: When the lifecycle stages a spend, the authorization was unconsumed at both loads and in the
  tables it changed, both runtime checks and both infrastructure checks held, the amount is within
  the authorization and the hard cap, and the row is now consumed by this attempt, one version on.
\<close>

theorem lifecycle_stages_safely:
  assumes "prepare_and_persist_dry_run_canary_lifecycle first second db i = Inr (db2, out)"
    and "pget out ''lifecycle_result'' = PStr ''TRANSACTION_STAGED''" and "canary_ok db"
  shows "\<exists>a r1 r2 r r3 q authorized y. a = clean (pget (li_authorization i) ''authorization_id'')
    \<and> canary_row_of first a = Some r1 \<and> \<not> cw_consumed r1
    \<and> canary_row_of second a = Some r2 \<and> \<not> cw_consumed r2
    \<and> canary_row_of db a = Some r \<and> \<not> cw_consumed r \<and> cw_version r = cw_version r1
    \<and> runtime_safe (li_runtime i) \<and> infrastructure_safe (li_infrastructure i)
    \<and> runtime_safe (li_pre_runtime i) \<and> infrastructure_safe (li_pre_infrastructure i)
    \<and> number (pget (li_authorization i) ''canary_notional_usd'') = Inr (Some authorized)
    \<and> cd_audit db2 = cd_audit db @ [y] \<and> da_notional y = Fin q
    \<and> da_attempt y = clean (pget (li_request i) ''attempt_id'')
    \<and> 0 < q \<and> q \<le> authorized \<and> q \<le> max_canary_notional
    \<and> canary_row_of db2 a = Some r3 \<and> cw_consumed r3
    \<and> cw_attempt r3 = Some (clean (pget (li_request i) ''attempt_id'')) \<and> cw_version r3 = cw_version r1 + 1"
proof (rule lifecycle_staged [OF assms], goal_cases)
  case (1 r1 r2 r q authorized x)
  from 1(16) obtain y where y: "cd_audit db2 = cd_audit db @ [y]" "da_notional y = Fin q"
    "da_attempt y = clean (pget (li_request i) ''attempt_id'')" by blast
  show ?case
    by (intro exI conjI, rule refl, (rule 1 y)+) (simp_all add: 1 consume_set_def)
qed

theorem lifecycle_stages_safely_witness:
  "\<exists>db2 r3. canary_row_of db2 ''A'' = Some r3 \<and> cw_consumed r3 \<and> cw_version r3 = 1"
proof (rule canary_lifecycle_stages)
  fix db2 out
  assume l: "prepare_and_persist_dry_run_canary_lifecycle canary_db0 canary_db0 canary_db0 canary_call = Inr (db2, out)"
    and st: "pget out ''lifecycle_result'' = PStr ''TRANSACTION_STAGED''"
  have a: "clean (pget (li_authorization canary_call) ''authorization_id'') = ''A''"
    by (simp add: canary_call_def canary_evidence_fields)
  show ?thesis using lifecycle_stages_safely [OF l st canary_ok0] canary_row0(4)
    by (auto simp: a canary_row_of0)
qed

text \<open>A lifecycle call that does not report a staged transaction leaves the tables as they were.\<close>

theorem lifecycle_stop_changes_nothing:
  assumes "prepare_and_persist_dry_run_canary_lifecycle first second db i = Inr (db2, out)"
    "pget out ''lifecycle_result'' \<noteq> PStr ''TRANSACTION_STAGED''"
  shows "db2 = db"
  using assms by (rule lifecycle_refused)

theorem lifecycle_stop_changes_nothing_witness:
  "(case prepare_and_persist_dry_run_canary_lifecycle canary_db0 canary_db0 canary_db0
       (canary_call\<lparr>li_request := PNone\<rparr>) of Inr (db2, out) \<Rightarrow> db2 = canary_db0 | Inl e \<Rightarrow> False)"
proof -
  have o: "offenders (\<lambda>v. \<not> is_dict v) (lc_inputs (canary_call\<lparr>li_request := PNone\<rparr>)) = [''request'']"
    by (simp add: lc_inputs_def canary_call_def canary_inputs_quiet)
  have l: "prepare_and_persist_dry_run_canary_lifecycle canary_db0 canary_db0 canary_db0
      (canary_call\<lparr>li_request := PNone\<rparr>) = Inr (canary_db0, lc_unknown [''request_evidence''] [])"
    by (simp add: prepare_and_persist_dry_run_canary_lifecycle_def o)
  have "pget (lc_unknown [''request_evidence''] []) ''lifecycle_result'' \<noteq> PStr ''TRANSACTION_STAGED''"
    by (simp add: lc_results)
  from lifecycle_stop_changes_nothing [OF l this] l show ?thesis by simp
qed

text \<open>
  C10: Whatever prepared evidence a schedule of workers persists, in any order and with any number of
  replays, no authorization is consumed twice.
\<close>

theorem no_authorization_consumed_twice:
  assumes "canary_ok db"
  shows "distinct (consumed_by db ps)"
  using assms by (rule consumed_once_each)

theorem no_authorization_consumed_twice_witness:
  "distinct (consumed_by canary_db0 (replicate 2 (dr_ready canary_adapter canary_prepared)))"
  by (rule no_authorization_consumed_twice [OF canary_ok0])

text \<open>
  Provisioning never changes an authorization that has a row: whatever evidence is given, a
  consumed authorization stays consumed.
\<close>

theorem provisioning_never_resets:
  assumes "provision_canary_authorization_state db a = Inr (db2, out)" "canary_row_of db k = Some r"
  shows "canary_row_of db2 k = Some r"
  using assms by (rule provision_keeps_rows)

theorem provisioning_never_resets_witness:
  "(case provision_canary_authorization_state canary_db0 canary_evidence of
      Inr (db2, out) \<Rightarrow> canary_row_of db2 ''A'' = Some (pv_row canary_normal) | Inl e \<Rightarrow> False)"
proof -
  note json = canary_json
  have n: "pn_evidence canary_normal = canary_evidence" "pn_authorized_at canary_normal = canary_time"
    by (simp_all add: canary_normal_def)
  have "insert_state canary_db0 (pv_row canary_normal) = Inr (canary_db0, False)"
    using pv_row_checks [OF canary_validates] by (simp add: insert_state_def canary_row0 canary_row_of0)
  then obtain out where "provision_canary_authorization_state canary_db0 canary_evidence = Inr (canary_db0, out)"
    using json n by (simp add: provision_canary_authorization_state_def canary_validates canary_utc)
  from provisioning_never_resets [OF this canary_row_of0] this show ?thesis by simp
qed

text \<open>
  C11: What the adapter prepares is accepted by the persistence step and normalized to the adapter's
  own reading, unless its loss cap exceeds the requested amount; then it is blocked for that alone.
\<close>

theorem adapter_agrees_with_persistence:
  assumes "prepare_dry_run_canary_execution i = Inr prepared"
    and "pget prepared ''adapter_result'' = PStr ''DRY_RUN_READY''"
  shows "\<exists>n d q l. dr_collect i = Inr ([], n) \<and> dn_requested_notional n = Some q \<and> dn_max_loss n = Some l
    \<and> dn_requested_at n = Some d
    \<and> validate_prepared prepared =
        Inr (if l \<le> q then Inr (ready_normal i n d q l)
             else Inl (dp_blocked [''loss_cap_exceeds_requested_notional'']
                    [(''authorization_id'', PStr (dn_authorization_id n)),
                     (''attempt_id'', PStr (dn_attempt_id n))]))"
proof -
  obtain n where n: "dr_collect i = Inr ([], n)" "dr_blockers i n = []" "prepared = dr_ready i n"
    using dr.pass_result [OF assms] by blast
  obtain q l d where v: "dn_requested_notional n = Some q" "dn_max_loss n = Some l" "dn_requested_at n = Some d"
    using collect_dr(10-12) [OF n(1)] by auto
  show ?thesis using validate_ready [OF n(1,2) v] n v by blast
qed

theorem adapter_agrees_with_persistence_witness:
  "\<exists>n. dr_collect canary_adapter = Inr ([], n)
     \<and> validate_prepared (dr_ready canary_adapter canary_prepared) = Inr (Inr (ready_normal canary_adapter n canary_time 5 2))"
proof -
  have "dn_requested_notional canary_prepared = Some 5" "dn_max_loss canary_prepared = Some 2"
    "dn_requested_at canary_prepared = Some canary_time" by (simp_all add: canary_prepared_def)
  then show ?thesis
    using adapter_agrees_with_persistence [OF canary_adapter_prepares] canary_adapter_ready(2) by auto
qed

text \<open>
  C12: Take a prepared dry run whose authorization is unconsumed, at the version and under the policy it
  was prepared for, whose attempt and idempotency key are new, whose loss cap is within the amount and
  whose instant exists in UTC. If one of its four texts contains U+0000, which no TEXT parameter can
  carry, the call raises DataError; otherwise it is staged.
\<close>

theorem prepared_dry_run_is_staged:
  assumes "canary_ok db" "dr_collect i = Inr ([], n)" "dr_blockers i n = []"
    and "dn_requested_notional n = Some q" "dn_max_loss n = Some l" "dn_requested_at n = Some d"
    and "l \<le> q" "to_utc d \<noteq> None"
    and "canary_row_of db (dn_authorization_id n) = Some r"
      "cw_policy r = dn_policy_version n" "\<not> cw_consumed r" "cw_version r = dr_state_version i"
    and "\<forall>x \<in> set (cd_audit db). da_attempt x \<noteq> dn_attempt_id n \<and> da_key x \<noteq> dn_idempotency_key n"
  shows "if \<exists>x \<in> {dn_authorization_id n, dn_policy_version n, dn_attempt_id n, dn_idempotency_key n}. CHR 0x00 \<in> set x
    then persist_dry_run_canary_execution db (dr_ready i n) = Inl DataError
    else \<exists>db2. persist_dry_run_canary_execution db (dr_ready i n)
        = Inr (db2, dp_staged (dr_ready i n) (ready_normal i n d q l))
      \<and> canary_row_of db2 (dn_authorization_id n)
          = Some (consume_set (dx_request (ready_normal i n d q l)) r)"
proof -
  have texts: "(\<exists>x \<in> {dn_authorization_id n, dn_policy_version n, dn_attempt_id n, dn_idempotency_key n}. CHR 0x00 \<in> set x)
      = list_ex has_nul (reading_texts n)"
    by (auto simp: reading_texts_def has_nul_def)
  show ?thesis
    unfolding texts using ready_is_refused [OF assms(2-7)] ready_is_staged [OF assms] by simp
qed

theorem prepared_dry_run_is_staged_witness:
  "\<exists>db2 out. persist_dry_run_canary_execution canary_db0 (dr_ready canary_adapter canary_prepared) = Inr (db2, out)
     \<and> pget out ''persistence_result'' = PStr ''TRANSACTION_STAGED''"
proof -
  have n: "dn_requested_notional canary_prepared = Some 5" "dn_max_loss canary_prepared = Some 2"
    "dn_requested_at canary_prepared = Some canary_time" "dn_authorization_id canary_prepared = ''A''"
    "dn_policy_version canary_prepared = ''P''" "dn_attempt_id canary_prepared = ''T''"
    "dn_idempotency_key canary_prepared = ''K''"
    by (simp_all add: canary_prepared_def)
  have "cd_audit canary_db0 = []" by (simp add: canary_db0_def)
  then have "\<exists>db2. persist_dry_run_canary_execution canary_db0 (dr_ready canary_adapter canary_prepared)
      = Inr (db2, dp_staged (dr_ready canary_adapter canary_prepared)
          (ready_normal canary_adapter canary_prepared canary_time 5 2))"
    using prepared_dry_run_is_staged [OF canary_ok0 canary_adapter_ready(2,3) n(1,2,3), of "pv_row canary_normal"]
    by (simp add: n canary_utc canary_row_of0 canary_row0 canary_adapter_ready) blast
  then show ?thesis using dp_results(5) by blast
qed

text \<open>
  A loss cap that is not a number passes validation and the table's check: any call that stages
  a spend stages it as well with that cap in the audit.
\<close>

theorem nan_loss_cap_is_staged:
  assumes "persist_dry_run_canary_execution db p = Inr (db2, out)"
    and "pget out ''persistence_result'' = PStr ''TRANSACTION_STAGED''"
  shows "\<exists>db3 out3 y. persist_dry_run_canary_execution db (with_max_loss p (PFloat NotANumber)) = Inr (db3, out3)
    \<and> pget out3 ''persistence_result'' = PStr ''TRANSACTION_STAGED''
    \<and> cd_audit db3 = cd_audit db @ [y] \<and> da_max_loss y = NotANumber"
  using assms(1)
proof (cases rule: persist_dry_cases)
  case refused
  with assms(2) show ?thesis by simp
next
  case (staged n db1)
  let ?n = "n\<lparr>dx_max_loss := NotANumber\<rparr>"
  have row: "dp_audit_row ?n = (dp_audit_row n)\<lparr>da_max_loss := NotANumber\<rparr>"
    "dp_persisted_audit ?n = dp_persisted_audit n"
    by (simp_all add: dp_audit_row_def dp_persisted_audit_def Let_def)
  have ins: "dry_checks (dp_audit_row n)" "insert_dry_audit db1 (dp_audit_row n) = Inr db2"
    using insert_dry_audit_Inr [OF staged(3)] staged(3) by blast+
  then have "insert_dry_audit db1 (dp_audit_row ?n) = Inr (db1\<lparr>cd_audit := cd_audit db1 @ [dp_audit_row ?n]\<rparr>)"
    by (auto simp: insert_dry_audit_def dry_checks_def row split: if_splits)
  moreover have "cd_audit db1 = cd_audit db"
    using staged(2) by (rule consume_update_Some) simp
  moreover obtain j k where "json_dumps_sorted (PDict (dp_persisted_audit n)) = Inr j" "cast_jsonb j = Inr k"
      "to_utc (dx_requested_at n) \<noteq> None"
    using assms(1) staged(1,2)
    by (auto simp: persist_dry_run_canary_execution_def bindE_eq_Inr split: if_splits)
  ultimately show ?thesis
    using validate_nan [OF staged(1)] staged(2)
    by (simp add: persist_dry_run_canary_execution_def row)
qed

theorem nan_loss_cap_is_staged_witness:
  "\<exists>(db3 :: canary_db) y. cd_audit db3 = [y] \<and> da_max_loss y = NotANumber"
proof -
  obtain db2 where p: "persist_dry_run_canary_execution canary_db0 (dr_ready canary_adapter canary_prepared)
      = Inr (db2, dp_staged (dr_ready canary_adapter canary_prepared)
          (ready_normal canary_adapter canary_prepared canary_time 5 2))"
    using canary_persists by blast
  have none: "cd_audit canary_db0 = []" by (simp add: canary_db0_def)
  obtain db3 :: canary_db and y where "cd_audit db3 = cd_audit canary_db0 @ [y]" "da_max_loss y = NotANumber"
    using nan_loss_cap_is_staged [OF p dp_results(5)] by blast
  then have "cd_audit db3 = [y] \<and> da_max_loss y = NotANumber" by (simp add: none)
  then show ?thesis by blast
qed

end
