(* ===== verification/Gate_Properties.thy ===== *)
theory Gate_Properties
  imports Authority_Chain Canary_Safety
begin

text \<open>
  What the good verdicts of the release and executor gates guarantee, how the gates fit together, and
  the errors that leave them.
\<close>

section \<open>The boundary contract\<close>

lemma number_strict_number: "number_strict v = Inr (Some q) \<Longrightarrow> number v = Inr (Some q)"
  by (simp add: number_strict_def split: if_splits)

lemma boundary_read:
  assumes "eb_collect i = Inr ([], n)"
  shows "eb_missing i n = []"
    "bn_readiness_policy n = clean (pget (be_final_readiness i) ''policy_version'')"
    "bn_readiness_auth n = clean (pget (be_final_readiness i) ''authorization_id'')"
    "number_strict (pget (be_final_readiness i) ''canary_notional_usd'') = Inr (bn_readiness_notional n)"
    "number_strict (pget (be_final_readiness i) ''max_loss_usd'') = Inr (bn_readiness_loss n)"
    "bn_attempt_id n = clean (pget (be_request i) ''attempt_id'')"
    "bn_idempotency_key n = clean (pget (be_request i) ''idempotency_key'')"
    "bn_prior_state n = clean (pget (be_request i) ''prior_submission_state'')"
    "number_strict (pget (be_runtime i) ''requested_notional_usd'') = Inr (bn_requested_notional n)"
    "number_strict (pget (be_quote i) ''notional_usd'') = Inr (bn_quote_notional n)"
    "bn_requested_at n = iso_time_stripped (pget (be_request i) ''requested_at'')"
    "bn_quoted_at n = iso_time_stripped (pget (be_quote i) ''quoted_at'')"
    "bn_expires_at n = iso_time_stripped (pget (be_quote i) ''expires_at'')"
    "bn_evaluated_at n = iso_time_stripped (pget (be_runtime i) ''evaluated_at'')"
  using assms by (auto simp: eb_collect_def eb_read_def bindE_eq_Inr Let_def)

lemma boundary_complete:
  assumes "eb_missing i n = []"
  shows "bn_readiness_policy n \<noteq> []" "bn_readiness_auth n \<noteq> []" "bn_attempt_id n \<noteq> []"
    "bn_idempotency_key n \<noteq> []" "bn_requested_at n \<noteq> None" "bn_quoted_at n \<noteq> None"
    "bn_expires_at n \<noteq> None" "bn_evaluated_at n \<noteq> None"
    "\<exists>q. bn_requested_notional n = Some q \<and> 0 < q" "\<exists>q. bn_readiness_notional n = Some q \<and> 0 < q"
    "\<exists>q. bn_readiness_loss n = Some q \<and> 0 < q" "\<exists>q. bn_realized_loss n = Some q \<and> 0 \<le> q"
    "eq_str (pget (be_final_readiness i) ''operational_readiness_result'') ''PASS''"
  using assms by (simp_all add: eb_missing_def Let_def positive_iff non_negative_iff)

lemma boundary_clear:
  assumes "eb_blockers i n = []"
  shows "bn_readiness_policy n = bn_state_policy n" "bn_readiness_auth n = bn_state_auth n"
    "is_false (pget (be_authorization_state i) ''consumed'')"
    "eq_int (pget (be_authorization_state i) ''use_count'') 0"
    "\<not> above (bn_requested_notional n) (Some max_canary_notional)"
    "\<not> above (bn_requested_notional n) (bn_readiness_notional n)"
    "bn_quote_notional n = bn_requested_notional n"
    "\<not> at_least (bn_realized_loss n) (bn_readiness_loss n)"
    "eq_int (pget (be_runtime i) ''open_positions'') 0"
    "k \<in> set eb_runtime_keys \<Longrightarrow> is_true (pget (be_runtime i) k)"
    "before (bn_quoted_at n) (bn_expires_at n)" "\<not> before (bn_requested_at n) (bn_quoted_at n)"
    "before (bn_requested_at n) (bn_expires_at n)" "before (bn_evaluated_at n) (bn_expires_at n)"
    "bn_prior_state n = ''NOT_SENT''"
  using assms by (auto simp: eb_blockers_def Let_def eb_runtime_keys_def)

lemma readiness_output:
  "pget (fr_passed i n) ''policy_version'' = PStr (rd_version n)"
  "pget (fr_passed i n) ''authorization_id'' = PStr (rd_authorization_id n)"
  "pget (fr_passed i n) ''canary_notional_usd'' = num_val (rd_notional n)"
  "pget (fr_passed i n) ''max_loss_usd'' = num_val (rd_max_loss n)"
  "pget (fr_passed i n) ''operational_readiness_result'' = PStr ''PASS''"
  by (simp_all add: fr_passed_def fr_authority_def dget_dlast)

section \<open>A demonstration\<close>

text \<open>Final readiness and a boundary request for the canary authorization.\<close>

definition gate_release :: pyval where
  "gate_release = PDict
    [(''status'', PStr ''OBSERVED''), (''release_gate_result'', PStr ''PASS''),
     (''eligible_for_isolated_canary_review'', PBool True), (''live_canary_unlocked'', PBool False),
     (''policy_version'', PStr ''P'')]"

definition gate_verification :: pyval where
  "gate_verification = PDict
    ([(''status'', PStr ''OBSERVED''), (''policy_version'', PStr ''P''), (''tested_main_sha'', PStr ''S''),
      (''proof_source'', PStr ''S'')] @ map (\<lambda>k. (k, PBool True)) fr_required_verifications)"

definition gate_infrastructure :: pyval where
  "gate_infrastructure = PDict
    [(''status'', PStr ''HEALTHY''), (''critical_services_healthy'', PBool True),
     (''unresolved_critical_incidents'', PInt 0), (''revalidated_for_canary'', PBool True),
     (''checked_at'', PStr ''S'')]"

definition gate_safety :: pyval where
  "gate_safety = PDict
    [(''status'', PStr ''OBSERVED''), (''safety_checks_complete'', PBool True),
     (''unresolved_safety_failures'', PList [])]"

definition gate_evidence :: readiness_evidence where
  "gate_evidence = \<lparr>fe_release_gate = gate_release, fe_canary_authorization = canary_evidence,
     fe_verification = gate_verification, fe_infrastructure = gate_infrastructure,
     fe_safety = gate_safety, fe_policy_version = PStr ''P''\<rparr>"

definition gate_reading :: readiness_reading where
  "gate_reading = \<lparr>rd_version = ''P'', rd_release_policy = ''P'', rd_authorization_id = ''A'',
     rd_authorization_policy = ''P'', rd_notional = Some 10, rd_max_loss = Some 2, rd_proof_policy = ''P'',
     rd_tested_main_sha = ''S'', rd_proof_source = ''S''\<rparr>"

definition expiry_time :: py_datetime where
  "expiry_time = canary_time\<lparr>dt_second := 6\<rparr>"

definition boundary_quote :: pyval where
  "boundary_quote = PDict
    [(''quote_id'', PStr ''Q''), (''quoted_at'', PStr (isoformat canary_time)),
     (''expires_at'', PStr (isoformat expiry_time)), (''notional_usd'', PInt 5)]"

definition boundary_request :: pyval where
  "boundary_request = PDict
    [(''authorization_id'', PStr ''A''), (''policy_version'', PStr ''P''), (''attempt_id'', PStr ''T''),
     (''idempotency_key'', PStr ''K''), (''quote_id'', PStr ''Q''),
     (''requested_at'', PStr (isoformat canary_time)), (''prior_submission_state'', PStr ''NOT_SENT'')]"

definition boundary_call :: boundary_evidence where
  "boundary_call = \<lparr>be_final_readiness = fr_passed gate_evidence gate_reading,
     be_authorization_state = canary_state (pv_row canary_normal), be_runtime = canary_runtime,
     be_quote = boundary_quote, be_request = boundary_request\<rparr>"

lemma gate_texts [simp]:
  "strip ''S'' = ''S''" "strip ''Q'' = ''Q''" "strip ''NOT_SENT'' = ''NOT_SENT''"
  by code_simp+

lemma gate_verification_fields:
  "k \<in> set fr_required_verifications \<Longrightarrow> pget gate_verification k = PBool True"
  "k \<in> set fr_required_verifications \<Longrightarrow> present gate_verification k"
  "pget gate_verification ''status'' = PStr ''OBSERVED''" "pget gate_verification ''policy_version'' = PStr ''P''"
  "pget gate_verification ''tested_main_sha'' = PStr ''S''" "pget gate_verification ''proof_source'' = PStr ''S''"
  by (auto simp: gate_verification_def fr_required_verifications_def dget_def has_key_def)

lemma gate_quiet:
  "\<not> claims fr_powers gate_release" "\<not> claims fr_powers canary_evidence" "\<not> claims fr_powers gate_verification"
  "\<not> claims fr_powers gate_infrastructure" "\<not> claims fr_powers gate_safety"
  "is_dict gate_release" "is_dict gate_verification" "is_dict gate_infrastructure" "is_dict gate_safety"
  by (simp_all add: claims_def fr_powers_def gate_release_def canary_evidence_def gate_verification_def
      fr_required_verifications_def gate_infrastructure_def gate_safety_def dget_def)

lemma gate_fields:
  "pget gate_release ''status'' = PStr ''OBSERVED''" "pget gate_release ''release_gate_result'' = PStr ''PASS''"
  "pget gate_release ''eligible_for_isolated_canary_review'' = PBool True"
  "pget gate_release ''live_canary_unlocked'' = PBool False" "pget gate_release ''policy_version'' = PStr ''P''"
  "pget gate_infrastructure ''status'' = PStr ''HEALTHY''"
  "pget gate_infrastructure ''critical_services_healthy'' = PBool True"
  "pget gate_infrastructure ''unresolved_critical_incidents'' = PInt 0"
  "pget gate_infrastructure ''revalidated_for_canary'' = PBool True"
  "pget gate_infrastructure ''checked_at'' = PStr ''S''"
  "present gate_infrastructure ''critical_services_healthy''"
  "present gate_infrastructure ''unresolved_critical_incidents''"
  "pget gate_safety ''status'' = PStr ''OBSERVED''" "pget gate_safety ''safety_checks_complete'' = PBool True"
  "pget gate_safety ''unresolved_safety_failures'' = PList []"
  by (simp_all add: gate_release_def gate_infrastructure_def gate_safety_def dget_def has_key_def)

lemma gate_passes:
  "evaluate_final_canary_readiness gate_evidence = Inr (fr_passed gate_evidence gate_reading)"
proof -
  have s: "fr_screen gate_evidence = None"
    by (simp add: fr_screen_def gate_evidence_def screen_inputs_None fr_inputs_def gate_quiet canary_inputs_quiet Let_def)
  have needs: "concat (map (\<lambda>k. need (present gate_verification k) k) fr_required_verifications) = []"
    using gate_verification_fields(2) by simp
  have c: "fr_collect gate_evidence = Inr ([], gate_reading)"
    by (simp add: fr_collect_def gate_evidence_def gate_reading_def gate_fields gate_verification_fields(3-)
        canary_evidence_fields needs [unfolded need_def] Let_def need_def)
  have "filter (\<lambda>k. \<not> is_true (pget gate_verification k)) fr_required_verifications = []"
    using gate_verification_fields(1) by (simp add: filter_empty_conv)
  then have "fr_blockers gate_evidence gate_reading = []"
    by (simp add: fr_blockers_def gate_evidence_def gate_reading_def gate_fields canary_evidence_fields
        max_canary_notional_def Let_def need_def)
  with s c show ?thesis by (simp add: evaluate_final_canary_readiness_def)
qed

lemma expiry_instant [simp]: "iso_time_stripped (PStr (isoformat expiry_time)) = Some expiry_time"
proof -
  have "valid_datetime expiry_time" "dt_offset expiry_time \<noteq> None" by code_simp+
  then have "parse_instant (isoformat expiry_time) = Some expiry_time" by (rule parse_instant_isoformat)
  then show ?thesis by (simp add: iso_time_stripped_def Let_def)
qed

lemma boundary_fields:
  "pget boundary_quote ''quote_id'' = PStr ''Q''" "pget boundary_quote ''quoted_at'' = PStr (isoformat canary_time)"
  "pget boundary_quote ''expires_at'' = PStr (isoformat expiry_time)" "pget boundary_quote ''notional_usd'' = PInt 5"
  "pget boundary_request ''authorization_id'' = PStr ''A''" "pget boundary_request ''policy_version'' = PStr ''P''"
  "pget boundary_request ''attempt_id'' = PStr ''T''" "pget boundary_request ''idempotency_key'' = PStr ''K''"
  "pget boundary_request ''quote_id'' = PStr ''Q''"
  "pget boundary_request ''requested_at'' = PStr (isoformat canary_time)"
  "pget boundary_request ''prior_submission_state'' = PStr ''NOT_SENT''"
  "pget (fr_passed i n) ''status'' = PStr ''OBSERVED''"
  "pget (fr_passed i n) ''eligible_for_live_executor_review'' = PBool True"
  "pget (fr_passed i n) ''live_canary_unlocked'' = PBool False"
  "pget (canary_state r) ''policy_version'' = PStr (cw_policy r)" "present (canary_state r) ''use_count''"
  "is_dict boundary_quote" "is_dict boundary_request" "is_dict (fr_passed i n)"
  by (simp_all add: boundary_quote_def boundary_request_def dget_def fr_passed_def fr_authority_def
      dget_dlast [unfolded dget_def] canary_state_def has_key_def)

lemma boundary_quiet:
  "\<not> claims executor_powers (fr_passed i n)" "\<not> claims executor_powers (canary_state r)"
  "\<not> claims executor_powers canary_runtime" "\<not> claims executor_powers boundary_quote"
  "\<not> claims executor_powers boundary_request"
proof -
  show "\<not> claims executor_powers (fr_passed i n)"
    using passed_claims_nothing(5) screened_powers(6)
    by (auto simp: claims_nothing_def claims_def list_ex_iff)
qed (simp_all add: claims_def executor_powers_def canary_state_def canary_runtime_def boundary_quote_def
    boundary_request_def dget_def)

lemma boundary_collects: "\<exists>n. eb_collect boundary_call = Inr ([], n) \<and> eb_blockers boundary_call n = []"
proof -
  have k: "pget canary_runtime k = PBool True" "present canary_runtime k" if "k \<in> set eb_runtime_keys" for k
    using that canary_runtime_fields(6,7) by (simp_all add: eb_runtime_keys_def cp_runtime_keys_def)
  have needs: "concat (map (\<lambda>k. need (present canary_runtime k) k) eb_runtime_keys) = []"
    using k(2) by simp
  obtain n where n: "eb_read boundary_call = Inr n"
    "n = \<lparr>bn_readiness_policy = ''P'', bn_readiness_auth = ''A'', bn_readiness_notional = Some 10,
      bn_readiness_loss = Some 2, bn_state_auth = ''A'', bn_state_policy = ''P'',
      bn_requested_notional = Some 5, bn_realized_loss = Some 0, bn_evaluated_at = Some canary_time,
      bn_quote_id = ''Q'', bn_quoted_at = Some canary_time, bn_expires_at = Some expiry_time,
      bn_quote_notional = Some 5, bn_request_auth = ''A'', bn_request_policy = ''P'', bn_attempt_id = ''T'',
      bn_idempotency_key = ''K'', bn_request_quote = ''Q'', bn_requested_at = Some canary_time,
      bn_prior_state = ''NOT_SENT''\<rparr>"
    by (simp add: eb_read_def boundary_call_def boundary_fields readiness_output canary_runtime_fields
        canary_state_fields canary_row0 gate_reading_def Let_def)
  have "eb_missing boundary_call n = []"
    by (simp add: eb_missing_def n(2) boundary_call_def boundary_fields readiness_output canary_runtime_fields
        canary_state_fields canary_state_use canary_row0 needs Let_def eb_submission_states_def)
  moreover have "eb_blockers boundary_call n = []"
  proof -
    have "utc_micros canary_time < utc_micros expiry_time" by code_simp
    moreover have "pget canary_runtime k = PBool True"
      if "k \<in> {''kill_switch_armed'', ''isolated_funds'', ''isolated_account_or_wallet'', ''no_borrowing'', ''no_leverage''}" for k
      using that k(1) by (auto simp: eb_runtime_keys_def)
    ultimately show ?thesis
      by (simp add: eb_blockers_def n(2) boundary_call_def boundary_fields canary_runtime_fields(1-5)
          canary_state_fields canary_state_use canary_row0 max_canary_notional_def Let_def)
  qed
  ultimately show ?thesis using n(1) by (simp add: eb_collect_def)
qed

lemma boundary_ready:
  obtains r where "evaluate_live_executor_boundary_contract boundary_call = Inr r"
    "pget r ''executor_boundary_result'' = PStr ''CONTRACT_READY''"
proof -
  have "eb_screen boundary_call = None"
    by (simp add: eb_screen_def screen_inputs_None eb_inputs_def boundary_call_def boundary_quiet boundary_fields
        canary_inputs_quiet)
  then have "eb.verdict boundary_call ''CONTRACT_READY''"
    using boundary_collects by (simp add: eb.pass_iff)
  with that show thesis by (auto simp: eb.verdict_def)
qed

text \<open>
  C13: A contract is ready only for an authorization that is unconsumed, an attempt proven not sent, a
  quote for exactly the requested amount that the request neither precedes nor outlives, no open
  position, every isolation control on, and an amount within the readiness and the hard cap.
\<close>

theorem contract_ready_is_safe:
  assumes "evaluate_live_executor_boundary_contract i = Inr r"
    and "pget r ''executor_boundary_result'' = PStr ''CONTRACT_READY''"
  shows "\<exists>q l quoted requested expires evaluated.
      is_false (pget (be_authorization_state i) ''consumed'')
    \<and> eq_int (pget (be_authorization_state i) ''use_count'') 0
    \<and> clean (pget (be_request i) ''prior_submission_state'') = ''NOT_SENT''
    \<and> number_strict (pget (be_runtime i) ''requested_notional_usd'') = Inr (Some q)
    \<and> number_strict (pget (be_quote i) ''notional_usd'') = Inr (Some q)
    \<and> number_strict (pget (be_final_readiness i) ''canary_notional_usd'') = Inr (Some l)
    \<and> 0 < q \<and> q \<le> l \<and> q \<le> max_canary_notional
    \<and> eq_int (pget (be_runtime i) ''open_positions'') 0
    \<and> list_all (\<lambda>k. is_true (pget (be_runtime i) k)) eb_runtime_keys
    \<and> iso_time_stripped (pget (be_quote i) ''quoted_at'') = Some quoted
    \<and> iso_time_stripped (pget (be_request i) ''requested_at'') = Some requested
    \<and> iso_time_stripped (pget (be_quote i) ''expires_at'') = Some expires
    \<and> iso_time_stripped (pget (be_runtime i) ''evaluated_at'') = Some evaluated
    \<and> utc_micros quoted \<le> utc_micros requested \<and> utc_micros requested < utc_micros expires
    \<and> utc_micros evaluated < utc_micros expires"
proof -
  obtain n where n: "eb_collect i = Inr ([], n)" "eb_blockers i n = []"
    using eb.pass_result [OF assms] by blast
  note rd = boundary_read [OF n(1)] and c = boundary_complete [OF boundary_read(1) [OF n(1)]]
    and cl = boundary_clear [OF n(2)]
  obtain q l where q: "bn_requested_notional n = Some q" "0 < q" "bn_readiness_notional n = Some l"
    using c(9,10) by blast
  obtain quoted requested expires evaluated where t: "bn_quoted_at n = Some quoted"
    "bn_requested_at n = Some requested" "bn_expires_at n = Some expires" "bn_evaluated_at n = Some evaluated"
    using c(5-8) by blast
  have le: "q \<le> l" "q \<le> max_canary_notional" using cl(5,6) by (simp_all add: q not_less)
  have times: "utc_micros quoted \<le> utc_micros requested" "utc_micros requested < utc_micros expires"
    "utc_micros evaluated < utc_micros expires"
    using cl(12-14) by (simp_all add: t not_less)
  have keys: "list_all (\<lambda>k. is_true (pget (be_runtime i) k)) eb_runtime_keys"
    using cl(10) by (simp add: list_all_iff)
  have nums: "number_strict (pget (be_runtime i) ''requested_notional_usd'') = Inr (Some q)"
    "number_strict (pget (be_quote i) ''notional_usd'') = Inr (Some q)"
    "number_strict (pget (be_final_readiness i) ''canary_notional_usd'') = Inr (Some l)"
    using rd(4,9,10) cl(7) q by simp_all
  have instants: "iso_time_stripped (pget (be_quote i) ''quoted_at'') = Some quoted"
    "iso_time_stripped (pget (be_request i) ''requested_at'') = Some requested"
    "iso_time_stripped (pget (be_quote i) ''expires_at'') = Some expires"
    "iso_time_stripped (pget (be_runtime i) ''evaluated_at'') = Some evaluated"
    using rd(11-14) t by simp_all
  have "clean (pget (be_request i) ''prior_submission_state'') = ''NOT_SENT''"
    using rd(8) cl(15) by simp
  with cl(3,4,9) instants le times keys nums q(2) show ?thesis by blast
qed

theorem contract_ready_is_safe_witness:
  "clean (pget (be_request boundary_call) ''prior_submission_state'') = ''NOT_SENT''"
proof (rule boundary_ready)
  fix r
  assume "evaluate_live_executor_boundary_contract boundary_call = Inr r"
    "pget r ''executor_boundary_result'' = PStr ''CONTRACT_READY''"
  from contract_ready_is_safe [OF this] show ?thesis by (elim exE conjE)
qed

section \<open>From final readiness to the boundary\<close>

lemma readiness_read:
  assumes "fr_collect i = Inr ([], n)"
  shows "rd_authorization_id n = clean (pget (fe_canary_authorization i) ''authorization_id'')"
    "\<exists>q. number_strict (pget (fe_canary_authorization i) ''canary_notional_usd'') = Inr (Some q)
       \<and> rd_notional n = Some q \<and> 0 < q"
    "eq_str (pget (fe_release_gate i) ''release_gate_result'') ''PASS''"
    "is_true (pget (fe_canary_authorization i) ''human_authorized'')"
    "is_true (pget (fe_safety i) ''safety_checks_complete'')"
  using assms by (auto simp: fr_collect_def Let_def bindE_eq_Inr positive_iff)

lemma readiness_clear:
  assumes "fr_blockers i n = []"
  shows "k \<in> set fr_required_verifications \<Longrightarrow> is_true (pget (fe_verification i) k)"
    "is_true (pget (fe_infrastructure i) ''critical_services_healthy'')"
    "\<not> truthy (pget (fe_safety i) ''unresolved_safety_failures'')"
  using assms by (auto simp: fr_blockers_def Let_def filter_empty_conv)

text \<open>
  C14: A ready contract built on the output of the final readiness check rests on all of that check's
  evidence: a passed release gate, a human authorization with the same identity and at least the
  requested amount, every required verification, and no unresolved safety failure.
\<close>

theorem ready_contract_traces_to_release:
  assumes final: "evaluate_final_canary_readiness i = Inr readiness"
    and link: "be_final_readiness j = readiness"
    and ready: "evaluate_live_executor_boundary_contract j = Inr r"
      "pget r ''executor_boundary_result'' = PStr ''CONTRACT_READY''"
  shows "\<exists>q l. eq_str (pget (fe_release_gate i) ''release_gate_result'') ''PASS''
    \<and> is_true (pget (fe_canary_authorization i) ''human_authorized'')
    \<and> clean (pget (be_authorization_state j) ''authorization_id'')
        = clean (pget (fe_canary_authorization i) ''authorization_id'')
    \<and> number_strict (pget (be_runtime j) ''requested_notional_usd'') = Inr (Some q)
    \<and> number_strict (pget (fe_canary_authorization i) ''canary_notional_usd'') = Inr (Some l)
    \<and> 0 < q \<and> q \<le> l
    \<and> list_all (\<lambda>k. is_true (pget (fe_verification i) k)) fr_required_verifications
    \<and> \<not> truthy (pget (fe_safety i) ''unresolved_safety_failures'')"
proof -
  obtain n where n: "eb_collect j = Inr ([], n)" "eb_blockers j n = []"
    using eb.pass_result [OF ready] by blast
  note rd = boundary_read [OF n(1)] and c = boundary_complete [OF boundary_read(1) [OF n(1)]]
    and cl = boundary_clear [OF n(2)]
  have "pget readiness ''operational_readiness_result'' = PStr ''PASS''"
    using c(13) link by (simp add: eq_str_def)
  then obtain m where m: "fr_collect i = Inr ([], m)" "fr_blockers i m = []" "readiness = fr_passed i m"
    using fr.pass_result [OF final] by blast
  note f = readiness_read [OF m(1)] readiness_clear [OF m(2)]
  obtain l where l: "number_strict (pget (fe_canary_authorization i) ''canary_notional_usd'') = Inr (Some l)"
    "rd_notional m = Some l" using f(2) by blast
  have nl: "bn_readiness_notional n = Some l"
    using rd(4) by (simp add: link m(3) readiness_output l(2))
  obtain q where q: "bn_requested_notional n = Some q" "0 < q" using c(9) by blast
  have "q \<le> l" using cl(6) by (simp add: q nl not_less)
  moreover have "bn_state_auth n = clean (pget (be_authorization_state j) ''authorization_id'')"
    using n(1) by (auto simp: eb_collect_def eb_read_def bindE_eq_Inr Let_def)
  moreover have "strip (rd_authorization_id m) = rd_authorization_id m"
    using f(1) strip_clean by blast
  ultimately show ?thesis
    using f cl(2) rd(3,9) q l(1)
    by (auto simp: link m(3) readiness_output list_all_iff)
qed

theorem ready_contract_traces_to_release_witness:
  "is_true (pget (fe_canary_authorization gate_evidence) ''human_authorized'')"
proof (rule boundary_ready)
  fix r
  assume r: "evaluate_live_executor_boundary_contract boundary_call = Inr r"
    "pget r ''executor_boundary_result'' = PStr ''CONTRACT_READY''"
  have "be_final_readiness boundary_call = fr_passed gate_evidence gate_reading" by (simp add: boundary_call_def)
  from ready_contract_traces_to_release [OF gate_passes this r] show ?thesis by (elim exE conjE)
qed


section \<open>From the boundary to the submission store\<close>

lemma contract_fields:
  "is_dict (eb_contract i n)"
  "pget (eb_contract i n) ''status'' = PStr ''OBSERVED''"
  "pget (eb_contract i n) ''executor_boundary_result'' = PStr ''CONTRACT_READY''"
  "pget (eb_contract i n) ''executor_contract_ready'' = PBool True"
  "pget (eb_contract i n) ''submission_state'' = PStr ''NOT_SENT''"
  "pget (eb_contract i n) ''authorization_id'' = PStr (bn_readiness_auth n)"
  "pget (eb_contract i n) ''policy_version'' = PStr (bn_readiness_policy n)"
  "pget (eb_contract i n) ''attempt_id'' = PStr (bn_attempt_id n)"
  "pget (eb_contract i n) ''idempotency_key'' = PStr (bn_idempotency_key n)"
  by (simp_all add: eb_contract_def eb_authority_def dget_dlast)

lemma storable_PList: "storable (PList xs) \<longleftrightarrow> list_all storable xs"
  by (induction xs) (auto simp: storable_def)

lemma storable_Fin [simp]: "storable (PFloat (Fin q))"
  by (simp add: storable_def)

lemma storable_num_val [simp]: "storable (num_val x)"
  by (cases x) (simp_all add: num_val_def storable_def)

lemma storable_checks: "storable (PDict eb_checks)"
proof -
  have "lower ''hard_20_usd_cap'' = ''hard_20_usd_cap''" by code_simp
  then show ?thesis by (simp add: storable_PDict eb_checks_def lower_plain forbidden_keys_def)
qed

lemma storable_pget: "storable v \<Longrightarrow> storable (pget v k)"
proof (cases v)
  case (PDict d)
  assume v: "storable v"
  show ?thesis
  proof (cases "map_of d k")
    case None
    with PDict show ?thesis by (simp add: dget_def)
  next
    case (Some x)
    then have "(k, x) \<in> set d" by (rule map_of_SomeD)
    with v PDict Some show ?thesis by (auto simp: storable_PDict storable_items_def list_all_iff dget_def)
  qed
qed (simp_all add: pget_def)

definition contract_texts :: "boundary_reading \<Rightarrow> string list" where
  "contract_texts n = [bn_readiness_auth n, bn_readiness_policy n, bn_attempt_id n, bn_idempotency_key n, bn_quote_id n]"

lemma contract_texts_read:
  assumes "eb_collect i = Inr ([], n)"
  shows "contract_texts n =
    [clean (pget (be_final_readiness i) ''authorization_id''), clean (pget (be_final_readiness i) ''policy_version''),
     clean (pget (be_request i) ''attempt_id''), clean (pget (be_request i) ''idempotency_key''),
     clean (pget (be_quote i) ''quote_id'')]"
  using assms by (auto simp: contract_texts_def eb_collect_def eb_read_def bindE_eq_Inr Let_def)

lemma contract_storable:
  assumes "storable_items (eb_inputs i)" "\<exists>v. pget (be_authorization_state i) ''version'' = PInt v"
    "\<not> list_ex has_nul (contract_texts n)"
  shows "storable (eb_contract i n)"
proof -
  obtain v where v: "pget (be_authorization_state i) ''version'' = PInt v" using assms(2) by blast
  have "storable (be_authorization_state i)" using assms(1) by (simp add: eb_inputs_def)
  from storable_pget [OF this, of "''version''"] have small: "\<bar>v\<bar> < text_limit" by (simp add: v)
  have e: "storable (PDict (eb_inputs i))" using assms(1) by (simp add: storable_PDict)
  show ?thesis
    unfolding eb_contract_def
    by (rule storable_dict_of)
      (use assms(3) in \<open>simp add: v small e storable_checks eb_authority_def lower_plain forbidden_keys_def contract_texts_def\<close>)
qed


lemma boundary_storable: "storable_items (eb_inputs boundary_call)"
proof -
  have "storable canary_evidence" "storable gate_release" "storable gate_verification"
    "storable gate_infrastructure" "storable gate_safety" "storable canary_runtime" "storable boundary_quote"
    "storable boundary_request"
    by (simp_all add: canary_evidence_def gate_release_def gate_verification_def fr_required_verifications_def
        gate_infrastructure_def gate_safety_def canary_runtime_def boundary_quote_def boundary_request_def
        storable_PDict storable_PList lower_plain forbidden_keys_def)
  moreover have "storable (canary_state (pv_row canary_normal))"
    by (simp add: canary_state_def storable_PDict lower_plain forbidden_keys_def pv_row_def opt_str_def canary_normal_def)
  moreover have "storable (PDict fr_checks)"
    by (simp add: fr_checks_def fr_required_verifications_def storable_PDict lower_plain forbidden_keys_def)
  ultimately have "storable (fr_passed gate_evidence gate_reading)"
    unfolding fr_passed_def
    by (intro storable_dict_of)
      (simp add: fr_inputs_def gate_evidence_def gate_reading_def fr_authority_def storable_PDict lower_plain forbidden_keys_def)
  with \<open>storable canary_runtime\<close> \<open>storable boundary_quote\<close> \<open>storable boundary_request\<close>
    \<open>storable (canary_state (pv_row canary_normal))\<close>
  show ?thesis by (simp add: eb_inputs_def boundary_call_def lower_plain forbidden_keys_def)
qed

text \<open>
  A ready contract whose inputs the store may keep, whose texts are free of U+0000 and whose attempt and
  key are new is provisioned:
  the store gets a row in NOT_SENT at version 0 under the contract's identity, and a second
  provisioning of the same contract is refused.
\<close>

theorem ready_contract_is_provisioned:
  assumes ready: "evaluate_live_executor_boundary_contract i = Inr r"
      "pget r ''executor_boundary_result'' = PStr ''CONTRACT_READY''"
    and json: "storable_items (eb_inputs i)"
    and plain: "\<forall>x \<in> set [clean (pget (be_final_readiness i) ''authorization_id''),
        clean (pget (be_final_readiness i) ''policy_version''), clean (pget (be_request i) ''attempt_id''),
        clean (pget (be_request i) ''idempotency_key''), clean (pget (be_quote i) ''quote_id'')]. \<not> has_nul x"
    and new: "\<forall>x \<in> set (ed_rows db). sr_attempt x \<noteq> clean (pget (be_request i) ''attempt_id'')
      \<and> sr_key x \<noteq> clean (pget (be_request i) ''idempotency_key'')"
  shows "\<exists>db2 row. provision_executor_submission_state now db r = Inr (db2, es_provisioned row)
    \<and> ed_rows db2 = ed_rows db @ [row] \<and> sr_state row = ''NOT_SENT'' \<and> sr_version row = 0
    \<and> sr_attempt row = clean (pget (be_request i) ''attempt_id'')
    \<and> sr_authorization row = clean (pget (be_final_readiness i) ''authorization_id'')
    \<and> (\<exists>out. provision_executor_submission_state later db2 r = Inr (db2, out)
          \<and> pget out ''persistence_result'' = PStr ''BLOCKED'')"
proof -
  obtain n where n: "eb_collect i = Inr ([], n)" "eb_blockers i n = []" "r = eb_contract i n"
    using eb.pass_result [OF ready] by blast
  note rd = boundary_read [OF n(1)] and c = boundary_complete [OF boundary_read(1) [OF n(1)]]
  have clean: "strip (bn_readiness_auth n) = bn_readiness_auth n" "strip (bn_readiness_policy n) = bn_readiness_policy n"
    "strip (bn_attempt_id n) = bn_attempt_id n" "strip (bn_idempotency_key n) = bn_idempotency_key n"
    using rd(2,3,6,7) strip_clean by blast+
  have "\<exists>v. pget (be_authorization_state i) ''version'' = PInt v"
    using rd(1) by (auto simp: eb_missing_def Let_def int_satisfies_iff)
  moreover have texts: "\<not> list_ex has_nul (contract_texts n)"
    unfolding contract_texts_read [OF n(1)] using plain by (simp add: list_ex_iff)
  ultimately have st: "storable r" using contract_storable [OF json] n(3) by simp
  have free: "secret_free r" using st by (simp add: no_forbidden_secret_free storable_def)
  have dict: "is_dict r" by (simp add: n(3) contract_fields)
  have "provision_missing r = []"
    using c(1-4) st by (simp add: provision_missing_def n(3) contract_fields clean storable_def)
  moreover have "text_params [sr_attempt (provision_row t r), sr_authorization (provision_row t r),
      sr_policy (provision_row t r), sr_key (provision_row t r)] = Inr ()" for t
    using texts by (simp add: text_params_def provision_row_def n(3) contract_fields clean contract_texts_def)
  ultimately have prov: "provision_executor_submission_state t d r =
      bindE (es_insert d (provision_row t r)) (\<lambda>(d', inserted). Inr (d',
        if inserted then es_provisioned (provision_row t r)
        else es_blocked ''executor_submission_identity_or_idempotency_already_exists''))" for t d
    using storable_json [OF st] dict by (simp add: provision_executor_submission_state_def Let_def)
  let ?row = "\<lambda>t. provision_row t r"
  have row: "sr_attempt (?row t) = bn_attempt_id n" "sr_key (?row t) = bn_idempotency_key n"
      "sr_evidence (?row t) = r" "sr_state (?row t) = ''NOT_SENT''" "sr_version (?row t) = 0"
      "sr_authorization (?row t) = bn_readiness_auth n" for t
    by (simp_all add: provision_row_def n(3) contract_fields clean)
  define db2 where "db2 = db\<lparr>ed_rows := ed_rows db @ [?row now]\<rparr>"
  have fresh: "\<not> list_ex (\<lambda>x. sr_attempt x = bn_attempt_id n \<or> sr_key x = bn_idempotency_key n) (ed_rows db)"
    using new rd(6,7) by (auto simp: list_ex_iff)
  have "provision_executor_submission_state now db r = Inr (db2, es_provisioned (?row now))"
    using fresh free by (simp add: prov es_insert_def row db2_def)
  moreover have "provision_executor_submission_state later db2 r
      = Inr (db2, es_blocked ''executor_submission_identity_or_idempotency_already_exists'')"
    using free by (simp add: prov es_insert_def row db2_def)
  moreover have "ed_rows db2 = ed_rows db @ [?row now]" by (simp add: db2_def)
  ultimately show ?thesis using row rd(3,6) es_results(2) by metis
qed

theorem ready_contract_is_provisioned_witness:
  "\<exists>r. executor_reachable \<lparr>ed_rows = [], ed_audit = []\<rparr>
     \<and> (\<exists>db2 row. provision_executor_submission_state canary_time \<lparr>ed_rows = [], ed_audit = []\<rparr> r
          = Inr (db2, es_provisioned row) \<and> sr_state row = ''NOT_SENT'')"
proof (rule boundary_ready)
  fix r
  assume r: "evaluate_live_executor_boundary_contract boundary_call = Inr r"
    "pget r ''executor_boundary_result'' = PStr ''CONTRACT_READY''"
  have "\<forall>x \<in> set [clean (pget (be_final_readiness boundary_call) ''authorization_id''),
      clean (pget (be_final_readiness boundary_call) ''policy_version''), clean (pget (be_request boundary_call) ''attempt_id''),
      clean (pget (be_request boundary_call) ''idempotency_key''), clean (pget (be_quote boundary_call) ''quote_id'')]. \<not> has_nul x"
    by (simp add: boundary_call_def boundary_fields readiness_output gate_reading_def)
  then obtain db2 row where "provision_executor_submission_state canary_time \<lparr>ed_rows = [], ed_audit = []\<rparr> r
      = Inr (db2, es_provisioned row)" "sr_state row = ''NOT_SENT''"
    using ready_contract_is_provisioned [OF r boundary_storable, where db = "\<lparr>ed_rows = [], ed_audit = []\<rparr>" and now = canary_time and later = canary_time]
    by fastforce
  with er_empty show ?thesis by blast
qed

section \<open>No output is turned away as contaminated\<close>

text \<open>
  C15: Whatever evidence a stage of the pipeline is given, its output claims none of the powers that
  any stage's screen looks for, so feeding it to the next stage never trips the contamination check.
\<close>

theorem outputs_never_contaminate:
  "(\<forall>i r. evaluate_release_gate i = Inr r \<longrightarrow> claims_nothing r)
   \<and> (\<forall>i r. evaluate_isolated_canary_authorization i = Inr r \<longrightarrow> claims_nothing r)
   \<and> (\<forall>i r. evaluate_canary_preorder_runtime_safety i = Inr r \<longrightarrow> claims_nothing r)
   \<and> (\<forall>i r. prepare_dry_run_canary_execution i = Inr r \<longrightarrow> claims_nothing r)
   \<and> (\<forall>i r. evaluate_final_canary_readiness i = Inr r \<longrightarrow> claims_nothing r)
   \<and> (\<forall>i r. evaluate_live_executor_boundary_contract i = Inr r \<longrightarrow> claims_nothing r)
   \<and> (\<forall>i. claims_nothing (evaluate_executor_failure_transition i))
   \<and> (\<forall>v ks. claims_nothing v \<and> set ks \<subseteq> set all_powers \<longrightarrow> \<not> claims ks v)
   \<and> (\<forall>ks \<in> {rg_powers, ca_powers, cp_powers, dr_powers, fr_powers, executor_powers, pv_powers, dp_powers}.
        set ks \<subseteq> set all_powers)"
proof (intro conjI allI impI)
  show "claims_nothing r" if "evaluate_release_gate i = Inr r" for i r
    using rg_na.no_power [OF that] by (simp add: claims_nothing_def)
  show "claims_nothing r" if "evaluate_isolated_canary_authorization i = Inr r" for i r
    using ca_na.no_power [OF that] by (simp add: claims_nothing_def)
  show "claims_nothing r" if "evaluate_canary_preorder_runtime_safety i = Inr r" for i r
    using cp_na.no_power [OF that] by (simp add: claims_nothing_def)
  show "claims_nothing r" if "prepare_dry_run_canary_execution i = Inr r" for i r
    using dr_na.no_power [OF that] by (simp add: claims_nothing_def)
  show "claims_nothing r" if "evaluate_final_canary_readiness i = Inr r" for i r
    using fr_na.no_power [OF that] by (simp add: claims_nothing_def)
  show "claims_nothing r" if "evaluate_live_executor_boundary_contract i = Inr r" for i r
    using eb_na.no_power [OF that] by (simp add: claims_nothing_def)
  show "claims_nothing (evaluate_executor_failure_transition i)" for i
    by (rule ef_claims_nothing)
  show "\<not> claims ks v" if "claims_nothing v \<and> set ks \<subseteq> set all_powers" for v ks
    using that by (auto simp: claims_nothing_def claims_def list_ex_iff)
  show "\<forall>ks \<in> {rg_powers, ca_powers, cp_powers, dr_powers, fr_powers, executor_powers, pv_powers, dp_powers}.
        set ks \<subseteq> set all_powers"
    by (simp add: screened_powers)
qed

theorem outputs_never_contaminate_witness:
  "\<not> claims executor_powers (fr_passed gate_evidence gate_reading)"
proof -
  note all = outputs_never_contaminate [THEN conjunct2, THEN conjunct2, THEN conjunct2, THEN conjunct2]
  have "claims_nothing (fr_passed gate_evidence gate_reading)"
    using all [THEN conjunct1] gate_passes by simp
  moreover have "set executor_powers \<subseteq> set all_powers" by (rule screened_powers)
  ultimately show ?thesis
    using all [THEN conjunct2, THEN conjunct2, THEN conjunct2, THEN conjunct1] by simp
qed

section \<open>The errors that leave the gates\<close>

lemma collect_raises:
  "cp_collect i = Inl e \<Longrightarrow> e = OverflowError \<or> e = TypeError"
  "dr_collect j = Inl e \<Longrightarrow> e = OverflowError"
  "fr_collect k = Inl e \<Longrightarrow> e = OverflowError \<or> e = TypeError"
  "eb_collect l = Inl e \<Longrightarrow> e = OverflowError"
  "ca_collect m = Inl e \<Longrightarrow> e = OverflowError \<or> e = TypeError"
  "rg_collect n = Inl e \<Longrightarrow> e = TypeError"
  by (auto simp: cp_collect_def dr_collect_def fr_collect_def eb_collect_def eb_read_def ca_collect_def
      rg_collect_def Let_def bindE_eq_Inl number_strict_def in_str_set_Inl dest!: number_Inl split: if_splits)


lemma verdict_or_error:
  assumes "\<And>r. x = Inr r \<Longrightarrow> P r" "\<And>e. x = Inl e \<Longrightarrow> Q e"
  shows "case x of Inl e \<Rightarrow> Q e | Inr r \<Rightarrow> P r"
  using assms by (cases x) simp_all

text \<open>
  Every gate either gives one of its three verdicts or raises, and it raises only OverflowError
  (an integer too large for a float) or TypeError (a status that cannot be hashed).
\<close>

theorem gates_answer_or_raise:
  "(\<forall>i. case evaluate_release_gate i of Inl e \<Rightarrow> e = TypeError
     | Inr r \<Rightarrow> pget r ''release_gate_result'' \<in> {PStr ''UNKNOWN'', PStr ''BLOCKED'', PStr ''PASS''})
   \<and> (\<forall>i. case evaluate_isolated_canary_authorization i of Inl e \<Rightarrow> e = OverflowError \<or> e = TypeError
     | Inr r \<Rightarrow> pget r ''canary_authorization_result'' \<in> {PStr ''UNKNOWN'', PStr ''BLOCKED'', PStr ''PASS''})
   \<and> (\<forall>i. case evaluate_canary_preorder_runtime_safety i of Inl e \<Rightarrow> e = OverflowError \<or> e = TypeError
     | Inr r \<Rightarrow> pget r ''preorder_result'' \<in> {PStr ''UNKNOWN'', PStr ''BLOCKED'', PStr ''PASS''})
   \<and> (\<forall>i. case prepare_dry_run_canary_execution i of Inl e \<Rightarrow> e = OverflowError
     | Inr r \<Rightarrow> pget r ''adapter_result'' \<in> {PStr ''UNKNOWN'', PStr ''BLOCKED'', PStr ''DRY_RUN_READY''})
   \<and> (\<forall>i. case evaluate_final_canary_readiness i of Inl e \<Rightarrow> e = OverflowError \<or> e = TypeError
     | Inr r \<Rightarrow> pget r ''operational_readiness_result'' \<in> {PStr ''UNKNOWN'', PStr ''BLOCKED'', PStr ''PASS''})
   \<and> (\<forall>i. case evaluate_live_executor_boundary_contract i of Inl e \<Rightarrow> e = OverflowError
     | Inr r \<Rightarrow> pget r ''executor_boundary_result'' \<in> {PStr ''UNKNOWN'', PStr ''BLOCKED'', PStr ''CONTRACT_READY''})"
proof (intro conjI allI)
  fix i
  show "case evaluate_release_gate i of Inl e \<Rightarrow> e = TypeError
     | Inr r \<Rightarrow> pget r ''release_gate_result'' \<in> {PStr ''UNKNOWN'', PStr ''BLOCKED'', PStr ''PASS''}"
    by (rule verdict_or_error) (blast dest: rg.trichotomy, blast dest: rg.raises_iff [THEN iffD1] collect_raises)
next
  fix i
  show "case evaluate_isolated_canary_authorization i of Inl e \<Rightarrow> e = OverflowError \<or> e = TypeError
     | Inr r \<Rightarrow> pget r ''canary_authorization_result'' \<in> {PStr ''UNKNOWN'', PStr ''BLOCKED'', PStr ''PASS''}"
    by (rule verdict_or_error) (blast dest: ca.trichotomy, blast dest: ca.raises_iff [THEN iffD1] collect_raises)
next
  fix i
  show "case evaluate_canary_preorder_runtime_safety i of Inl e \<Rightarrow> e = OverflowError \<or> e = TypeError
     | Inr r \<Rightarrow> pget r ''preorder_result'' \<in> {PStr ''UNKNOWN'', PStr ''BLOCKED'', PStr ''PASS''}"
    by (rule verdict_or_error) (blast dest: cp.trichotomy, blast dest: cp.raises_iff [THEN iffD1] collect_raises)
next
  fix i
  show "case prepare_dry_run_canary_execution i of Inl e \<Rightarrow> e = OverflowError
     | Inr r \<Rightarrow> pget r ''adapter_result'' \<in> {PStr ''UNKNOWN'', PStr ''BLOCKED'', PStr ''DRY_RUN_READY''}"
    by (rule verdict_or_error) (blast dest: dr.trichotomy, blast dest: dr.raises_iff [THEN iffD1] collect_raises)
next
  fix i
  show "case evaluate_final_canary_readiness i of Inl e \<Rightarrow> e = OverflowError \<or> e = TypeError
     | Inr r \<Rightarrow> pget r ''operational_readiness_result'' \<in> {PStr ''UNKNOWN'', PStr ''BLOCKED'', PStr ''PASS''}"
    by (rule verdict_or_error) (blast dest: fr.trichotomy, blast dest: fr.raises_iff [THEN iffD1] collect_raises)
next
  fix i
  show "case evaluate_live_executor_boundary_contract i of Inl e \<Rightarrow> e = OverflowError
     | Inr r \<Rightarrow> pget r ''executor_boundary_result'' \<in> {PStr ''UNKNOWN'', PStr ''BLOCKED'', PStr ''CONTRACT_READY''}"
    by (rule verdict_or_error) (blast dest: eb.trichotomy, blast dest: eb.raises_iff [THEN iffD1] collect_raises)
qed

text \<open>
  The preorder check is not fail closed on a huge amount: authorization evidence with an integer
  of at least $2^{1024}$ makes it raise instead of answering, whatever the other evidence says.
\<close>

theorem huge_amount_escapes:
  assumes "cp_screen i = None" "pget (pe_canary_authorization i) ''canary_notional_usd'' = PInt n"
    and "2 ^ 1024 \<le> n"
  shows "evaluate_canary_preorder_runtime_safety i = Inl OverflowError"
proof -
  have "cp_collect i = Inl OverflowError"
    using number_of_huge [OF assms(3)] assms(2) by (simp add: cp_collect_def Let_def)
  with assms(1) show ?thesis by (simp add: evaluate_canary_preorder_runtime_safety_def)
qed

theorem huge_amount_escapes_witness:
  "\<exists>i. pe_runtime i = canary_runtime \<and> evaluate_canary_preorder_runtime_safety i = Inl OverflowError"
proof -
  define n :: int where "n = 2 ^ 1024"
  define i where "i = canary_check\<lparr>pe_canary_authorization := PDict [(''canary_notional_usd'', PInt n)]\<rparr>"
  have "cp_screen i = None"
    by (simp add: cp_screen_def screen_inputs_None cp_inputs_def i_def canary_check_def canary_inputs_quiet)
      (simp add: claims_def cp_powers_def dget_def)
  moreover have "pget (pe_canary_authorization i) ''canary_notional_usd'' = PInt n"
    by (simp add: i_def dget_def)
  moreover have "2 ^ 1024 \<le> n" unfolding n_def by (rule order_refl)
  ultimately have "evaluate_canary_preorder_runtime_safety i = Inl OverflowError" by (rule huge_amount_escapes)
  moreover have "pe_runtime i = canary_runtime" by (simp add: i_def canary_check_def)
  ultimately show ?thesis by blast
qed

end
