(* ===== verification/Admission.thy ===== *)
theory Admission
  imports Py_Repr "HOL-Library.Sublist"
begin

text \<open>
  The admission gate of markets (\<^verbatim>\<open>K/admission.py\<close>): the canonical eligibility decision, called Gate 1,
  its counters and the gate of alerts. The arguments of a decision are Python values of any type; a
  call on a value without that method is an AttributeError. Text ends at U+00FF, so the ellipsis in
  the required mint suffix is written as three dots.
\<close>

section \<open>Constants\<close>

definition filter_version :: string where
  "filter_version = ''volume-first-v1.0.0''"

definition gate1_volume :: rat where
  "gate1_volume = 33000"

definition gate1_volume_max :: rat where
  "gate1_volume_max = 200000"

definition alert_min_score :: rat where
  "alert_min_score = 55"

text \<open>The double \<^verbatim>\<open>1e-9\<close>.\<close>

definition nano :: rat where
  "nano = 4835703278458517 / 2 ^ 82"

definition canonical_protocols :: "(string \<times> bool) list" where
  "canonical_protocols =
     [(''raydium'', False), (''pump'', True), (''pumpfun'', True), (''pumpswap'', True), (''pump.fun'', True),
      (''mayhem'', True), (''pumpamm'', False), (''launchlab'', True), (''virtualcurve'', True),
      (''launchacoin'', True), (''bonk'', True), (''bonkers'', True), (''boop'', True), (''surge'', True),
      (''meteoraamm'', False), (''meteoraammv2'', False), (''meteora'', False), (''moonshot'', True),
      (''moonshotapp'', True), (''heaven'', True), (''daosfun'', True), (''candle'', True), (''sugar'', True),
      (''jupiterstudio'', True), (''bags'', True), (''soar'', True), (''printr'', True), (''liquida'', True),
      (''liquidaf'', True), (''liquidaffamm'', True), (''riserich'', True), (''stonkfun'', True), (''pve'', True),
      (''orca'', False), (''wavebreak'', True), (''phoenix'', False), (''lifinity'', False), (''saber'', False),
      (''aldrin'', False), (''fluxbeam'', False)]"

definition default_allowed :: "string list" where
  "default_allowed = map fst (filter snd canonical_protocols)"

definition default_denied :: "string list" where
  "default_denied = map fst (filter (\<lambda>kv. \<not> snd kv) canonical_protocols)"

definition reason_priority :: "string list" where
  "reason_priority =
     [''INVALID_MARKET_DATA'', ''INVALID_MINT'', ''NOT_MIGRATED'', ''PROTOCOL_UNKNOWN'', ''PROTOCOL_DISABLED'',
      ''DEX_PAID'', ''FEES_UNKNOWN'', ''FEES_BELOW_MIN'', ''LIQUIDITY_UNKNOWN'', ''LIQUIDITY_BELOW_MIN'',
      ''VOLUME_UNKNOWN'', ''VOLUME_BELOW_MIN'', ''MARKET_CAP_UNKNOWN'', ''MARKET_CAP_BELOW_MIN'', ''NO_SOCIAL'',
      ''SYNTHETIC_ACTIVITY_SUSPECTED'']"

section \<open>Records\<close>

record filter_metric =
  fm_name :: string
  fm_actual :: pyval
  fm_required :: pyval
  fm_unit :: string
  fm_passed :: bool
  fm_reason :: "string option"
  fm_source :: pyval
  fm_confidence :: pyval

record filter_stats =
  fs_markets_seen :: int
  fs_markets_rejected :: int
  fs_markets_eligible :: int
  fs_fee_unknown :: int
  fs_fee_below_min :: int
  fs_alerts_generated :: int
  fs_alerts_rejected :: int
  fs_duplicate_alerts :: int
  fs_buyer_capture_success :: int
  fs_buyer_capture_failures :: int
  fs_attribution_unknown :: int
  fs_entity_resolution_events :: int
  fs_reason_counts :: "(string \<times> int) list"
  fs_trade_sources :: "(string \<times> int) list"

record filter_decision =
  fd_accepted :: bool
  fd_eligible :: bool
  fd_filter_version :: string
  fd_evaluated_at :: string
  fd_mint :: "string option"
  fd_protocol :: string
  fd_failed :: "filter_metric list"
  fd_passed :: "filter_metric list"
  fd_metrics :: pydict
  fd_provenance :: pydict
  fd_rejection :: "string option"
  fd_codes :: "string list"
  fd_normalized_metrics :: pydict
  fd_source_metadata :: pydict

record filter_config =
  fc_version :: string
  fc_min_fees :: pyfloat
  fc_min_liquidity :: pyfloat
  fc_min_volume :: pyfloat
  fc_min_market_cap :: pyfloat
  fc_require_social :: bool
  fc_require_suffix :: bool
  fc_allowed :: "string list"
  fc_denied :: "string list"
  fc_reject_unknown_protocol :: bool
  fc_require_liquidity :: bool
  fc_require_volume :: bool
  fc_require_market_cap :: bool
  fc_require_fees :: bool
  fc_require_migrated :: bool
  fc_reject_dex_paid :: bool
  fc_record_stats :: bool

text \<open>The keyword arguments of a decision. \<^verbatim>\<open>None\<close> for the provenance is the empty dictionary.\<close>

record market_facts =
  mf_mint :: pyval
  mf_protocol :: pyval
  mf_dex_id :: pyval
  mf_fees :: pyval
  mf_fees_verified :: pyval
  mf_fees_source :: pyval
  mf_fees_timestamp :: pyval
  mf_fees_confidence :: pyval
  mf_fees_raw :: pyval
  mf_liquidity :: pyval
  mf_volume :: pyval
  mf_market_cap :: pyval
  mf_twitter :: pyval
  mf_website :: pyval
  mf_telegram :: pyval
  mf_tiktok :: pyval
  mf_socials :: "pydict option"
  mf_provenance :: pydict
  mf_migrated :: pyval
  mf_tab :: pyval
  mf_dex_paid :: pyval

section \<open>The counters\<close>

definition no_stats :: filter_stats where
  "no_stats =
     \<lparr>fs_markets_seen = 0, fs_markets_rejected = 0, fs_markets_eligible = 0, fs_fee_unknown = 0,
      fs_fee_below_min = 0, fs_alerts_generated = 0, fs_alerts_rejected = 0, fs_duplicate_alerts = 0,
      fs_buyer_capture_success = 0, fs_buyer_capture_failures = 0, fs_attribution_unknown = 0,
      fs_entity_resolution_events = 0, fs_reason_counts = [], fs_trade_sources = []\<rparr>"

definition tally :: "string \<Rightarrow> int \<Rightarrow> (string \<times> int) list \<Rightarrow> (string \<times> int) list" where
  "tally k n counts = AList.update k ((case map_of counts k of Some m \<Rightarrow> m | None \<Rightarrow> 0) + n) counts"

fun count_reasons :: "string list \<Rightarrow> filter_stats \<Rightarrow> filter_stats" where
  "count_reasons [] stats = stats"
| "count_reasons (code # codes) stats =
     count_reasons codes
       (let stats = stats\<lparr>fs_reason_counts := tally code 1 (fs_reason_counts stats)\<rparr> in
        if code = ''FEES_UNKNOWN'' then stats\<lparr>fs_fee_unknown := fs_fee_unknown stats + 1\<rparr>
        else if code = ''FEES_BELOW_MIN'' then stats\<lparr>fs_fee_below_min := fs_fee_below_min stats + 1\<rparr>
        else stats)"

definition record_decision :: "bool \<Rightarrow> string list \<Rightarrow> filter_stats \<Rightarrow> filter_stats" where
  "record_decision eligible codes stats =
    (let stats = stats\<lparr>fs_markets_seen := fs_markets_seen stats + 1\<rparr> in
     if eligible then stats\<lparr>fs_markets_eligible := fs_markets_eligible stats + 1\<rparr>
     else count_reasons codes (stats\<lparr>fs_markets_rejected := fs_markets_rejected stats + 1\<rparr>))"

text \<open>\<^verbatim>\<open>inc\<close>: another name is no integer attribute and changes nothing.\<close>

definition inc_stat :: "string \<Rightarrow> int \<Rightarrow> filter_stats \<Rightarrow> filter_stats" where
  "inc_stat name n stats =
    (if name = ''markets_seen'' then stats\<lparr>fs_markets_seen := fs_markets_seen stats + n\<rparr>
     else if name = ''markets_rejected'' then stats\<lparr>fs_markets_rejected := fs_markets_rejected stats + n\<rparr>
     else if name = ''markets_eligible'' then stats\<lparr>fs_markets_eligible := fs_markets_eligible stats + n\<rparr>
     else if name = ''fee_unknown_count'' then stats\<lparr>fs_fee_unknown := fs_fee_unknown stats + n\<rparr>
     else if name = ''fee_below_min_count'' then stats\<lparr>fs_fee_below_min := fs_fee_below_min stats + n\<rparr>
     else if name = ''alerts_generated'' then stats\<lparr>fs_alerts_generated := fs_alerts_generated stats + n\<rparr>
     else if name = ''alerts_rejected'' then stats\<lparr>fs_alerts_rejected := fs_alerts_rejected stats + n\<rparr>
     else if name = ''duplicate_alerts'' then stats\<lparr>fs_duplicate_alerts := fs_duplicate_alerts stats + n\<rparr>
     else if name = ''buyer_capture_success''
     then stats\<lparr>fs_buyer_capture_success := fs_buyer_capture_success stats + n\<rparr>
     else if name = ''buyer_capture_failures''
     then stats\<lparr>fs_buyer_capture_failures := fs_buyer_capture_failures stats + n\<rparr>
     else if name = ''attribution_unknown'' then stats\<lparr>fs_attribution_unknown := fs_attribution_unknown stats + n\<rparr>
     else if name = ''entity_resolution_events''
     then stats\<lparr>fs_entity_resolution_events := fs_entity_resolution_events stats + n\<rparr>
     else stats)"

definition inc_trade_source :: "string \<Rightarrow> int \<Rightarrow> filter_stats \<Rightarrow> filter_stats" where
  "inc_trade_source source n stats = stats\<lparr>fs_trade_sources := tally source n (fs_trade_sources stats)\<rparr>"

definition counts_dict :: "(string \<times> int) list \<Rightarrow> pyval" where
  "counts_dict counts = PDict (map (\<lambda>(k, n). (k, PInt n)) counts)"

definition stats_snapshot :: "filter_stats \<Rightarrow> pydict" where
  "stats_snapshot s =
     [(''markets_seen'', PInt (fs_markets_seen s)), (''markets_rejected'', PInt (fs_markets_rejected s)),
      (''markets_eligible'', PInt (fs_markets_eligible s)), (''fee_unknown_count'', PInt (fs_fee_unknown s)),
      (''fee_below_min_count'', PInt (fs_fee_below_min s)), (''alerts_generated'', PInt (fs_alerts_generated s)),
      (''alerts_rejected'', PInt (fs_alerts_rejected s)), (''duplicate_alerts'', PInt (fs_duplicate_alerts s)),
      (''buyer_capture_success'', PInt (fs_buyer_capture_success s)),
      (''buyer_capture_failures'', PInt (fs_buyer_capture_failures s)),
      (''attribution_unknown'', PInt (fs_attribution_unknown s)),
      (''entity_resolution_events'', PInt (fs_entity_resolution_events s)),
      (''rejection_reason_counts'', counts_dict (fs_reason_counts s)),
      (''trade_source_distribution'', counts_dict (fs_trade_sources s))]"

definition reset_stats :: "filter_stats \<Rightarrow> filter_stats" where
  "reset_stats stats = no_stats"

section \<open>Reading the arguments\<close>

definition clamp_float :: "pyfloat \<Rightarrow> pyfloat" where
  "clamp_float f =
    (case f of
       Fin x \<Rightarrow> Fin (if x \<le> 0 then gate1_volume else if gate1_volume_max < x then gate1_volume_max else x)
     | _ \<Rightarrow> Fin gate1_volume)"

definition clamp_gate1_volume :: "pyval \<Rightarrow> pyfloat res" where
  "clamp_gate1_volume v =
    (if v = PNone then Inr (Fin gate1_volume)
     else case py_float v of
         Inl e \<Rightarrow> if e = TypeError \<or> e = ValueError then Inr (Fin gate1_volume) else Inl e
       | Inr f \<Rightarrow> Inr (clamp_float f))"

text \<open>\<^verbatim>\<open>_safe_float\<close>: \<^const>\<open>number\<close> without the negative ones.\<close>

definition safe_float :: "pyval \<Rightarrow> rat option res" where
  "safe_float v =
    bindE (number v) (\<lambda>x. Inr (case x of Some f \<Rightarrow> if f < 0 then None else Some f | None \<Rightarrow> None))"

text \<open>\<^verbatim>\<open>(v or "")\<close> before a method of strings.\<close>

definition text_arg :: "pyval \<Rightarrow> string res" where
  "text_arg v = (if \<not> truthy v then Inr [] else case v of PStr s \<Rightarrow> Inr s | _ \<Rightarrow> Inl AttributeError)"

definition norm_protocol :: "pyval \<Rightarrow> string res" where
  "norm_protocol raw =
    bindE (text_arg raw) (\<lambda>s.
      Inr (replace_char (CHR ''-'') [] (replace_char (CHR ''_'') [] (replace_char (CHR '' '') [] (lower (strip s))))))"

definition social_placeholders :: "string list" where
  "social_placeholders =
     [[], ''none'', ''null'', ''n/a'', ''na'', ''-'', ''http://'', ''https://'', ''http://x.com'', ''https://x.com'',
      ''http://twitter.com'', ''https://twitter.com'', ''http://t.me'', ''https://t.me'']"

definition social_ok :: "pyval \<Rightarrow> bool" where
  "social_ok v \<longleftrightarrow> v \<noteq> PNone \<and>
     (let s = lower (strip (py_str v)) in
      s \<notin> set social_placeholders \<and> \<not> (prefix ''http'' s \<and> length s < 12) \<and> 3 \<le> length s)"

definition has_verified_social :: "pyval \<Rightarrow> pyval \<Rightarrow> pyval \<Rightarrow> pyval \<Rightarrow> pydict option \<Rightarrow> bool" where
  "has_verified_social twitter website telegram tiktok socials \<longleftrightarrow>
     social_ok twitter \<or> social_ok website \<or> social_ok telegram \<or> social_ok tiktok
     \<or> (case socials of
          None \<Rightarrow> False
        | Some d \<Rightarrow> list_ex (\<lambda>k. social_ok (dget d k))
            [''twitter'', ''website'', ''telegram'', ''tiktok'', ''x'', ''discord''])"

definition pick_primary :: "string list \<Rightarrow> string option" where
  "pick_primary codes =
    (if codes = [] then None
     else case List.find (\<lambda>p. p \<in> set codes) reason_priority of Some p \<Rightarrow> Some p | None \<Rightarrow> Some (hd codes))"

text \<open>\<^verbatim>\<open>FilterConfig()\<close>; \<open>make_config\<close> is \<^verbatim>\<open>__post_init__\<close>.\<close>

definition default_config :: filter_config where
  "default_config =
     \<lparr>fc_version = filter_version, fc_min_fees = Fin 1, fc_min_liquidity = Fin 8, fc_min_volume = Fin gate1_volume,
      fc_min_market_cap = Fin 31333, fc_require_social = False, fc_require_suffix = False,
      fc_allowed = default_allowed, fc_denied = default_denied, fc_reject_unknown_protocol = True,
      fc_require_liquidity = False, fc_require_volume = True, fc_require_market_cap = False,
      fc_require_fees = False, fc_require_migrated = True, fc_reject_dex_paid = False, fc_record_stats = True\<rparr>"

definition make_config :: "filter_config \<Rightarrow> filter_config" where
  "make_config cfg = cfg\<lparr>fc_min_volume := clamp_float (fc_min_volume cfg)\<rparr>"

definition early_gate_config :: filter_config where
  "early_gate_config = make_config (default_config
     \<lparr>fc_require_liquidity := False, fc_require_volume := False, fc_require_market_cap := False,
      fc_require_social := False, fc_require_migrated := False, fc_require_fees := False\<rparr>)"

definition legacy_fee_gate_config :: filter_config where
  "legacy_fee_gate_config = make_config (default_config
     \<lparr>fc_version := ''axiom-parity-v1.0.0'', fc_min_volume := Fin 100000, fc_require_fees := True,
      fc_require_liquidity := True, fc_require_market_cap := True, fc_require_social := True,
      fc_require_migrated := True\<rparr>)"

section \<open>The decision\<close>

text \<open>What the closures \<^verbatim>\<open>fail\<close> and \<^verbatim>\<open>ok\<close> append to.\<close>

record gate_run =
  gr_failed :: "filter_metric list"
  gr_passed :: "filter_metric list"
  gr_codes :: "string list"
  gr_metrics :: pydict
  gr_prov :: pydict

definition failing ::
  "string \<Rightarrow> pyval \<Rightarrow> pyval \<Rightarrow> string \<Rightarrow> string \<Rightarrow> pyval \<Rightarrow> pyval \<Rightarrow> gate_run \<Rightarrow> gate_run" where
  "failing name actual required unit reason source confidence run =
     run\<lparr>gr_failed := gr_failed run @
           [\<lparr>fm_name = name, fm_actual = actual, fm_required = required, fm_unit = unit, fm_passed = False,
             fm_reason = Some reason, fm_source = source, fm_confidence = confidence\<rparr>],
         gr_codes := (if reason \<in> set (gr_codes run) then gr_codes run else gr_codes run @ [reason])\<rparr>"

definition passing ::
  "string \<Rightarrow> pyval \<Rightarrow> pyval \<Rightarrow> string \<Rightarrow> pyval \<Rightarrow> pyval \<Rightarrow> gate_run \<Rightarrow> gate_run" where
  "passing name actual required unit source confidence run =
     run\<lparr>gr_passed := gr_passed run @
           [\<lparr>fm_name = name, fm_actual = actual, fm_required = required, fm_unit = unit, fm_passed = True,
             fm_reason = None, fm_source = source, fm_confidence = confidence\<rparr>]\<rparr>"

abbreviation fail :: "string \<Rightarrow> pyval \<Rightarrow> pyval \<Rightarrow> string \<Rightarrow> string \<Rightarrow> gate_run \<Rightarrow> gate_run" where
  "fail name actual required unit reason \<equiv> failing name actual required unit reason PNone PNone"

abbreviation pass :: "string \<Rightarrow> pyval \<Rightarrow> pyval \<Rightarrow> string \<Rightarrow> gate_run \<Rightarrow> gate_run" where
  "pass name actual required unit \<equiv> passing name actual required unit PNone PNone"

definition set_metric :: "string \<Rightarrow> pyval \<Rightarrow> gate_run \<Rightarrow> gate_run" where
  "set_metric k v run = run\<lparr>gr_metrics := AList.update k v (gr_metrics run)\<rparr>"

definition text_or_none :: "string \<Rightarrow> pyval" where
  "text_or_none s = (if s = [] then PNone else PStr s)"

definition amount :: "rat option \<Rightarrow> pyval" where
  "amount x = (case x of Some f \<Rightarrow> PFloat (Fin f) | None \<Rightarrow> PNone)"

definition put_if :: "bool \<Rightarrow> string \<Rightarrow> pyval \<Rightarrow> pydict \<Rightarrow> pydict" where
  "put_if c k v d = (if c then AList.update k v d else d)"

definition start_provenance :: "market_facts \<Rightarrow> pydict" where
  "start_provenance facts =
    AList.update ''fee_substitutes_forbidden'' (PBool True)
     (AList.update ''fee_metric'' (PStr ''global_fees_sol'')
      (put_if (mf_fees_raw facts \<noteq> PNone) ''global_fees_raw'' (mf_fees_raw facts)
       (put_if (mf_fees_confidence facts \<noteq> PNone) ''global_fees_confidence'' (mf_fees_confidence facts)
        (put_if (truthy (mf_fees_timestamp facts)) ''global_fees_timestamp'' (mf_fees_timestamp facts)
         (put_if (truthy (mf_fees_source facts)) ''global_fees_source'' (mf_fees_source facts)
           (mf_provenance facts))))))"

definition start_run :: "market_facts \<Rightarrow> string \<Rightarrow> string \<Rightarrow> gate_run" where
  "start_run facts mint proto =
    \<lparr>gr_failed = [], gr_passed = [], gr_codes = [],
     gr_metrics =
       [(''mint'', text_or_none mint), (''protocol'', text_or_none proto), (''global_fees_sol'', PNone),
        (''liquidity_usd'', PNone), (''volume_usd'', PNone), (''market_cap_usd'', PNone),
        (''social_verified'', PBool False), (''migrated'', mf_migrated facts), (''dex_paid'', mf_dex_paid facts),
        (''fees_source'', mf_fees_source facts), (''fees_verified'', mf_fees_verified facts)],
     gr_prov = start_provenance facts\<rparr>"

definition suffix_step :: "filter_config \<Rightarrow> string \<Rightarrow> gate_run \<Rightarrow> gate_run" where
  "suffix_step cfg mint run =
    (if fc_require_suffix cfg \<and> \<not> suffix ''pump'' (lower mint)
     then fail ''mint_suffix'' (PStr (drop (length mint - 8) mint)) (PStr ''...pump'') ''str'' ''INVALID_MARKET_DATA'' run
     else run)"

definition migration :: "pyval \<Rightarrow> pyval \<Rightarrow> bool option res" where
  "migration migrated tab =
    bindE (if truthy tab then bindE (text_arg tab) (\<lambda>s. Inr (Some (lower (strip s)))) else Inr None) (\<lambda>tab_n.
      Inr (if is_true migrated \<or> tab_n = Some ''migrated'' then Some True
           else if is_false migrated \<or> (tab_n \<noteq> None \<and> tab_n \<noteq> Some ''migrated'') then Some False
           else None))"

definition migration_step :: "filter_config \<Rightarrow> bool option \<Rightarrow> gate_run \<Rightarrow> gate_run" where
  "migration_step cfg migrated run =
    (let actual = (case migrated of Some b \<Rightarrow> PBool b | None \<Rightarrow> PNone);
         run = set_metric ''migrated'' actual run
     in if \<not> fc_require_migrated cfg then run
        else if migrated = Some True then pass ''migrated'' (PBool True) (PBool True) ''bool'' run
        else fail ''migrated'' actual (PBool True) ''bool'' ''NOT_MIGRATED'' run)"

definition denied_hit :: "filter_config \<Rightarrow> string \<Rightarrow> bool" where
  "denied_hit cfg proto \<longleftrightarrow> proto \<noteq> [] \<and>
     list_ex (\<lambda>d. d \<noteq> [] \<and> (d = proto \<or> sublist d proto)
       \<and> \<not> (d = ''pump'' \<and> proto \<in> {''pumpswap'', ''pumpfun'', ''pump.fun''})) (fc_denied cfg)"

definition allowed_hit :: "filter_config \<Rightarrow> string \<Rightarrow> bool" where
  "allowed_hit cfg proto \<longleftrightarrow>
     list_ex (\<lambda>a. a \<noteq> [] \<and> (a = proto \<or> prefix a proto \<or> prefix proto a
       \<or> a = ''pump'' \<and> proto \<in> {''pump'', ''pumpfun'', ''pumpswap'', ''pump.fun''})) (fc_allowed cfg)"

definition protocol_step :: "filter_config \<Rightarrow> string \<Rightarrow> gate_run \<Rightarrow> gate_run" where
  "protocol_step cfg proto run =
    (if denied_hit cfg proto then fail ''protocol'' (PStr proto) (PStr ''not in denied'') ''str'' ''PROTOCOL_DISABLED'' run
     else if fc_reject_unknown_protocol cfg
     then (if proto = [] then fail ''protocol'' PNone (PStr ''known allowed'') ''str'' ''PROTOCOL_UNKNOWN'' run
           else if \<not> allowed_hit cfg proto
           then fail ''protocol'' (PStr proto) (PStr ''allowlist'') ''str'' ''PROTOCOL_DISABLED'' run
           else pass ''protocol'' (PStr proto) (PStr ''allowlist'') ''str'' run)
     else if proto \<noteq> [] then pass ''protocol'' (PStr proto) (PStr ''optional'') ''str'' run
     else run)"

definition dex_paid_step :: "filter_config \<Rightarrow> pyval \<Rightarrow> gate_run \<Rightarrow> gate_run" where
  "dex_paid_step cfg dex_paid run =
    (if fc_reject_dex_paid cfg \<and> is_true dex_paid
     then fail ''dex_paid'' (PBool True) (PBool False) ''bool'' ''DEX_PAID'' run
     else if is_false dex_paid \<or> dex_paid = PNone then pass ''dex_paid'' dex_paid (PBool False) ''bool'' run
     else run)"

text \<open>\<^verbatim>\<open>f + 1e-9 < minimum\<close>\<close>

definition below :: "pyfloat \<Rightarrow> pyfloat \<Rightarrow> bool" where
  "below f minimum \<longleftrightarrow> fl_less (fl_add f (Fin nano)) minimum"

definition required_fees :: "filter_config \<Rightarrow> market_facts \<Rightarrow> rat option \<Rightarrow> gate_run \<Rightarrow> gate_run" where
  "required_fees cfg facts fees run =
    (let minimum = PFloat (fc_min_fees cfg); verified = mf_fees_verified facts;
         bad = (\<lambda>actual reason. failing ''global_fees'' actual minimum ''SOL'' reason (mf_fees_source facts)
                 (mf_fees_confidence facts) run)
     in if is_false verified then bad (mf_fees facts) ''FEES_UNKNOWN''
        else case fees of
            None \<Rightarrow> bad (mf_fees facts)
              (if mf_fees facts = PNone \<or> \<not> is_true verified then ''FEES_UNKNOWN'' else ''INVALID_MARKET_DATA'')
          | Some f \<Rightarrow>
              if \<not> is_true verified then bad (PFloat (Fin f)) ''FEES_UNKNOWN''
              else if below (Fin f) (fc_min_fees cfg) then bad (PFloat (Fin f)) ''FEES_BELOW_MIN''
              else set_metric ''fee_signal'' (PStr ''positive'')
                (passing ''global_fees'' (PFloat (Fin f)) minimum ''SOL'' (mf_fees_source facts)
                  (mf_fees_confidence facts) run))"

text \<open>\<^verbatim>\<open>fees + 1e-9 >= float(minimum)\<close> is \<^const>\<open>fl_le\<close>, which a NaN minimum makes false.\<close>

definition fees_unavailable :: "market_facts \<Rightarrow> gate_run \<Rightarrow> gate_run" where
  "fees_unavailable facts run =
    (let run = set_metric ''fee_signal'' (PStr ''unavailable'') run
     in set_metric ''fees_verified''
          (if \<not> is_true (mf_fees_verified facts) then PBool False else dget (gr_metrics run) ''fees_verified'') run)"

definition optional_fees :: "filter_config \<Rightarrow> market_facts \<Rightarrow> rat option \<Rightarrow> gate_run \<Rightarrow> gate_run" where
  "optional_fees cfg facts fees run =
    (case fees of
       Some f \<Rightarrow>
         if is_true (mf_fees_verified facts)
         then (if fl_le (fc_min_fees cfg) (fl_add (Fin f) (Fin nano))
               then set_metric ''fee_signal'' (PStr ''positive'')
                 (passing ''global_fees'' (PFloat (Fin f)) (PFloat (fc_min_fees cfg)) ''SOL'' (mf_fees_source facts)
                   (mf_fees_confidence facts) run)
               else (set_metric ''fee_signal'' (PStr ''negative'') run)
                 \<lparr>gr_prov := AList.update ''fee_negative_evidence'' (PBool True) (gr_prov run)\<rparr>)
         else fees_unavailable facts run
     | None \<Rightarrow> fees_unavailable facts run)"

definition fees_step :: "filter_config \<Rightarrow> market_facts \<Rightarrow> gate_run \<Rightarrow> gate_run res" where
  "fees_step cfg facts run =
    bindE (safe_float (mf_fees facts)) (\<lambda>fees.
      let run = set_metric ''global_fees_sol'' (amount fees) run in
      Inr (if fc_require_fees cfg then required_fees cfg facts fees run else optional_fees cfg facts fees run))"

text \<open>The checks of liquidity, volume and market capitalization, which have one form.\<close>

definition require_amount ::
  "string \<Rightarrow> string \<Rightarrow> pyval \<Rightarrow> pyfloat \<Rightarrow> string \<Rightarrow> string \<Rightarrow> gate_run \<Rightarrow> gate_run res" where
  "require_amount name key v minimum unknown too_low run =
    bindE (safe_float v) (\<lambda>x.
      let run = set_metric key (amount x) run in
      Inr (case x of
             None \<Rightarrow> fail name v (PFloat minimum) ''USD'' (if v = PNone then unknown else ''INVALID_MARKET_DATA'') run
           | Some f \<Rightarrow>
               if below (Fin f) minimum then fail name (PFloat (Fin f)) (PFloat minimum) ''USD'' too_low run
               else pass name (PFloat (Fin f)) (PFloat minimum) ''USD'' run))"

definition note_amount :: "string \<Rightarrow> pyval \<Rightarrow> gate_run \<Rightarrow> gate_run res" where
  "note_amount key v run = bindE (safe_float v) (\<lambda>x. Inr (set_metric key (amount x) run))"

definition liquidity_step :: "filter_config \<Rightarrow> market_facts \<Rightarrow> gate_run \<Rightarrow> gate_run res" where
  "liquidity_step cfg facts run =
    (if fc_require_liquidity cfg
     then require_amount ''liquidity'' ''liquidity_usd'' (mf_liquidity facts) (fc_min_liquidity cfg)
       ''LIQUIDITY_UNKNOWN'' ''LIQUIDITY_BELOW_MIN'' run
     else note_amount ''liquidity_usd'' (mf_liquidity facts) run)"

definition volume_step :: "filter_config \<Rightarrow> market_facts \<Rightarrow> gate_run \<Rightarrow> gate_run res" where
  "volume_step cfg facts run =
    (if fc_require_volume cfg
     then require_amount ''volume'' ''volume_usd'' (mf_volume facts) (fc_min_volume cfg)
       ''VOLUME_UNKNOWN'' ''VOLUME_BELOW_MIN'' run
     else Inr run)"

definition market_cap_step :: "filter_config \<Rightarrow> market_facts \<Rightarrow> gate_run \<Rightarrow> gate_run res" where
  "market_cap_step cfg facts run =
    (if fc_require_market_cap cfg
     then require_amount ''market_cap'' ''market_cap_usd'' (mf_market_cap facts) (fc_min_market_cap cfg)
       ''MARKET_CAP_UNKNOWN'' ''MARKET_CAP_BELOW_MIN'' run
     else note_amount ''market_cap_usd'' (mf_market_cap facts) run)"

definition social_step :: "filter_config \<Rightarrow> market_facts \<Rightarrow> gate_run \<Rightarrow> gate_run" where
  "social_step cfg facts run =
    (let ok = has_verified_social (mf_twitter facts) (mf_website facts) (mf_telegram facts) (mf_tiktok facts)
                (mf_socials facts);
         run = set_metric ''social_verified'' (PBool ok) run
     in if \<not> fc_require_social cfg then run
        else if \<not> ok then fail ''social'' (PBool False) (PBool True) ''bool'' ''NO_SOCIAL'' run
        else pass ''social'' (PBool True) (PBool True) ''bool'' run)"

definition decision_of ::
  "filter_config \<Rightarrow> string \<Rightarrow> string \<Rightarrow> string \<Rightarrow> bool \<Rightarrow> gate_run \<Rightarrow> filter_decision" where
  "decision_of cfg now mint proto eligible run =
    \<lparr>fd_accepted = eligible, fd_eligible = eligible, fd_filter_version = fc_version cfg, fd_evaluated_at = now,
     fd_mint = (if mint = [] then None else Some mint), fd_protocol = proto,
     fd_failed = gr_failed run, fd_passed = gr_passed run, fd_metrics = gr_metrics run, fd_provenance = gr_prov run,
     fd_rejection = (if eligible then None else pick_primary (gr_codes run)), fd_codes = gr_codes run,
     fd_normalized_metrics = gr_metrics run, fd_source_metadata = gr_prov run\<rparr>"

text \<open>The checks after the mint, in the order of the code.\<close>

definition gate_checks :: "filter_config \<Rightarrow> market_facts \<Rightarrow> string \<Rightarrow> string \<Rightarrow> gate_run \<Rightarrow> gate_run res" where
  "gate_checks cfg facts mint proto run =
    bindE (migration (mf_migrated facts) (mf_tab facts)) (\<lambda>migrated.
    bindE (fees_step cfg facts
            (dex_paid_step cfg (mf_dex_paid facts)
            (protocol_step cfg proto (migration_step cfg migrated (suffix_step cfg mint run))))) (\<lambda>run.
    bindE (liquidity_step cfg facts run) (\<lambda>run.
    bindE (volume_step cfg facts run) (\<lambda>run.
    bindE (market_cap_step cfg facts run) (\<lambda>run.
      Inr (social_step cfg facts run))))))"

text \<open>\<^verbatim>\<open>evaluate\<close> up to the counters. It also stores the clamped volume in the configuration.\<close>

definition decide :: "filter_config \<Rightarrow> string \<Rightarrow> market_facts \<Rightarrow> filter_decision res" where
  "decide config now facts =
    (let cfg = make_config config in
     bindE (text_arg (mf_mint facts)) (\<lambda>mint_raw.
     bindE (norm_protocol (if truthy (mf_protocol facts) then mf_protocol facts else mf_dex_id facts)) (\<lambda>proto.
       let mint = strip mint_raw; run = start_run facts mint proto in
       if mint = []
       then Inr (decision_of cfg now mint proto False
              (fail ''mint'' PNone (PStr ''non-empty'') ''str'' ''INVALID_MINT'' run))
       else bindE (gate_checks cfg facts mint proto run) (\<lambda>run.
              Inr (decision_of cfg now mint proto (gr_failed run = []) run)))))"

definition evaluate ::
  "filter_config \<Rightarrow> string \<Rightarrow> market_facts \<Rightarrow> filter_stats \<Rightarrow> filter_decision res \<times> filter_stats" where
  "evaluate config now facts stats =
    (case decide config now facts of
       Inl e \<Rightarrow> (Inl e, stats)
     | Inr d \<Rightarrow> (Inr d, if fc_record_stats config then record_decision (fd_eligible d) (fd_codes d) stats else stats))"

section \<open>The public entries\<close>

fun from_mapping :: "pydict \<Rightarrow> string list \<Rightarrow> pyval" where
  "from_mapping market [] = PNone"
| "from_mapping market (k # ks) = (if dget market k \<noteq> PNone then dget market k else from_mapping market ks)"

definition market_migrated :: "pydict \<Rightarrow> pyval" where
  "market_migrated market =
    (let tab = dget market ''tab'';
         migrated = (if dget market ''migrated'' = PNone \<and> lower (py_str (if truthy tab then tab else PStr [])) = ''migrated''
                     then PBool True else dget market ''migrated'')
     in if is_bool migrated then migrated else PNone)"

definition market_provenance :: "pydict \<Rightarrow> pydict" where
  "market_provenance market =
    (case (if truthy (dget market ''provenance'') then dget market ''provenance'' else dget market ''source_metadata'') of
       PDict d \<Rightarrow> d
     | _ \<Rightarrow> [])"

definition market_facts_of :: "pydict \<Rightarrow> market_facts" where
  "market_facts_of market =
     \<lparr>mf_mint = from_mapping market [''mint'', ''tokenAddress'', ''address''],
      mf_protocol = from_mapping market [''protocol'', ''dex_id'', ''dexId''],
      mf_dex_id = from_mapping market [''dex_id'', ''dexId''],
      mf_fees = from_mapping market [''global_fees_sol'', ''fees_sol'', ''global_fees_paid_sol'', ''fees''],
      mf_fees_verified = from_mapping market [''global_fees_verified'', ''fees_verified''],
      mf_fees_source = from_mapping market [''global_fees_source'', ''fees_source''],
      mf_fees_timestamp = from_mapping market [''global_fees_timestamp'', ''fees_observed_at''],
      mf_fees_confidence = from_mapping market [''global_fees_confidence''],
      mf_fees_raw = from_mapping market [''global_fees_raw''],
      mf_liquidity = from_mapping market [''liquidity_usd'', ''liquidity''],
      mf_volume = from_mapping market [''volume_usd'', ''volume_m5_usd'', ''volume_5m_usd'', ''volume''],
      mf_market_cap = from_mapping market [''market_cap_usd'', ''marketCap'', ''fdv_usd'', ''mcap_usd''],
      mf_twitter = from_mapping market [''twitter''], mf_website = from_mapping market [''website''],
      mf_telegram = from_mapping market [''telegram''], mf_tiktok = from_mapping market [''tiktok''],
      mf_socials = (case dget market ''socials'' of PDict d \<Rightarrow> Some d | _ \<Rightarrow> None),
      mf_provenance = market_provenance market, mf_migrated = market_migrated market,
      mf_tab = from_mapping market [''tab''], mf_dex_paid = from_mapping market [''dex_paid'', ''dexPaid'']\<rparr>"

definition evaluate_market ::
  "filter_config option \<Rightarrow> string \<Rightarrow> pydict \<Rightarrow> filter_stats \<Rightarrow> filter_decision res \<times> filter_stats" where
  "evaluate_market config now market stats =
    evaluate (case config of Some c \<Rightarrow> c | None \<Rightarrow> make_config default_config) now (market_facts_of market) stats"

definition evaluate_gate1 ::
  "string \<Rightarrow> pydict \<Rightarrow> pyval \<Rightarrow> filter_stats \<Rightarrow> filter_decision res \<times> filter_stats" where
  "evaluate_gate1 now market min_volume stats =
    (case clamp_gate1_volume (if min_volume \<noteq> PNone then min_volume else PFloat (Fin gate1_volume)) of
       Inl e \<Rightarrow> (Inl e, stats)
     | Inr volume \<Rightarrow> evaluate_market (Some (make_config (default_config\<lparr>fc_min_volume := volume\<rparr>))) now market stats)"

text \<open>\<^verbatim>\<open>evaluate_admission\<close>: its arguments, with the defaults that assume a migrated candidate.\<close>

definition admission_defaults :: "pyval \<Rightarrow> market_facts" where
  "admission_defaults mint =
    \<lparr>mf_mint = mint, mf_protocol = PNone, mf_dex_id = PNone, mf_fees = PNone, mf_fees_verified = PNone,
     mf_fees_source = PNone, mf_fees_timestamp = PNone, mf_fees_confidence = PNone, mf_fees_raw = PNone,
     mf_liquidity = PNone, mf_volume = PNone, mf_market_cap = PNone, mf_twitter = PNone, mf_website = PNone,
     mf_telegram = PNone, mf_tiktok = PNone, mf_socials = None, mf_provenance = [], mf_migrated = PBool True,
     mf_tab = PStr ''migrated'', mf_dex_paid = PNone\<rparr>"

definition evaluate_admission ::
  "filter_config option \<Rightarrow> string \<Rightarrow> market_facts \<Rightarrow> filter_stats \<Rightarrow> filter_decision res \<times> filter_stats" where
  "evaluate_admission config now facts stats =
    evaluate (case config of Some c \<Rightarrow> c | None \<Rightarrow> make_config default_config) now facts stats"

section \<open>Alerts\<close>

text \<open>The verdict on an alert: \<^term>\<open>None\<close> when it may go out.\<close>

definition alert_refusal ::
  "filter_decision \<Rightarrow> pyval \<Rightarrow> pyfloat \<Rightarrow> bool \<Rightarrow> string option \<Rightarrow> string option \<Rightarrow> bool \<Rightarrow> string option res" where
  "alert_refusal d score min_score inspected synthetic rug intelligence =
    (let critical = (\<lambda>level. upper (case level of Some s \<Rightarrow> s | None \<Rightarrow> []) = ''CRITICAL'') in
     if \<not> fd_eligible d
     then Inr (Some (case fd_rejection d of Some r \<Rightarrow> if r = [] then ''NOT_ELIGIBLE'' else r | None \<Rightarrow> ''NOT_ELIGIBLE''))
     else if \<not> inspected then Inr (Some ''INSPECTION_INCOMPLETE'')
     else if critical synthetic \<or> critical rug then Inr (Some ''RISK_CRITICAL'')
     else if \<not> intelligence then Inr (Some ''INTELLIGENCE_INSUFFICIENT'')
     else if score = PNone then Inr (Some ''SCORE_UNKNOWN'')
     else case py_float score of
         Inl e \<Rightarrow> if e = TypeError \<or> e = ValueError then Inr (Some ''INVALID_MARKET_DATA'') else Inl e
       | Inr f \<Rightarrow> Inr (if below f min_score then Some ''SCORE_BELOW_MIN'' else None))"

definition can_alert ::
  "filter_decision \<Rightarrow> pyval \<Rightarrow> pyfloat \<Rightarrow> bool \<Rightarrow> string option \<Rightarrow> string option \<Rightarrow> bool \<Rightarrow> filter_stats
     \<Rightarrow> (bool \<times> string option) res \<times> filter_stats" where
  "can_alert d score min_score inspected synthetic rug intelligence stats =
    (case alert_refusal d score min_score inspected synthetic rug intelligence of
       Inl e \<Rightarrow> (Inl e, stats)
     | Inr (Some reason) \<Rightarrow> (Inr (False, Some reason), inc_stat ''alerts_rejected'' 1 stats)
     | Inr None \<Rightarrow> (Inr (True, None), inc_stat ''alerts_generated'' 1 stats))"

section \<open>What the checks leave\<close>

text \<open>A run in good order: its codes are the reasons of its failures, each once, in their order.\<close>

definition gate_inv :: "gate_run \<Rightarrow> bool" where
  "gate_inv run \<longleftrightarrow>
     (\<forall>m \<in> set (gr_failed run). \<not> fm_passed m \<and> fm_reason m \<noteq> None)
     \<and> (\<forall>m \<in> set (gr_passed run). fm_passed m \<and> fm_reason m = None)
     \<and> gr_codes run = fromkeys (map (the \<circ> fm_reason) (gr_failed run))"

text \<open>A check that keeps that order and adds a failure exactly when its requirement does not hold.\<close>

definition advances :: "gate_run \<Rightarrow> bool \<Rightarrow> gate_run \<Rightarrow> bool" where
  "advances run good run' \<longleftrightarrow>
     (gate_inv run \<longrightarrow> gate_inv run') \<and> (gr_failed run' = [] \<longleftrightarrow> gr_failed run = [] \<and> good)"

lemma advances_trans: "advances a g b \<Longrightarrow> advances b h c \<Longrightarrow> advances a (g \<and> h) c"
  by (auto simp: advances_def)

lemma fromkeys_snoc: "fromkeys (xs @ [x]) = (if x \<in> set xs then fromkeys xs else fromkeys xs @ [x])"
  by (induction xs) auto

lemma advances_failing: "advances run False (failing name actual required unit reason s c run)"
  by (auto simp: advances_def gate_inv_def failing_def fromkeys_snoc)

lemma advances_passing: "advances run True (passing name actual required unit s c run)"
  by (auto simp: advances_def gate_inv_def passing_def)

lemma advances_metric: "advances run True (set_metric k v run)"
  by (auto simp: advances_def gate_inv_def set_metric_def)

lemma advances_prov: "advances run True (run\<lparr>gr_prov := p\<rparr>)"
  by (auto simp: advances_def gate_inv_def)

lemma advances_refl: "advances run True run"
  by (simp add: advances_def)

text \<open>The contract of a check.\<close>

locale gate_check =
  fixes check :: "gate_run \<Rightarrow> gate_run res" and good :: bool
  assumes check_advances: "check run = Inr run' \<Longrightarrow> advances run good run'"
begin

lemma after: "advances a g b \<Longrightarrow> check b = Inr c \<Longrightarrow> advances a (g \<and> good) c"
  using check_advances advances_trans by blast

end

definition enough :: "pyval \<Rightarrow> pyfloat \<Rightarrow> bool" where
  "enough v minimum \<longleftrightarrow> (\<exists>f. safe_float v = Inr (Some f) \<and> \<not> below (Fin f) minimum)"

lemma advances_eq: "advances a g b \<Longrightarrow> g = h \<Longrightarrow> advances a h b"
  by simp

lemma advances_metric_then:
  "advances (set_metric k v run) good run' \<Longrightarrow> advances run good run'"
  using advances_trans [OF advances_metric] by fastforce

lemma advances_then_metric:
  "advances run good run' \<Longrightarrow> advances run good (set_metric k v run')"
  using advances_trans [OF _ advances_metric] by fastforce

lemmas advances_metric_check = advances_metric_then [OF advances_failing] advances_metric_then [OF advances_passing]

lemma advances_amount:
  assumes "require_amount name key v minimum unknown too_low run = Inr run'"
  shows "advances run (enough v minimum) run'"
proof -
  obtain x where x: "safe_float v = Inr x" using assms by (auto simp: require_amount_def bindE_eq_Inr)
  show ?thesis
  proof (rule advances_metric_then)
    show "advances (set_metric key (amount x) run) (enough v minimum) run'"
      using assms x advances_failing advances_passing
      by (auto simp: require_amount_def Let_def enough_def split: option.splits if_splits)
  qed
qed

lemma advances_note: "note_amount key v run = Inr run' \<Longrightarrow> advances run True run'"
  by (auto simp: note_amount_def bindE_eq_Inr advances_metric)

interpretation suffixes: gate_check "\<lambda>run. Inr (suffix_step cfg mint run)"
    "fc_require_suffix cfg \<longrightarrow> suffix ''pump'' (lower mint)" for cfg mint
  by unfold_locales (auto simp: suffix_step_def advances_refl advances_failing)

interpretation migrations: gate_check "\<lambda>run. Inr (migration_step cfg migrated run)"
    "fc_require_migrated cfg \<longrightarrow> migrated = Some True" for cfg migrated
  by unfold_locales
    (auto simp: migration_step_def Let_def advances_metric advances_metric_check)

interpretation protocols: gate_check "\<lambda>run. Inr (protocol_step cfg proto run)"
    "\<not> denied_hit cfg proto \<and> (fc_reject_unknown_protocol cfg \<longrightarrow> proto \<noteq> [] \<and> allowed_hit cfg proto)" for cfg proto
  by unfold_locales (auto simp: protocol_step_def advances_refl advances_failing advances_passing)

interpretation dex_paids: gate_check "\<lambda>run. Inr (dex_paid_step cfg dex_paid run)"
    "\<not> (fc_reject_dex_paid cfg \<and> is_true dex_paid)" for cfg dex_paid
  by unfold_locales (auto simp: dex_paid_step_def advances_refl advances_failing advances_passing)

lemma advances_required_fees:
  assumes "safe_float (mf_fees facts) = Inr fees"
  shows "advances run (is_true (mf_fees_verified facts) \<and> enough (mf_fees facts) (fc_min_fees cfg)) (required_fees cfg facts fees run)"
  using assms advances_failing advances_then_metric [OF advances_passing]
  by (auto simp: required_fees_def Let_def enough_def split: option.splits)

lemma advances_optional_fees: "advances run True (optional_fees cfg facts fees run)"
  using advances_then_metric [OF advances_passing] advances_trans [OF advances_metric advances_prov]
    advances_then_metric [OF advances_metric]
  by (auto simp: optional_fees_def fees_unavailable_def Let_def split: option.splits)

interpretation fees: gate_check "fees_step cfg facts"
    "fc_require_fees cfg \<longrightarrow> is_true (mf_fees_verified facts) \<and> enough (mf_fees facts) (fc_min_fees cfg)" for cfg facts
proof
  fix run run'
  assume step: "fees_step cfg facts run = Inr run'"
  then obtain x where x: "safe_float (mf_fees facts) = Inr x" by (auto simp: fees_step_def bindE_eq_Inr)
  show "advances run (fc_require_fees cfg \<longrightarrow> is_true (mf_fees_verified facts) \<and> enough (mf_fees facts) (fc_min_fees cfg)) run'"
    by (rule advances_metric_then [of "''global_fees_sol''" "amount x"])
      (use step x advances_required_fees [OF x] advances_optional_fees in \<open>auto simp: fees_step_def Let_def\<close>)
qed

interpretation liquidities: gate_check "liquidity_step cfg facts"
    "fc_require_liquidity cfg \<longrightarrow> enough (mf_liquidity facts) (fc_min_liquidity cfg)" for cfg facts
  by unfold_locales (auto simp: liquidity_step_def split: if_splits dest: advances_amount advances_note)

interpretation volumes: gate_check "volume_step cfg facts"
    "fc_require_volume cfg \<longrightarrow> enough (mf_volume facts) (fc_min_volume cfg)" for cfg facts
  by unfold_locales (auto simp: volume_step_def advances_refl split: if_splits dest: advances_amount)

interpretation market_caps: gate_check "market_cap_step cfg facts"
    "fc_require_market_cap cfg \<longrightarrow> enough (mf_market_cap facts) (fc_min_market_cap cfg)" for cfg facts
  by unfold_locales (auto simp: market_cap_step_def split: if_splits dest: advances_amount advances_note)

definition socially_verified :: "market_facts \<Rightarrow> bool" where
  "socially_verified facts \<longleftrightarrow>
     has_verified_social (mf_twitter facts) (mf_website facts) (mf_telegram facts) (mf_tiktok facts) (mf_socials facts)"

interpretation socials: gate_check "\<lambda>run. Inr (social_step cfg facts run)"
    "fc_require_social cfg \<longrightarrow> socially_verified facts" for cfg facts
  by unfold_locales
    (auto simp: social_step_def Let_def socially_verified_def advances_metric advances_metric_check)

text \<open>All requirements of a configuration.\<close>

definition meets :: "filter_config \<Rightarrow> market_facts \<Rightarrow> string \<Rightarrow> string \<Rightarrow> bool" where
  "meets cfg facts mint proto \<longleftrightarrow>
     (fc_require_suffix cfg \<longrightarrow> suffix ''pump'' (lower mint))
     \<and> (fc_require_migrated cfg \<longrightarrow> migration (mf_migrated facts) (mf_tab facts) = Inr (Some True))
     \<and> \<not> denied_hit cfg proto \<and> (fc_reject_unknown_protocol cfg \<longrightarrow> proto \<noteq> [] \<and> allowed_hit cfg proto)
     \<and> \<not> (fc_reject_dex_paid cfg \<and> is_true (mf_dex_paid facts))
     \<and> (fc_require_fees cfg \<longrightarrow> is_true (mf_fees_verified facts) \<and> enough (mf_fees facts) (fc_min_fees cfg))
     \<and> (fc_require_liquidity cfg \<longrightarrow> enough (mf_liquidity facts) (fc_min_liquidity cfg))
     \<and> (fc_require_volume cfg \<longrightarrow> enough (mf_volume facts) (fc_min_volume cfg))
     \<and> (fc_require_market_cap cfg \<longrightarrow> enough (mf_market_cap facts) (fc_min_market_cap cfg))
     \<and> (fc_require_social cfg \<longrightarrow> socially_verified facts)"

lemma gate_checks_advance:
  assumes "gate_checks cfg facts mint proto run = Inr run'"
  shows "advances run (meets cfg facts mint proto) run'"
proof -
  obtain migrated r1 r2 r3 r4 where m: "migration (mf_migrated facts) (mf_tab facts) = Inr migrated"
    and f: "fees_step cfg facts (dex_paid_step cfg (mf_dex_paid facts)
        (protocol_step cfg proto (migration_step cfg migrated (suffix_step cfg mint run)))) = Inr r1"
    and l: "liquidity_step cfg facts r1 = Inr r2" and v: "volume_step cfg facts r2 = Inr r3"
    and c: "market_cap_step cfg facts r3 = Inr r4" and s: "run' = social_step cfg facts r4"
    using assms by (auto simp: gate_checks_def bindE_eq_Inr)
  note steps = socials.after [OF market_caps.after [OF volumes.after [OF liquidities.after [OF fees.after [OF
      dex_paids.after [OF protocols.after [OF migrations.after [OF suffixes.check_advances [OF refl] refl] refl] refl] f] l] v] c]
      s [symmetric, THEN arg_cong [where f = Inr]]]
  show ?thesis by (rule advances_eq [OF steps]) (auto simp: meets_def m)
qed

lemma start_run_inv [simp]: "gate_inv (start_run facts mint proto)" "gr_failed (start_run facts mint proto) = []"
  by (simp_all add: gate_inv_def start_run_def)

text \<open>The mint and the protocol that a decision reads.\<close>

definition mint_of :: "market_facts \<Rightarrow> string res" where
  "mint_of facts = bindE (text_arg (mf_mint facts)) (\<lambda>s. Inr (strip s))"

definition protocol_of :: "market_facts \<Rightarrow> string res" where
  "protocol_of facts = norm_protocol (if truthy (mf_protocol facts) then mf_protocol facts else mf_dex_id facts)"

lemma decide_cases:
  assumes "decide config now facts = Inr d"
  obtains mint proto run where "mint_of facts = Inr mint" "protocol_of facts = Inr proto" "gate_inv run"
    "d = decision_of (make_config config) now mint proto (gr_failed run = []) run"
    "gr_failed run = [] \<longleftrightarrow> mint \<noteq> [] \<and> meets (make_config config) facts mint proto"
proof -
  let ?cfg = "make_config config"
  obtain raw proto where m: "text_arg (mf_mint facts) = Inr raw" "protocol_of facts = Inr proto"
    using assms by (auto simp: decide_def bindE_eq_Inr protocol_of_def Let_def)
  let ?mint = "strip raw"
  have mint: "mint_of facts = Inr ?mint" using m by (simp add: mint_of_def)
  let ?start = "start_run facts ?mint proto"
  show thesis
  proof (cases "?mint = []")
    case True
    let ?run = "fail ''mint'' PNone (PStr ''non-empty'') ''str'' ''INVALID_MINT'' ?start"
    have a: "advances ?start False ?run" by (rule advances_failing)
    have "d = decision_of ?cfg now ?mint proto False ?run"
      using assms m True by (simp add: decide_def protocol_of_def Let_def)
    with a mint m(2) True show thesis by (intro that [of ?mint proto ?run]) (auto simp: advances_def)
  next
    case False
    then obtain run where r: "gate_checks ?cfg facts ?mint proto ?start = Inr run"
        "d = decision_of ?cfg now ?mint proto (gr_failed run = []) run"
      using assms m by (auto simp: decide_def protocol_of_def Let_def bindE_eq_Inr)
    with gate_checks_advance [OF r(1)] mint m(2) False show thesis
      by (intro that [of ?mint proto run]) (auto simp: advances_def)
  qed
qed

section \<open>Thresholds\<close>

lemma not_below:
  assumes "0 < m" "m \<le> 2 ^ 53" "of_int m \<le> f"
  shows "\<not> below (Fin f) (Fin (of_int m))"
proof -
  have pos: "0 < nano" by (simp add: nano_def)
  have "0 < (of_int m :: rat)" using assms(1) by simp
  with assms(3) pos have sum: "0 < f + nano" "of_int m \<le> f + nano" by linarith+
  show ?thesis
  proof (cases "round_double (f + nano)")
    case None
    with sum show ?thesis by (simp add: below_def)
  next
    case (Some y)
    with round_double_ge [OF assms(1,2) sum(2)] show ?thesis by (simp add: below_def)
  qed
qed

lemma clamp_float_idem [simp]: "clamp_float (clamp_float f) = clamp_float f"
  by (cases f) (auto simp: clamp_float_def gate1_volume_def gate1_volume_max_def)

lemma clamp_float_range: "\<exists>x. clamp_float f = Fin x \<and> 0 < x \<and> x \<le> gate1_volume_max"
  by (cases f) (auto simp: clamp_float_def gate1_volume_def gate1_volume_max_def)

lemma clamp_default [simp]: "clamp_float (Fin gate1_volume) = Fin gate1_volume" "clamp_float NotANumber = Fin gate1_volume"
  by (simp_all add: clamp_float_def gate1_volume_def gate1_volume_max_def)

lemma clamped:
  assumes "clamp_gate1_volume v = Inr volume"
  shows "\<exists>f. volume = clamp_float f"
proof -
  have "volume = clamp_float NotANumber \<or> (\<exists>f. volume = clamp_float f)"
    using assms by (auto simp: clamp_gate1_volume_def split: if_splits sum.splits)
  then show ?thesis by blast
qed

section \<open>Counting\<close>

definition reason_count :: "filter_stats \<Rightarrow> string \<Rightarrow> int" where
  "reason_count s code = (case map_of (fs_reason_counts s) code of Some n \<Rightarrow> n | None \<Rightarrow> 0)"

definition reasons_total :: "filter_stats \<Rightarrow> int" where
  "reasons_total s = sum_list (map snd (fs_reason_counts s))"

lemma map_of_tally:
  "(case map_of (tally k n counts) c of Some m \<Rightarrow> m | None \<Rightarrow> 0) =
     (case map_of counts c of Some m \<Rightarrow> m | None \<Rightarrow> 0) + (if c = k then n else 0)"
  by (simp add: tally_def update_conv' split: option.splits)

lemma sum_tally: "sum_list (map snd (tally k n counts)) = sum_list (map snd counts) + n"
  unfolding tally_def by (induction counts) auto

lemma count_reasons_effect:
  "distinct codes \<Longrightarrow>
     reason_count (count_reasons codes s) c = reason_count s c + (if c \<in> set codes then 1 else 0)
     \<and> reasons_total (count_reasons codes s) = reasons_total s + int (length codes)
     \<and> fs_fee_unknown (count_reasons codes s) = fs_fee_unknown s + (if ''FEES_UNKNOWN'' \<in> set codes then 1 else 0)
     \<and> fs_fee_below_min (count_reasons codes s) = fs_fee_below_min s + (if ''FEES_BELOW_MIN'' \<in> set codes then 1 else 0)
     \<and> fs_markets_seen (count_reasons codes s) = fs_markets_seen s
     \<and> fs_markets_eligible (count_reasons codes s) = fs_markets_eligible s
     \<and> fs_markets_rejected (count_reasons codes s) = fs_markets_rejected s"
proof (induction codes s rule: count_reasons.induct)
  case (2 code codes s)
  let ?s = "let stats = s\<lparr>fs_reason_counts := tally code 1 (fs_reason_counts s)\<rparr> in
        if code = ''FEES_UNKNOWN'' then stats\<lparr>fs_fee_unknown := fs_fee_unknown stats + 1\<rparr>
        else if code = ''FEES_BELOW_MIN'' then stats\<lparr>fs_fee_below_min := fs_fee_below_min stats + 1\<rparr>
        else stats"
  have step: "reason_count ?s c = reason_count s c + (if c = code then 1 else 0)"
    "reasons_total ?s = reasons_total s + 1"
    "fs_fee_unknown ?s = fs_fee_unknown s + (if code = ''FEES_UNKNOWN'' then 1 else 0)"
    "fs_fee_below_min ?s = fs_fee_below_min s + (if code = ''FEES_BELOW_MIN'' then 1 else 0)"
    "fs_markets_seen ?s = fs_markets_seen s" "fs_markets_eligible ?s = fs_markets_eligible s"
    "fs_markets_rejected ?s = fs_markets_rejected s"
    by (simp_all add: reason_count_def reasons_total_def Let_def map_of_tally sum_tally)
  from 2 have "distinct codes" "code \<notin> set codes" by simp_all
  with 2(1) [OF this(1)] step show ?case unfolding count_reasons.simps by auto
qed simp

lemma fst_evaluate [simp]: "fst (evaluate config now facts stats) = decide config now facts"
  by (simp add: evaluate_def split: sum.splits)

lemma amount_total: "safe_float v = Inr x \<Longrightarrow> \<exists>run'. require_amount name key v minimum unknown too_low run = Inr run'"
  "safe_float v = Inr x \<Longrightarrow> \<exists>run'. note_amount key v run = Inr run'"
  by (simp_all add: require_amount_def note_amount_def Let_def)

text \<open>A decision comes back when the texts are texts and no amount is an integer past the doubles.\<close>

lemma decide_total:
  assumes "mint_of facts = Inr mint" "protocol_of facts = Inr proto"
    and "migration (mf_migrated facts) (mf_tab facts) = Inr migrated"
    and "safe_float (mf_fees facts) = Inr fees" "safe_float (mf_liquidity facts) = Inr liquidity"
    and "safe_float (mf_volume facts) = Inr volume" "safe_float (mf_market_cap facts) = Inr market_cap"
  shows "\<exists>d. decide config now facts = Inr d"
proof -
  let ?cfg = "make_config config"
  have l: "\<exists>run'. liquidity_step ?cfg facts run = Inr run'" for run
    using amount_total [OF assms(5)] by (simp add: liquidity_step_def)
  have v: "\<exists>run'. volume_step ?cfg facts run = Inr run'" for run
    using amount_total [OF assms(6)] by (simp add: volume_step_def)
  have c: "\<exists>run'. market_cap_step ?cfg facts run = Inr run'" for run
    using amount_total [OF assms(7)] by (simp add: market_cap_step_def)
  have "\<exists>run'. gate_checks ?cfg facts mint proto run = Inr run'" for run
    using l v c unfolding gate_checks_def assms(3) fees_step_def assms(4) bindE_simps Let_def by (metis bindE_simps(2))
  then obtain run' where run: "gate_checks ?cfg facts mint proto (start_run facts mint proto) = Inr run'" by blast
  obtain raw where raw: "text_arg (mf_mint facts) = Inr raw" "mint = strip raw"
    using assms(1) by (auto simp: mint_of_def bindE_eq_Inr)
  show ?thesis using run assms(2) unfolding decide_def protocol_of_def Let_def raw by simp
qed

text \<open>The counters that the calls of the gate reach.\<close>

inductive reachable_stats :: "filter_stats \<Rightarrow> bool" where
  start: "reachable_stats no_stats"
| evaluated: "reachable_stats s \<Longrightarrow> reachable_stats (snd (evaluate config now facts s))"
| alerted: "reachable_stats s \<Longrightarrow>
    reachable_stats (snd (can_alert d score min_score inspected synthetic rug intelligence s))"
| sourced: "reachable_stats s \<Longrightarrow> reachable_stats (inc_trade_source source n s)"
| restarted: "reachable_stats s \<Longrightarrow> reachable_stats (reset_stats s)"

definition stats_add_up :: "filter_stats \<Rightarrow> bool" where
  "stats_add_up s \<longleftrightarrow>
     fs_markets_seen s = fs_markets_eligible s + fs_markets_rejected s
     \<and> 0 \<le> fs_markets_eligible s \<and> 0 \<le> fs_markets_rejected s
     \<and> fs_fee_unknown s = reason_count s ''FEES_UNKNOWN'' \<and> fs_fee_below_min s = reason_count s ''FEES_BELOW_MIN''
     \<and> (\<forall>code. 0 \<le> reason_count s code \<and> reason_count s code \<le> fs_markets_rejected s)
     \<and> fs_markets_rejected s \<le> reasons_total s"

lemma decided_codes:
  assumes "decide config now facts = Inr d"
  shows "distinct (fd_codes d)" "fd_eligible d \<longleftrightarrow> fd_codes d = []"
proof -
  obtain mint proto run where "gate_inv run"
      "d = decision_of (make_config config) now mint proto (gr_failed run = []) run"
    by (rule decide_cases [OF assms])
  then show "distinct (fd_codes d)" "fd_eligible d \<longleftrightarrow> fd_codes d = []"
    by (simp_all add: decision_of_def gate_inv_def distinct_fromkeys)
qed

lemma record_adds_up:
  assumes "stats_add_up s" "distinct codes" "eligible \<longleftrightarrow> codes = []"
  shows "stats_add_up (record_decision eligible codes s)"
proof (cases eligible)
  case True
  then show ?thesis
    using assms by (simp add: record_decision_def Let_def stats_add_up_def reason_count_def reasons_total_def)
next
  case False
  define s1 where "s1 = s\<lparr>fs_markets_seen := fs_markets_seen s + 1, fs_markets_rejected := fs_markets_rejected s + 1\<rparr>"
  have r: "record_decision eligible codes s = count_reasons codes s1"
    using False by (simp add: record_decision_def Let_def s1_def)
  have same: "reason_count s1 c = reason_count s c" "reasons_total s1 = reasons_total s"
    "fs_markets_seen s1 = fs_markets_seen s + 1" "fs_markets_rejected s1 = fs_markets_rejected s + 1"
    "fs_markets_eligible s1 = fs_markets_eligible s" "fs_fee_unknown s1 = fs_fee_unknown s"
    "fs_fee_below_min s1 = fs_fee_below_min s" for c
    by (simp_all add: s1_def reason_count_def reasons_total_def)
  have "1 \<le> int (length codes)" using assms(3) False by (cases codes) auto
  with assms(1) show ?thesis
    unfolding r stats_add_up_def using count_reasons_effect [OF assms(2), of s1] by (auto simp: same add_increasing2)
qed

lemma alert_adds_up:
  assumes "stats_add_up s"
  shows "stats_add_up (snd (can_alert d score min_score inspected synthetic rug intelligence s))"
  using assms
  by (simp add: can_alert_def stats_add_up_def inc_stat_def reason_count_def reasons_total_def split: sum.splits option.splits)

lemma eligible_base:
  assumes "fst (evaluate config now facts stats) = Inr d"
  shows "fd_eligible d \<longleftrightarrow> (\<exists>mint proto. mint_of facts = Inr mint \<and> mint \<noteq> [] \<and> protocol_of facts = Inr proto
    \<and> meets (make_config config) facts mint proto)"
proof -
  have "decide config now facts = Inr d" using assms by (auto simp: evaluate_def split: sum.splits)
  then show ?thesis by (cases rule: decide_cases) (auto simp: decision_of_def)
qed

text \<open>The primary reason: one of the codes, and none of the others comes before it in the priority.\<close>

lemma find_first:
  assumes "List.find P xs = Some x" "distinct xs" "xs = ps @ x # qs"
  shows "\<forall>y \<in> set ps. \<not> P y"
proof -
  obtain i where i: "i < length xs" "x = xs ! i" "\<forall>j < i. \<not> P (xs ! j)"
    using assms(1) by (auto simp: find_Some_iff)
  have "xs ! length ps = x" using assms(3) by simp
  then have "i = length ps" using i(1,2) assms(2,3) by (metis add_Suc_right length_append length_Cons less_add_Suc1 nth_eq_iff_index_eq)
  with i(3) assms(3) show ?thesis by (metis in_set_conv_nth nth_append)
qed

definition primary_of :: "string list \<Rightarrow> string \<Rightarrow> bool" where
  "primary_of codes c \<longleftrightarrow> c \<in> set codes
     \<and> (\<forall>ps qs. reason_priority = ps @ c # qs \<longrightarrow> (\<forall>c' \<in> set ps. c' \<notin> set codes))"

lemma pick_primary_Some:
  assumes "codes \<noteq> []"
  shows "\<exists>c. pick_primary codes = Some c \<and> primary_of codes c"
proof (cases "List.find (\<lambda>p. p \<in> set codes) reason_priority")
  case None
  then have "\<forall>p \<in> set reason_priority. p \<notin> set codes" by (simp add: find_None_iff)
  then have "\<forall>ps qs. reason_priority = ps @ hd codes # qs \<longrightarrow> (\<forall>c \<in> set ps. c \<notin> set codes)"
    by (metis UnCI set_append)
  with assms None show ?thesis by (simp add: pick_primary_def primary_of_def)
next
  case (Some c)
  have "distinct reason_priority" by code_simp
  moreover have "c \<in> set codes" using Some by (auto simp: find_Some_iff)
  ultimately show ?thesis using assms Some find_first [OF Some] by (auto simp: pick_primary_def primary_of_def)
qed

section \<open>Properties\<close>

text \<open>
  C18: Gate 1 admits a market exactly when it has a mint, is migrated, its protocol is allowed and not
  denied and its volume of five minutes is not below a threshold, which is positive, at most 200000
  and 33000 unless given. Fees, liquidity, market capitalization and socials never decide, and a
  volume of at least a whole-number threshold is always enough, the rounding of the sum included.
\<close>

theorem gate1_admits_iff:
  assumes "fst (evaluate_gate1 now market min_volume stats) = Inr d"
  shows "\<exists>threshold. clamp_gate1_volume min_volume = Inr (Fin threshold) \<and> 0 < threshold \<and> threshold \<le> 200000
    \<and> (min_volume = PNone \<longrightarrow> threshold = 33000)
    \<and> (fd_eligible d \<longleftrightarrow>
       (\<exists>mint. mint_of (market_facts_of market) = Inr mint \<and> mint \<noteq> [])
       \<and> migration (mf_migrated (market_facts_of market)) (mf_tab (market_facts_of market)) = Inr (Some True)
       \<and> (\<exists>proto. protocol_of (market_facts_of market) = Inr proto \<and> proto \<noteq> []
            \<and> \<not> denied_hit default_config proto \<and> allowed_hit default_config proto)
       \<and> enough (mf_volume (market_facts_of market)) (Fin threshold))
    \<and> (\<forall>m f. threshold = of_int m \<and> safe_float (mf_volume (market_facts_of market)) = Inr (Some f) \<and> of_int m \<le> f
       \<longrightarrow> enough (mf_volume (market_facts_of market)) (Fin threshold))"
proof -
  let ?facts = "market_facts_of market"
  obtain volume where v: "clamp_gate1_volume (if min_volume \<noteq> PNone then min_volume else PFloat (Fin gate1_volume)) = Inr volume"
    and e: "fst (evaluate (make_config (default_config\<lparr>fc_min_volume := volume\<rparr>)) now ?facts stats) = Inr d"
    using assms by (auto simp: evaluate_gate1_def evaluate_market_def split: sum.splits)
  obtain f where f: "volume = clamp_float f" "min_volume = PNone \<longrightarrow> f = Fin gate1_volume"
    and c: "clamp_gate1_volume min_volume = Inr volume"
    using clamped [OF v] v by (cases "min_volume = PNone") (auto simp: clamp_gate1_volume_def)
  obtain threshold where t: "volume = Fin threshold" "0 < threshold" "threshold \<le> gate1_volume_max"
    using clamp_float_range [of f] f(1) by auto
  have "min_volume = PNone \<longrightarrow> threshold = 33000"
    using f t(1) by (auto simp: clamp_float_def gate1_volume_def gate1_volume_max_def)
  moreover have "fd_eligible d \<longleftrightarrow>
       (\<exists>mint. mint_of ?facts = Inr mint \<and> mint \<noteq> [])
       \<and> migration (mf_migrated ?facts) (mf_tab ?facts) = Inr (Some True)
       \<and> (\<exists>proto. protocol_of ?facts = Inr proto \<and> proto \<noteq> []
            \<and> \<not> denied_hit default_config proto \<and> allowed_hit default_config proto)
       \<and> enough (mf_volume ?facts) (Fin threshold)"
    using eligible_base [OF e] f(1) t(1)
    by (auto simp: meets_def make_config_def default_config_def denied_hit_def allowed_hit_def)
  moreover have "enough (mf_volume ?facts) (Fin threshold)"
    if "threshold = of_int m" "safe_float (mf_volume ?facts) = Inr (Some x)" "of_int m \<le> x" for m x
  proof -
    have "(of_int m :: rat) \<le> of_int 200000" using t(3) that(1) by (simp add: gate1_volume_max_def)
    then have "m \<le> 200000" by (simp only: of_int_le_iff)
    moreover have "0 < m" using t(2) that(1) by simp
    ultimately show ?thesis using not_below [of m x] that by (auto simp: enough_def)
  qed
  ultimately show ?thesis using c t unfolding gate1_volume_max_def by blast
qed

text \<open>A market of the protocol "l", a prefix of an allowed name, migrated by its tab alone.\<close>

definition demo_market :: pydict where
  "demo_market =
     [(''mint'', PStr ''m''), (''protocol'', PStr ''l''), (''migrated'', PBool False), (''tab'', PStr ''migrated''),
      (''volume_usd'', PInt 33000)]"

lemma demo_market_facts:
  "mint_of (market_facts_of demo_market) = Inr ''m''" "protocol_of (market_facts_of demo_market) = Inr ''l''"
  "migration (mf_migrated (market_facts_of demo_market)) (mf_tab (market_facts_of demo_market)) = Inr (Some True)"
  "mf_fees (market_facts_of demo_market) = PNone" "mf_liquidity (market_facts_of demo_market) = PNone"
  "mf_volume (market_facts_of demo_market) = PInt 33000" "mf_market_cap (market_facts_of demo_market) = PNone"
  "\<not> denied_hit default_config ''l''" "allowed_hit default_config ''l''"
  by code_simp+

lemma safe_float_demo: "safe_float PNone = Inr None" "safe_float (PInt 33000) = Inr (Some 33000)"
  by (simp_all add: safe_float_def)

lemma gate1_admits_iff_witness:
  "\<exists>d. fst (evaluate_gate1 ''now'' demo_market PNone no_stats) = Inr d \<and> fd_eligible d"
proof -
  have "\<exists>d. decide config ''now'' (market_facts_of demo_market) = Inr d" for config
    by (rule decide_total [OF demo_market_facts(1-3)]) (simp_all add: demo_market_facts safe_float_demo)
  then obtain d where d: "fst (evaluate_gate1 ''now'' demo_market PNone no_stats) = Inr d"
    by (auto simp: evaluate_gate1_def evaluate_market_def clamp_gate1_volume_def)
  have volume: "safe_float (mf_volume (market_facts_of demo_market)) = Inr (Some 33000)"
    by (simp add: demo_market_facts safe_float_demo)
  have "of_int 33000 = (33000 :: rat)" by simp
  then have "fd_eligible d" using gate1_admits_iff [OF d] demo_market_facts(1-3,8,9) volume by (metis list.simps(3) order_refl)
  with d show ?thesis by blast
qed

text \<open>
  C19: A decision explains itself: it is eligible exactly when nothing failed, its reason codes are the
  reasons of the failed checks, each once and in order, and a rejection names as its reason the code
  of the highest priority among them.
\<close>

theorem decision_is_consistent:
  assumes "fst (evaluate config now facts stats) = Inr d"
  shows "(fd_eligible d \<longleftrightarrow> fd_failed d = []) \<and> fd_accepted d = fd_eligible d
    \<and> (\<forall>m \<in> set (fd_failed d). \<not> fm_passed m \<and> fm_reason m \<noteq> None)
    \<and> (\<forall>m \<in> set (fd_passed d). fm_passed m \<and> fm_reason m = None)
    \<and> fd_codes d = fromkeys (map (the \<circ> fm_reason) (fd_failed d))
    \<and> (if fd_eligible d then fd_rejection d = None
       else \<exists>c. fd_rejection d = Some c \<and> primary_of (fd_codes d) c)"
proof -
  have "decide config now facts = Inr d" using assms by (auto simp: evaluate_def split: sum.splits)
  then show ?thesis
  proof (cases rule: decide_cases)
    case (1 mint proto run)
    then show ?thesis using pick_primary_Some [of "gr_codes run"]
      by (auto simp: decision_of_def gate_inv_def)
  qed
qed

definition demo_facts :: market_facts where
  "demo_facts = (admission_defaults (PStr ''m''))\<lparr>mf_protocol := PStr ''l'', mf_volume := PInt 33000\<rparr>"

lemma demo_facts_read:
  "mint_of demo_facts = Inr ''m''" "protocol_of demo_facts = Inr ''l''"
  "migration (mf_migrated demo_facts) (mf_tab demo_facts) = Inr (Some True)"
  "mf_fees demo_facts = PNone" "mf_liquidity demo_facts = PNone" "mf_volume demo_facts = PInt 33000"
  "mf_market_cap demo_facts = PNone"
  by code_simp+

lemma decision_is_consistent_witness:
  "\<exists>d c. fst (evaluate legacy_fee_gate_config ''now'' demo_facts no_stats) = Inr d \<and> \<not> fd_eligible d
     \<and> fd_rejection d = Some c \<and> primary_of (fd_codes d) c"
proof -
  have "\<exists>d. decide legacy_fee_gate_config ''now'' demo_facts = Inr d"
    by (rule decide_total [OF demo_facts_read(1-3)]) (simp_all add: demo_facts_read safe_float_demo)
  then obtain d where d: "fst (evaluate legacy_fee_gate_config ''now'' demo_facts no_stats) = Inr d" by auto
  have "\<not> enough PNone minimum" for minimum by (simp add: enough_def safe_float_demo)
  then have "\<not> fd_eligible d" using eligible_base [OF d]
    by (auto simp: meets_def demo_facts_read legacy_fee_gate_config_def make_config_def)
  with d decision_is_consistent [OF d] show ?thesis by auto
qed

text \<open>
  C20: The counters of the gate add up however its calls are sequenced: the markets seen are those found
  eligible and those rejected, no reason is counted more often than markets were rejected, every
  rejection is counted under at least one reason, and the two fee counters agree with their reasons.
\<close>

theorem filter_stats_add_up:
  assumes "reachable_stats s"
  shows "fs_markets_seen s = fs_markets_eligible s + fs_markets_rejected s
    \<and> (\<forall>code. reason_count s code \<le> fs_markets_rejected s) \<and> fs_markets_rejected s \<le> reasons_total s
    \<and> fs_fee_unknown s = reason_count s ''FEES_UNKNOWN'' \<and> fs_fee_below_min s = reason_count s ''FEES_BELOW_MIN''"
proof -
  from assms have "stats_add_up s"
  proof induction
    case (evaluated s config now facts)
    then show ?case
      using record_adds_up decided_codes by (auto simp: evaluate_def split: sum.splits)
  next
    case (alerted s d score min_score inspected synthetic rug intelligence)
    then show ?case by (simp add: alert_adds_up)
  next
    case (sourced s source n)
    then show ?case by (simp add: inc_trade_source_def stats_add_up_def reason_count_def reasons_total_def)
  qed (auto simp: reset_stats_def stats_add_up_def no_stats_def reason_count_def reasons_total_def)
  then show ?thesis by (simp add: stats_add_up_def)
qed

lemma filter_stats_add_up_witness:
  "\<exists>s. reachable_stats s \<and> fs_markets_seen s = 1 \<and> fs_markets_rejected s \<le> reasons_total s"
proof -
  let ?s = "snd (evaluate default_config ''now'' (admission_defaults PNone) no_stats)"
  have "reachable_stats ?s" by (intro reachable_stats.intros)
  moreover have "fs_markets_seen ?s = 1" by code_simp
  ultimately show ?thesis using filter_stats_add_up by blast
qed

text \<open>
  C21: An alert goes out exactly when its market meets the requirements of the gate that decided on it,
  was inspected without a critical level and with intelligence, and its score is at least the
  minimum, or is NaN, which no comparison stops.
\<close>

theorem alert_goes_out_iff:
  assumes "fst (evaluate config now facts stats) = Inr d" "min_score \<noteq> NotANumber"
  shows "fst (can_alert d score min_score inspected synthetic rug intelligence stats') = Inr (True, None) \<longleftrightarrow>
    (\<exists>mint proto. mint_of facts = Inr mint \<and> mint \<noteq> [] \<and> protocol_of facts = Inr proto
       \<and> meets (make_config config) facts mint proto)
    \<and> inspected \<and> map_option upper synthetic \<noteq> Some ''CRITICAL'' \<and> map_option upper rug \<noteq> Some ''CRITICAL''
    \<and> intelligence
    \<and> (\<exists>f. py_float score = Inr f \<and> (f = NotANumber \<or> fl_le min_score (fl_add f (Fin nano))))"
proof -
  have critical: "upper (case level of Some s \<Rightarrow> s | None \<Rightarrow> []) = ''CRITICAL'' \<longleftrightarrow> map_option upper level = Some ''CRITICAL''"
    for level by (cases level) (simp_all add: upper_def)
  have score: "\<not> below f min_score \<longleftrightarrow> f = NotANumber \<or> fl_le min_score (fl_add f (Fin nano))" for f
    using assms(2) by (cases f) (auto simp: below_def fl_le_def split: option.splits)
  have "fst (can_alert d score min_score inspected synthetic rug intelligence stats') = Inr (True, None) \<longleftrightarrow>
      alert_refusal d score min_score inspected synthetic rug intelligence = Inr None"
    by (simp add: can_alert_def split: sum.splits option.splits)
  also have "\<dots> \<longleftrightarrow> fd_eligible d \<and> inspected \<and> map_option upper synthetic \<noteq> Some ''CRITICAL''
      \<and> map_option upper rug \<noteq> Some ''CRITICAL'' \<and> intelligence
      \<and> (\<exists>f. py_float score = Inr f \<and> \<not> below f min_score)"
    unfolding alert_refusal_def Let_def critical by (auto split: sum.splits)
  finally show ?thesis using eligible_base [OF assms(1)] score by simp
qed

lemma alert_goes_out_iff_witness:
  "\<exists>d. fst (evaluate default_config ''now'' demo_facts no_stats) = Inr d
     \<and> fst (can_alert d (PFloat NotANumber) (Fin alert_min_score) True None None True no_stats) = Inr (True, None)"
proof -
  have "\<exists>d. decide default_config ''now'' demo_facts = Inr d"
    by (rule decide_total [OF demo_facts_read(1-3)]) (simp_all add: demo_facts_read safe_float_demo)
  then obtain d where d: "fst (evaluate default_config ''now'' demo_facts no_stats) = Inr d" by auto
  have "enough (mf_volume demo_facts) (Fin 33000)"
    using not_below [of 33000 33000] by (simp add: enough_def demo_facts_read safe_float_demo)
  moreover have "clamp_float (Fin gate1_volume) = Fin 33000" by (simp add: clamp_float_def gate1_volume_def gate1_volume_max_def)
  moreover have "denied_hit (make_config default_config) = denied_hit default_config"
    "allowed_hit (make_config default_config) = allowed_hit default_config"
    by (simp_all add: fun_eq_iff denied_hit_def allowed_hit_def make_config_def)
  ultimately have "meets (make_config default_config) demo_facts ''m'' ''l''"
    using demo_market_facts(8,9) demo_facts_read(3)
    by (simp add: meets_def) (simp add: make_config_def default_config_def)
  with alert_goes_out_iff [OF d, of "Fin alert_min_score" "PFloat NotANumber"] d demo_facts_read(1,2) show ?thesis by auto
qed

end
