(* ===== verification/Evm_Base.thy ===== *)
theory Evm_Base
  imports Py_Repr
begin

text \<open>
  The base of the EVM evidence modules: their two errors, hexadecimal text as Python reads it, the
  chain registry (\<^verbatim>\<open>chains.py\<close>) and chain scoped identities (\<^verbatim>\<open>multichain_identity.py\<close>).
\<close>

section \<open>Errors\<close>

text \<open>\<^verbatim>\<open>ValueError\<close>, \<^verbatim>\<open>EvmRpcError\<close> and \<^verbatim>\<open>OverflowError\<close>, with their messages.\<close>

datatype evm_error = Value_Error string | Rpc_Error string | Overflow_Error string

type_synonym 'a evm = "evm_error + 'a"

definition and_then :: "'a evm \<Rightarrow> ('a \<Rightarrow> 'b evm) \<Rightarrow> 'b evm" where
  "and_then r f = (case r of Inl e \<Rightarrow> Inl e | Inr x \<Rightarrow> f x)"

lemma and_then_simps [simp]:
  "and_then (Inl e) f = Inl e"
  "and_then (Inr x) f = f x"
  by (simp_all add: and_then_def)

lemma and_then_Inr: "and_then r f = Inr y \<longleftrightarrow> (\<exists>x. r = Inr x \<and> f x = Inr y)"
  by (cases r) auto

lemma and_then_Inl: "and_then r f = Inl e \<longleftrightarrow> r = Inl e \<or> (\<exists>x. r = Inr x \<and> f x = Inl e)"
  by (cases r) auto

text \<open>\<^verbatim>\<open>if c: raise e\<close> in front of the rest.\<close>

definition raise_if :: "bool \<Rightarrow> evm_error \<Rightarrow> 'a evm \<Rightarrow> 'a evm" where
  "raise_if c e r = (if c then Inl e else r)"

lemma raise_if_Inr [simp]: "raise_if c e r = Inr x \<longleftrightarrow> \<not> c \<and> r = Inr x"
  by (simp add: raise_if_def)

lemma raise_if_Inl: "raise_if c e r = Inl e' \<longleftrightarrow> c \<and> e = e' \<or> \<not> c \<and> r = Inl e'"
  by (auto simp: raise_if_def)

lemma raise_if_simps [simp]:
  "raise_if True e r = Inl e"
  "raise_if False e r = r"
  by (simp_all add: raise_if_def)

section \<open>Hexadecimal text\<close>

definition is_hex :: "char \<Rightarrow> bool" where
  "is_hex c \<longleftrightarrow>
     (let n = code_of c in 48 \<le> n \<and> n \<le> 57 \<or> 65 \<le> n \<and> n \<le> 70 \<or> 97 \<le> n \<and> n \<le> 102)"

definition hex_val :: "char \<Rightarrow> nat" where
  "hex_val c = (let n = code_of c in if n \<le> 57 then n - 48 else if n \<le> 70 then n - 55 else n - 87)"

definition hex_char :: "nat \<Rightarrow> char" where
  "hex_char d = char_of (if d < 10 then 48 + d else 87 + d)"

lemma hex_char_hex [simp]:
  "d < 16 \<Longrightarrow> is_hex (hex_char d)"
  "d < 16 \<Longrightarrow> hex_val (hex_char d) = d"
  by (auto simp: is_hex_def hex_val_def hex_char_def code_of_def Let_def)

lemma hex_val_bound: "is_hex c \<Longrightarrow> hex_val c < 16"
  by (auto simp: is_hex_def hex_val_def Let_def)

definition hex_value :: "string \<Rightarrow> nat" where
  "hex_value s = foldl (\<lambda>a c. 16 * a + hex_val c) 0 s"

lemma foldl_hex: "foldl (\<lambda>a c. 16 * a + hex_val c) a s = a * 16 ^ length s + hex_value s"
proof (induction s arbitrary: a)
  case (Cons c s)
  have "hex_value (c # s) = hex_val c * 16 ^ length s + hex_value s"
    using Cons [of "hex_val c"] by (simp add: hex_value_def [of "c # s"])
  moreover have "foldl (\<lambda>a c. 16 * a + hex_val c) a (c # s) = (16 * a + hex_val c) * 16 ^ length s + hex_value s"
    using Cons [of "16 * a + hex_val c"] by simp
  ultimately show ?case by (simp add: algebra_simps del: foldl_Cons)
qed (simp add: hex_value_def)

lemma hex_value_append: "hex_value (xs @ ys) = hex_value xs * 16 ^ length ys + hex_value ys"
proof -
  have "hex_value (xs @ ys) = foldl (\<lambda>a c. 16 * a + hex_val c) (hex_value xs) ys"
    by (simp add: hex_value_def)
  then show ?thesis by (simp only: foldl_hex)
qed

lemma hex_value_Nil [simp]: "hex_value [] = 0"
  by (simp add: hex_value_def)

lemma hex_value_Cons: "hex_value (c # s) = hex_val c * 16 ^ length s + hex_value s"
  using hex_value_append [of "[c]" s] by (simp add: hex_value_def)

lemma hex_value_bound: "list_all is_hex s \<Longrightarrow> hex_value s < 16 ^ length s"
proof (induction s)
  case (Cons c s)
  then have "hex_value s < 16 ^ length s" "hex_val c \<le> 15" using hex_val_bound [of c] by simp_all
  then have "hex_val c * 16 ^ length s + hex_value s < 16 * 16 ^ length s"
    using mult_right_mono [of "hex_val c" 15 "16 ^ length s"] by linarith
  then show ?case by (simp add: hex_value_Cons)
qed simp

text \<open>
  \<^verbatim>\<open>int(s, 16)\<close>: surrounding white space, a sign, a \<^verbatim>\<open>0x\<close> prefix and single underscores between
  digits are accepted. \<^term>\<open>None\<close> is ValueError.
\<close>

fun hex_body :: "bool \<Rightarrow> string \<Rightarrow> string option" where
  "hex_body after_digit [] = (if after_digit then Some [] else None)"
| "hex_body after_digit (c # s) =
     (if is_hex c then map_option ((#) c) (hex_body True s)
      else if c = CHR ''_'' \<and> after_digit then hex_body False s
      else None)"

definition int_base16 :: "string \<Rightarrow> int option" where
  "int_base16 s =
    (let t = strip s;
         negative = (t \<noteq> [] \<and> hd t = CHR ''-'');
         u = (if t \<noteq> [] \<and> (hd t = CHR ''-'' \<or> hd t = CHR ''+'') then tl t else t);
         v = (if take 2 u = ''0x'' \<or> take 2 u = ''0X''
              then (let w = drop 2 u in if w \<noteq> [] \<and> hd w = CHR ''_'' then tl w else w)
              else u)
     in map_option (\<lambda>ds. (if negative then - 1 else 1) * int (hex_value ds)) (hex_body False v))"

lemma hex_body_plain: "list_all is_hex s \<Longrightarrow> s \<noteq> [] \<or> b \<Longrightarrow> hex_body b s = Some s"
  by (induction s arbitrary: b) auto

lemma is_hex_plain: "is_hex c \<Longrightarrow> \<not> is_space c \<and> c \<noteq> CHR ''-'' \<and> c \<noteq> CHR ''+'' \<and> c \<noteq> CHR ''x''
    \<and> c \<noteq> CHR ''X'' \<and> c \<noteq> CHR ''_'' \<and> c \<noteq> CHR '':''"
  by (auto simp: is_hex_def is_space_def code_of_def Let_def)

lemma int_base16_plain:
  assumes "list_all is_hex s" "s \<noteq> []"
  shows "int_base16 s = Some (int (hex_value s))"
proof -
  have st: "strip s = s"
    using assms is_hex_plain by (intro strip_id) (auto simp: list_all_iff)
  have h: "is_hex (hd s)" using assms by (cases s) simp_all
  have "\<not> (take 2 s = ''0x'' \<or> take 2 s = ''0X'')"
  proof
    assume "take 2 s = ''0x'' \<or> take 2 s = ''0X''"
    then have "CHR ''x'' \<in> set s \<or> CHR ''X'' \<in> set s"
      by (metis in_set_takeD list.set_intros(1) list.set_intros(2))
    then show False using assms(1) is_hex_plain by (auto simp: list_all_iff)
  qed
  with st is_hex_plain [OF h] hex_body_plain [OF assms(1)] assms(2) show ?thesis
    by (simp add: int_base16_def Let_def)
qed

section \<open>Bytes\<close>

type_synonym bytes = "nat list"

text \<open>\<^verbatim>\<open>bytes.hex()\<close> and \<^verbatim>\<open>bytes.fromhex(s)\<close>, which skips white space between bytes.\<close>

definition byte_hex :: "nat \<Rightarrow> string" where
  "byte_hex b = [hex_char (b div 16), hex_char (b mod 16)]"

definition to_hex :: "bytes \<Rightarrow> string" where
  "to_hex bs = concat (map byte_hex bs)"

definition is_ascii_space :: "char \<Rightarrow> bool" where
  "is_ascii_space c \<longleftrightarrow> c \<in> set [CHR '' '', CHR 0x09, CHR 0x0A, CHR 0x0B, CHR 0x0C, CHR 0x0D]"

fun from_hex :: "string \<Rightarrow> bytes option" where
  "from_hex [] = Some []"
| "from_hex (c # s) =
     (if is_ascii_space c then from_hex s
      else case s of
          [] \<Rightarrow> None
        | d # t \<Rightarrow>
            if is_hex c \<and> is_hex d then map_option ((#) (16 * hex_val c + hex_val d)) (from_hex t) else None)"

definition is_bytes :: "bytes \<Rightarrow> bool" where
  "is_bytes bs \<longleftrightarrow> list_all (\<lambda>b. b < 256) bs"

lemma is_bytes_simps [simp]:
  "is_bytes []"
  "is_bytes (b # bs) \<longleftrightarrow> b < 256 \<and> is_bytes bs"
  "is_bytes (xs @ ys) \<longleftrightarrow> is_bytes xs \<and> is_bytes ys"
  by (simp_all add: is_bytes_def)

lemma is_bytes_take [simp]: "is_bytes bs \<Longrightarrow> is_bytes (take n bs)" "is_bytes bs \<Longrightarrow> is_bytes (drop n bs)"
  by (auto simp: is_bytes_def list_all_iff dest: in_set_takeD in_set_dropD)

lemma to_hex_simps [simp]:
  "to_hex [] = []"
  "to_hex (b # bs) = hex_char (b div 16) # hex_char (b mod 16) # to_hex bs"
  by (simp_all add: to_hex_def byte_hex_def)

lemma to_hex_append: "to_hex (xs @ ys) = to_hex xs @ to_hex ys"
  by (simp add: to_hex_def)

lemma length_to_hex [simp]: "length (to_hex bs) = 2 * length bs"
  by (induction bs) simp_all

lemma is_hex_no_space [simp]: "is_hex c \<Longrightarrow> \<not> is_ascii_space c"
  by (auto simp: is_hex_def is_ascii_space_def code_of_def Let_def)

lemma from_hex_pair [simp]:
  "is_hex c \<Longrightarrow> is_hex d \<Longrightarrow>
     from_hex (c # d # s) = map_option ((#) (16 * hex_val c + hex_val d)) (from_hex s)"
  by simp

declare from_hex.simps(2) [simp del]

lemma from_hex_to_hex: "is_bytes bs \<Longrightarrow> from_hex (to_hex bs) = Some bs"
  by (induction bs) auto

lemma from_hex_bytes: "from_hex s = Some bs \<Longrightarrow> is_bytes bs"
proof (induction s arbitrary: bs rule: from_hex.induct)
  case (2 c s)
  show ?case
  proof (cases "is_ascii_space c")
    case True
    with 2 show ?thesis by (simp add: from_hex.simps(2))
  next
    case False
    with "2.prems" obtain d t bs' where s: "s = d # t" "is_hex c" "is_hex d" "from_hex t = Some bs'"
        "bs = (16 * hex_val c + hex_val d) # bs'"
      by (auto simp: from_hex.simps(2) split: list.splits if_splits)
    then show ?thesis
      using "2.IH"(2) [OF False s(1)] hex_val_bound [of c] hex_val_bound [of d] by auto
  qed
qed simp

lemma from_hex_hex: "list_all is_hex s \<Longrightarrow> even (length s) \<Longrightarrow>
    \<exists>bs. from_hex s = Some bs \<and> length s = 2 * length bs"
proof (induction s rule: induct_list012)
  case (3 c d s)
  then obtain bs where "from_hex s = Some bs" "length s = 2 * length bs" by auto
  with 3 show ?case by simp
qed simp_all

lemma to_hex_hex: "is_bytes bs \<Longrightarrow> list_all is_hex (to_hex bs)"
  by (induction bs) auto

text \<open>\<^verbatim>\<open>int.from_bytes(b, "big")\<close>\<close>

definition from_big_endian :: "bytes \<Rightarrow> nat" where
  "from_big_endian bs = foldl (\<lambda>a b. 256 * a + b) 0 bs"

fun to_big_endian :: "nat \<Rightarrow> nat \<Rightarrow> bytes" where
  "to_big_endian 0 n = []"
| "to_big_endian (Suc w) n = to_big_endian w (n div 256) @ [n mod 256]"

lemma from_big_endian_snoc: "from_big_endian (bs @ [b]) = 256 * from_big_endian bs + b"
  by (simp add: from_big_endian_def)

lemma from_big_endian_Nil [simp]: "from_big_endian [] = 0"
  by (simp add: from_big_endian_def)

lemma from_big_endian_bound: "is_bytes bs \<Longrightarrow> from_big_endian bs < 256 ^ length bs"
proof (induction bs rule: rev_induct)
  case (snoc b bs)
  then have "from_big_endian bs < 256 ^ length bs" "b < 256" by simp_all
  then show ?case by (simp add: from_big_endian_snoc)
qed simp

lemma length_to_big_endian [simp]: "length (to_big_endian w n) = w"
  by (induction w arbitrary: n) simp_all

lemma is_bytes_to_big_endian [simp]: "is_bytes (to_big_endian w n)"
  by (induction w arbitrary: n) simp_all

lemma big_endian_back: "is_bytes bs \<Longrightarrow> to_big_endian (length bs) (from_big_endian bs) = bs"
  by (induction bs rule: rev_induct) (simp_all add: from_big_endian_snoc)

lemma big_endian_roundtrip: "n < 256 ^ w \<Longrightarrow> from_big_endian (to_big_endian w n) = n"
proof (induction w arbitrary: n)
  case (Suc w)
  then have "n div 256 < 256 ^ w" by (simp add: less_mult_imp_div_less mult.commute)
  with Suc.IH show ?case by (simp add: from_big_endian_snoc)
qed simp

section \<open>The chain registry\<close>

datatype chain_family = SOLANA | EVM

record chain_config =
  cc_key :: string
  cc_family :: chain_family
  cc_chain_id :: "int option"
  cc_native_gas :: string
  cc_rpc_env :: "string option"
  cc_default_rpc_url :: "string option"
  cc_paper_only :: bool
  cc_live_execution_enabled :: bool

definition chains :: "(string \<times> chain_config) list" where
  "chains =
    [(''solana'',
      \<lparr>cc_key = ''solana'', cc_family = SOLANA, cc_chain_id = None, cc_native_gas = ''SOL'',
       cc_rpc_env = Some ''SOLANA_RPC_URL'', cc_default_rpc_url = None, cc_paper_only = False,
       cc_live_execution_enabled = False\<rparr>),
     (''robinhood'',
      \<lparr>cc_key = ''robinhood'', cc_family = EVM, cc_chain_id = Some 4663, cc_native_gas = ''ETH'',
       cc_rpc_env = Some ''ROBINHOOD_CHAIN_RPC_URL'',
       cc_default_rpc_url = Some ''https://rpc.mainnet.chain.robinhood.com'', cc_paper_only = True,
       cc_live_execution_enabled = False\<rparr>),
     (''base'',
      \<lparr>cc_key = ''base'', cc_family = EVM, cc_chain_id = Some 8453, cc_native_gas = ''ETH'',
       cc_rpc_env = Some ''BASE_RPC_URL'', cc_default_rpc_url = Some ''https://mainnet.base.org'',
       cc_paper_only = True, cc_live_execution_enabled = False\<rparr>)]"

definition get_chain :: "pyval \<Rightarrow> chain_config option" where
  "get_chain key = (if key = PNone then None else map_of chains (lower (strip (py_str key))))"

definition is_supported_chain :: "pyval \<Rightarrow> bool" where
  "is_supported_chain key \<longleftrightarrow> get_chain key \<noteq> None"

definition live_execution_allowed :: "pyval \<Rightarrow> bool" where
  "live_execution_allowed key \<longleftrightarrow>
     (case get_chain key of Some chain \<Rightarrow> cc_live_execution_enabled chain | None \<Rightarrow> False)"

lemma get_chain_cases:
  assumes "get_chain key = Some cfg"
  shows "(cc_key cfg, cfg) \<in> set chains" "cc_key cfg \<in> {''solana'', ''robinhood'', ''base''}"
    "\<not> cc_live_execution_enabled cfg"
proof -
  have all: "\<forall>(k, c) \<in> set chains. cc_key c = k \<and> k \<in> {''solana'', ''robinhood'', ''base''}
      \<and> \<not> cc_live_execution_enabled c"
    by (simp add: chains_def)
  obtain k where "(k, cfg) \<in> set chains"
    using assms by (auto simp: get_chain_def split: if_splits dest: map_of_SomeD)
  with all show "(cc_key cfg, cfg) \<in> set chains" "cc_key cfg \<in> {''solana'', ''robinhood'', ''base''}"
    "\<not> cc_live_execution_enabled cfg"
    by auto
qed

section \<open>Chain scoped identities\<close>

definition is_evm_address :: "string \<Rightarrow> bool" where
  "is_evm_address s \<longleftrightarrow> length s = 42 \<and> take 2 s = ''0x'' \<and> list_all is_hex (drop 2 s)"

definition is_base58 :: "char \<Rightarrow> bool" where
  "is_base58 c \<longleftrightarrow> c \<in> set ''123456789ABCDEFGHJKLMNPQRSTUVWXYZabcdefghijkmnopqrstuvwxyz''"

definition is_solana_address :: "string \<Rightarrow> bool" where
  "is_solana_address s \<longleftrightarrow> 32 \<le> length s \<and> length s \<le> 44 \<and> list_all is_base58 s"

definition canonical_chain_address :: "pyval \<Rightarrow> pyval \<Rightarrow> string option" where
  "canonical_chain_address chain raw =
    (case get_chain chain of
       None \<Rightarrow> None
     | Some cfg \<Rightarrow>
         if raw = PNone then None
         else
           (let value = strip (py_str raw) in
            if value = [] \<or> list_ex (\<lambda>c. c \<in> set value) [CHR '' '', CHR 0x0A, CHR 0x09, CHR ''/'', CHR ''?'', CHR ''#'']
            then None
            else case cc_family cfg of
                EVM \<Rightarrow> if is_evm_address value then Some (lower value) else None
              | SOLANA \<Rightarrow> if is_solana_address value then Some value else None))"

definition chain_scoped_key :: "pyval \<Rightarrow> pyval \<Rightarrow> string option" where
  "chain_scoped_key chain raw =
    (case (get_chain chain, canonical_chain_address chain raw) of
       (Some cfg, Some address) \<Rightarrow> Some (cc_key cfg @ '':'' @ address)
     | _ \<Rightarrow> None)"

definition asset_key :: "pyval \<Rightarrow> pyval \<Rightarrow> string option" where
  "asset_key chain raw = chain_scoped_key chain raw"

definition wallet_key :: "pyval \<Rightarrow> pyval \<Rightarrow> string option" where
  "wallet_key chain raw = chain_scoped_key chain raw"

lemma lower_hex: "is_hex c \<Longrightarrow> is_hex (lower_char c) \<and> hex_val (lower_char c) = hex_val c \<and> lower_char (lower_char c) = lower_char c"
  by (auto simp: is_hex_def hex_val_def lower_char_def code_of_def Let_def)

lemma length_lower [simp]: "length (lower s) = length s"
  by (simp add: lower_def)

lemma lower_evm_address: "is_evm_address s \<Longrightarrow> is_evm_address (lower s)"
proof -
  assume s: "is_evm_address s"
  have "take 2 (lower s) = lower (take 2 s)" "drop 2 (lower s) = lower (drop 2 s)"
    by (simp_all add: lower_def take_map drop_map)
  moreover have "lower ''0x'' = ''0x''" by code_simp
  ultimately show ?thesis
    using s by (simp add: is_evm_address_def) (simp add: lower_def list_all_iff lower_hex)
qed


text \<open>An EVM address is plain: nothing to strip, no separator.\<close>

lemma evm_address_chars: "is_evm_address s \<Longrightarrow> list_all (\<lambda>c. is_hex c \<or> c = CHR ''x'') s"
proof -
  assume s: "is_evm_address s"
  then have "s = ''0x'' @ drop 2 s" by (metis append_take_drop_id is_evm_address_def)
  moreover have "list_all (\<lambda>c. is_hex c \<or> c = CHR ''x'') (''0x'' @ drop 2 s)"
    using s by (auto simp: is_evm_address_def list_all_iff is_hex_def code_of_def)
  ultimately show ?thesis by metis
qed

lemma plain_char: "is_hex c \<or> c = CHR ''x'' \<Longrightarrow>
    \<not> is_space c \<and> c \<notin> set [CHR '' '', CHR 0x0A, CHR 0x09, CHR ''/'', CHR ''?'', CHR ''#'']"
  by (auto simp: is_hex_def is_space_def code_of_def Let_def)

lemma strip_plain: "list_all (\<lambda>c. \<not> is_space c) s \<Longrightarrow> strip s = s"
  by (rule strip_id) (auto simp: list_all_iff)

lemma strip_evm_address: "is_evm_address s \<Longrightarrow> strip s = s"
  using evm_address_chars [of s] plain_char by (intro strip_plain) (auto simp: list_all_iff)

lemma lower_lower_evm: "is_evm_address s \<Longrightarrow> lower (lower s) = lower s"
proof -
  assume "is_evm_address s"
  then have "\<forall>c \<in> set s. lower_char (lower_char c) = lower_char c"
    using evm_address_chars [of s] lower_hex by (fastforce simp: list_all_iff lower_char_def code_of_def)
  then show ?thesis by (simp add: lower_def)
qed

lemma canonical_evm:
  assumes "get_chain chain = Some cfg" "cc_family cfg = EVM" "is_evm_address s"
  shows "canonical_chain_address chain (PStr s) = Some (lower s)"
proof -
  have "list_all (\<lambda>c. c \<notin> set [CHR '' '', CHR 0x0A, CHR 0x09, CHR ''/'', CHR ''?'', CHR ''#'']) s"
    using evm_address_chars [OF assms(3)] plain_char unfolding list_all_iff by blast
  moreover have "s \<noteq> []" using assms(3) by (auto simp: is_evm_address_def)
  ultimately show ?thesis
    using assms strip_evm_address [OF assms(3)]
    by (auto simp: canonical_chain_address_def Let_def list_all_iff)
qed

lemma canonical_cases:
  assumes "canonical_chain_address chain raw = Some a"
  obtains (evm) cfg where "get_chain chain = Some cfg" "cc_family cfg = EVM" "is_evm_address (strip (py_str raw))"
      "a = lower (strip (py_str raw))" "is_evm_address a" "lower a = a"
  | (solana) cfg where "get_chain chain = Some cfg" "cc_family cfg = SOLANA"
      "is_solana_address a" "a = strip (py_str raw)"
proof -
  obtain cfg where cfg: "get_chain chain = Some cfg"
    using assms by (auto simp: canonical_chain_address_def split: option.splits)
  show thesis
  proof (cases "cc_family cfg")
    case SOLANA
    with assms cfg solana show thesis
      by (auto simp: canonical_chain_address_def Let_def split: if_splits)
  next
    case EVM
    with assms cfg evm show thesis
      by (auto simp: canonical_chain_address_def Let_def lower_evm_address lower_lower_evm split: if_splits)
  qed
qed

lemma base58_plain: "is_base58 c \<Longrightarrow>
    \<not> is_space c \<and> c \<notin> set [CHR '' '', CHR 0x0A, CHR 0x09, CHR ''/'', CHR ''?'', CHR ''#'']"
  by (auto simp: is_base58_def is_space_def)

lemma canonical_solana:
  assumes "get_chain chain = Some cfg" "cc_family cfg = SOLANA" "is_solana_address s"
  shows "canonical_chain_address chain (PStr s) = Some s"
proof -
  have c: "list_all is_base58 s" "s \<noteq> []" using assms(3) by (auto simp: is_solana_address_def)
  then have "strip s = s" using base58_plain by (intro strip_plain) (auto simp: list_all_iff)
  moreover have "list_all (\<lambda>c. c \<notin> set [CHR '' '', CHR 0x0A, CHR 0x09, CHR ''/'', CHR ''?'', CHR ''#'']) s"
    using c(1) base58_plain unfolding list_all_iff by blast
  ultimately show ?thesis
    using assms c(2) by (auto simp: canonical_chain_address_def Let_def list_all_iff)
qed

lemma canonical_idem:
  "canonical_chain_address chain raw = Some a \<Longrightarrow> canonical_chain_address chain (PStr a) = Some a"
  by (elim canonical_cases) (auto simp: canonical_evm canonical_solana)

lemma chain_scoped_key_Some:
  "chain_scoped_key chain raw = Some k \<longleftrightarrow>
     (\<exists>cfg a. get_chain chain = Some cfg \<and> canonical_chain_address chain raw = Some a \<and> k = cc_key cfg @ '':'' @ a)"
  by (auto simp: chain_scoped_key_def split: option.splits)

lemma chain_keys:
  assumes "get_chain c = Some x" "get_chain d = Some y"
  shows "CHR '':'' \<notin> set (cc_key x)" "cc_key x = cc_key y \<Longrightarrow> x = y"
proof -
  have d: "distinct (map (\<lambda>p. cc_key (snd p)) chains)" by (simp add: chains_def)
  show "CHR '':'' \<notin> set (cc_key x)" using get_chain_cases(2) [OF assms(1)] by auto
  assume "cc_key x = cc_key y"
  then show "x = y"
    using get_chain_cases(1) [OF assms(1)] get_chain_cases(1) [OF assms(2)] d
      inj_onD [of "\<lambda>p. cc_key (snd p)" "set chains" "(cc_key x, x)" "(cc_key y, y)"]
    by (simp add: distinct_map)
qed

lemma separator_split:
  "xs @ c # ys = xs' @ c # ys' \<Longrightarrow> c \<notin> set xs \<Longrightarrow> c \<notin> set xs' \<Longrightarrow> xs = xs' \<and> ys = ys'"
  by (auto simp: append_eq_append_conv2 Cons_eq_append_conv append_eq_Cons_conv)

section \<open>Properties\<close>

text \<open>
  C38: Scoped keys never collide: two observations get the same key only on the same chain with the
  same canonical address, and canonicalizing a canonical address changes nothing.
\<close>

theorem scoped_keys_never_collide:
  assumes "chain_scoped_key c r = Some k" "chain_scoped_key c' r' = Some k"
  shows "\<exists>a. get_chain c = get_chain c' \<and> canonical_chain_address c r = Some a
    \<and> canonical_chain_address c' r' = Some a \<and> canonical_chain_address c (PStr a) = Some a"
proof -
  obtain x a y b where x: "get_chain c = Some x" "canonical_chain_address c r = Some a" "k = cc_key x @ '':'' @ a"
    and y: "get_chain c' = Some y" "canonical_chain_address c' r' = Some b" "k = cc_key y @ '':'' @ b"
    using assms by (auto simp: chain_scoped_key_Some)
  have "cc_key x = cc_key y \<and> a = b"
    using x(3) y(3) chain_keys(1) [OF x(1) y(1)] chain_keys(1) [OF y(1) x(1)]
    by (intro separator_split [where c = "CHR '':''"]) simp_all
  with x y chain_keys(2) [OF x(1) y(1)] canonical_idem show ?thesis by auto
qed

theorem scoped_keys_never_collide_witness:
  "chain_scoped_key (PStr ''base'') (PStr (''0x'' @ replicate 40 (CHR ''A'')))
     \<noteq> chain_scoped_key (PStr ''robinhood'') (PStr (''0x'' @ replicate 40 (CHR ''A'')))"
proof
  assume eq: "chain_scoped_key (PStr ''base'') (PStr (''0x'' @ replicate 40 (CHR ''A'')))
     = chain_scoped_key (PStr ''robinhood'') (PStr (''0x'' @ replicate 40 (CHR ''A'')))"
  have "get_chain (PStr ''base'') \<noteq> None" by code_simp
  moreover have "cc_family cfg = EVM" if "get_chain (PStr ''base'') = Some cfg" for cfg
  proof -
    have "map_option cc_family (get_chain (PStr ''base'')) = Some EVM" by code_simp
    with that show ?thesis by simp
  qed
  moreover have "is_evm_address (''0x'' @ replicate 40 (CHR ''A''))"
    by (simp add: is_evm_address_def list_all_iff is_hex_def code_of_def)
  ultimately have "chain_scoped_key (PStr ''base'') (PStr (''0x'' @ replicate 40 (CHR ''A''))) \<noteq> None"
    using canonical_evm by (auto simp: chain_scoped_key_def split: option.splits)
  then obtain k where "chain_scoped_key (PStr ''base'') (PStr (''0x'' @ replicate 40 (CHR ''A''))) = Some k" by blast
  then have "get_chain (PStr ''base'') = get_chain (PStr ''robinhood'')"
    using scoped_keys_never_collide eq by metis
  moreover have "get_chain (PStr ''base'') \<noteq> get_chain (PStr ''robinhood'')" by code_simp
  ultimately show False by simp
qed

end
