(* ===== verification/Evm_Abi.thy ===== *)
theory Evm_Abi
  imports Evm_Base
begin

text \<open>
  ABI words and the two decoders that read them: router calldata (\<^verbatim>\<open>evm_abi_words.py\<close>,
  \<^verbatim>\<open>evm_router_semantics.py\<close>) and router output (\<^verbatim>\<open>evm_router_output.py\<close>).
\<close>

section \<open>Words\<close>

text \<open>\<^verbatim>\<open>raw[a:b]\<close> for $0 \le a \le b$.\<close>

definition slice :: "int \<Rightarrow> int \<Rightarrow> 'a list \<Rightarrow> 'a list" where
  "slice a b xs = take (nat (b - a)) (drop (nat a) xs)"

definition word_at :: "bytes \<Rightarrow> int \<Rightarrow> bytes evm" where
  "word_at raw index =
    (let start = index * 32; stop = start + 32 in
     raise_if (index < 0 \<or> int (length raw) < stop) (Value_Error ''ABI word out of bounds'')
       (Inr (slice start stop raw)))"

definition uint_from_word :: "bytes \<Rightarrow> int evm" where
  "uint_from_word word =
     raise_if (length word \<noteq> 32) (Value_Error ''ABI uint word must be 32 bytes'')
       (Inr (int (from_big_endian word)))"

definition address_from_word :: "string \<Rightarrow> bytes \<Rightarrow> string evm" where
  "address_from_word chain word =
    raise_if (length word \<noteq> 32 \<or> list_ex (\<lambda>b. b \<noteq> 0) (take 12 word))
      (Value_Error ''address word is not canonically ABI encoded'')
      (case canonical_chain_address (PStr chain) (PStr (''0x'' @ to_hex (drop 12 word))) of
         None \<Rightarrow> Inl (Value_Error ''decoded address is invalid for chain'')
       | Some canonical \<Rightarrow> Inr canonical)"

text \<open>The words from \<open>start\<close> on, as many as there are before the end.\<close>

fun words_of :: "nat \<Rightarrow> bytes \<Rightarrow> bytes list" where
  "words_of 0 raw = []"
| "words_of (Suc n) raw = take 32 raw # words_of n (drop 32 raw)"

fun all_ok :: "('a \<Rightarrow> 'b evm) \<Rightarrow> 'a list \<Rightarrow> 'b list evm" where
  "all_ok f [] = Inr []"
| "all_ok f (x # xs) = and_then (f x) (\<lambda>y. and_then (all_ok f xs) (\<lambda>ys. Inr (y # ys)))"

definition address_array_at :: "bytes \<Rightarrow> int \<Rightarrow> int \<Rightarrow> string \<Rightarrow> bool \<Rightarrow> string list evm" where
  "address_array_at raw offset minimum_offset chain require_exact_end =
    raise_if (offset < minimum_offset \<or> offset mod 32 \<noteq> 0) (Value_Error ''dynamic array offset is not canonical'')
    (raise_if (int (length raw) < offset + 32) (Value_Error ''dynamic array offset exceeds payload'')
    (and_then (uint_from_word (slice offset (offset + 32) raw)) (\<lambda>n.
     let start = offset + 32; stop = start + n * 32 in
     raise_if (n < 1) (Value_Error ''dynamic address array is empty'')
    (raise_if (int (length raw) < stop) (Value_Error ''dynamic address array exceeds payload'')
    (raise_if (require_exact_end \<and> stop \<noteq> int (length raw))
       (Value_Error ''unexpected trailing bytes after dynamic address array'')
    (all_ok (address_from_word chain) (words_of (nat n) (drop (nat start) raw))))))))"

section \<open>Router calldata\<close>

record router_calldata =
  rc_selector :: string
  rc_signature :: "string option"
  rc_family :: "string option"
  rc_amount_in :: "int option"
  rc_amount_out_min :: "int option"
  rc_path :: "string list"
  rc_recipient :: "string option"
  rc_deadline :: "int option"
  rc_status :: string
  rc_issues :: "string list"

record router_spec =
  rs_signature :: string
  rs_family :: string
  rs_head_words :: int
  rs_amount_in :: "int option"
  rs_min_out :: int
  rs_path :: int
  rs_recipient :: int
  rs_deadline :: int
  rs_native_input :: bool

definition supported_routers :: "(string \<times> router_spec) list" where
  "supported_routers =
    [(''38ed1739'',
      \<lparr>rs_signature = ''swapExactTokensForTokens(uint256,uint256,address[],address,uint256)'',
       rs_family = ''UNISWAP_V2_STYLE_EXACT_INPUT_TOKEN_TO_TOKEN'', rs_head_words = 5, rs_amount_in = Some 0,
       rs_min_out = 1, rs_path = 2, rs_recipient = 3, rs_deadline = 4, rs_native_input = False\<rparr>),
     (''18cbafe5'',
      \<lparr>rs_signature = ''swapExactTokensForETH(uint256,uint256,address[],address,uint256)'',
       rs_family = ''UNISWAP_V2_STYLE_EXACT_INPUT_TOKEN_TO_NATIVE'', rs_head_words = 5, rs_amount_in = Some 0,
       rs_min_out = 1, rs_path = 2, rs_recipient = 3, rs_deadline = 4, rs_native_input = False\<rparr>),
     (''7ff36ab5'',
      \<lparr>rs_signature = ''swapExactETHForTokens(uint256,address[],address,uint256)'',
       rs_family = ''UNISWAP_V2_STYLE_EXACT_INPUT_NATIVE_TO_TOKEN'', rs_head_words = 4, rs_amount_in = None,
       rs_min_out = 0, rs_path = 1, rs_recipient = 2, rs_deadline = 3, rs_native_input = True\<rparr>)]"

text \<open>
  The try block: the fields of the payload, in the order they are read. The first argument index is
  only used when the input is not native.
\<close>

record router_fields =
  rf_amount_in :: int
  rf_amount_out_min :: int
  rf_path :: "string list"
  rf_recipient :: string
  rf_deadline :: int

definition uint_at :: "bytes \<Rightarrow> int \<Rightarrow> int evm" where
  "uint_at raw index = and_then (word_at raw index) uint_from_word"

definition router_amount_in :: "router_spec \<Rightarrow> bytes \<Rightarrow> int \<Rightarrow> int evm" where
  "router_amount_in spec payload value =
    (if rs_native_input spec then Inr value
     else case rs_amount_in spec of Some i \<Rightarrow> uint_at payload i | None \<Rightarrow> Inl (Value_Error []))"

definition decode_payload :: "string \<Rightarrow> router_spec \<Rightarrow> bytes \<Rightarrow> int \<Rightarrow> router_fields evm" where
  "decode_payload chain spec payload value =
    (let head_size = rs_head_words spec * 32 in
     raise_if (int (length payload) < head_size) (Value_Error ''calldata shorter than supported ABI head'')
    (raise_if (\<not> rs_native_input spec \<and> value \<noteq> 0)
       (Value_Error ''nonpayable supported signature received non-zero value'')
    (and_then (router_amount_in spec payload value) (\<lambda>amount_in.
     and_then (uint_at payload (rs_min_out spec)) (\<lambda>amount_out_min.
     and_then (uint_at payload (rs_path spec)) (\<lambda>path_offset.
     and_then (and_then (word_at payload (rs_recipient spec)) (address_from_word chain)) (\<lambda>recipient.
     and_then (uint_at payload (rs_deadline spec)) (\<lambda>deadline.
     and_then (address_array_at payload path_offset head_size chain True) (\<lambda>path.
     raise_if (length path < 2) (Value_Error ''router path must contain at least two addresses'')
       (Inr \<lparr>rf_amount_in = amount_in, rf_amount_out_min = amount_out_min, rf_path = path,
             rf_recipient = recipient, rf_deadline = deadline\<rparr>))))))))))"

fun error_text :: "evm_error \<Rightarrow> string" where
  "error_text (Value_Error m) = m"
| "error_text (Rpc_Error m) = m"
| "error_text (Overflow_Error m) = m"

definition decode_router_calldata :: "string \<Rightarrow> string \<Rightarrow> int \<Rightarrow> router_calldata evm" where
  "decode_router_calldata chain calldata value =
    raise_if (value < 0) (Value_Error ''value must be non-negative'')
    (raise_if (take 2 calldata \<noteq> ''0x'' \<or> length calldata < 10 \<or> length calldata mod 2 \<noteq> 0)
       (Value_Error ''calldata must contain a complete 4-byte selector'')
    (case from_hex (drop 2 calldata) of
       None \<Rightarrow> Inl (Value_Error ''calldata must be valid hex'')
     | Some raw \<Rightarrow>
         (let selector = to_hex (take 4 raw) in
          case map_of supported_routers selector of
            None \<Rightarrow> Inr \<lparr>rc_selector = selector, rc_signature = None, rc_family = None, rc_amount_in = None,
                rc_amount_out_min = None, rc_path = [], rc_recipient = None, rc_deadline = None,
                rc_status = ''UNSUPPORTED_ROUTER_SELECTOR'',
                rc_issues = [''SELECTOR_NOT_IN_CONSERVATIVE_ROUTER_REGISTRY'']\<rparr>
          | Some spec \<Rightarrow>
              (case decode_payload chain spec (drop 4 raw) value of
                 Inl e \<Rightarrow> Inr \<lparr>rc_selector = selector, rc_signature = Some (rs_signature spec),
                    rc_family = Some (rs_family spec), rc_amount_in = None, rc_amount_out_min = None,
                    rc_path = [], rc_recipient = None, rc_deadline = None,
                    rc_status = ''MALFORMED_SUPPORTED_ROUTER_CALLDATA'', rc_issues = [error_text e]\<rparr>
               | Inr f \<Rightarrow> Inr \<lparr>rc_selector = selector, rc_signature = Some (rs_signature spec),
                    rc_family = Some (rs_family spec), rc_amount_in = Some (rf_amount_in f),
                    rc_amount_out_min = Some (rf_amount_out_min f), rc_path = rf_path f,
                    rc_recipient = Some (rf_recipient f), rc_deadline = Some (rf_deadline f),
                    rc_status = ''SUPPORTED_ROUTER_CALLDATA_SEMANTICS'', rc_issues = []\<rparr>))))"

section \<open>Router output\<close>

text \<open>Where \<^verbatim>\<open>bytes.fromhex\<close> meets the first character that it refuses.\<close>

fun hex_bad :: "nat \<Rightarrow> string \<Rightarrow> nat" where
  "hex_bad i [] = i"
| "hex_bad i (c # s) =
     (if is_ascii_space c then hex_bad (i + 1) s
      else if \<not> is_hex c then i
      else case s of [] \<Rightarrow> i + 1 | d # t \<Rightarrow> if is_hex d then hex_bad (i + 2) t else i + 1)"

record router_output =
  ro_amounts :: "int list"
  ro_amount_in :: "int option"
  ro_amount_out :: "int option"
  ro_minimum_output_satisfied :: "bool option"
  ro_status :: string
  ro_issues :: "string list"

definition ro_failed :: "string \<Rightarrow> string \<Rightarrow> router_output" where
  "ro_failed status issue = \<lparr>ro_amounts = [], ro_amount_in = None, ro_amount_out = None,
     ro_minimum_output_satisfied = None, ro_status = status, ro_issues = [issue]\<rparr>"

definition uint_words :: "bytes \<Rightarrow> int list" where
  "uint_words raw = map (\<lambda>w. int (from_big_endian w)) (words_of (length raw div 32) raw)"

definition decode_amounts :: "bytes \<Rightarrow> int option \<Rightarrow> int option \<Rightarrow> int list evm" where
  "decode_amounts raw expected_length expected_input =
    raise_if (length raw < 64 \<or> length raw mod 32 \<noteq> 0)
      (Value_Error ''uint256[] result must contain complete ABI words'')
    (raise_if (from_big_endian (take 32 raw) \<noteq> 32)
      (Value_Error ''uint256[] result must use canonical top-level offset'')
    (let n = int (from_big_endian (take 32 (drop 32 raw))); amounts = uint_words (drop 64 raw) in
     raise_if (64 + n * 32 \<noteq> int (length raw))
       (Value_Error ''uint256[] result length does not match encoded bytes'')
    (raise_if (case expected_length of Some l \<Rightarrow> n \<noteq> l | None \<Rightarrow> False)
       (Value_Error ''router output amount count does not match decoded path length'')
    (raise_if (amounts = []) (Value_Error ''router output amount array is empty'')
    (raise_if (case expected_input of Some x \<Rightarrow> hd amounts \<noteq> x | None \<Rightarrow> False)
       (Value_Error ''router output input amount does not match decoded exact input'')
       (Inr amounts))))))"

definition decode_uint256_array_output ::
  "string option \<Rightarrow> int option \<Rightarrow> int option \<Rightarrow> int option \<Rightarrow> router_output" where
  "decode_uint256_array_output result expected_length expected_input minimum_output =
    (case result of
       None \<Rightarrow> ro_failed ''NO_QUORUM_OUTPUT'' ''CALL_RESULT_NOT_AVAILABLE''
     | Some text \<Rightarrow>
         if take 2 text \<noteq> ''0x'' \<or> length text mod 2 \<noteq> 0
         then ro_failed ''MALFORMED_ROUTER_OUTPUT'' ''RESULT_NOT_COMPLETE_HEX''
         else case from_hex (drop 2 text) of
             None \<Rightarrow> ro_failed ''MALFORMED_ROUTER_OUTPUT''
                 (''non-hexadecimal number found in fromhex() arg at position ''
                  @ dec_nat (hex_bad 0 (drop 2 text)))
           | Some raw \<Rightarrow>
               (case decode_amounts raw expected_length expected_input of
                  Inl e \<Rightarrow> ro_failed ''MALFORMED_ROUTER_OUTPUT'' (error_text e)
                | Inr amounts \<Rightarrow>
                    \<lparr>ro_amounts = amounts, ro_amount_in = Some (hd amounts), ro_amount_out = Some (last amounts),
                     ro_minimum_output_satisfied = map_option (\<lambda>m. m \<le> last amounts) minimum_output,
                     ro_status = ''DECODED_UINT256_ARRAY_OUTPUT'', ro_issues = []\<rparr>))"


section \<open>Encoding\<close>

text \<open>The ABI encoding, for comparison: words of 32 bytes, big endian, addresses padded on the left.\<close>

definition uint_word :: "int \<Rightarrow> bytes" where
  "uint_word n = to_big_endian 32 (nat n)"

definition address_bytes :: "string \<Rightarrow> bytes" where
  "address_bytes a = (case from_hex (drop 2 a) of Some bs \<Rightarrow> bs | None \<Rightarrow> [])"

definition address_word :: "string \<Rightarrow> bytes" where
  "address_word a = replicate 12 0 @ address_bytes a"

definition head_words :: "router_spec \<Rightarrow> router_fields \<Rightarrow> bytes list" where
  "head_words spec f =
     (if rs_native_input spec then [] else [uint_word (rf_amount_in f)])
     @ [uint_word (rf_amount_out_min f), uint_word (rs_head_words spec * 32), address_word (rf_recipient f),
        uint_word (rf_deadline f)]"

definition encode_payload :: "router_spec \<Rightarrow> router_fields \<Rightarrow> bytes" where
  "encode_payload spec f =
     concat (head_words spec f) @ uint_word (int (length (rf_path f))) @ concat (map address_word (rf_path f))"

definition encode_amounts :: "int list \<Rightarrow> bytes" where
  "encode_amounts xs = uint_word 32 @ uint_word (int (length xs)) @ concat (map uint_word xs)"

definition is_uint256 :: "int \<Rightarrow> bool" where
  "is_uint256 n \<longleftrightarrow> 0 \<le> n \<and> n < 2 ^ 256"

text \<open>An EVM address in canonical form.\<close>

definition canonical_evm_address :: "string \<Rightarrow> string \<Rightarrow> bool" where
  "canonical_evm_address chain a \<longleftrightarrow>
     (\<exists>cfg. get_chain (PStr chain) = Some cfg \<and> cc_family cfg = EVM) \<and> is_evm_address a \<and> lower a = a"

lemma length_uint_word [simp]: "length (uint_word n) = 32"
  by (simp add: uint_word_def)

lemma uint_word_bytes [simp]: "is_bytes (uint_word n)"
  by (simp add: uint_word_def)

lemma pow_256: "(256 :: nat) ^ 32 = 2 ^ 256"
  by (simp add: power_mult [of 2 8 32, simplified])

lemma uint_from_uint_word [simp]: "is_uint256 n \<Longrightarrow> uint_from_word (uint_word n) = Inr n"
proof -
  assume n: "is_uint256 n"
  then have "nat n < 256 ^ 32" unfolding pow_256 is_uint256_def by (simp add: nat_less_iff)
  then have "from_big_endian (to_big_endian 32 (nat n)) = nat n" by (rule big_endian_roundtrip)
  then show ?thesis using n by (simp add: uint_from_word_def uint_word_def is_uint256_def)
qed

lemma hex_lower_char: "is_hex c \<Longrightarrow> lower_char c = c \<Longrightarrow> hex_char (hex_val c) = c"
proof -
  assume h: "is_hex c" "lower_char c = c"
  have "\<not> (65 \<le> code_of c \<and> code_of c \<le> 70)"
  proof
    assume u: "65 \<le> code_of c \<and> code_of c \<le> 70"
    then have "code_of (lower_char c) = code_of c + 32" by (simp add: lower_char_def code_of_def)
    with h(2) show False by simp
  qed
  with h(1) have "48 \<le> code_of c \<and> code_of c \<le> 57 \<or> 97 \<le> code_of c \<and> code_of c \<le> 102"
    by (auto simp: is_hex_def Let_def)
  moreover have "char_of (code_of c) = c" by (simp add: code_of_def)
  ultimately show ?thesis by (auto simp: hex_char_def hex_val_def Let_def)
qed

lemma to_hex_from_hex:
  "list_all is_hex s \<Longrightarrow> lower s = s \<Longrightarrow> from_hex s = Some bs \<Longrightarrow> to_hex bs = s"
proof (induction s arbitrary: bs rule: induct_list012)
  case (2 c)
  then show ?case by (simp add: from_hex.simps(2))
next
  case (3 c d s)
  then obtain bs' where b: "from_hex s = Some bs'" "bs = (16 * hex_val c + hex_val d) # bs'" by auto
  have "to_hex bs' = s" using 3 b by (simp add: lower_def)
  moreover have "hex_val d < 16" using 3 hex_val_bound by simp
  ultimately show ?case using 3 b hex_lower_char [of c] hex_lower_char [of d] by (simp add: lower_def)
qed simp

lemma address_bytes:
  assumes "is_evm_address a" "lower a = a"
  shows "length (address_bytes a) = 20" "is_bytes (address_bytes a)" "''0x'' @ to_hex (address_bytes a) = a"
proof -
  have d: "length (drop 2 a) = 40" "list_all is_hex (drop 2 a)" "''0x'' @ drop 2 a = a"
    using assms(1) append_take_drop_id [of 2 a] by (auto simp: is_evm_address_def)
  have l: "lower (drop 2 a) = drop 2 a"
    using assms(2) by (metis lower_def drop_map)
  obtain bs where bs: "from_hex (drop 2 a) = Some bs" "length (drop 2 a) = 2 * length bs"
    using from_hex_hex [OF d(2)] unfolding d(1) by auto
  then have "address_bytes a = bs" by (simp add: address_bytes_def)
  with bs d to_hex_from_hex [OF d(2) l bs(1)] from_hex_bytes [OF bs(1)]
  show "length (address_bytes a) = 20" "is_bytes (address_bytes a)" "''0x'' @ to_hex (address_bytes a) = a"
    by simp_all
qed

lemma address_word_decodes:
  assumes "canonical_evm_address chain a"
  shows "length (address_word a) = 32" "is_bytes (address_word a)" "address_from_word chain (address_word a) = Inr a"
proof -
  obtain cfg where a: "get_chain (PStr chain) = Some cfg" "cc_family cfg = EVM" "is_evm_address a" "lower a = a"
    using assms by (auto simp: canonical_evm_address_def)
  note b = address_bytes [OF a(3,4)]
  show "length (address_word a) = 32" "is_bytes (address_word a)"
    using b by (auto simp: address_word_def is_bytes_def list_all_iff)
  have "canonical_chain_address (PStr chain) (PStr a) = Some a"
    using canonical_evm [OF a(1-3)] a(4) by simp
  then show "address_from_word chain (address_word a) = Inr a"
    using b by (simp add: address_from_word_def address_word_def list_ex_iff)
qed

lemma words_of_concat:
  "\<forall>w \<in> set ws. length w = 32 \<Longrightarrow> words_of (length ws) (concat ws @ rest) = ws"
  by (induction ws) simp_all

lemma length_concat_words: "\<forall>w \<in> set ws. length w = 32 \<Longrightarrow> length (concat ws) = 32 * length ws"
  by (induction ws) simp_all

lemma drop_concat_words:
  "\<forall>w \<in> set ws. length w = 32 \<Longrightarrow> i \<le> length ws \<Longrightarrow> drop (32 * i) (concat ws @ rest) = concat (drop i ws) @ rest"
proof (induction ws arbitrary: i)
  case (Cons w ws)
  then show ?case by (cases i) (simp_all add: drop_append)
qed simp

lemma word_at_concat:
  assumes "\<forall>w \<in> set ws. length w = 32" "i < length ws"
  shows "word_at (concat ws @ rest) (int i) = Inr (ws ! i)"
proof -
  have "take 32 (drop (32 * i) (concat ws @ rest)) = ws ! i"
    using drop_concat_words [OF assms(1), of i rest] assms by (simp add: Cons_nth_drop_Suc [symmetric])
  moreover have "nat (int i * 32) = 32 * i" by simp
  ultimately show ?thesis
    using length_concat_words [OF assms(1)] assms(2) by (simp add: word_at_def slice_def Let_def)
qed

lemma all_ok_map: "\<forall>x \<in> set xs. f (g x) = Inr x \<Longrightarrow> all_ok f (map g xs) = Inr xs"
  by (induction xs) simp_all

lemma array_decodes:
  assumes "\<forall>w \<in> set hs. length w = 32" "\<forall>a \<in> set path. canonical_evm_address chain a" "path \<noteq> []"
    and "int (length path) < 2 ^ 256"
  shows "address_array_at (concat hs @ uint_word (int (length path)) @ concat (map address_word path))
    (int (length hs) * 32) (int (length hs) * 32) chain True = Inr path"
proof -
  let ?raw = "concat hs @ uint_word (int (length path)) @ concat (map address_word path)"
  have ws: "\<forall>w \<in> set (map address_word path). length w = 32"
    using assms(2) address_word_decodes(1) by auto
  have n: "nat (int (length hs) * 32) = 32 * length hs" by simp
  have d: "drop (32 * length hs) ?raw = uint_word (int (length path)) @ concat (map address_word path)"
    using length_concat_words [OF assms(1)] by simp
  have d': "drop (32 * length hs + 32) ?raw = concat (map address_word path)"
    using d by (metis (no_types, lifting) append_eq_conv_conj drop_drop length_uint_word add.commute)
  have len: "int (length ?raw) = int (length hs) * 32 + 32 + int (length path) * 32"
    using length_concat_words [OF assms(1)] length_concat_words [OF ws] by simp
  have u: "uint_from_word (take 32 (uint_word (int (length path)) @ concat (map address_word path)))
      = Inr (int (length path))"
    using assms(4) by (simp add: is_uint256_def)
  have "all_ok (address_from_word chain) (words_of (length path) (concat (map address_word path))) = Inr path"
    using words_of_concat [OF ws, of "[]"] all_ok_map [of path "address_from_word chain" address_word]
      assms(2) address_word_decodes(3) by simp
  moreover have "nat (int (length hs) * 32 + 32) = 32 * length hs + 32" by simp
  ultimately show ?thesis
    using assms(3) len d d' u by (simp add: address_array_at_def slice_def n Let_def)
qed

text \<open>What the encoder accepts: every field in the range of its type, a path of two or more addresses.\<close>

definition encodable :: "string \<Rightarrow> router_spec \<Rightarrow> router_fields \<Rightarrow> int \<Rightarrow> bool" where
  "encodable chain spec f value \<longleftrightarrow>
     is_uint256 (rf_amount_out_min f) \<and> is_uint256 (rf_deadline f)
     \<and> (if rs_native_input spec then value = rf_amount_in f \<and> 0 \<le> value
        else value = 0 \<and> is_uint256 (rf_amount_in f))
     \<and> canonical_evm_address chain (rf_recipient f) \<and> list_all (canonical_evm_address chain) (rf_path f)
     \<and> 2 \<le> length (rf_path f) \<and> int (length (rf_path f)) < 2 ^ 256"

lemma router_layout:
  assumes "(selector, spec) \<in> set supported_routers"
  obtains (token) "\<not> rs_native_input spec" "rs_head_words spec = 5" "rs_amount_in spec = Some 0" "rs_min_out spec = 1"
      "rs_path spec = 2" "rs_recipient spec = 3" "rs_deadline spec = 4"
  | (native) "rs_native_input spec" "rs_head_words spec = 4" "rs_min_out spec = 0"
      "rs_path spec = 1" "rs_recipient spec = 2" "rs_deadline spec = 3"
  using assms by (auto simp: supported_routers_def)

lemma head_words_decode:
  assumes "(selector, spec) \<in> set supported_routers" "encodable chain spec f value"
  defines "payload \<equiv> encode_payload spec f"
  shows "int (length (head_words spec f)) = rs_head_words spec"
    and "router_amount_in spec payload value = Inr (rf_amount_in f)"
    and "uint_at payload (rs_min_out spec) = Inr (rf_amount_out_min f)"
    and "uint_at payload (rs_path spec) = Inr (rs_head_words spec * 32)"
    and "and_then (word_at payload (rs_recipient spec)) (address_from_word chain) = Inr (rf_recipient f)"
    and "uint_at payload (rs_deadline spec) = Inr (rf_deadline f)"
proof -
  note f = assms(2) [unfolded encodable_def]
  have c: "canonical_evm_address chain (rf_recipient f)" using f by simp
  have ws: "\<forall>w \<in> set (head_words spec f). length w = 32"
    using address_word_decodes(1) [OF c] by (auto simp: head_words_def)
  have at: "word_at payload i = Inr (head_words spec f ! nat i)" if "0 \<le> i" "nat i < length (head_words spec f)" for i
    using word_at_concat [OF ws that(2)] that(1) by (simp add: payload_def encode_payload_def)
  note e = address_word_decodes(3) [OF c]
  have small: "is_uint256 128" "is_uint256 160" by (simp_all add: is_uint256_def)
  have "int (length (head_words spec f)) = rs_head_words spec
      \<and> router_amount_in spec payload value = Inr (rf_amount_in f)
      \<and> uint_at payload (rs_min_out spec) = Inr (rf_amount_out_min f)
      \<and> uint_at payload (rs_path spec) = Inr (rs_head_words spec * 32)
      \<and> and_then (word_at payload (rs_recipient spec)) (address_from_word chain) = Inr (rf_recipient f)
      \<and> uint_at payload (rs_deadline spec) = Inr (rf_deadline f)"
    using assms(1)
  proof (cases rule: router_layout)
    case token
    then have hw: "head_words spec f = [uint_word (rf_amount_in f), uint_word (rf_amount_out_min f), uint_word 160,
        address_word (rf_recipient f), uint_word (rf_deadline f)]"
      by (simp add: head_words_def)
    have w: "word_at payload 0 = Inr (uint_word (rf_amount_in f))"
      "word_at payload 1 = Inr (uint_word (rf_amount_out_min f))" "word_at payload 2 = Inr (uint_word 160)"
      "word_at payload 3 = Inr (address_word (rf_recipient f))" "word_at payload 4 = Inr (uint_word (rf_deadline f))"
      using at [of 0] at [of 1] at [of 2] at [of 3] at [of 4] by (simp_all add: hw)
    show ?thesis using token f by (simp add: hw w e small uint_at_def router_amount_in_def)
  next
    case native
    then have hw: "head_words spec f = [uint_word (rf_amount_out_min f), uint_word 128,
        address_word (rf_recipient f), uint_word (rf_deadline f)]"
      by (simp add: head_words_def)
    have w: "word_at payload 0 = Inr (uint_word (rf_amount_out_min f))" "word_at payload 1 = Inr (uint_word 128)"
      "word_at payload 2 = Inr (address_word (rf_recipient f))" "word_at payload 3 = Inr (uint_word (rf_deadline f))"
      using at [of 0] at [of 1] at [of 2] at [of 3] by (simp_all add: hw)
    show ?thesis using native f by (simp add: hw w e small uint_at_def router_amount_in_def)
  qed
  then show "int (length (head_words spec f)) = rs_head_words spec"
    and "router_amount_in spec payload value = Inr (rf_amount_in f)"
    and "uint_at payload (rs_min_out spec) = Inr (rf_amount_out_min f)"
    and "uint_at payload (rs_path spec) = Inr (rs_head_words spec * 32)"
    and "and_then (word_at payload (rs_recipient spec)) (address_from_word chain) = Inr (rf_recipient f)"
    and "uint_at payload (rs_deadline spec) = Inr (rf_deadline f)"
    by simp_all
qed

lemma decode_encode_payload:
  assumes "(selector, spec) \<in> set supported_routers" "encodable chain spec f value"
  shows "decode_payload chain spec (encode_payload spec f) value = Inr f"
proof -
  note d = head_words_decode [OF assms]
  note f = assms(2) [unfolded encodable_def]
  have c: "canonical_evm_address chain (rf_recipient f)" using f by simp
  have ws: "\<forall>w \<in> set (head_words spec f). length w = 32"
    using address_word_decodes(1) [OF c] by (auto simp: head_words_def)
  have path: "address_array_at (encode_payload spec f) (rs_head_words spec * 32) (rs_head_words spec * 32) chain True
      = Inr (rf_path f)"
    unfolding encode_payload_def d(1) [symmetric]
    using f by (intro array_decodes [OF ws]) (auto simp: list_all_iff)
  have len: "rs_head_words spec * 32 \<le> int (length (encode_payload spec f))"
    using length_concat_words [OF ws] d(1) by (simp add: encode_payload_def)
  have val: "rs_native_input spec \<or> value = 0" using f by (auto split: if_splits)
  show ?thesis
    using d(2-) path len val f by (auto simp: decode_payload_def Let_def)
qed

lemma payload_bytes:
  assumes "(selector, spec) \<in> set supported_routers" "encodable chain spec f value"
  shows "is_bytes (encode_payload spec f)"
proof -
  note f = assms(2) [unfolded encodable_def]
  have "is_bytes (address_word (rf_recipient f))" using address_word_decodes(2) f by blast
  moreover have "\<forall>a \<in> set (rf_path f). is_bytes (address_word a)"
    using address_word_decodes(2) f by (auto simp: list_all_iff)
  moreover have "\<forall>w \<in> set ws. is_bytes w \<Longrightarrow> is_bytes (concat ws)" for ws
    by (induction ws) simp_all
  ultimately show ?thesis by (auto simp: encode_payload_def head_words_def)
qed

lemma selector_bytes:
  assumes "(selector, spec) \<in> set supported_routers"
  obtains sb where "to_hex sb = selector" "length sb = 4" "is_bytes sb"
proof -
  have h: "to_hex [0x38, 0xed, 0x17, 0x39] = ''38ed1739''" "to_hex [0x18, 0xcb, 0xaf, 0xe5] = ''18cbafe5''"
    "to_hex [0x7f, 0xf3, 0x6a, 0xb5] = ''7ff36ab5''"
    by code_simp+
  from assms consider "selector = ''38ed1739''" | "selector = ''18cbafe5''" | "selector = ''7ff36ab5''"
    by (auto simp: supported_routers_def)
  then show thesis
  proof cases
    case 1 then show thesis by (intro that [of "[0x38, 0xed, 0x17, 0x39]"]) (simp_all only: h, simp_all)
  next
    case 2 then show thesis by (intro that [of "[0x18, 0xcb, 0xaf, 0xe5]"]) (simp_all only: h, simp_all)
  next
    case 3 then show thesis by (intro that [of "[0x7f, 0xf3, 0x6a, 0xb5]"]) (simp_all only: h, simp_all)
  qed
qed

text \<open>Words and numbers: every word is the encoding of its number.\<close>

lemma uint_word_back: "is_bytes w \<Longrightarrow> length w = 32 \<Longrightarrow> uint_word (int (from_big_endian w)) = w"
  using big_endian_back [of w] by (simp add: uint_word_def)

lemma word_is_uint256: "is_bytes w \<Longrightarrow> length w = 32 \<Longrightarrow> is_uint256 (int (from_big_endian w))"
  using from_big_endian_bound [of w] by (simp add: is_uint256_def pow_256 of_nat_less_iff flip: of_nat_power)

lemma words_of_back:
  "is_bytes raw \<Longrightarrow> length raw = 32 * k \<Longrightarrow>
     concat (map uint_word (map (\<lambda>w. int (from_big_endian w)) (words_of k raw))) = raw
     \<and> length (words_of k raw) = k \<and> list_all (\<lambda>w. is_bytes w \<and> length w = 32) (words_of k raw)"
proof (induction k arbitrary: raw)
  case (Suc k)
  have "uint_word (int (from_big_endian (take 32 raw))) = take 32 raw"
    using Suc.prems by (intro uint_word_back) simp_all
  with Suc.IH [of "drop 32 raw"] Suc.prems show ?case by simp
qed simp

lemma uint_words_back:
  assumes "is_bytes raw" "length raw mod 32 = 0"
  shows "concat (map uint_word (uint_words raw)) = raw" "list_all is_uint256 (uint_words raw)"
    "32 * length (uint_words raw) = length raw"
proof -
  have k: "length raw = 32 * (length raw div 32)" using assms(2) by presburger
  note b = words_of_back [OF assms(1) k]
  show "concat (map uint_word (uint_words raw)) = raw" using b unfolding uint_words_def by blast
  have "list_all (\<lambda>w. is_bytes w \<and> length w = 32) (words_of (length raw div 32) raw)" using b by blast
  then have "list_all (\<lambda>w. is_uint256 (int (from_big_endian w))) (words_of (length raw div 32) raw)"
    by (rule list.pred_mono_strong) (rule word_is_uint256, simp_all only:)
  then show "list_all is_uint256 (uint_words raw)" by (simp only: uint_words_def list.pred_map o_def)
  show "32 * length (uint_words raw) = length raw"
    using b unfolding uint_words_def length_map by (simp add: k [symmetric])
qed

lemma uint_words_encode: "list_all is_uint256 xs \<Longrightarrow> uint_words (concat (map uint_word xs)) = xs"
proof -
  assume xs: "list_all is_uint256 xs"
  have ws: "\<forall>w \<in> set (map uint_word xs). length w = 32" by simp
  have "int (from_big_endian (uint_word x)) = x" if "x \<in> set xs" for x
    using uint_from_uint_word [of x] xs that by (simp add: uint_from_word_def list_all_iff)
  then show ?thesis
    using words_of_concat [OF ws, of "[]"] length_concat_words [OF ws]
    by (simp add: uint_words_def map_idI)
qed

lemma decode_amounts_iff:
  assumes "is_bytes raw"
  shows "decode_amounts raw count input = Inr xs \<longleftrightarrow>
    raw = encode_amounts xs \<and> xs \<noteq> [] \<and> list_all is_uint256 xs \<and> int (length xs) < 2 ^ 256
    \<and> count \<in> {None, Some (int (length xs))} \<and> input \<in> {None, Some (hd xs)}" (is "?l \<longleftrightarrow> ?r")
proof
  assume ?l
  then have d: "64 \<le> length raw" "length raw mod 32 = 0" "from_big_endian (take 32 raw) = 32"
    "64 + int (from_big_endian (take 32 (drop 32 raw))) * 32 = int (length raw)"
    "xs = uint_words (drop 64 raw)" "xs \<noteq> []"
    "count \<in> {None, Some (int (from_big_endian (take 32 (drop 32 raw))))}" "input \<in> {None, Some (hd xs)}"
    by (auto simp: decode_amounts_def Let_def split: option.splits)
  have m: "length (drop 64 raw) mod 32 = 0" using d(1,2) by simp presburger
  note w = uint_words_back [OF is_bytes_take(2) [OF assms] m]
  have h: "uint_word (int (from_big_endian (take 32 raw))) = take 32 raw"
    "uint_word (int (from_big_endian (take 32 (drop 32 raw)))) = take 32 (drop 32 raw)"
    "is_uint256 (int (from_big_endian (take 32 (drop 32 raw))))"
    using assms d(1) by (simp_all add: uint_word_back word_is_uint256)
  have n: "int (length xs) = int (from_big_endian (take 32 (drop 32 raw)))"
    using w(3) d(1,4) by (simp add: d(5))
  have "raw = take 32 raw @ take 32 (drop 32 raw) @ drop 64 raw"
    by (metis append_take_drop_id drop_drop numeral_Bit0)
  moreover have "encode_amounts xs = take 32 raw @ take 32 (drop 32 raw) @ drop 64 raw"
    using h(1,2) w(1) unfolding encode_amounts_def n d(3) d(5) [symmetric] by simp
  ultimately have "raw = encode_amounts xs" by (rule trans [OF _ sym])
  moreover have "int (length xs) < 2 ^ 256" using h(3) unfolding n by (simp add: is_uint256_def)
  moreover have "list_all is_uint256 xs" using w(2) unfolding d(5) .
  ultimately show ?r using d(6-8) unfolding n by blast
next
  assume r: ?r
  have len: "length raw = 64 + 32 * length xs"
    using r length_concat_words [of "map uint_word xs"] by (simp add: encode_amounts_def)
  have w: "int (from_big_endian (uint_word n)) = n" if "is_uint256 n" for n
    using uint_from_uint_word [OF that] by (simp add: uint_from_word_def)
  have "is_uint256 32" "is_uint256 (int (length xs))" using r by (simp_all add: is_uint256_def)
  then have "from_big_endian (take 32 raw) = 32" "from_big_endian (take 32 (drop 32 raw)) = length xs"
    "uint_words (drop 64 raw) = xs"
    using r w [of 32] w [of "int (length xs)"] uint_words_encode [of xs] by (simp_all add: encode_amounts_def)
  with r len show ?l by (auto simp: decode_amounts_def Let_def)
qed

section \<open>Properties\<close>

text \<open>
  C32: For each supported selector, the calldata of a swap decodes to exactly the fields that were
  encoded: the amounts, the path, the recipient and the deadline, with the native amount taken from
  the transaction's value.
\<close>

theorem router_calldata_roundtrip:
  assumes "(selector, spec) \<in> set supported_routers" "encodable chain spec f value"
  shows "decode_router_calldata chain (''0x'' @ selector @ to_hex (encode_payload spec f)) value =
    Inr \<lparr>rc_selector = selector, rc_signature = Some (rs_signature spec), rc_family = Some (rs_family spec),
         rc_amount_in = Some (rf_amount_in f), rc_amount_out_min = Some (rf_amount_out_min f),
         rc_path = rf_path f, rc_recipient = Some (rf_recipient f), rc_deadline = Some (rf_deadline f),
         rc_status = ''SUPPORTED_ROUTER_CALLDATA_SEMANTICS'', rc_issues = []\<rparr>"
proof -
  obtain sb where sb: "to_hex sb = selector" "length sb = 4" "is_bytes sb" using selector_bytes [OF assms(1)] .
  let ?p = "encode_payload spec f"
  have hex: "from_hex (selector @ to_hex ?p) = Some (sb @ ?p)"
    using from_hex_to_hex [of "sb @ ?p"] payload_bytes [OF assms] sb by (simp add: to_hex_append)
  have len: "length (selector @ to_hex ?p) = 2 * length (sb @ ?p)" using sb by (simp flip: sb(1))
  have spec: "map_of supported_routers selector = Some spec"
    using assms(1) by (auto simp: supported_routers_def)
  have "0 \<le> value" using assms(2) by (auto simp: encodable_def split: if_splits)
  then show ?thesis
    using hex len spec sb decode_encode_payload [OF assms] by (simp add: decode_router_calldata_def Let_def)
qed

lemma router_calldata_roundtrip_witness:
  "decode_router_calldata ''base'' (''0x'' @ ''7ff36ab5'' @ to_hex (encode_payload (snd (supported_routers ! 2))
       \<lparr>rf_amount_in = 7, rf_amount_out_min = 5,
        rf_path = [''0x'' @ replicate 40 (CHR ''1''), ''0x'' @ replicate 40 (CHR ''a'')],
        rf_recipient = ''0x'' @ replicate 40 (CHR ''b''), rf_deadline = 99\<rparr>)) 7
     \<noteq> decode_router_calldata ''base'' ''0x00000000'' 7"
proof -
  let ?spec = "snd (supported_routers ! 2)"
  let ?f = "\<lparr>rf_amount_in = 7, rf_amount_out_min = 5,
        rf_path = [''0x'' @ replicate 40 (CHR ''1''), ''0x'' @ replicate 40 (CHR ''a'')],
        rf_recipient = ''0x'' @ replicate 40 (CHR ''b''), rf_deadline = 99\<rparr>"
  have spec: "(''7ff36ab5'', ?spec) \<in> set supported_routers" by (simp add: supported_routers_def)
  have "canonical_evm_address ''base'' (''0x'' @ replicate 40 c)" if "c \<in> set ''1ab''" for c
  proof -
    have "map_option cc_family (get_chain (PStr ''base'')) = Some EVM" by code_simp
    with that show ?thesis
      by (auto simp: canonical_evm_address_def is_evm_address_def list_all_iff is_hex_def code_of_def lower_def
          lower_char_def)
  qed
  then have "encodable ''base'' ?spec ?f 7"
    by (simp add: encodable_def supported_routers_def is_uint256_def)
  note r = router_calldata_roundtrip [OF spec this]
  have other: "(case decode_router_calldata ''base'' ''0x00000000'' 7 of Inr x \<Rightarrow> rc_status x | Inl e \<Rightarrow> [])
      = ''UNSUPPORTED_ROUTER_SELECTOR''"
    by code_simp
  show ?thesis unfolding r
  proof
    assume "Inr \<lparr>rc_selector = ''7ff36ab5'', rc_signature = Some (rs_signature ?spec),
        rc_family = Some (rs_family ?spec), rc_amount_in = Some (rf_amount_in ?f),
        rc_amount_out_min = Some (rf_amount_out_min ?f), rc_path = rf_path ?f,
        rc_recipient = Some (rf_recipient ?f), rc_deadline = Some (rf_deadline ?f),
        rc_status = ''SUPPORTED_ROUTER_CALLDATA_SEMANTICS'', rc_issues = []\<rparr>
      = decode_router_calldata ''base'' ''0x00000000'' 7"
    from this [symmetric] other show False by simp
  qed
qed

text \<open>
  C33: Router output is decoded exactly when it is the canonical encoding of a non-empty list of
  256-bit amounts with the expected count and the expected input, and then gives these amounts.
\<close>

theorem router_output_decodes_iff:
  assumes "is_bytes raw"
  shows "(ro_status (decode_uint256_array_output (Some (''0x'' @ to_hex raw)) count input minimum)
       = ''DECODED_UINT256_ARRAY_OUTPUT''
     \<and> ro_amounts (decode_uint256_array_output (Some (''0x'' @ to_hex raw)) count input minimum) = xs) \<longleftrightarrow>
    raw = encode_amounts xs \<and> xs \<noteq> [] \<and> list_all is_uint256 xs \<and> int (length xs) < 2 ^ 256
    \<and> count \<in> {None, Some (int (length xs))} \<and> input \<in> {None, Some (hd xs)}"
  unfolding decode_amounts_iff [OF assms, symmetric]
  by (cases "decode_amounts raw count input")
    (auto simp: decode_uint256_array_output_def from_hex_to_hex [OF assms] ro_failed_def)

theorem router_output_decodes_iff_witness:
  "ro_status (decode_uint256_array_output (Some (''0x'' @ to_hex (encode_amounts [7, 9]))) (Some 2) (Some 7) None)
     = ''DECODED_UINT256_ARRAY_OUTPUT''"
proof -
  have "is_bytes (encode_amounts [7, 9])" by (simp add: encode_amounts_def)
  from router_output_decodes_iff [OF this, of "Some 2" "Some 7" None "[7, 9]"] show ?thesis
    by (simp add: is_uint256_def)
qed

end
