(* ===== verification/Sha_256.thy ===== *)
theory Sha_256
  imports Evm_Base "HOL-Library.Word"
begin

unbundle bit_operations_syntax

text \<open>
  \<^verbatim>\<open>hashlib.sha256\<close>, the digest that the evidence modules use for provider labels, bytecode
  fingerprints and alert identifiers: the padding, the message schedule and the 64 rounds of
  FIPS 180-4 on 32 bit words.
\<close>

type_synonym word32 = "32 word"

text \<open>The fractional parts of the cube roots of the first 64 primes, in units of $2^{-32}$.\<close>

definition sha_constants :: "word32 list" where
  "sha_constants =
    [1116352408, 1899447441, 3049323471, 3921009573, 961987163, 1508970993, 2453635748, 2870763221,
     3624381080, 310598401, 607225278, 1426881987, 1925078388, 2162078206, 2614888103, 3248222580,
     3835390401, 4022224774, 264347078, 604807628, 770255983, 1249150122, 1555081692, 1996064986,
     2554220882, 2821834349, 2952996808, 3210313671, 3336571891, 3584528711, 113926993, 338241895,
     666307205, 773529912, 1294757372, 1396182291, 1695183700, 1986661051, 2177026350, 2456956037,
     2730485921, 2820302411, 3259730800, 3345764771, 3516065817, 3600352804, 4094571909, 275423344,
     430227734, 506948616, 659060556, 883997877, 958139571, 1322822218, 1537002063, 1747873779,
     1955562222, 2024104815, 2227730452, 2361852424, 2428436474, 2756734187, 3204031479, 3329325298]"

definition sha_start :: "word32 list" where
  "sha_start =
    [0x6a09e667, 0xbb67ae85, 0x3c6ef372, 0xa54ff53a, 0x510e527f, 0x9b05688c, 0x1f83d9ab, 0x5be0cd19]"

definition small_sigma0 :: "word32 \<Rightarrow> word32" where
  "small_sigma0 x = word_rotr 7 x XOR word_rotr 18 x XOR drop_bit 3 x"

definition small_sigma1 :: "word32 \<Rightarrow> word32" where
  "small_sigma1 x = word_rotr 17 x XOR word_rotr 19 x XOR drop_bit 10 x"

definition big_sigma0 :: "word32 \<Rightarrow> word32" where
  "big_sigma0 x = word_rotr 2 x XOR word_rotr 13 x XOR word_rotr 22 x"

definition big_sigma1 :: "word32 \<Rightarrow> word32" where
  "big_sigma1 x = word_rotr 6 x XOR word_rotr 11 x XOR word_rotr 25 x"

text \<open>The schedule, the latest word first.\<close>

fun sha_extend :: "nat \<Rightarrow> word32 list \<Rightarrow> word32 list" where
  "sha_extend 0 ws = ws"
| "sha_extend (Suc n) ws =
     sha_extend n ((small_sigma1 (ws ! 1) + ws ! 6 + small_sigma0 (ws ! 14) + ws ! 15) # ws)"

definition sha_schedule :: "word32 list \<Rightarrow> word32 list" where
  "sha_schedule block = rev (sha_extend 48 (rev block))"

fun sha_round :: "word32 list \<Rightarrow> word32 \<times> word32 \<Rightarrow> word32 list" where
  "sha_round [a, b, c, d, e, f, g, h] (k, w) =
    (let t1 = h + big_sigma1 e + ((e AND f) XOR (NOT e AND g)) + k + w;
         t2 = big_sigma0 a + ((a AND b) XOR (a AND c) XOR (b AND c))
     in [t1 + t2, a, b, c, d + t1, e, f, g])"
| "sha_round state _ = state"

definition sha_compress :: "word32 list \<Rightarrow> word32 list \<Rightarrow> word32 list" where
  "sha_compress state block = map2 (+) state (foldl sha_round state (zip sha_constants (sha_schedule block)))"

definition sha_pad :: "bytes \<Rightarrow> bytes" where
  "sha_pad bs = bs @ [128] @ replicate ((119 - length bs mod 64) mod 64) 0 @ to_big_endian 8 (8 * length bs)"

fun sha_blocks :: "nat \<Rightarrow> bytes \<Rightarrow> bytes list" where
  "sha_blocks 0 bs = []"
| "sha_blocks (Suc n) bs = take 64 bs # sha_blocks n (drop 64 bs)"

definition word_of_bytes :: "bytes \<Rightarrow> word32" where
  "word_of_bytes bs = foldl (\<lambda>w b. push_bit 8 w OR of_nat b) 0 bs"

definition bytes_of_word :: "word32 \<Rightarrow> bytes" where
  "bytes_of_word w = map (\<lambda>i. unat (drop_bit i w AND 255)) [24, 16, 8, 0]"

fun sha_words :: "nat \<Rightarrow> bytes \<Rightarrow> word32 list" where
  "sha_words 0 bs = []"
| "sha_words (Suc n) bs = word_of_bytes (take 4 bs) # sha_words n (drop 4 bs)"

definition sha256 :: "bytes \<Rightarrow> bytes" where
  "sha256 bs =
    (let p = sha_pad bs; blocks = map (sha_words 16) (sha_blocks (length p div 64) p)
     in concat (map bytes_of_word (foldl sha_compress sha_start blocks)))"

definition sha256_hex :: "bytes \<Rightarrow> string" where
  "sha256_hex bs = to_hex (sha256 bs)"

text \<open>\<^verbatim>\<open>s.encode("utf-8")\<close> for characters below 256.\<close>

definition utf8 :: "string \<Rightarrow> bytes" where
  "utf8 s = concat (map (\<lambda>c. let n = code_of c in if n < 128 then [n] else [192 + n div 64, 128 + n mod 64]) s)"

lemma sha_round_length [simp]: "length (sha_round state kw) = length state"
  by (cases "(state, kw)" rule: sha_round.cases) (simp_all add: Let_def)

lemma sha_rounds_length [simp]: "length (foldl sha_round state kws) = length state"
  by (induction kws arbitrary: state) simp_all

lemma sha_compress_length [simp]: "length (sha_compress state block) = length state"
  by (simp add: sha_compress_def)

lemma sha_compress_all_length [simp]: "length (foldl sha_compress state blocks) = length state"
  by (induction blocks arbitrary: state) simp_all

lemma sha256_length [simp]: "length (sha256 bs) = 32"
proof -
  have "length (concat (map bytes_of_word ws)) = 4 * length ws" for ws
    by (induction ws) (simp_all add: bytes_of_word_def)
  then show ?thesis by (simp add: sha256_def Let_def sha_start_def)
qed

lemma sha256_bytes [simp]: "is_bytes (sha256 bs)"
proof -
  have "unat (w AND 255) < 256" for w :: word32
    using word_and_le1 [of w 255] by (simp add: word_le_nat_alt)
  then have "is_bytes (concat (map bytes_of_word ws))" for ws
    by (induction ws) (simp_all add: bytes_of_word_def)
  then show ?thesis by (simp only: sha256_def Let_def)
qed

lemma sha256_hex_length [simp]: "length (sha256_hex bs) = 64"
  by (simp add: sha256_hex_def)

lemma sha256_hex_chars: "list_all is_hex (sha256_hex bs)"
  by (simp add: sha256_hex_def to_hex_hex)

text \<open>The padded message is a whole number of blocks.\<close>

lemma sha_pad_length: "length (sha_pad bs) mod 64 = 0"
proof -
  define q r where "q = length bs div 64" and "r = length bs mod 64"
  have l: "length bs = 64 * q + r" and r: "r < 64" by (simp_all add: q_def r_def)
  have p: "length (sha_pad bs) = length bs + 9 + (119 - r) mod 64" by (simp add: sha_pad_def r_def)
  show ?thesis
  proof (cases "r \<le> 55")
    case True
    then have "119 - r = 64 + (55 - r)" by simp
    then have "(119 - r) mod 64 = 55 - r" using True by (simp only: mod_add_self1) simp
    then have "length (sha_pad bs) = 64 * (q + 1)" using p l True by simp
    then show ?thesis by (simp only: mod_mult_self1_is_0)
  next
    case False
    then have "(119 - r) mod 64 = 119 - r" by simp
    then have "length (sha_pad bs) = 64 * (q + 2)" using p l r False by simp
    then show ?thesis by (simp only: mod_mult_self1_is_0)
  qed
qed

text \<open>The test vector of FIPS 180-4.\<close>

lemma sha256_test_vector:
  "sha256_hex (utf8 ''abc'') = ''ba7816bf8f01cfea414140de5dae2223b00361a396177a9cb410ff61f20015ad''"
  by code_simp

end
