(* ===== verification/Evm_Rpc.thy ===== *)
theory Evm_Rpc
  imports Evm_Base
begin

text \<open>
  The read-only JSON-RPC observer (\<^verbatim>\<open>evm_rpc.py\<close>). The transport is a parameter: a function from
  the endpoint, the request and the timeout to a decoded JSON value. Requests carry a fresh id each,
  so a function loses nothing over a network that answers the same question differently later.
\<close>

section \<open>Hexadecimal values\<close>

fun hex_digits :: "nat \<Rightarrow> string" where
  "hex_digits n = (if n < 16 then [hex_char n] else hex_digits (n div 16) @ [hex_char (n mod 16)])"

declare hex_digits.simps [simp del]

text \<open>\<^verbatim>\<open>hex(n)\<close>\<close>

definition py_hex :: "int \<Rightarrow> string" where
  "py_hex n = (if n < 0 then ''-0x'' else ''0x'') @ hex_digits (nat \<bar>n\<bar>)"

definition is_hex_data :: "pyval \<Rightarrow> nat option \<Rightarrow> bool" where
  "is_hex_data value byte_count \<longleftrightarrow>
     (case value of
        PStr s \<Rightarrow> take 2 s = ''0x'' \<and> even (length s) \<and> list_all is_hex (drop 2 s)
          \<and> (case byte_count of None \<Rightarrow> True | Some n \<Rightarrow> length s = 2 + 2 * n)
      | _ \<Rightarrow> False)"

text \<open>The regular expression of an EIP-1474 quantity.\<close>

definition is_quantity :: "string \<Rightarrow> bool" where
  "is_quantity s \<longleftrightarrow> take 2 s = ''0x''
     \<and> (drop 2 s = ''0'' \<or> drop 2 s \<noteq> [] \<and> hd (drop 2 s) \<noteq> CHR ''0'' \<and> list_all is_hex (drop 2 s))"

definition hex_int :: "pyval \<Rightarrow> string \<Rightarrow> int evm" where
  "hex_int value field =
    (let bad = Inl (Rpc_Error (''invalid '' @ field @ '' response'')) in
     case value of
       PStr s \<Rightarrow> if is_quantity s
         then (case int_base16 s of Some n \<Rightarrow> Inr n | None \<Rightarrow> Inl (Value_Error []))
         else bad
     | _ \<Rightarrow> bad)"

section \<open>The observer\<close>

type_synonym transport = "string \<Rightarrow> pyval \<Rightarrow> pyfloat \<Rightarrow> pyval evm"

record evm_rpc =
  rpc_chain :: chain_config
  rpc_url :: string
  rpc_timeout :: pyfloat
  rpc_transport :: transport
  rpc_next_id :: int

text \<open>\<^verbatim>\<open>unique_json_object\<close>: the pairs of one JSON object, in order.\<close>

fun unique_json_object :: "pydict \<Rightarrow> pydict \<Rightarrow> pydict evm" where
  "unique_json_object result [] = Inr result"
| "unique_json_object result ((k, v) # kvs) =
     raise_if (has_key result k) (Value_Error ''duplicate JSON member'')
       (unique_json_object (AList.update k v result) kvs)"

text \<open>
  \<^verbatim>\<open>decode_rpc_response\<close>, with the JSON parser as a parameter: it is handed the hook that builds
  objects and gives the decoded value or an error.
\<close>

definition decode_rpc_response :: "((pydict \<Rightarrow> pydict evm) \<Rightarrow> bytes \<Rightarrow> pyval evm) \<Rightarrow> bytes \<Rightarrow> pyval evm" where
  "decode_rpc_response parse body =
    (case parse (unique_json_object []) body of
       Inl e \<Rightarrow> (case e of Value_Error _ \<Rightarrow> Inl (Rpc_Error ''RPC returned invalid JSON'') | _ \<Rightarrow> Inl e)
     | Inr decoded \<Rightarrow>
         raise_if (\<not> is_dict decoded) (Rpc_Error ''RPC returned non-object response'') (Inr decoded))"

definition starts_with :: "string \<Rightarrow> string \<Rightarrow> bool" where
  "starts_with p s \<longleftrightarrow> take (length p) s = p"

definition resolve_rpc_url :: "(string \<Rightarrow> string option) \<Rightarrow> pyval \<Rightarrow> string evm" where
  "resolve_rpc_url env chain_key =
    (let unsupported = Inl (Rpc_Error (''unsupported EVM chain: '' @ py_repr chain_key)) in
     case get_chain chain_key of
       None \<Rightarrow> unsupported
     | Some chain \<Rightarrow>
         if cc_family chain \<noteq> EVM then unsupported
         else
           (let configured = (case cc_rpc_env chain of
                   Some name \<Rightarrow> if name = [] then [] else strip (case env name of Some v \<Rightarrow> v | None \<Rightarrow> [])
                 | None \<Rightarrow> []);
                url = (if configured \<noteq> [] then configured
                       else case cc_default_rpc_url chain of Some u \<Rightarrow> u | None \<Rightarrow> [])
            in raise_if (\<not> starts_with ''https://'' url)
                 (Rpc_Error (''no trusted HTTPS RPC configured for '' @ cc_key chain)) (Inr url)))"

fun timeout_refused :: "pyfloat \<Rightarrow> bool" where
  "timeout_refused (Fin t) \<longleftrightarrow> t \<le> 0 \<or> 30 < t"
| "timeout_refused PosInf \<longleftrightarrow> True"
| "timeout_refused NegInf \<longleftrightarrow> True"
| "timeout_refused NotANumber \<longleftrightarrow> False"

definition make_rpc :: "(string \<Rightarrow> string option) \<Rightarrow> pyval \<Rightarrow> pyfloat \<Rightarrow> transport \<Rightarrow> evm_rpc evm" where
  "make_rpc env chain_key timeout transport =
    (case get_chain chain_key of
       None \<Rightarrow> Inl (Rpc_Error (''unsupported EVM chain: '' @ py_repr chain_key))
     | Some chain \<Rightarrow>
         raise_if (cc_family chain \<noteq> EVM \<or> cc_chain_id chain = None)
           (Rpc_Error (''unsupported EVM chain: '' @ py_repr chain_key))
         (raise_if (timeout_refused timeout) (Value_Error ''timeout must be > 0 and <= 30 seconds'')
         (and_then (resolve_rpc_url env (PStr (cc_key chain))) (\<lambda>url.
           Inr \<lparr>rpc_chain = chain, rpc_url = url, rpc_timeout = timeout, rpc_transport = transport,
                rpc_next_id = 1\<rparr>))))"

text \<open>What an operation does: an answer or an error, and the observer afterwards.\<close>

type_synonym 'a observing = "evm_rpc \<Rightarrow> 'a evm \<times> evm_rpc"

definition obs_then :: "'a observing \<Rightarrow> ('a \<Rightarrow> 'b observing) \<Rightarrow> 'b observing" where
  "obs_then m f rpc = (case m rpc of (Inl e, rpc') \<Rightarrow> (Inl e, rpc') | (Inr x, rpc') \<Rightarrow> f x rpc')"

definition obs_lift :: "'a evm \<Rightarrow> 'a observing" where
  "obs_lift r rpc = (r, rpc)"

definition obs_raise_if :: "bool \<Rightarrow> evm_error \<Rightarrow> 'a observing \<Rightarrow> 'a observing" where
  "obs_raise_if c e m rpc = (if c then (Inl e, rpc) else m rpc)"

definition allowed_methods :: "string list" where
  "allowed_methods = [''eth_chainId'', ''eth_blockNumber'', ''eth_getBlockByNumber'', ''eth_getLogs'',
     ''eth_getCode'', ''eth_call'', ''eth_getStorageAt'']"

definition rpc_request :: "int \<Rightarrow> string \<Rightarrow> pyval list \<Rightarrow> pyval" where
  "rpc_request rpc_id rpc_method params =
     PDict [(''jsonrpc'', PStr ''2.0''), (''id'', PInt rpc_id), (''method'', PStr rpc_method), (''params'', PList params)]"

text \<open>\<^verbatim>\<open>type(v) in (int, float)\<close> and \<^verbatim>\<open>v == n\<close>: a bool is no id.\<close>

definition is_rpc_id :: "pyval \<Rightarrow> int \<Rightarrow> bool" where
  "is_rpc_id v n \<longleftrightarrow> \<not> is_bool v \<and> eq_int v n"

definition read_envelope :: "int \<Rightarrow> string \<Rightarrow> pyval \<Rightarrow> pyval evm" where
  "read_envelope rpc_id rpc_method response =
    (case response of
       PDict d \<Rightarrow>
         raise_if (\<not> eq_str (dget d ''jsonrpc'') ''2.0'' \<or> \<not> is_rpc_id (dget d ''id'') rpc_id)
           (Rpc_Error ''RPC response envelope mismatch'')
         (if has_key d ''error''
          then Inl (Rpc_Error (if has_key d ''result'' then ''RPC response contains both result and error''
                               else ''RPC returned error for '' @ rpc_method))
          else raise_if (\<not> has_key d ''result'') (Rpc_Error (''RPC result missing for '' @ rpc_method))
                 (Inr (dget d ''result'')))
     | _ \<Rightarrow> Inl (Rpc_Error ''RPC response envelope mismatch''))"

definition rpc_call :: "string \<Rightarrow> pyval list \<Rightarrow> pyval observing" where
  "rpc_call rpc_method params rpc =
    (if rpc_method \<notin> set allowed_methods
     then (Inl (Rpc_Error (''RPC method not allowed in read-only client: '' @ rpc_method)), rpc)
     else
       (let rpc_id = rpc_next_id rpc;
            response = rpc_transport rpc (rpc_url rpc) (rpc_request rpc_id rpc_method params) (rpc_timeout rpc)
        in (and_then response (read_envelope rpc_id rpc_method), rpc\<lparr>rpc_next_id := rpc_id + 1\<rparr>)))"

text \<open>
  An integer in a message: one of more than 4300 digits raises a \<^verbatim>\<open>ValueError\<close> instead of the error
  that was to carry the message.
\<close>

definition digits_error :: evm_error where
  "digits_error = Value_Error
     ''Exceeds the limit (4300 digits) for integer string conversion; use sys.set_int_max_str_digits() to increase the limit''"

definition int_text :: "int \<Rightarrow> string evm" where
  "int_text n = raise_if (text_limit \<le> \<bar>n\<bar>) digits_error (Inr (dec_int n))"

definition attest_chain :: "int observing" where
  "attest_chain rpc =
    obs_then (rpc_call ''eth_chainId'' []) (\<lambda>v.
    obs_then (obs_lift (hex_int v ''chain id'')) (\<lambda>observed.
    obs_lift
      (if Some observed = cc_chain_id (rpc_chain rpc) then Inr observed
       else and_then (int_text observed) (\<lambda>got.
         Inl (Rpc_Error (''chain ID mismatch for '' @ cc_key (rpc_chain rpc) @ '': expected ''
           @ (case cc_chain_id (rpc_chain rpc) of Some n \<Rightarrow> dec_int n | None \<Rightarrow> ''None'')
           @ '', got '' @ got)))))) rpc"

definition block_number :: "int observing" where
  "block_number =
    obs_then attest_chain (\<lambda>_. obs_then (rpc_call ''eth_blockNumber'' []) (\<lambda>v. obs_lift (hex_int v ''block number'')))"

record rpc_observation =
  ob_chain :: string
  ob_chain_id :: int
  ob_block_number :: int
  ob_rpc_url :: string

definition observe_head :: "rpc_observation observing" where
  "observe_head rpc =
    obs_then attest_chain (\<lambda>chain_id.
    obs_then (rpc_call ''eth_blockNumber'' []) (\<lambda>v.
    obs_then (obs_lift (hex_int v ''block number'')) (\<lambda>n.
    obs_lift (Inr \<lparr>ob_chain = cc_key (rpc_chain rpc), ob_chain_id = chain_id, ob_block_number = n,
                  ob_rpc_url = rpc_url rpc\<rparr>)))) rpc"

definition get_block_by_number :: "int \<Rightarrow> pydict observing" where
  "get_block_by_number n =
    obs_raise_if (n < 0) (Value_Error ''block_number must be non-negative'')
    (obs_then attest_chain (\<lambda>_.
     obs_then (rpc_call ''eth_getBlockByNumber'' [PStr (py_hex n), PBool False]) (\<lambda>result.
     obs_lift
       (case result of
          PDict d \<Rightarrow>
            and_then (hex_int (dget d ''number'') ''block number'') (\<lambda>observed.
            if observed \<noteq> n
            then and_then (int_text n) (\<lambda>expected. and_then (int_text observed) (\<lambda>got.
              Inl (Rpc_Error (''block number mismatch: expected '' @ expected @ '', got '' @ got))))
            else raise_if (\<not> is_hex_data (dget d ''hash'') (Some 32)) (Rpc_Error ''invalid block hash'')
              (Inr d))
        | _ \<Rightarrow> Inl (Rpc_Error ''invalid block response'')))))"

text \<open>The loop over the logs; \<open>seen\<close> are the log indices so far.\<close>

fun check_logs :: "string \<Rightarrow> int option \<Rightarrow> int list \<Rightarrow> pydict list \<Rightarrow> unit evm" where
  "check_logs block_hash expected seen [] = Inr ()"
| "check_logs block_hash expected seen (item # items) =
     raise_if (dget item ''blockHash'' \<noteq> PStr block_hash) (Rpc_Error ''log block hash mismatch'')
     (raise_if (\<not> is_hex_data (dget item ''address'') (Some 20)) (Rpc_Error ''invalid log address'')
     (raise_if (\<not> is_hex_data (dget item ''transactionHash'') (Some 32))
       (Rpc_Error ''invalid log transaction hash'')
     (and_then (hex_int (dget item ''blockNumber'') ''log block number'') (\<lambda>number.
      raise_if (expected \<noteq> None \<and> expected \<noteq> Some number) (Rpc_Error ''log block number mismatch'')
     (and_then (hex_int (dget item ''logIndex'') ''log index'') (\<lambda>index.
      and_then (hex_int (dget item ''transactionIndex'') ''log transaction index'') (\<lambda>_.
      raise_if (index \<in> set seen) (Rpc_Error ''duplicate log index in provider response'')
     (raise_if (\<not> is_false (dget item ''removed'')) (Rpc_Error ''historical log must be explicitly nonremoved'')
     (raise_if (\<not> is_hex_data (dget item ''data'') None) (Rpc_Error ''invalid log data'')
     (raise_if (case dget item ''topics'' of
           PList ts \<Rightarrow> list_ex (\<lambda>t. \<not> is_hex_data t (Some 32)) ts | _ \<Rightarrow> True)
       (Rpc_Error ''invalid log topics'')
     (check_logs block_hash expected (index # seen) items)))))))))))"

fun dicts_of :: "pyval list \<Rightarrow> pydict list option" where
  "dicts_of [] = Some []"
| "dicts_of (v # vs) = (case v of PDict d \<Rightarrow> map_option ((#) d) (dicts_of vs) | _ \<Rightarrow> None)"

definition get_logs_for_block :: "string \<Rightarrow> int option \<Rightarrow> pydict list observing" where
  "get_logs_for_block block_hash expected =
    obs_raise_if (\<not> is_hex_data (PStr block_hash) (Some 32)) (Value_Error ''block_hash must be a 32-byte hex hash'')
    (obs_raise_if (case expected of Some n \<Rightarrow> n < 0 | None \<Rightarrow> False)
       (Value_Error ''expected_block_number must be a non-negative integer'')
    (obs_then attest_chain (\<lambda>_.
     obs_then (rpc_call ''eth_getLogs'' [PDict [(''blockHash'', PStr block_hash)]]) (\<lambda>result.
     obs_lift
       (case (case result of PList vs \<Rightarrow> dicts_of vs | _ \<Rightarrow> None) of
          None \<Rightarrow> Inl (Rpc_Error ''invalid logs response'')
        | Some logs \<Rightarrow> and_then (check_logs block_hash expected [] logs) (\<lambda>_. Inr logs))))))"

text \<open>The last step of the reads that give data: the check and the lower case.\<close>

definition hex_answer :: "nat option \<Rightarrow> string \<Rightarrow> pyval \<Rightarrow> string evm" where
  "hex_answer byte_count message result =
    (case result of
       PStr s \<Rightarrow> raise_if (\<not> is_hex_data result byte_count) (Rpc_Error message) (Inr (lower s))
     | _ \<Rightarrow> Inl (Rpc_Error message))"

definition call_at_block :: "string \<Rightarrow> string \<Rightarrow> int \<Rightarrow> string observing" where
  "call_at_block address data n rpc =
    (case canonical_chain_address (PStr (cc_key (rpc_chain rpc))) (PStr address) of
       None \<Rightarrow> (Inl (Value_Error ''address must be a valid address for this chain''), rpc)
     | Some canonical \<Rightarrow>
         obs_raise_if (n < 0) (Value_Error ''block_number must be non-negative'')
         (obs_raise_if (\<not> is_hex_data (PStr data) None \<or> length data < 10)
            (Value_Error ''data must be even-length hex calldata with a selector'')
         (obs_then attest_chain (\<lambda>_.
          obs_then (rpc_call ''eth_call''
              [PDict [(''to'', PStr canonical), (''data'', PStr (lower data))], PStr (py_hex n)]) (\<lambda>result.
          obs_lift (hex_answer None ''invalid eth_call response'' result))))) rpc)"

definition storage_at_block :: "string \<Rightarrow> string \<Rightarrow> int \<Rightarrow> string observing" where
  "storage_at_block address slot n rpc =
    (case canonical_chain_address (PStr (cc_key (rpc_chain rpc))) (PStr address) of
       None \<Rightarrow> (Inl (Value_Error ''address must be a valid address for this chain''), rpc)
     | Some canonical \<Rightarrow>
         obs_raise_if (n < 0) (Value_Error ''block_number must be non-negative'')
         (obs_raise_if (\<not> is_hex_data (PStr slot) (Some 32))
            (Value_Error ''slot must be a 32-byte hex storage key'')
         (obs_then attest_chain (\<lambda>_.
          obs_then (rpc_call ''eth_getStorageAt'' [PStr canonical, PStr (lower slot), PStr (py_hex n)]) (\<lambda>result.
          obs_lift (hex_answer (Some 32) ''invalid eth_getStorageAt response'' result))))) rpc)"

text \<open>\<^verbatim>\<open>_get_code_at_block\<close> of \<^verbatim>\<open>evm_contract_code.py\<close>.\<close>

definition get_code_at_block :: "string \<Rightarrow> int \<Rightarrow> string observing" where
  "get_code_at_block address n =
    obs_then attest_chain (\<lambda>_.
    obs_then (rpc_call ''eth_getCode'' [PStr address, PStr (py_hex n)]) (\<lambda>result.
    obs_lift (hex_answer None ''invalid eth_getCode response'' result)))"

section \<open>Quantities\<close>

lemma hex_char_hex_val: "is_hex c \<Longrightarrow> hex_char (hex_val c) = lower_char c"
proof -
  assume "is_hex c"
  then consider "48 \<le> code_of c \<and> code_of c \<le> 57" | "65 \<le> code_of c \<and> code_of c \<le> 70"
    | "97 \<le> code_of c \<and> code_of c \<le> 102"
    by (auto simp: is_hex_def Let_def)
  moreover have "char_of (code_of c) = c" by (simp add: code_of_def)
  ultimately show ?thesis
    by cases (auto simp: hex_char_def hex_val_def lower_char_def Let_def code_of_def)
qed

lemma hex_digits_hex: "list_all is_hex (hex_digits n)" "hex_digits n \<noteq> []"
  by (induction n rule: hex_digits.induct) (subst hex_digits.simps, simp)+

lemma hex_value_digits [simp]: "hex_value (hex_digits n) = n"
proof (induction n rule: hex_digits.induct)
  case (1 n)
  show ?case
  proof (cases "n < 16")
    case True
    then show ?thesis by (subst hex_digits.simps) (simp add: hex_value_Cons)
  next
    case False
    then have "hex_value (hex_digits (n div 16)) = n div 16" using 1 by blast
    moreover have "hex_digits n = hex_digits (n div 16) @ [hex_char (n mod 16)]"
      using False by (subst hex_digits.simps) simp
    ultimately show ?thesis by (simp add: hex_value_append hex_value_Cons)
  qed
qed

lemma hex_digits_head: "0 < n \<Longrightarrow> hd (hex_digits n) \<noteq> CHR ''0''"
proof (induction n rule: hex_digits.induct)
  case (1 n)
  show ?case
  proof (cases "n < 16")
    case True
    have v: "hex_val (hex_char n) = n" using True by simp
    have z: "hex_val (CHR ''0'') = 0" by code_simp
    have "hex_char n \<noteq> CHR ''0''"
    proof
      assume "hex_char n = CHR ''0''"
      with v z 1(2) show False by simp
    qed
    then show ?thesis using True by (subst hex_digits.simps) simp
  next
    case False
    then have "hd (hex_digits (n div 16)) \<noteq> CHR ''0''" using 1(1) by simp
    then show ?thesis using False hex_digits_hex(2) by (subst hex_digits.simps) simp
  qed
qed

lemma hex_val_zero: "is_hex c \<Longrightarrow> hex_val c = 0 \<Longrightarrow> c = CHR ''0''"
proof -
  assume "is_hex c" "hex_val c = 0"
  then have "code_of c = 48" by (auto simp: hex_val_def is_hex_def Let_def split: if_splits)
  moreover have "code_of (CHR ''0'') = 48" by code_simp
  ultimately have "(of_char c :: nat) = of_char (CHR ''0'')" unfolding code_of_def by (rule trans [OF _ sym])
  then show "c = CHR ''0''" by (simp only: of_char_eq_iff)
qed

lemma hex_value_pos:
  "list_all is_hex s \<Longrightarrow> s \<noteq> [] \<Longrightarrow> hd s \<noteq> CHR ''0'' \<Longrightarrow> 0 < hex_value s"
  using hex_val_zero by (cases s) (auto simp: hex_value_Cons)

lemma code_of_lower_char:
  "code_of (lower_char c) = (let n = code_of c in if 65 \<le> n \<and> n \<le> 90 \<or> 192 \<le> n \<and> n \<le> 222 \<and> n \<noteq> 215 then n + 32 else n)"
  by (auto simp: lower_char_def code_of_def Let_def)

lemma lower_hex_back: "is_hex (lower_char c) \<Longrightarrow> is_hex c"
  unfolding is_hex_def code_of_lower_char Let_def by (auto split: if_splits)

lemma lower_hex_text:
  "list_all is_hex (lower s) \<Longrightarrow> list_all is_hex s"
  by (induction s) (simp_all add: lower_def lower_hex_back)

lemma lower_hex_value: "list_all is_hex s \<Longrightarrow> hex_value (lower s) = hex_value s"
  by (induction s) (simp_all add: lower_def hex_value_Cons lower_hex)

lemma hex_digits_value:
  "list_all is_hex s \<Longrightarrow> s \<noteq> [] \<Longrightarrow> hd s \<noteq> CHR ''0'' \<Longrightarrow> hex_digits (hex_value s) = lower s"
proof (induction s rule: rev_induct)
  case (snoc c s)
  then have c: "is_hex c" "hex_val c < 16" "hex_char (hex_val c) = lower_char c"
    using hex_val_bound hex_char_hex_val by simp_all
  have v: "hex_value (s @ [c]) = 16 * hex_value s + hex_val c"
    by (simp add: hex_value_append hex_value_Cons)
  show ?case
  proof (cases "s = []")
    case True
    then show ?thesis using c by (subst hex_digits.simps) (simp add: hex_value_Cons lower_def)
  next
    case False
    then have ih: "hex_digits (hex_value s) = lower s" using snoc by simp
    have "0 < hex_value s" using False snoc.prems by (intro hex_value_pos) simp_all
    then show ?thesis using c ih unfolding v by (subst hex_digits.simps) (simp add: lower_def)
  qed
qed simp

lemma quantity_py_hex: "0 \<le> n \<Longrightarrow> is_quantity (py_hex n)"
proof (cases "n = 0")
  case True
  have "is_quantity (py_hex 0)" by code_simp
  then show ?thesis using True by simp
next
  case False
  assume "0 \<le> n"
  then show ?thesis
    using False hex_digits_hex [of "nat n"] hex_digits_head [of "nat n"] by (simp add: is_quantity_def py_hex_def)
qed

lemma quantity_cases: "is_quantity s \<Longrightarrow> s = ''0x'' @ drop 2 s \<and> list_all is_hex (drop 2 s) \<and> drop 2 s \<noteq> []"
proof -
  assume q: "is_quantity s"
  moreover have "is_hex (CHR ''0'')" by code_simp
  ultimately show ?thesis
    using append_take_drop_id [of 2 s] by (auto simp: is_quantity_def)
qed

lemma int_base16_0x:
  assumes "list_all is_hex s" "s \<noteq> []"
  shows "int_base16 (''0x'' @ s) = Some (int (hex_value s))"
proof -
  have "strip (''0x'' @ s) = ''0x'' @ s"
    using assms(1) is_hex_plain by (intro strip_plain) (auto simp: list_all_iff is_space_def)
  moreover have "hd s \<noteq> CHR ''_''" using assms is_hex_plain by (cases s) auto
  ultimately show ?thesis
    using assms hex_body_plain [OF assms(1)] by (simp add: int_base16_def Let_def)
qed

lemma hex_int_quantity: "is_quantity s \<Longrightarrow> hex_int (PStr s) field = Inr (int (hex_value (drop 2 s)))"
proof -
  assume q: "is_quantity s"
  then have "int_base16 s = Some (int (hex_value (drop 2 s)))"
    using quantity_cases [OF q] int_base16_0x by metis
  with q show ?thesis by (simp add: hex_int_def)
qed

lemma hex_int_Inr: "hex_int v field = Inr n \<longleftrightarrow> (\<exists>s. v = PStr s \<and> is_quantity s \<and> n = int (hex_value (drop 2 s)))"
  using hex_int_quantity by (cases v) (auto simp: hex_int_def Let_def split: if_splits option.splits)

text \<open>An accepted value is never negative and the errors are those of the transport layer.\<close>

lemma hex_int_Inl: "hex_int v field = Inl e \<Longrightarrow> e = Rpc_Error (''invalid '' @ field @ '' response'')"
proof (cases v)
  case (PStr s)
  assume "hex_int v field = Inl e"
  then show ?thesis using hex_int_quantity [of s field] PStr by (auto simp: hex_int_def Let_def split: if_splits)
qed (auto simp: hex_int_def Let_def)

section \<open>Answers\<close>

text \<open>\<open>answered o i m ps v\<close>: the endpoint of \<open>o\<close> answers the request with id \<open>i\<close> by the result \<open>v\<close>.\<close>

definition answered :: "evm_rpc \<Rightarrow> int \<Rightarrow> string \<Rightarrow> pyval list \<Rightarrow> pyval \<Rightarrow> bool" where
  "answered rpc i rpc_method params v \<longleftrightarrow>
     and_then (rpc_transport rpc (rpc_url rpc) (rpc_request i rpc_method params) (rpc_timeout rpc))
       (read_envelope i rpc_method) = Inr v"

definition attested :: "evm_rpc \<Rightarrow> int \<Rightarrow> bool" where
  "attested rpc i \<longleftrightarrow> (\<exists>v n. answered rpc i ''eth_chainId'' [] v \<and> hex_int v ''chain id'' = Inr n
     \<and> cc_chain_id (rpc_chain rpc) = Some n)"

definition same_endpoint :: "evm_rpc \<Rightarrow> evm_rpc \<Rightarrow> bool" where
  "same_endpoint rpc rpc' \<longleftrightarrow> rpc\<lparr>rpc_next_id := 0\<rparr> = rpc'\<lparr>rpc_next_id := 0\<rparr>"

lemma same_endpoint_refl [simp]: "same_endpoint rpc rpc"
  by (simp add: same_endpoint_def)

lemma same_endpoint_step [simp]: "same_endpoint rpc (rpc\<lparr>rpc_next_id := i\<rparr>)"
  by (simp add: same_endpoint_def)

lemma same_endpoint_trans: "same_endpoint a b \<Longrightarrow> same_endpoint b c \<Longrightarrow> same_endpoint a c"
  by (simp add: same_endpoint_def)

lemma same_endpoint_fields:
  "same_endpoint a b \<Longrightarrow> rpc_chain b = rpc_chain a \<and> rpc_url b = rpc_url a \<and> rpc_transport b = rpc_transport a
     \<and> rpc_timeout b = rpc_timeout a"
  by (cases a; cases b) (simp add: same_endpoint_def)

lemma answered_endpoint: "same_endpoint a b \<Longrightarrow> answered b = answered a" "same_endpoint a b \<Longrightarrow> attested b = attested a"
  by (simp_all add: answered_def attested_def fun_eq_iff same_endpoint_fields)

lemma obs_then_Inr:
  "obs_then m f rpc = (Inr y, rpc') \<longleftrightarrow> (\<exists>x rpc1. m rpc = (Inr x, rpc1) \<and> f x rpc1 = (Inr y, rpc'))"
  by (auto simp: obs_then_def split: prod.splits sum.splits)

lemma obs_lift_Inr [simp]: "obs_lift r rpc = (Inr x, rpc') \<longleftrightarrow> r = Inr x \<and> rpc' = rpc"
  by (auto simp: obs_lift_def)

lemma obs_raise_if_Inr [simp]: "obs_raise_if c e m rpc = (Inr x, rpc') \<longleftrightarrow> \<not> c \<and> m rpc = (Inr x, rpc')"
  by (simp add: obs_raise_if_def)

lemma rpc_call_Inr:
  "rpc_call rpc_method params rpc = (Inr v, rpc') \<longleftrightarrow>
     rpc_method \<in> set allowed_methods \<and> answered rpc (rpc_next_id rpc) rpc_method params v
     \<and> rpc' = rpc\<lparr>rpc_next_id := rpc_next_id rpc + 1\<rparr>"
  by (auto simp: rpc_call_def answered_def Let_def)

lemma attest_chain_Inr:
  "attest_chain rpc = (Inr n, rpc') \<longleftrightarrow>
     cc_chain_id (rpc_chain rpc) = Some n \<and> attested rpc (rpc_next_id rpc)
     \<and> rpc' = rpc\<lparr>rpc_next_id := rpc_next_id rpc + 1\<rparr>"
  by (auto simp: attest_chain_def obs_then_Inr rpc_call_Inr attested_def allowed_methods_def and_then_Inr
      split: if_splits)

lemmas observing_Inr = obs_then_Inr rpc_call_Inr attest_chain_Inr

lemma answered_next [simp]:
  "answered (rpc\<lparr>rpc_next_id := i\<rparr>) = answered rpc"
  by (simp add: answered_def fun_eq_iff)

lemma hex_answer_Inr:
  "hex_answer k message v = Inr x \<longleftrightarrow> (\<exists>s. v = PStr s \<and> is_hex_data v k \<and> x = lower s)"
  by (cases v) (auto simp: hex_answer_def)

text \<open>What an observer says: some attested exchange of it gave this answer.\<close>

definition says :: "evm_rpc \<Rightarrow> string \<Rightarrow> pyval list \<Rightarrow> string \<Rightarrow> bool" where
  "says rpc rpc_method params x \<longleftrightarrow>
     (\<exists>i s. attested rpc i \<and> answered rpc (i + 1) rpc_method params (PStr s) \<and> is_hex_data (PStr s) None
        \<and> x = lower s)"

lemma says_endpoint: "same_endpoint a b \<Longrightarrow> says b = says a"
  by (simp add: says_def fun_eq_iff answered_endpoint)

lemma hex_data_any: "is_hex_data v k \<Longrightarrow> is_hex_data v None"
  by (cases v) (auto simp: is_hex_data_def)

definition call_params :: "string \<Rightarrow> string \<Rightarrow> int \<Rightarrow> pyval list" where
  "call_params canonical data n =
     [PDict [(''to'', PStr canonical), (''data'', PStr (lower data))], PStr (py_hex n)]"

lemma call_at_block_says:
  assumes "call_at_block address data n rpc = (Inr x, rpc')"
  shows "\<exists>canonical. canonical_chain_address (PStr (cc_key (rpc_chain rpc))) (PStr address) = Some canonical
    \<and> says rpc ''eth_call'' (call_params canonical data n) x"
  using assms
  by (auto simp: call_at_block_def observing_Inr hex_answer_Inr says_def call_params_def split: option.splits)

lemma storage_at_block_says:
  assumes "storage_at_block address slot n rpc = (Inr x, rpc')"
  shows "\<exists>canonical. canonical_chain_address (PStr (cc_key (rpc_chain rpc))) (PStr address) = Some canonical
    \<and> says rpc ''eth_getStorageAt'' [PStr canonical, PStr (lower slot), PStr (py_hex n)] x \<and> length x = 66"
  using assms
  by (auto simp: storage_at_block_def observing_Inr hex_answer_Inr says_def split: option.splits)
    (auto simp: is_hex_data_def)

lemma get_code_says:
  assumes "get_code_at_block address n rpc = (Inr x, rpc')"
  shows "says rpc ''eth_getCode'' [PStr address, PStr (py_hex n)] x"
  using assms by (auto simp: get_code_at_block_def observing_Inr hex_answer_Inr says_def)

section \<open>What an operation leaves of the observer\<close>

text \<open>
  Two facts about every operation: it leaves the endpoint alone, and it asks the transport nothing
  but the allowed methods, so a transport that agrees on these gives the same.
\<close>

definition keeps :: "'a observing \<Rightarrow> bool" where
  "keeps m \<longleftrightarrow> (\<forall>rpc. same_endpoint rpc (snd (m rpc)))"

definition reads_alike :: "transport \<Rightarrow> transport \<Rightarrow> bool" where
  "reads_alike t t' \<longleftrightarrow> (\<forall>url i m ps timeout. m \<in> set allowed_methods
     \<longrightarrow> t url (rpc_request i m ps) timeout = t' url (rpc_request i m ps) timeout)"

definition only_reads :: "'a observing \<Rightarrow> bool" where
  "only_reads m \<longleftrightarrow> (\<forall>rpc t. reads_alike (rpc_transport rpc) t
     \<longrightarrow> m (rpc\<lparr>rpc_transport := t\<rparr>) = map_prod id (\<lambda>o'. o'\<lparr>rpc_transport := t\<rparr>) (m rpc))"

named_theorems observing_intros

lemma keeps_then [observing_intros]:
  assumes "keeps m" "\<And>x. keeps (f x)"
  shows "keeps (obs_then m f)"
proof -
  have "same_endpoint rpc (snd (obs_then m f rpc))" for rpc
  proof (cases "m rpc")
    case (Pair r rpc1)
    then have "same_endpoint rpc rpc1" using assms(1) by (metis keeps_def snd_conv)
    moreover have "same_endpoint rpc1 (snd (f x rpc1))" for x using assms(2) by (simp add: keeps_def)
    ultimately show ?thesis using Pair same_endpoint_trans by (auto simp: obs_then_def split: sum.splits)
  qed
  then show ?thesis by (simp add: keeps_def)
qed

lemma keeps_lift [observing_intros]: "keeps (obs_lift r)"
  by (simp add: keeps_def obs_lift_def)

lemma keeps_raise_if [observing_intros]: "keeps m \<Longrightarrow> keeps (obs_raise_if c e m)"
  by (simp add: keeps_def obs_raise_if_def)

lemma keeps_call [observing_intros]: "keeps (rpc_call m ps)"
  by (simp add: keeps_def rpc_call_def Let_def)

text \<open>An operation that first looks at its own chain or endpoint, which it then keeps.\<close>

lemma keeps_look: "(\<And>c. keeps (f c)) \<Longrightarrow> keeps (\<lambda>rpc. f (g rpc) rpc)"
  by (simp add: keeps_def)

lemma only_reads_then [observing_intros]:
  assumes "keeps m" "only_reads m" "\<And>x. only_reads (f x)"
  shows "only_reads (obs_then m f)"
  unfolding only_reads_def
proof (intro allI impI)
  fix rpc :: evm_rpc and t assume t: "reads_alike (rpc_transport rpc) t"
  obtain r rpc1 where m: "m rpc = (r, rpc1)" by (cases "m rpc")
  have "same_endpoint rpc rpc1" using assms(1) m by (metis keeps_def snd_conv)
  then have t1: "reads_alike (rpc_transport rpc1) t" using t same_endpoint_fields by metis
  have "m (rpc\<lparr>rpc_transport := t\<rparr>) = (r, rpc1\<lparr>rpc_transport := t\<rparr>)"
    using assms(2) t m by (simp add: only_reads_def)
  moreover have "f x (rpc1\<lparr>rpc_transport := t\<rparr>) = map_prod id (\<lambda>o'. o'\<lparr>rpc_transport := t\<rparr>) (f x rpc1)" for x
    using assms(3) t1 by (simp add: only_reads_def)
  ultimately show "obs_then m f (rpc\<lparr>rpc_transport := t\<rparr>)
      = map_prod id (\<lambda>o'. o'\<lparr>rpc_transport := t\<rparr>) (obs_then m f rpc)"
    using m by (auto simp: obs_then_def split: sum.splits)
qed

lemma only_reads_lift [observing_intros]: "only_reads (obs_lift r)"
  by (simp add: only_reads_def obs_lift_def)

lemma only_reads_raise_if [observing_intros]: "only_reads m \<Longrightarrow> only_reads (obs_raise_if c e m)"
  by (simp add: only_reads_def obs_raise_if_def)

lemma only_reads_call [observing_intros]: "only_reads (rpc_call m ps)"
  by (auto simp: only_reads_def rpc_call_def Let_def reads_alike_def)

lemma only_reads_look:
  "(\<And>c. only_reads (f c)) \<Longrightarrow> (\<And>rpc t. g (rpc\<lparr>rpc_transport := t\<rparr>) = g rpc)
     \<Longrightarrow> only_reads (\<lambda>rpc. f (g rpc) rpc)"
  by (simp add: only_reads_def)

lemma keeps_attest [observing_intros]: "keeps attest_chain"
  unfolding attest_chain_def by (rule keeps_look [where g = rpc_chain]) (intro observing_intros)

lemma only_reads_attest [observing_intros]: "only_reads attest_chain"
  unfolding attest_chain_def by (rule only_reads_look [where g = rpc_chain]) (intro observing_intros, simp)

lemma keeps_ops [observing_intros]:
  "keeps block_number" "keeps (get_block_by_number n)" "keeps (get_logs_for_block h expected)"
  "keeps (get_code_at_block address n)"
  unfolding block_number_def get_block_by_number_def get_logs_for_block_def get_code_at_block_def
  by (intro observing_intros)+

lemma only_reads_ops:
  "only_reads block_number" "only_reads (get_block_by_number n)" "only_reads (get_logs_for_block h expected)"
  "only_reads (get_code_at_block address n)"
  unfolding block_number_def get_block_by_number_def get_logs_for_block_def get_code_at_block_def
  by (intro observing_intros)+

lemma observe_head_look:
  "observe_head = (\<lambda>rpc. (\<lambda>(key, url). obs_then attest_chain (\<lambda>chain_id.
     obs_then (rpc_call ''eth_blockNumber'' []) (\<lambda>v.
     obs_then (obs_lift (hex_int v ''block number'')) (\<lambda>n.
     obs_lift (Inr \<lparr>ob_chain = key, ob_chain_id = chain_id, ob_block_number = n, ob_rpc_url = url\<rparr>)))))
     (cc_key (rpc_chain rpc), rpc_url rpc) rpc)"
  by (simp add: observe_head_def fun_eq_iff)

lemma observe_head_ops [observing_intros]: "keeps observe_head" "only_reads observe_head"
  unfolding observe_head_look
  by (rule keeps_look, simp add: split_def, intro observing_intros,
      rule only_reads_look, simp add: split_def, intro observing_intros, simp)

text \<open>The two reads that canonicalize their address against the observer's own chain.\<close>

definition at_address :: "string \<Rightarrow> (string \<Rightarrow> 'a observing) \<Rightarrow> string option \<Rightarrow> 'a observing" where
  "at_address message f canonical =
     (case canonical of None \<Rightarrow> obs_lift (Inl (Value_Error message)) | Some c \<Rightarrow> f c)"

lemma at_address_look:
  "call_at_block address data n = (\<lambda>rpc. at_address ''address must be a valid address for this chain'' (\<lambda>canonical.
     obs_raise_if (n < 0) (Value_Error ''block_number must be non-negative'')
     (obs_raise_if (\<not> is_hex_data (PStr data) None \<or> length data < 10)
        (Value_Error ''data must be even-length hex calldata with a selector'')
     (obs_then attest_chain (\<lambda>_.
      obs_then (rpc_call ''eth_call''
          [PDict [(''to'', PStr canonical), (''data'', PStr (lower data))], PStr (py_hex n)]) (\<lambda>result.
      obs_lift (hex_answer None ''invalid eth_call response'' result))))))
     (canonical_chain_address (PStr (cc_key (rpc_chain rpc))) (PStr address)) rpc)"
  "storage_at_block address slot n = (\<lambda>rpc. at_address ''address must be a valid address for this chain'' (\<lambda>canonical.
     obs_raise_if (n < 0) (Value_Error ''block_number must be non-negative'')
     (obs_raise_if (\<not> is_hex_data (PStr slot) (Some 32)) (Value_Error ''slot must be a 32-byte hex storage key'')
     (obs_then attest_chain (\<lambda>_.
      obs_then (rpc_call ''eth_getStorageAt'' [PStr canonical, PStr (lower slot), PStr (py_hex n)]) (\<lambda>result.
      obs_lift (hex_answer (Some 32) ''invalid eth_getStorageAt response'' result))))))
     (canonical_chain_address (PStr (cc_key (rpc_chain rpc))) (PStr address)) rpc)"
  by (simp_all add: call_at_block_def storage_at_block_def at_address_def obs_lift_def fun_eq_iff split: option.splits)

lemma at_address_ops:
  "(\<And>c. keeps (f c)) \<Longrightarrow> keeps (at_address message f canonical)"
  "(\<And>c. only_reads (f c)) \<Longrightarrow> only_reads (at_address message f canonical)"
  by (cases canonical; simp add: at_address_def keeps_lift only_reads_lift)+

lemma address_ops [observing_intros]:
  "keeps (call_at_block address data n)" "keeps (storage_at_block address slot n)"
  "only_reads (call_at_block address data n)" "only_reads (storage_at_block address slot n)"
  unfolding at_address_look
  by (rule keeps_look, intro at_address_ops observing_intros,
      rule keeps_look, intro at_address_ops observing_intros,
      rule only_reads_look, intro at_address_ops observing_intros, simp,
      rule only_reads_look, intro at_address_ops observing_intros, simp)

section \<open>Properties\<close>

text \<open>
  C39: A quantity is accepted exactly in its one canonical form, up to the case of the digits:
  \<^verbatim>\<open>_hex_int\<close> gives \<open>n\<close> for the text of \<^verbatim>\<open>hex(n)\<close> and for nothing else.
\<close>

theorem quantity_is_canonical:
  "hex_int v field = Inr n \<longleftrightarrow> (\<exists>s. v = PStr s \<and> 0 \<le> n \<and> take 2 s = ''0x'' \<and> lower s = py_hex n)"
proof
  assume "hex_int v field = Inr n"
  then obtain s where s: "v = PStr s" "is_quantity s" "n = int (hex_value (drop 2 s))"
    by (auto simp: hex_int_Inr)
  note c = quantity_cases [OF s(2)]
  have low: "lower s = ''0x'' @ lower (drop 2 s)"
  proof -
    have "lower ''0x'' = ''0x''" by code_simp
    with c show ?thesis by (metis lower_def map_append)
  qed
  have "hex_digits (hex_value (drop 2 s)) = lower (drop 2 s)"
  proof (cases "drop 2 s = ''0''")
    case True
    moreover have "hex_digits (hex_value ''0'') = lower ''0''" by code_simp
    ultimately show ?thesis by simp
  next
    case False
    then show ?thesis using c s(2) by (intro hex_digits_value) (auto simp: is_quantity_def)
  qed
  with low s show "\<exists>s. v = PStr s \<and> 0 \<le> n \<and> take 2 s = ''0x'' \<and> lower s = py_hex n"
    by (auto simp: py_hex_def is_quantity_def)
next
  assume "\<exists>s. v = PStr s \<and> 0 \<le> n \<and> take 2 s = ''0x'' \<and> lower s = py_hex n"
  then obtain s where s: "v = PStr s" "0 \<le> n" "take 2 s = ''0x''" "lower s = py_hex n" by blast
  obtain t where t: "s = ''0x'' @ t" using s(3) by (metis append_take_drop_id)
  have "lower ''0x'' = ''0x''" by code_simp
  then have low: "lower t = hex_digits (nat n)" using s(2,4) t by (simp add: lower_def py_hex_def)
  have t_hex: "list_all is_hex t"
    using hex_digits_hex(1) [of "nat n"] unfolding low [symmetric] by (rule lower_hex_text)
  then have val: "hex_value t = nat n" using lower_hex_value [of t] low by simp
  have ne: "t \<noteq> []" using low hex_digits_hex(2) [of "nat n"] by (auto simp: lower_def)
  have zero: "lower_char (CHR ''0'') = CHR ''0''" by code_simp
  have "t = ''0'' \<or> hd t \<noteq> CHR ''0''"
  proof (cases "n = 0")
    case True
    have "hex_digits (nat 0) = ''0''" by code_simp
    then obtain c where "t = [c]" using low True by (auto simp: lower_def)
    with val True t_hex hex_val_zero show ?thesis by (simp add: hex_value_Cons)
  next
    case False
    then have "hd (lower t) \<noteq> CHR ''0''" using hex_digits_head [of "nat n"] low s(2) by simp
    then show ?thesis using ne zero by (auto simp: lower_def hd_map)
  qed
  then have "is_quantity s" using t t_hex ne by (auto simp: is_quantity_def)
  then show "hex_int v field = Inr n" using hex_int_quantity [of s field] s(1,2) t val by simp
qed

text \<open>
  The observer only reads: whatever an operation answers, it depends on the transport's answers
  to the seven allowed methods alone, and the operation leaves its endpoint as it was.
\<close>

theorem observer_only_reads:
  "only_reads observe_head \<and> keeps observe_head
   \<and> only_reads block_number \<and> keeps block_number
   \<and> only_reads (get_block_by_number n) \<and> keeps (get_block_by_number n)
   \<and> only_reads (get_logs_for_block h expected) \<and> keeps (get_logs_for_block h expected)
   \<and> only_reads (call_at_block address data n) \<and> keeps (call_at_block address data n)
   \<and> only_reads (storage_at_block address slot n) \<and> keeps (storage_at_block address slot n)
   \<and> only_reads (get_code_at_block address n) \<and> keeps (get_code_at_block address n)"
  by (simp add: observe_head_ops address_ops only_reads_ops keeps_ops)

end
