(* ===== verification/Evm_Quorum.thy ===== *)
theory Evm_Quorum
  imports Sha_256 Evm_Rpc
begin

text \<open>
  What the redundant observation modules share: provider labels, one pass over the distinct
  observers, answers grouped by value, and the contract of a quorum as a locale. The functions stand
  for the copies of this code in \<^verbatim>\<open>evm_consensus.py\<close>, \<^verbatim>\<open>evm_call_consensus.py\<close>, \<^verbatim>\<open>evm_liquidity.py\<close>,
  \<^verbatim>\<open>evm_contract_code.py\<close>, \<^verbatim>\<open>evm_pair_identity.py\<close> and \<^verbatim>\<open>evm_proxy_authority.py\<close>.
\<close>

section \<open>Providers\<close>

text \<open>
  The host name of an \<^verbatim>\<open>https://\<close> URL without brackets, as \<^verbatim>\<open>urlsplit\<close> reads it: tabs and line ends
  are dropped, the authority ends at the first slash, question mark or hash, what precedes its last
  at sign is user information and what follows a colon is the port.
\<close>

definition url_host :: "string \<Rightarrow> string" where
  "url_host url =
    (let u = filter (\<lambda>c. c \<notin> set [CHR 0x09, CHR 0x0A, CHR 0x0D]) url;
         authority = takeWhile (\<lambda>c. c \<notin> set ''/?#'') (drop 8 u);
         host = takeWhile (\<lambda>c. c \<noteq> CHR '':'') (rev (takeWhile (\<lambda>c. c \<noteq> CHR ''@'') (rev authority)))
     in lower host)"

definition provider_fingerprint :: "string \<Rightarrow> string" where
  "provider_fingerprint url =
    (let host = url_host url in
     (if host = [] then ''unknown'' else host) @ '':'' @ take 12 (sha256_hex (utf8 url)))"

definition fingerprint :: "evm_rpc \<Rightarrow> string" where
  "fingerprint rpc = provider_fingerprint (rpc_url rpc)"

text \<open>\<^verbatim>\<open>_distinct\<close>, \<^verbatim>\<open>_collect_distinct\<close>: the first observer of each label.\<close>

fun distinct_observers :: "string list \<Rightarrow> evm_rpc list \<Rightarrow> evm_rpc list" where
  "distinct_observers seen [] = []"
| "distinct_observers seen (rpc # rpcs) =
     (if fingerprint rpc \<in> set seen then distinct_observers seen rpcs
      else rpc # distinct_observers (fingerprint rpc # seen) rpcs)"

section \<open>One pass over the observers\<close>

text \<open>
  The loop over the distinct observers. \<open>counts\<close> says which observers enter the dictionary of
  distinct providers, \<open>use\<close> which of these are asked, \<open>skips\<close> which errors the loop continues after.
  Another error ends the loop. The observers come back in their places, with their counters advanced.
\<close>

fun sweep ::
  "(evm_rpc \<Rightarrow> bool) \<Rightarrow> (evm_rpc \<Rightarrow> bool) \<Rightarrow> (evm_error \<Rightarrow> bool) \<Rightarrow> 'a observing \<Rightarrow> string list \<Rightarrow> evm_rpc list
     \<Rightarrow> (string \<times> 'a) list evm \<times> evm_rpc list" where
  "sweep counts use skips read seen [] = (Inr [], [])"
| "sweep counts use skips read seen (rpc # rpcs) =
     (if \<not> counts rpc \<or> fingerprint rpc \<in> set seen
      then (let (r, rpcs') = sweep counts use skips read seen rpcs in (r, rpc # rpcs'))
      else if \<not> use rpc
      then (let (r, rpcs') = sweep counts use skips read (fingerprint rpc # seen) rpcs in (r, rpc # rpcs'))
      else
        (case read rpc of
           (Inr x, rpc') \<Rightarrow>
             (let (r, rpcs') = sweep counts use skips read (fingerprint rpc # seen) rpcs
              in (and_then r (\<lambda>rows. Inr ((fingerprint rpc, x) # rows)), rpc' # rpcs'))
         | (Inl e, rpc') \<Rightarrow>
             if skips e
             then (let (r, rpcs') = sweep counts use skips read (fingerprint rpc # seen) rpcs in (r, rpc' # rpcs'))
             else (Inl e, rpc' # rpcs)))"

fun is_rpc_error :: "evm_error \<Rightarrow> bool" where
  "is_rpc_error (Rpc_Error _) = True"
| "is_rpc_error _ = False"

definition on_chain :: "string \<Rightarrow> evm_rpc \<Rightarrow> bool" where
  "on_chain chain rpc \<longleftrightarrow> cc_key (rpc_chain rpc) = chain"

text \<open>Reads one after the other: an error ends them, the observers go from each to the next.\<close>

definition pass_then ::
  "'a evm \<times> evm_rpc list \<Rightarrow> ('a \<Rightarrow> evm_rpc list \<Rightarrow> 'b evm \<times> evm_rpc list) \<Rightarrow> 'b evm \<times> evm_rpc list" where
  "pass_then p f = (case p of (Inl e, observers) \<Rightarrow> (Inl e, observers) | (Inr x, observers) \<Rightarrow> f x observers)"

lemma pass_then_Inr:
  "pass_then p f = (Inr y, observers') \<longleftrightarrow> (\<exists>x observers1. p = (Inr x, observers1) \<and> f x observers1 = (Inr y, observers'))"
  by (auto simp: pass_then_def split: prod.splits sum.splits)

section \<open>Groups\<close>

text \<open>\<^verbatim>\<open>groups.setdefault(value, []).append(row)\<close> over the rows: the values in the order they came.\<close>

fun add_row :: "'a \<Rightarrow> 'p \<Rightarrow> ('a \<times> 'p list) list \<Rightarrow> ('a \<times> 'p list) list" where
  "add_row x p [] = [(x, [p])]"
| "add_row x p ((y, ps) # groups) = (if x = y then (y, ps @ [p]) # groups else (y, ps) # add_row x p groups)"

definition group_rows :: "('p \<times> 'a) list \<Rightarrow> ('a \<times> 'p list) list" where
  "group_rows rows = foldl (\<lambda>groups (p, x). add_row x p groups) [] rows"

definition qualifying :: "int \<Rightarrow> ('a \<times> 'p list) list \<Rightarrow> ('a \<times> 'p list) list" where
  "qualifying min_quorum groups = filter (\<lambda>(x, ps). min_quorum \<le> int (length ps)) groups"

definition sole :: "'a list \<Rightarrow> 'a option" where
  "sole xs = (case xs of [x] \<Rightarrow> Some x | _ \<Rightarrow> None)"

lemma sole_Some: "sole xs = Some x \<longleftrightarrow> xs = [x]"
  by (auto simp: sole_def split: list.splits)

lemma map_of_add_row:
  "map_of (add_row x p groups) y =
     (if y = x then Some ((case map_of groups x of Some ps \<Rightarrow> ps | None \<Rightarrow> []) @ [p]) else map_of groups y)"
  by (induction x p groups rule: add_row.induct) auto

lemma keys_add_row: "map fst (add_row x p groups) =
    (if x \<in> set (map fst groups) then map fst groups else map fst groups @ [x])"
  by (induction x p groups rule: add_row.induct) auto

lemma group_rows_snoc: "group_rows (rows @ [(p, x)]) = add_row x p (group_rows rows)"
  by (simp add: group_rows_def)

lemma group_rows_keys: "distinct (map fst (group_rows rows)) \<and> set (map fst (group_rows rows)) = snd ` set rows"
proof (induction rows rule: rev_induct)
  case Nil
  show ?case by (simp add: group_rows_def)
next
  case (snoc row rows)
  obtain p x where row: "row = (p, x)" by (cases row)
  show ?case
    using snoc unfolding row group_rows_snoc keys_add_row by auto
qed

lemma map_of_group_rows:
  "map_of (group_rows rows) x =
     (if x \<in> snd ` set rows then Some (map fst (filter (\<lambda>row. snd row = x) rows)) else None)"
proof (induction rows rule: rev_induct)
  case Nil
  show ?case by (simp add: group_rows_def)
next
  case (snoc row rows)
  obtain p y where row: "row = (p, y)" by (cases row)
  have "filter (\<lambda>row. snd row = x) rows = []" if "x \<notin> snd ` set rows"
    using that by (auto simp: filter_empty_conv)
  with snoc show ?case by (auto simp: row group_rows_snoc map_of_add_row)
qed

text \<open>A group holds the providers of its value, in the order of the rows.\<close>

lemma in_group_rows:
  "(x, ps) \<in> set (group_rows rows) \<longleftrightarrow>
     x \<in> snd ` set rows \<and> ps = map fst (filter (\<lambda>row. snd row = x) rows)"
proof -
  have "(x, ps) \<in> set (group_rows rows) \<longleftrightarrow> map_of (group_rows rows) x = Some ps"
    using group_rows_keys [of rows] by (auto dest: map_of_SomeD intro: map_of_is_SomeI)
  then show ?thesis by (auto simp: map_of_group_rows)
qed

lemma in_qualifying: "(x, ps) \<in> set (qualifying k groups) \<longleftrightarrow> (x, ps) \<in> set groups \<and> k \<le> int (length ps)"
  by (simp add: qualifying_def)

lemma qualifying_row:
  assumes "(x, ps) \<in> set (qualifying k (group_rows rows))"
  shows "ps = map fst (filter (\<lambda>row. snd row = x) rows)" "k \<le> int (length ps)"
  using assms by (auto simp: qualifying_def in_group_rows)

section \<open>The pass, and what it collects\<close>

lemma distinct_observers_fresh:
  "distinct (map fingerprint (distinct_observers seen rpcs))
   \<and> fingerprint ` set (distinct_observers seen rpcs) \<inter> set seen = {}
   \<and> fingerprint ` set (distinct_observers seen rpcs) = fingerprint ` set rpcs - set seen
   \<and> set (distinct_observers seen rpcs) \<subseteq> set rpcs"
  by (induction seen rpcs rule: distinct_observers.induct) auto

text \<open>\<open>collects\<close>: the row comes from an observer that was asked and answered it.\<close>

definition collected :: "(evm_rpc \<Rightarrow> bool) \<Rightarrow> 'a observing \<Rightarrow> evm_rpc list \<Rightarrow> string \<times> 'a \<Rightarrow> bool" where
  "collected use read rpcs row \<longleftrightarrow>
     (\<exists>(rpc :: evm_rpc) rpc'. rpc \<in> set rpcs \<and> use rpc \<and> fst row = fingerprint rpc \<and> read rpc = (Inr (snd row), rpc'))"

lemma collected_Cons: "collected use read rpcs row \<Longrightarrow> collected use read (rpc # rpcs) row"
  unfolding collected_def by (meson list.set_intros(2))

lemma sweep_rows:
  "sweep counts use skips read seen rpcs = (Inr rows, rpcs') \<Longrightarrow>
     distinct (map fst rows) \<and> set (map fst rows) \<inter> set seen = {}
     \<and> (\<forall>row \<in> set rows. collected use read rpcs row)"
proof (induction rpcs arbitrary: seen rows rpcs')
  case (Cons rpc rpcs)
  let ?fp = "fingerprint rpc"
  show ?case
  proof (cases "\<not> counts rpc \<or> ?fp \<in> set seen")
    case True
    then obtain rpcs1 where "sweep counts use skips read seen rpcs = (Inr rows, rpcs1)"
      using Cons.prems by (auto split: prod.splits)
    from Cons.IH [OF this] collected_Cons show ?thesis by blast
  next
    case False
    show ?thesis
    proof (cases "\<exists>rpcs1. sweep counts use skips read (?fp # seen) rpcs = (Inr rows, rpcs1)")
      case True
      then obtain rpcs1 where "sweep counts use skips read (?fp # seen) rpcs = (Inr rows, rpcs1)" by blast
      from Cons.IH [OF this] show ?thesis by (auto intro: collected_Cons)
    next
      case no: False
      then obtain x rows1 rpc1 rpcs1 where d: "use rpc" "read rpc = (Inr x, rpc1)"
        "sweep counts use skips read (?fp # seen) rpcs = (Inr rows1, rpcs1)" "rows = (?fp, x) # rows1"
        using Cons.prems False by (auto split: prod.splits sum.splits if_splits simp: and_then_Inr)
      have "collected use read (rpc # rpcs) (?fp, x)"
        unfolding collected_def using d(1,2) by (metis fst_conv list.set_intros(1) snd_conv)
      with Cons.IH [OF d(3)] d(4) False show ?thesis by (auto intro: collected_Cons)
    qed
  qed
qed simp

text \<open>Rows of distinct providers, each collected: what a pass gives and what a filter of it keeps.\<close>

definition collects :: "(evm_rpc \<Rightarrow> bool) \<Rightarrow> 'a observing \<Rightarrow> evm_rpc list \<Rightarrow> (string \<times> 'a) list \<Rightarrow> bool" where
  "collects use read rpcs rows \<longleftrightarrow> distinct (map fst rows) \<and> (\<forall>row \<in> set rows. collected use read rpcs row)"

lemma sweep_collects:
  "sweep counts use skips read seen rpcs = (Inr rows, rpcs') \<Longrightarrow> collects use read rpcs rows"
  unfolding collects_def by (drule sweep_rows) blast

lemma collects_filter: "collects use read rpcs rows \<Longrightarrow> collects use read rpcs (filter ok rows)"
  by (simp add: collects_def distinct_map_filter)

lemma sweep_keeps:
  assumes "keeps read"
  shows "list_all2 same_endpoint rpcs (snd (sweep counts use skips read seen rpcs))"
proof (induction rpcs arbitrary: seen)
  case (Cons rpc rpcs)
  have k: "same_endpoint rpc (snd (read rpc))" using assms by (simp add: keeps_def)
  obtain r rpc1 where r: "read rpc = (r, rpc1)" by (cases "read rpc")
  have refl: "list_all2 same_endpoint xs xs" for xs by (simp add: list.rel_refl)
  have "list_all2 same_endpoint rpcs (snd (sweep counts use skips read s rpcs))" for s by (rule Cons)
  then show ?case using k r refl by (auto split: prod.splits sum.splits) (metis snd_conv)+
qed simp

lemma fingerprint_endpoint: "same_endpoint a b \<Longrightarrow> fingerprint b = fingerprint a"
  by (simp add: fingerprint_def same_endpoint_fields)

section \<open>The contract of a quorum\<close>

text \<open>
  At least \<open>k\<close> distinct providers, each an observer that says \<open>x\<close>; and if fewer than \<open>k\<close> providers
  say anything but the truth, \<open>x\<close> is the truth.
\<close>

definition quorum_says ::
  "evm_rpc list \<Rightarrow> int \<Rightarrow> string list \<Rightarrow> (evm_rpc \<Rightarrow> 'a \<Rightarrow> bool) \<Rightarrow> 'a \<Rightarrow> bool" where
  "quorum_says observers k providers speaks x \<longleftrightarrow>
     k \<le> int (length providers) \<and> distinct providers
     \<and> (\<forall>p \<in> set providers. \<exists>rpc \<in> set observers. fingerprint rpc = p \<and> speaks rpc x)
     \<and> (\<forall>liars truth. finite liars \<and> int (card liars) < k
          \<and> (\<forall>rpc \<in> set observers. \<forall>y. fingerprint rpc \<notin> liars \<and> speaks rpc y \<longrightarrow> y = truth)
          \<longrightarrow> x = truth)"

text \<open>The observers after some passes differ from the first ones by their counters.\<close>

definition origin :: "evm_rpc list \<Rightarrow> evm_rpc list \<Rightarrow> bool" where
  "origin observers observers' \<longleftrightarrow> (\<forall>rpc' \<in> set observers'. \<exists>rpc \<in> set observers. same_endpoint rpc rpc')"

lemma origin_pass: "origin observers observers1 \<Longrightarrow> list_all2 same_endpoint observers1 observers2 \<Longrightarrow> origin observers observers2"
  unfolding origin_def by (metis in_set_conv_nth list_all2_conv_all_nth same_endpoint_trans)

lemma quorum_says_mono:
  assumes "quorum_says observers k providers speaks x" "\<And>rpc y. speaks rpc y \<Longrightarrow> speaks' rpc y"
  shows "quorum_says observers k providers speaks' x"
  using assms unfolding quorum_says_def by meson

lemma quorum_says_origin:
  assumes "quorum_says observers' k providers speaks x"
    and "origin observers observers'"
    and "\<And>a b. same_endpoint a b \<Longrightarrow> speaks b = speaks a"
  shows "quorum_says observers k providers speaks x"
proof -
  have same: "fingerprint b = fingerprint a \<and> speaks b = speaks a" if "same_endpoint a b" for a b
    using assms(3) [OF that] fingerprint_endpoint [OF that] by simp
  have q: "k \<le> int (length providers)" "distinct providers"
    "\<forall>p \<in> set providers. \<exists>rpc \<in> set observers'. fingerprint rpc = p \<and> speaks rpc x"
    and true: "\<forall>liars truth. finite liars \<and> int (card liars) < k
      \<and> (\<forall>rpc \<in> set observers'. \<forall>y. fingerprint rpc \<notin> liars \<and> speaks rpc y \<longrightarrow> y = truth) \<longrightarrow> x = truth"
    using assms(1) by (simp_all add: quorum_says_def)
  have "\<exists>rpc \<in> set observers. fingerprint rpc = p \<and> speaks rpc x" if p: "p \<in> set providers" for p
  proof -
    obtain rpc' where r: "rpc' \<in> set observers'" "fingerprint rpc' = p" "speaks rpc' x" using q(3) p by blast
    obtain rpc where o: "rpc \<in> set observers" "same_endpoint rpc rpc'" using assms(2) r(1) unfolding origin_def by blast
    have "fingerprint rpc = p" "speaks rpc x" using same [OF o(2)] r(2,3) by simp_all
    with o(1) show ?thesis by blast
  qed
  moreover have "x = truth" if few: "finite liars" "int (card liars) < k"
    and honest: "\<forall>rpc \<in> set observers. \<forall>y. fingerprint rpc \<notin> liars \<and> speaks rpc y \<longrightarrow> y = truth" for liars truth
  proof -
    have "y = truth" if r: "rpc' \<in> set observers'" "fingerprint rpc' \<notin> liars" "speaks rpc' y" for rpc' y
    proof -
      obtain rpc where o: "rpc \<in> set observers" "same_endpoint rpc rpc'" using assms(2) r(1) unfolding origin_def by blast
      have "fingerprint rpc \<notin> liars" "speaks rpc y" using same [OF o(2)] r(2,3) by simp_all
      with o(1) honest show ?thesis by blast
    qed
    with true few show ?thesis by blast
  qed
  ultimately show ?thesis unfolding quorum_says_def using q(1,2) by blast
qed

text \<open>
  A kind of reading: what an observer is asked and what it means that it says \<open>x\<close>. The laws: an
  answer that the reading accepts is one the observer gave, in an exchange where it attested its
  chain, and the reading leaves the endpoint alone.
\<close>

locale reading =
  fixes read :: "'a observing"
    and speaks :: "evm_rpc \<Rightarrow> 'a \<Rightarrow> bool"
  assumes read_speaks: "read rpc = (Inr x, rpc') \<Longrightarrow> speaks rpc x"
    and read_keeps: "keeps read"
begin

text \<open>Every provider of a group is the label of an observer that was asked and said the value.\<close>

lemma group_speaks:
  assumes "collects use read rpcs rows" "(x, ps) \<in> set (group_rows rows)"
  shows "distinct ps \<and> (\<forall>p \<in> set ps. \<exists>rpc \<in> set rpcs. use rpc \<and> fingerprint rpc = p \<and> speaks rpc x)"
proof -
  note rows = assms(1) [unfolded collects_def]
  have ps: "ps = map fst (filter (\<lambda>row. snd row = x) rows)" using assms(2) by (simp add: in_group_rows)
  have "distinct ps" using rows unfolding ps by (simp add: distinct_map_filter)
  moreover have "\<exists>rpc \<in> set rpcs. use rpc \<and> fingerprint rpc = p \<and> speaks rpc x" if p: "p \<in> set ps" for p
  proof -
    obtain row where row: "row \<in> set rows" "snd row = x" "fst row = p" using p by (auto simp: ps)
    have "collected use read rpcs row" using rows row(1) by blast
    then show ?thesis unfolding collected_def row(2,3) using read_speaks by blast
  qed
  ultimately show ?thesis by blast
qed

text \<open>
  Fewer dishonest providers than the quorum cannot carry a value: if every observer outside of the
  providers \<open>liars\<close> says only the truth, a value that \<open>k\<close> providers agree on is the truth.
\<close>

lemma honest_speaker:
  assumes "collects use read rpcs rows"
    and "(x, ps) \<in> set (qualifying k (group_rows rows))"
    and "finite liars" "int (card liars) < k"
  obtains rpc where "rpc \<in> set rpcs" "fingerprint rpc \<in> set ps" "fingerprint rpc \<notin> liars" "speaks rpc x"
proof -
  have g: "(x, ps) \<in> set (group_rows rows)" "k \<le> int (length ps)" using assms(2) by (auto simp: qualifying_def)
  note s = group_speaks [OF assms(1) g(1)]
  have "\<not> set ps \<subseteq> liars"
  proof
    assume "set ps \<subseteq> liars"
    then have "card (set ps) \<le> card liars" using assms(3) card_mono by blast
    then show False using s g(2) assms(4) by (simp add: distinct_card)
  qed
  then obtain p where p: "p \<in> set ps" "p \<notin> liars" by blast
  obtain rpc where "rpc \<in> set rpcs" "fingerprint rpc = p" "speaks rpc x" using s p(1) by blast
  with p show thesis by (intro that) simp_all
qed

lemma quorum_is_true:
  assumes "collects use read rpcs rows"
    and "(x, ps) \<in> set (qualifying k (group_rows rows))"
    and "finite liars" "int (card liars) < k"
    and "\<And>rpc y. rpc \<in> set rpcs \<Longrightarrow> fingerprint rpc \<notin> liars \<Longrightarrow> speaks rpc y \<Longrightarrow> y = truth"
  shows "x = truth"
proof -
  obtain rpc where "rpc \<in> set rpcs" "fingerprint rpc \<notin> liars" "speaks rpc x"
    using assms(1-4) by (rule honest_speaker)
  then show ?thesis by (rule assms(5))
qed

text \<open>Both together: what a quorum of \<open>k\<close> providers stands for.\<close>

lemma qualifying_says:
  assumes "collects use read rpcs rows" "(x, ps) \<in> set (qualifying k (group_rows rows))"
  shows "quorum_says rpcs k ps (\<lambda>rpc y. use rpc \<and> speaks rpc y) x"
proof -
  have g: "(x, ps) \<in> set (group_rows rows)" "k \<le> int (length ps)" using assms(2) by (auto simp: qualifying_def)
  have use: "collects use read (filter use rpcs) rows" using assms(1) by (simp add: collects_def collected_def)
  have "x = truth" if "finite liars" "int (card liars) < k"
    and "\<forall>rpc \<in> set rpcs. \<forall>y. fingerprint rpc \<notin> liars \<and> use rpc \<and> speaks rpc y \<longrightarrow> y = truth" for liars truth
    using use assms(2) that(1,2) by (rule quorum_is_true) (use that(3) in auto)
  then show ?thesis unfolding quorum_says_def using g(2) group_speaks [OF assms(1) g(1)] by blast
qed

text \<open>Two groups that both qualify need twice the providers.\<close>

lemma rival_quorums:
  assumes "collects use read rpcs rows"
    and "(x, ps) \<in> set (qualifying k (group_rows rows))" "(y, qs) \<in> set (qualifying k (group_rows rows))" "x \<noteq> y"
  shows "2 * k \<le> int (card (fingerprint ` set rpcs))"
proof -
  note rows = assms(1) [unfolded collects_def]
  have x: "ps = map fst (filter (\<lambda>row. snd row = x) rows)" "k \<le> int (length ps)"
    and y: "qs = map fst (filter (\<lambda>row. snd row = y) rows)" "k \<le> int (length qs)"
    using qualifying_row [OF assms(2)] qualifying_row [OF assms(3)] by simp_all
  have inj: "inj_on fst (set rows)" using rows by (simp add: distinct_map)
  have "set ps \<inter> set qs = {}" unfolding x(1) y(1) using inj assms(4) by (auto dest: inj_onD)
  moreover have d: "distinct ps" "distinct qs" unfolding x(1) y(1) using rows by (simp_all add: distinct_map_filter)
  ultimately have "card (set ps \<union> set qs) = length ps + length qs" by (simp add: card_Un_disjoint distinct_card)
  moreover have "set ps \<union> set qs \<subseteq> fingerprint ` set rpcs"
    using rows unfolding x(1) y(1) collected_def by fastforce
  then have "card (set ps \<union> set qs) \<le> card (fingerprint ` set rpcs)" by (simp add: card_mono)
  ultimately show ?thesis using x(2) y(2) by simp
qed

end

section \<open>Decoded answers\<close>

text \<open>A reading whose answers are decoded before they are grouped; an answer that does not decode is dropped.\<close>

definition decoded :: "('a \<Rightarrow> 'b option) \<Rightarrow> 'a observing \<Rightarrow> 'b observing" where
  "decoded decode read rpc =
    (case read rpc of
       (Inl e, rpc') \<Rightarrow> (Inl e, rpc')
     | (Inr x, rpc') \<Rightarrow> (case decode x of Some y \<Rightarrow> (Inr y, rpc') | None \<Rightarrow> (Inl (Rpc_Error []), rpc')))"

definition decode_rows :: "('a \<Rightarrow> 'b option) \<Rightarrow> ('p \<times> 'a) list \<Rightarrow> ('p \<times> 'b) list" where
  "decode_rows decode rows = List.map_filter (\<lambda>(p, x). map_option (Pair p) (decode x)) rows"

lemma decode_rows_simps [simp]:
  "decode_rows decode [] = []"
  "decode_rows decode ((p, x) # rows) =
     (case decode x of Some y \<Rightarrow> (p, y) # decode_rows decode rows | None \<Rightarrow> decode_rows decode rows)"
  by (simp_all add: decode_rows_def List.map_filter_simps split: option.splits)

lemma in_decode_rows: "(p, y) \<in> set (decode_rows decode rows) \<longleftrightarrow> (\<exists>x. (p, x) \<in> set rows \<and> decode x = Some y)"
  by (induction rows) (auto split: option.splits)

lemma collects_decoded:
  assumes "collects use read rpcs rows"
  shows "collects use (decoded decode read) rpcs (decode_rows decode rows)"
proof -
  have "distinct (map fst rows) \<Longrightarrow> distinct (map fst (decode_rows decode rows))" for rows :: "(string \<times> 'a) list"
    by (induction rows) (auto simp: in_decode_rows rev_image_eqI split: option.splits)
  moreover have "collected use (decoded decode read) rpcs (p, y)" if "collected use read rpcs (p, x)" "decode x = Some y" for p x y
    using that by (fastforce simp: collected_def decoded_def)
  moreover have "distinct (map fst rows)" "\<And>p x. (p, x) \<in> set rows \<Longrightarrow> collected use read rpcs (p, x)"
    using assms by (auto simp: collects_def)
  ultimately show ?thesis unfolding collects_def by (metis in_decode_rows surj_pair)
qed

locale decoded_reading = reading read speaks
  for read :: "'a observing" and speaks :: "evm_rpc \<Rightarrow> 'a \<Rightarrow> bool" +
  fixes decode :: "'a \<Rightarrow> 'b option"

sublocale decoded_reading \<subseteq> decoded: reading "decoded decode read" "\<lambda>rpc y. \<exists>x. speaks rpc x \<and> decode x = Some y"
proof unfold_locales
  fix rpc :: evm_rpc and y rpc'
  assume "decoded decode read rpc = (Inr y, rpc')"
  then show "\<exists>x. speaks rpc x \<and> decode x = Some y"
    using read_speaks by (auto simp: decoded_def split: prod.splits sum.splits option.splits)
next
  have "snd (decoded decode read rpc) = snd (read rpc)" for rpc :: evm_rpc
    by (auto simp: decoded_def split: prod.splits sum.splits option.splits)
  then show "keeps (decoded decode read)" using read_keeps by (simp add: keeps_def)
qed

section \<open>Labels of different hosts\<close>

lemma colon_lower: "CHR '':'' \<notin> set (lower (takeWhile (\<lambda>c. c \<noteq> CHR '':'') xs))"
proof
  assume "CHR '':'' \<in> set (lower (takeWhile (\<lambda>c. c \<noteq> CHR '':'') xs))"
  then obtain c where c: "c \<in> set (takeWhile (\<lambda>c. c \<noteq> CHR '':'') xs)" "CHR '':'' = lower_char c"
    unfolding lower_def set_map by blast
  then have "c \<noteq> CHR '':''" by (auto dest: set_takeWhileD)
  moreover have colon: "code_of (CHR '':'') = 58" by code_simp
  moreover have "code_of c = 58"
    using colon unfolding c(2) code_of_lower_char Let_def by (auto split: if_splits)
  ultimately show False by (metis code_of_def of_char_eq_iff)
qed

lemma url_host_colon: "CHR '':'' \<notin> set (url_host url)"
  unfolding url_host_def Let_def by (rule colon_lower)

lemma fingerprint_host:
  assumes "provider_fingerprint u = provider_fingerprint v" "url_host u \<noteq> []" "url_host v \<noteq> []"
  shows "url_host u = url_host v"
proof -
  have "url_host u @ CHR '':'' # take 12 (sha256_hex (utf8 u)) = url_host v @ CHR '':'' # take 12 (sha256_hex (utf8 v))"
    using assms by (simp add: provider_fingerprint_def Let_def)
  from separator_split [OF this url_host_colon url_host_colon] show ?thesis by simp
qed

section \<open>A demonstration endpoint\<close>

lemma answer_pair: "fst x = r \<Longrightarrow> x = (r, snd x)"
  by (simp add: prod_eq_iff)

text \<open>Answers that do not depend on the request, behind a well-formed envelope.\<close>

definition demo_transport :: "(string \<times> pyval) list \<Rightarrow> transport" where
  "demo_transport answers url request timeout =
     (case request of
        PDict d \<Rightarrow> Inr (PDict [(''jsonrpc'', PStr ''2.0''), (''id'', dget d ''id''),
          (''result'', case dget d ''method'' of PStr m \<Rightarrow> dget answers m | _ \<Rightarrow> PNone)])
      | _ \<Rightarrow> Inl (Rpc_Error []))"

definition demo_rpc :: "string \<Rightarrow> (string \<times> pyval) list \<Rightarrow> evm_rpc" where
  "demo_rpc url answers =
     \<lparr>rpc_chain = snd (chains ! 2), rpc_url = url, rpc_timeout = Fin 5, rpc_transport = demo_transport answers,
      rpc_next_id = 1\<rparr>"

definition demo_a :: string where
  "demo_a = ''https://a.example/k''"

definition demo_b :: string where
  "demo_b = ''https://b.example/k''"

definition demo_answers :: "(string \<times> pyval) list \<Rightarrow> (string \<times> pyval) list" where
  "demo_answers answers = (''eth_chainId'', PStr ''0x2105'') # answers"

definition demo_pair :: "(string \<times> pyval) list \<Rightarrow> evm_rpc list" where
  "demo_pair answers = [demo_rpc demo_a (demo_answers answers), demo_rpc demo_b (demo_answers answers)]"

lemma demo_labels: "provider_fingerprint demo_a \<noteq> provider_fingerprint demo_b"
proof
  assume eq: "provider_fingerprint demo_a = provider_fingerprint demo_b"
  have "url_host demo_a = ''a.example''" "url_host demo_b = ''b.example''" by code_simp+
  then show False using fingerprint_host [OF eq] by simp
qed

lemma demo_fingerprint [simp]: "fingerprint (demo_rpc url answers) = provider_fingerprint url"
  by (simp add: fingerprint_def demo_rpc_def)

lemma demo_distinct [simp]: "distinct_observers [] (demo_pair answers) = demo_pair answers"
  using demo_labels by (simp add: demo_pair_def)

lemma length_demo_pair [simp]: "length (demo_pair answers) = 2"
  by (simp add: demo_pair_def)

lemma demo_on_chain [simp]: "on_chain ''base'' (demo_rpc url answers)"
  by (simp add: on_chain_def demo_rpc_def chains_def)

text \<open>Unfolds an operation of such an endpoint.\<close>

lemmas demo_eval = attest_chain_def obs_then_def obs_lift_def obs_raise_if_def rpc_call_def allowed_methods_def
  demo_rpc_def demo_transport_def demo_answers_def read_envelope_def rpc_request_def is_rpc_id_def has_key_def
  dget_def chains_def Let_def hex_answer_def

text \<open>A pass over the two that both answer.\<close>

lemma demo_sweep:
  assumes "\<And>url. fst (read (demo_rpc url (demo_answers answers))) = Inr x"
    and "\<And>rpc. counts rpc" "\<And>url answers. use (demo_rpc url answers)"
  shows "fst (sweep counts use skips read [] (demo_pair answers)) =
    Inr [(provider_fingerprint demo_a, x), (provider_fingerprint demo_b, x)]"
proof -
  define after where "after url = snd (read (demo_rpc url (demo_answers answers)))" for url
  have r: "read (demo_rpc url (demo_answers answers)) = (Inr x, after url)" for url
    using assms(1) [of url] by (simp add: prod_eq_iff after_def)
  show ?thesis
    unfolding demo_pair_def sweep.simps r demo_fingerprint using assms(2,3) demo_labels by (simp split: prod.splits)
qed

text \<open>The endpoints after some reads: what they answer, and a pass over them that both answer.\<close>

lemma demo_answered: "answered (demo_rpc url answers) i m ps v \<longleftrightarrow> v = dget answers m"
  by (auto simp: answered_def demo_eval)

lemma demo_ready:
  assumes "same_endpoint (demo_rpc url (demo_answers answers)) rpc"
  shows "cc_key (rpc_chain rpc) = ''base''" "cc_chain_id (rpc_chain rpc) = Some 8453" "on_chain ''base'' rpc"
    and "answered rpc i m ps v \<longleftrightarrow> v = dget (demo_answers answers) m" "attested rpc i"
proof -
  show chain: "cc_key (rpc_chain rpc) = ''base''" "cc_chain_id (rpc_chain rpc) = Some 8453"
    using same_endpoint_fields [OF assms] by (simp_all add: demo_rpc_def chains_def)
  then show "on_chain ''base'' rpc" by (simp add: on_chain_def)
  show a: "answered rpc i m ps v \<longleftrightarrow> v = dget (demo_answers answers) m" for i m ps v
    unfolding answered_endpoint(1) [OF assms] by (rule demo_answered)
  have "hex_int (PStr ''0x2105'') ''chain id'' = Inr 8453" by (subst hex_int_quantity; code_simp)
  then show "attested rpc i" unfolding attested_def a by (simp add: chain demo_answers_def dget_def)
qed

lemma two_sweep:
  assumes "fingerprint a \<noteq> fingerprint b" "fst (read a) = Inr x" "fst (read b) = Inr x"
    and "counts a \<and> use a" "counts b \<and> use b"
  shows "fst (sweep counts use skips read [] [a, b]) = Inr [(fingerprint a, x), (fingerprint b, x)]"
proof -
  obtain a' b' where "read a = (Inr x, a')" "read b = (Inr x, b')"
    using answer_pair [OF assms(2)] answer_pair [OF assms(3)] by blast
  then show ?thesis using assms(1,4,5) by (simp split: prod.splits)
qed

lemma demo_sweep_again:
  assumes "list_all2 same_endpoint (demo_pair answers) observers"
    and "\<And>rpc url. same_endpoint (demo_rpc url (demo_answers answers)) rpc \<Longrightarrow> fst (read rpc) = Inr x"
    and "\<And>rpc url. same_endpoint (demo_rpc url (demo_answers answers)) rpc \<Longrightarrow> url \<in> {demo_a, demo_b} \<Longrightarrow> counts rpc \<and> use rpc"
  shows "fst (sweep counts use skips read [] observers) =
    Inr [(provider_fingerprint demo_a, x), (provider_fingerprint demo_b, x)]"
proof -
  obtain a b where o: "observers = [a, b]"
    and s: "same_endpoint (demo_rpc demo_a (demo_answers answers)) a" "same_endpoint (demo_rpc demo_b (demo_answers answers)) b"
    using assms(1) by (auto simp: demo_pair_def list_all2_Cons1)
  have f: "fingerprint a = provider_fingerprint demo_a" "fingerprint b = provider_fingerprint demo_b"
    using s fingerprint_endpoint demo_fingerprint by metis+
  then have "fingerprint a \<noteq> fingerprint b" using demo_labels by simp
  from two_sweep [where read = read, OF this assms(2) [OF s(1)] assms(2) [OF s(2)] assms(3) [OF s(1)] assms(3) [OF s(2)]] show ?thesis
    unfolding o f by simp
qed

end
