(* ===== verification/Evm_Consensus.thy ===== *)
theory Evm_Consensus
  imports Evm_Quorum "HOL-Library.Char_ord" "HOL-Library.List_Lexorder" "HOL-Library.Product_Lexorder"
begin

text \<open>
  The two consensus observations: the chain head (\<^verbatim>\<open>evm_consensus.py\<close>) and one historical call
  (\<^verbatim>\<open>evm_call_consensus.py\<close>).
\<close>

section \<open>The chain head\<close>

record head_source =
  hs_provider :: string
  hs_block_number :: int

record consensus_observation =
  hc_chain :: string
  hc_chain_id :: int
  hc_canonical :: int
  hc_min :: int
  hc_max :: int
  hc_quorum :: int
  hc_observed_at :: string
  hc_sources :: "head_source list"

text \<open>The loop over the candidates; \<open>expected\<close> is the chain of the first success.\<close>

fun head_loop ::
  "(string \<times> int) option \<Rightarrow> string list \<Rightarrow> evm_rpc list \<Rightarrow> rpc_observation list evm \<times> evm_rpc list" where
  "head_loop expected seen [] = (Inr [], [])"
| "head_loop expected seen (rpc # rpcs) =
     (if fingerprint rpc \<in> set seen
      then (let (r, rpcs') = head_loop expected seen rpcs in (r, rpc # rpcs'))
      else
        (case observe_head rpc of
           (Inl e, rpc') \<Rightarrow>
             if is_rpc_error e
             then (let (r, rpcs') = head_loop expected (fingerprint rpc # seen) rpcs in (r, rpc' # rpcs'))
             else (Inl e, rpc' # rpcs)
         | (Inr ob, rpc') \<Rightarrow>
             if expected \<noteq> None \<and> expected \<noteq> Some (ob_chain ob, ob_chain_id ob)
             then (Inl (Rpc_Error ''RPC providers attested different chains''), rpc' # rpcs)
             else
               (let (r, rpcs') = head_loop (Some (ob_chain ob, ob_chain_id ob)) (fingerprint rpc # seen) rpcs
                in (and_then r (\<lambda>obs. Inr (ob # obs)), rpc' # rpcs'))))"

text \<open>
  \<^verbatim>\<open>int(median(blocks))\<close>: the middle block, or the two middle ones halved, which is a float: exact
  as long as the sum fits the significand.
\<close>

definition half_to_int :: "int \<Rightarrow> int evm" where
  "half_to_int s =
     (if s \<le> 2 ^ 53 then Inr (s div 2)
      else case round_double (of_int s / 2) of
          Some y \<Rightarrow> Inr \<lfloor>y\<rfloor>
        | None \<Rightarrow> Inl (Overflow_Error ''integer division result too large for a float''))"

definition int_median :: "int list \<Rightarrow> int evm" where
  "int_median blocks =
     (let xs = sort blocks; n = length xs in
      if odd n then Inr (xs ! (n div 2)) else half_to_int (xs ! (n div 2 - 1) + xs ! (n div 2)))"

definition head_verdict :: "string \<Rightarrow> int \<Rightarrow> int \<Rightarrow> rpc_observation list \<Rightarrow> consensus_observation evm" where
  "head_verdict now min_quorum max_block_skew successes =
    raise_if (int (length successes) < min_quorum) (Rpc_Error ''RPC consensus quorum not reached'')
    (let blocks = map ob_block_number successes; low = Min (set blocks); high = Max (set blocks) in
     if max_block_skew < high - low
     then and_then (int_text low) (\<lambda>from. and_then (int_text high) (\<lambda>upto.
       Inl (Rpc_Error (''RPC head disagreement exceeds skew tolerance: '' @ from @ ''..'' @ upto))))
     else
     and_then (int_median blocks) (\<lambda>canonical.
      Inr \<lparr>hc_chain = ob_chain (hd successes), hc_chain_id = ob_chain_id (hd successes), hc_canonical = canonical,
           hc_min = low, hc_max = high, hc_quorum = int (length successes), hc_observed_at = now,
           hc_sources = map (\<lambda>ob. \<lparr>hs_provider = provider_fingerprint (ob_rpc_url ob),
             hs_block_number = ob_block_number ob\<rparr>) successes\<rparr>))"

definition observe_consensus_head ::
  "string \<Rightarrow> int \<Rightarrow> int \<Rightarrow> evm_rpc list \<Rightarrow> consensus_observation evm \<times> evm_rpc list" where
  "observe_consensus_head now min_quorum max_block_skew observers =
    (if min_quorum < 2 then (Inl (Value_Error ''min_quorum must be at least 2''), observers)
     else if max_block_skew < 0 then (Inl (Value_Error ''max_block_skew must be non-negative''), observers)
     else if int (length (distinct_observers [] observers)) < min_quorum
     then (Inl (Rpc_Error ''insufficient distinct RPC providers for consensus''), observers)
     else
       (let (r, observers') = head_loop None [] observers
        in (and_then r (head_verdict now min_quorum max_block_skew), observers')))"

lemma head_loop_keeps: "list_all2 same_endpoint rpcs (snd (head_loop expected seen rpcs))"
proof (induction rpcs arbitrary: expected seen)
  case (Cons rpc rpcs)
  obtain r rpc1 where r: "observe_head rpc = (r, rpc1)" by (cases "observe_head rpc")
  have k: "same_endpoint rpc rpc1" using observe_head_ops(1) r by (metis keeps_def snd_conv)
  have refl: "list_all2 same_endpoint xs xs" for xs by (simp add: list.rel_refl)
  have "list_all2 same_endpoint rpcs (snd (head_loop e s rpcs))" for e s by (rule Cons)
  then show ?case using k r refl by (auto split: prod.splits sum.splits) (metis snd_conv)+
qed simp

lemma consensus_keeps: "list_all2 same_endpoint observers (snd (observe_consensus_head now k skew observers))"
  using head_loop_keeps [of observers None "[]"]
  by (auto simp: observe_consensus_head_def list.rel_refl split: prod.splits)

text \<open>What an observer reports: an attested exchange about the head of its chain.\<close>

definition reports :: "evm_rpc \<Rightarrow> rpc_observation \<Rightarrow> bool" where
  "reports rpc ob \<longleftrightarrow>
     (\<exists>i v. attested rpc i \<and> answered rpc (i + 1) ''eth_blockNumber'' [] v
        \<and> hex_int v ''block number'' = Inr (ob_block_number ob))
     \<and> ob_chain ob = cc_key (rpc_chain rpc) \<and> cc_chain_id (rpc_chain rpc) = Some (ob_chain_id ob)
     \<and> ob_rpc_url ob = rpc_url rpc"

lemma observe_head_reports: "observe_head rpc = (Inr ob, rpc') \<Longrightarrow> reports rpc ob"
  by (auto simp: observe_head_def observing_Inr reports_def) blast

definition same_chain :: "rpc_observation list \<Rightarrow> (string \<times> int) option \<Rightarrow> bool" where
  "same_chain obs expected \<longleftrightarrow>
     (\<exists>c. (expected = None \<or> expected = Some c) \<and> (\<forall>ob \<in> set obs. (ob_chain ob, ob_chain_id ob) = c))"

abbreviation label :: "rpc_observation \<Rightarrow> string" where
  "label ob \<equiv> provider_fingerprint (ob_rpc_url ob)"

definition reported :: "evm_rpc list \<Rightarrow> rpc_observation \<Rightarrow> bool" where
  "reported rpcs ob \<longleftrightarrow> (\<exists>(rpc :: evm_rpc) \<in> set rpcs. reports rpc ob)"

lemma head_loop_sound:
  "head_loop expected seen rpcs = (Inr obs, rpcs') \<Longrightarrow>
     distinct (map label obs) \<and> label ` set obs \<inter> set seen = {} \<and> same_chain obs expected
     \<and> (\<forall>ob \<in> set obs. reported rpcs ob)"
proof (induction rpcs arbitrary: expected seen obs rpcs')
  case (Cons rpc rpcs)
  have more: "reported rpcs ob \<Longrightarrow> reported (rpc # rpcs) ob" for ob by (auto simp: reported_def)
  show ?case
  proof (cases "fingerprint rpc \<in> set seen")
    case True
    then obtain rpcs1 where "head_loop expected seen rpcs = (Inr obs, rpcs1)"
      using Cons.prems by (auto split: prod.splits)
    from Cons.IH [OF this] more show ?thesis by blast
  next
    case False
    obtain r rpc1 where head: "observe_head rpc = (r, rpc1)" by (cases "observe_head rpc")
    show ?thesis
    proof (cases r)
      case (Inl e)
      then obtain rpcs1 where "head_loop expected (fingerprint rpc # seen) rpcs = (Inr obs, rpcs1)"
        using Cons.prems False head by (auto split: prod.splits if_splits)
      from Cons.IH [OF this] more show ?thesis by auto
    next
      case (Inr ob)
      let ?c = "(ob_chain ob, ob_chain_id ob)"
      obtain obs1 rpcs1 where d: "head_loop (Some ?c) (fingerprint rpc # seen) rpcs = (Inr obs1, rpcs1)"
          "obs = ob # obs1" "expected = None \<or> expected = Some ?c"
        using Cons.prems False head Inr
        by (cases expected) (auto simp: and_then_Inr split: prod.splits if_splits)
      have ob: "reports rpc ob" using head Inr observe_head_reports by blast
      then have "label ob = fingerprint rpc" by (simp add: reports_def fingerprint_def)
      moreover have "reported (rpc # rpcs) ob" using ob by (auto simp: reported_def)
      moreover have "same_chain obs expected"
        using Cons.IH [OF d(1)] d(2,3) by (auto simp: same_chain_def)
      ultimately show ?thesis using Cons.IH [OF d(1)] d(2) False more by auto
    qed
  qed
next
  case Nil
  then show ?case by (cases expected) (simp_all add: same_chain_def)
qed

section \<open>One historical call\<close>

record exact_result_consensus =
  xr_agreed_result :: "string option"
  xr_providers :: "string list"
  xr_verdict :: string

record exact_call_observation =
  xc_chain :: string
  xc_target :: string
  xc_block_number :: int
  xc_calldata :: string
  xc_consensus :: exact_result_consensus
  xc_successful_results :: "(string \<times> string) list"
  xc_status :: string

text \<open>\<^verbatim>\<open>sorted(set(xs))\<close>\<close>

definition sorted_set :: "string list \<Rightarrow> string list" where
  "sorted_set xs = sort (remdups xs)"

lemma sorted_set [simp]: "set (sorted_set xs) = set xs" "distinct (sorted_set xs)" "sorted (sorted_set xs)"
  by (simp_all add: sorted_set_def)

definition exact_verdict :: "int \<Rightarrow> (string \<times> string list) list \<Rightarrow> exact_result_consensus" where
  "exact_verdict min_quorum normalized =
    (case (filter (\<lambda>(result, providers). min_quorum \<le> int (length providers)) normalized, normalized) of
       ([(result, providers)], [_]) \<Rightarrow>
         \<lparr>xr_agreed_result = Some result, xr_providers = providers, xr_verdict = ''EXACT_RESULT_QUORUM''\<rparr>
     | _ \<Rightarrow>
         \<lparr>xr_agreed_result = None, xr_providers = [],
          xr_verdict = (if 1 < length normalized then ''RESULT_DISAGREEMENT'' else ''INSUFFICIENT_RESULT_EVIDENCE'')\<rparr>)"

definition classify_exact_results ::
  "(string \<times> string list) list \<Rightarrow> int \<Rightarrow> exact_result_consensus evm" where
  "classify_exact_results result_providers min_quorum =
    raise_if (min_quorum < 2) (Value_Error ''min_quorum must be at least 2'')
    (let normalized = filter (\<lambda>(result, providers). providers \<noteq> [])
           (map (\<lambda>(result, providers). (result, sorted_set providers)) result_providers)
     in Inr (exact_verdict min_quorum normalized))"

lemma exact_verdict_agreed:
  "xr_agreed_result (exact_verdict k normalized) = Some r \<longleftrightarrow> (\<exists>ps. normalized = [(r, ps)] \<and> k \<le> int (length ps))"
proof (cases normalized)
  case Nil
  then show ?thesis by (simp add: exact_verdict_def)
next
  case (Cons x xs)
  then show ?thesis by (cases xs) (auto simp: exact_verdict_def split: list.splits)
qed

lemma exact_verdict_single:
  "k \<le> int (length ps) \<Longrightarrow> exact_verdict k [(r, ps)] =
     \<lparr>xr_agreed_result = Some r, xr_providers = ps, xr_verdict = ''EXACT_RESULT_QUORUM''\<rparr>"
  by (simp add: exact_verdict_def)

fun call_skips :: "evm_error \<Rightarrow> bool" where
  "call_skips (Overflow_Error _) = False"
| "call_skips _ = True"

definition observe_exact_call ::
  "string \<Rightarrow> string \<Rightarrow> string \<Rightarrow> int \<Rightarrow> int \<Rightarrow> evm_rpc list \<Rightarrow> exact_call_observation evm \<times> evm_rpc list" where
  "observe_exact_call chain target calldata n min_quorum observers =
    (if min_quorum < 2 then (Inl (Value_Error ''min_quorum must be at least 2''), observers)
     else if n < 0 then (Inl (Value_Error ''block_number must be non-negative''), observers)
     else if int (length (distinct_observers [] observers)) < min_quorum
     then (Inl (Rpc_Error ''insufficient distinct RPC providers for exact-call observation''), observers)
     else
       (let (r, observers') =
              sweep (\<lambda>_. True) (on_chain chain) call_skips (call_at_block target calldata n) [] observers
        in (and_then r (\<lambda>rows.
              and_then (classify_exact_results (group_rows rows) min_quorum) (\<lambda>consensus.
              Inr \<lparr>xc_chain = chain, xc_target = target, xc_block_number = n, xc_calldata = calldata,
                   xc_consensus = consensus, xc_successful_results = sort rows,
                   xc_status = ''UNVERIFIED_EXACT_CALL_OBSERVATION''\<rparr>)), observers')))"

text \<open>What an observer says of one call on a chain.\<close>

definition says_call :: "string \<Rightarrow> string \<Rightarrow> int \<Rightarrow> evm_rpc \<Rightarrow> string \<Rightarrow> bool" where
  "says_call target data n rpc x \<longleftrightarrow>
     (\<exists>canonical. canonical_chain_address (PStr (cc_key (rpc_chain rpc))) (PStr target) = Some canonical
        \<and> says rpc ''eth_call'' (call_params canonical data n) x)"

interpretation calls: reading "call_at_block target data n" "says_call target data n"
  by unfold_locales (auto simp: says_call_def address_ops dest: call_at_block_says)

section \<open>The median\<close>

lemma half_between: "a \<le> x \<Longrightarrow> a \<le> y \<Longrightarrow> a \<le> (x + y) div 2" "x \<le> b \<Longrightarrow> y \<le> b \<Longrightarrow> (x + y) div 2 \<le> b"
  for a b x y :: int
  by linarith+

lemma int_median_bounds:
  assumes "blocks \<noteq> []" "\<forall>b \<in> set blocks. 0 \<le> b" "Max (set blocks) \<le> 2 ^ 52"
  shows "\<exists>m. int_median blocks = Inr m \<and> Min (set blocks) \<le> m \<and> m \<le> Max (set blocks)"
proof -
  define xs where "xs = sort blocks"
  have xs: "set xs = set blocks" by (simp add: xs_def)
  then have "xs \<noteq> []" using assms(1) by auto
  note xs = xs this
  have at: "Min (set blocks) \<le> xs ! i \<and> xs ! i \<le> Max (set blocks)" if "i < length xs" for i
    using that xs by (metis List.finite_set Max_ge Min_le nth_mem)
  show ?thesis
  proof (cases "odd (length xs)")
    case True
    with at [of "length xs div 2"] xs(2) show ?thesis by (auto simp: int_median_def Let_def xs_def [symmetric])
  next
    case False
    then have i: "length xs div 2 - 1 < length xs" "length xs div 2 < length xs" using xs(2) by (simp_all add: le_less_trans [OF diff_le_self])
    let ?s = "xs ! (length xs div 2 - 1) + xs ! (length xs div 2)"
    have "?s \<le> 2 ^ 53" using at [OF i(1)] at [OF i(2)] assms(3) by simp
    then have "int_median blocks = Inr (?s div 2)"
      using False by (simp add: int_median_def Let_def xs_def [symmetric] half_to_int_def)
    moreover have "Min (set blocks) \<le> ?s div 2" "?s div 2 \<le> Max (set blocks)"
      using at [OF i(1)] at [OF i(2)] by (simp_all only: half_between)
    ultimately show ?thesis by blast
  qed
qed

lemma quantity_nonneg: "hex_int v field = Inr n \<Longrightarrow> 0 \<le> n"
  by (auto simp: hex_int_Inr)

text \<open>The head of two demonstration endpoints at height 16.\<close>

lemma demo_observe_head:
  assumes "dget answers ''eth_blockNumber'' = PStr ''0x10''"
  shows "\<exists>rpc'. observe_head (demo_rpc url (demo_answers answers)) =
    (Inr \<lparr>ob_chain = ''base'', ob_chain_id = 8453, ob_block_number = 16, ob_rpc_url = url\<rparr>, rpc')"
proof -
  have num: "hex_int (PStr ''0x2105'') field = Inr 8453" "hex_int (PStr ''0x10'') field = Inr 16" for field
    by (subst hex_int_quantity; code_simp)+
  have at: "dget (demo_answers answers) ''eth_blockNumber'' = PStr ''0x10''"
    using assms by (simp add: demo_answers_def dget_def)
  show ?thesis
    using num at demo_ready [OF same_endpoint_refl, of url answers]
    by (simp add: observe_head_def observing_Inr allowed_methods_def) (simp add: demo_rpc_def)
qed

lemma demo_head:
  assumes "dget answers ''eth_blockNumber'' = PStr ''0x10''"
  obtains head where "fst (observe_consensus_head now 2 3 (demo_pair answers)) = Inr head"
    "hc_canonical head = 16" "hc_chain head = ''base''" "hc_chain_id head = 8453"
proof -
  let ?answers = "demo_answers answers"
  let ?ob = "\<lambda>url. \<lparr>ob_chain = ''base'', ob_chain_id = 8453, ob_block_number = 16, ob_rpc_url = url\<rparr>"
  define after where "after url = snd (observe_head (demo_rpc url ?answers))" for url
  have "\<exists>rpc'. observe_head (demo_rpc url ?answers) = (Inr (?ob url), rpc')" for url
    using assms by (rule demo_observe_head)
  then have head: "observe_head (demo_rpc url ?answers) = (Inr (?ob url), after url)" for url
    unfolding after_def by (metis snd_conv)
  have loop: "fst (head_loop None [] (demo_pair answers)) = Inr [?ob demo_a, ?ob demo_b]"
    unfolding demo_pair_def head_loop.simps head demo_fingerprint using demo_labels by (simp split: prod.splits)
  have median: "int_median [16, 16] = Inr 16" by code_simp
  have "fst (observe_consensus_head now 2 3 (demo_pair answers)) = head_verdict now 2 3 [?ob demo_a, ?ob demo_b]"
    using loop by (simp add: observe_consensus_head_def split_def Let_def)
  moreover have "\<exists>head. head_verdict now 2 3 [?ob demo_a, ?ob demo_b] = Inr head \<and> hc_canonical head = 16
      \<and> hc_chain head = ''base'' \<and> hc_chain_id head = 8453"
    using median by (simp add: head_verdict_def)
  ultimately show thesis using that by auto
qed

section \<open>Properties\<close>

text \<open>
  C16: An accepted chain head rests on at least the quorum of distinct providers. Each source is an
  observer that attested the accepted chain identity and reported the block of its row, and the
  reported blocks differ by no more than the tolerated skew; up to height $2^{52}$ the accepted
  height lies between the lowest and the highest of them.
\<close>

theorem consensus_head_is_sound:
  assumes "observe_consensus_head now min_quorum max_block_skew observers = (Inr head, observers')"
  shows "2 \<le> min_quorum \<and> min_quorum \<le> hc_quorum head \<and> hc_quorum head = int (length (hc_sources head))
    \<and> distinct (map hs_provider (hc_sources head))
    \<and> hc_max head - hc_min head \<le> max_block_skew
    \<and> (\<forall>source \<in> set (hc_sources head). hc_min head \<le> hs_block_number source \<and> hs_block_number source \<le> hc_max head
         \<and> (\<exists>rpc \<in> set observers. fingerprint rpc = hs_provider source
              \<and> reports rpc \<lparr>ob_chain = hc_chain head, ob_chain_id = hc_chain_id head,
                  ob_block_number = hs_block_number source, ob_rpc_url = rpc_url rpc\<rparr>))
    \<and> (hc_max head \<le> 2 ^ 52 \<longrightarrow> hc_min head \<le> hc_canonical head \<and> hc_canonical head \<le> hc_max head)"
proof -
  obtain obs where loop: "head_loop None [] observers = (Inr obs, observers')"
    and verdict: "head_verdict now min_quorum max_block_skew obs = Inr head" and q: "2 \<le> min_quorum"
    using assms by (auto simp: observe_consensus_head_def and_then_Inr split: if_splits prod.splits)
  note sound = head_loop_sound [OF loop]
  let ?blocks = "map ob_block_number obs"
  have v: "min_quorum \<le> int (length obs)" "Max (set ?blocks) - Min (set ?blocks) \<le> max_block_skew"
    "int_median ?blocks = Inr (hc_canonical head)" "hc_chain head = ob_chain (hd obs)"
    "hc_chain_id head = ob_chain_id (hd obs)" "hc_min head = Min (set ?blocks)" "hc_max head = Max (set ?blocks)"
    "hc_quorum head = int (length obs)"
    "hc_sources head = map (\<lambda>ob. \<lparr>hs_provider = label ob, hs_block_number = ob_block_number ob\<rparr>) obs"
    using verdict by (auto simp: head_verdict_def and_then_Inr Let_def split: if_splits)
  have ne: "obs \<noteq> []" using v(1) q by auto
  have chain: "ob_chain ob = hc_chain head \<and> ob_chain_id ob = hc_chain_id head" if "ob \<in> set obs" for ob
  proof -
    obtain c where "\<forall>ob \<in> set obs. (ob_chain ob, ob_chain_id ob) = c" using sound by (auto simp: same_chain_def)
    with that ne have "(ob_chain ob, ob_chain_id ob) = (ob_chain (hd obs), ob_chain_id (hd obs))" by simp
    then show ?thesis by (simp add: v)
  qed
  have source: "hc_min head \<le> ob_block_number ob \<and> ob_block_number ob \<le> hc_max head
      \<and> (\<exists>rpc \<in> set observers. fingerprint rpc = label ob
          \<and> reports rpc \<lparr>ob_chain = hc_chain head, ob_chain_id = hc_chain_id head,
              ob_block_number = ob_block_number ob, ob_rpc_url = rpc_url rpc\<rparr>)" if ob: "ob \<in> set obs" for ob
  proof -
    obtain rpc where rpc: "rpc \<in> set observers" "reports rpc ob" using sound ob by (auto simp: reported_def)
    then have "ob_rpc_url ob = rpc_url rpc" by (simp add: reports_def)
    with rpc chain [OF ob] show ?thesis
      using ob by (auto simp: reports_def fingerprint_def v)
  qed
  have "\<forall>b \<in> set ?blocks. 0 \<le> b"
    using sound quantity_nonneg by (force simp: reported_def reports_def)
  then have "hc_max head \<le> 2 ^ 52 \<longrightarrow> hc_min head \<le> hc_canonical head \<and> hc_canonical head \<le> hc_max head"
    using int_median_bounds [of ?blocks] ne v(3,6,7) by auto
  with source q v sound show ?thesis by (simp add: comp_def)
qed

lemma consensus_head_is_sound_witness:
  "\<exists>head. fst (observe_consensus_head ''now'' 2 3 (demo_pair [(''eth_blockNumber'', PStr ''0x10'')])) = Inr head
     \<and> hc_canonical head = 16 \<and> 2 \<le> length (hc_sources head)"
proof -
  have "dget [(''eth_blockNumber'', PStr ''0x10'')] ''eth_blockNumber'' = PStr ''0x10''" by (simp add: dget_def)
  from demo_head [OF this, of "''now''"] obtain head where
    head: "fst (observe_consensus_head ''now'' 2 3 (demo_pair [(''eth_blockNumber'', PStr ''0x10'')])) = Inr head"
      "hc_canonical head = 16"
    by auto
  have "2 \<le> hc_quorum head \<and> hc_quorum head = int (length (hc_sources head))"
    using consensus_head_is_sound [OF answer_pair [OF head(1)]] by blast
  with head show ?thesis by auto
qed

lemma exact_call_agreed:
  assumes "observe_exact_call chain target calldata n min_quorum observers = (Inr ob, observers')"
    and "xr_agreed_result (xc_consensus ob) = Some r"
  shows "2 \<le> min_quorum" "xr_verdict (xc_consensus ob) = ''EXACT_RESULT_QUORUM''"
    "quorum_says observers min_quorum (xr_providers (xc_consensus ob))
       (\<lambda>rpc x. on_chain chain rpc \<and> says_call target calldata n rpc x) r"
    "\<forall>(p, x) \<in> set (xc_successful_results ob). x = r \<and> p \<in> set (xr_providers (xc_consensus ob))"
proof -
  obtain rows where pass: "sweep (\<lambda>_. True) (on_chain chain) call_skips (call_at_block target calldata n) [] observers
        = (Inr rows, observers')"
    and cls: "classify_exact_results (group_rows rows) min_quorum = Inr (xc_consensus ob)"
    and res: "xc_successful_results ob = sort rows"
    using assms(1) by (auto simp: observe_exact_call_def and_then_Inr split: if_splits prod.splits)
  have q: "2 \<le> min_quorum" using cls by (simp add: classify_exact_results_def)
  have nonempty: "ps \<noteq> []" if "(x, ps) \<in> set (group_rows rows)" for x ps
    using that by (force simp: in_group_rows filter_empty_conv)
  have norm: "filter (\<lambda>(result, providers). providers \<noteq> []) (map (\<lambda>(result, providers). (result, sorted_set providers)) (group_rows rows))
      = map (\<lambda>(result, providers). (result, sorted_set providers)) (group_rows rows)"
  proof (rule filter_True)
    have "sorted_set ps \<noteq> []" if "ps \<noteq> []" for ps using that by (metis set_empty sorted_set(1))
    then show "\<forall>x \<in> set (map (\<lambda>(result, providers). (result, sorted_set providers)) (group_rows rows)).
        case x of (result, providers) \<Rightarrow> providers \<noteq> []"
      using nonempty by auto
  qed
  have v: "xc_consensus ob = exact_verdict min_quorum
      (map (\<lambda>(result, providers). (result, sorted_set providers)) (group_rows rows))"
    using cls unfolding classify_exact_results_def norm by (simp add: Let_def)
  obtain ps where ps: "map (\<lambda>(result, providers). (result, sorted_set providers)) (group_rows rows) = [(r, ps)]"
      "min_quorum \<le> int (length ps)"
    using assms(2) unfolding v exact_verdict_agreed by (elim exE conjE) (rule that)
  have c: "xr_providers (xc_consensus ob) = ps" "xr_verdict (xc_consensus ob) = ''EXACT_RESULT_QUORUM''"
    unfolding v ps(1) exact_verdict_single [OF ps(2)] by simp_all
  from ps obtain ps' where g: "group_rows rows = [(r, ps')]" "ps = sorted_set ps'" by auto
  have in_g: "(r, ps') \<in> set (group_rows rows)" using g by simp
  have ps': "distinct ps'" using calls.group_speaks [OF sweep_collects [OF pass] in_g] by blast
  have all: "snd row = r \<and> fst row \<in> set ps" if "row \<in> set rows" for row
  proof -
    have "snd row \<in> set (map fst (group_rows rows))" using that group_rows_keys [of rows] by auto
    then have r: "snd row = r" by (simp add: g)
    moreover have "ps' = map fst (filter (\<lambda>row. snd row = r) rows)" using in_g by (simp add: in_group_rows)
    ultimately show ?thesis using that by (auto simp: g(2))
  qed
  have "length ps = length ps'" using ps' by (simp add: g(2) sorted_set_def distinct_remdups_id)
  then have qual: "(r, ps') \<in> set (qualifying min_quorum (group_rows rows))" using ps(2) in_g by (simp add: qualifying_def)
  then have says: "quorum_says observers min_quorum ps' (\<lambda>rpc x. on_chain chain rpc \<and> says_call target calldata n rpc x) r"
    by (rule calls.qualifying_says [OF sweep_collects [OF pass]])
  have "ps = sort ps'" using ps' by (simp add: g(2) sorted_set_def distinct_remdups_id)
  with says show "quorum_says observers min_quorum (xr_providers (xc_consensus ob))
       (\<lambda>rpc x. on_chain chain rpc \<and> says_call target calldata n rpc x) r"
    unfolding c(1) by (simp add: quorum_says_def)
  show "2 \<le> min_quorum" "xr_verdict (xc_consensus ob) = ''EXACT_RESULT_QUORUM''" by (fact q, fact c(2))
  show "\<forall>(p, x) \<in> set (xc_successful_results ob). x = r \<and> p \<in> set (xr_providers (xc_consensus ob))"
    using all by (auto simp: res c(1))
qed

lemma exact_call_fields:
  assumes "observe_exact_call chain target calldata n min_quorum observers = (Inr ob, observers')"
  shows "xc_chain ob = chain" "xc_target ob = target" "xc_block_number ob = n" "xc_calldata ob = calldata"
  using assms by (auto simp: observe_exact_call_def and_then_Inr split: if_splits prod.splits)

text \<open>
  C22: An agreed call result is unanimous: at least the quorum of distinct providers on the chain
  said it, every provider that answered said it, and fewer false providers than the quorum cannot
  make it anything but the truth.
\<close>

theorem exact_call_is_unanimous:
  assumes "observe_exact_call chain target calldata n min_quorum observers = (Inr ob, observers')"
    and "xr_agreed_result (xc_consensus ob) = Some r"
  shows "2 \<le> min_quorum \<and> min_quorum \<le> int (length (xr_providers (xc_consensus ob)))
    \<and> distinct (xr_providers (xc_consensus ob)) \<and> xr_verdict (xc_consensus ob) = ''EXACT_RESULT_QUORUM''
    \<and> (\<forall>p \<in> set (xr_providers (xc_consensus ob)).
         \<exists>rpc \<in> set observers. on_chain chain rpc \<and> fingerprint rpc = p \<and> says_call target calldata n rpc r)
    \<and> (\<forall>(p, x) \<in> set (xc_successful_results ob). x = r \<and> p \<in> set (xr_providers (xc_consensus ob)))
    \<and> (\<forall>liars truth. finite liars \<and> int (card liars) < min_quorum
         \<and> (\<forall>rpc y. rpc \<in> set observers \<and> fingerprint rpc \<notin> liars \<and> says_call target calldata n rpc y \<longrightarrow> y = truth)
         \<longrightarrow> r = truth)"
  using exact_call_agreed [OF assms] unfolding quorum_says_def by (intro conjI) blast+

text \<open>The call of the demonstration endpoints.\<close>

lemma demo_call:
  assumes "is_evm_address target" "is_hex_data (PStr data) None" "10 \<le> length data" "0 \<le> n"
    and "is_hex_data (PStr x) None" "dget answers ''eth_call'' = PStr x"
  shows "fst (call_at_block target data n (demo_rpc url (demo_answers answers))) = Inr (lower x)"
proof -
  have "map_option cc_family (get_chain (PStr ''base'')) = Some EVM" by code_simp
  then have "canonical_chain_address (PStr ''base'') (PStr target) = Some (lower target)"
    using canonical_evm assms(1) by auto
  moreover have "dget (demo_answers answers) ''eth_call'' = PStr x" using assms(6) by (simp add: demo_answers_def dget_def)
  ultimately have "\<exists>rpc'. call_at_block target data n (demo_rpc url (demo_answers answers)) = (Inr (lower x), rpc')"
    using assms(2-5)
    by (simp add: call_at_block_def observing_Inr demo_ready [OF same_endpoint_refl] allowed_methods_def hex_answer_Inr)
  then show ?thesis by auto
qed

lemma demo_exact_call:
  assumes "is_evm_address target" "is_hex_data (PStr data) None" "10 \<le> length data" "0 \<le> n"
    and "is_hex_data (PStr x) None" "dget answers ''eth_call'' = PStr x"
  obtains ob where "fst (observe_exact_call ''base'' target data n 2 (demo_pair answers)) = Inr ob"
    "xr_agreed_result (xc_consensus ob) = Some (lower x)"
proof -
  have pass: "fst (sweep (\<lambda>_. True) (on_chain ''base'') call_skips (call_at_block target data n) [] (demo_pair answers))
      = Inr [(provider_fingerprint demo_a, lower x), (provider_fingerprint demo_b, lower x)]"
    using demo_call [OF assms] by (rule demo_sweep) simp_all
  have "group_rows [(provider_fingerprint demo_a, y), (provider_fingerprint demo_b, y)]
      = [(y, [provider_fingerprint demo_a, provider_fingerprint demo_b])]" for y :: string
    by (simp add: group_rows_def)
  moreover have len: "length (sorted_set [provider_fingerprint demo_a, provider_fingerprint demo_b]) = 2"
    using demo_labels by (simp add: sorted_set_def)
  moreover have "sorted_set [provider_fingerprint demo_a, provider_fingerprint demo_b] \<noteq> []" using len by auto
  ultimately show thesis
    using pass assms(4) that
    by (simp add: observe_exact_call_def split_def Let_def classify_exact_results_def exact_verdict_single)
qed

lemma exact_call_is_unanimous_witness:
  "\<exists>ob. fst (observe_exact_call ''base'' (''0x'' @ replicate 40 (CHR ''a'')) ''0x0902f1ac'' 5 2
       (demo_pair [(''eth_call'', PStr ''0x01'')])) = Inr ob
     \<and> xr_verdict (xc_consensus ob) = ''EXACT_RESULT_QUORUM'' \<and> 2 \<le> length (xr_providers (xc_consensus ob))"
proof -
  have answer: "dget [(''eth_call'', PStr ''0x01'')] ''eth_call'' = PStr ''0x01''" by (simp add: dget_def)
  have target: "is_evm_address (''0x'' @ replicate 40 (CHR ''a''))"
    by (simp add: is_evm_address_def list_all_iff is_hex_def code_of_def)
  have hex: "is_hex_data (PStr ''0x0902f1ac'') None" "is_hex_data (PStr ''0x01'') None" by code_simp+
  obtain ob where "fst (observe_exact_call ''base'' (''0x'' @ replicate 40 (CHR ''a'')) ''0x0902f1ac'' 5 2
       (demo_pair [(''eth_call'', PStr ''0x01'')])) = Inr ob" "xr_agreed_result (xc_consensus ob) = Some (lower ''0x01'')"
    using target hex(1) _ _ hex(2) answer by (rule demo_exact_call [where n = 5]) simp_all
  then show ?thesis using exact_call_is_unanimous [OF answer_pair] by fastforce
qed

section \<open>A hostile chain id\<close>

lemma attest_huge:
  assumes "answered rpc (rpc_next_id rpc) ''eth_chainId'' [] v" "hex_int v ''chain id'' = Inr n"
    and "text_limit \<le> n" "cc_chain_id (rpc_chain rpc) \<noteq> Some n"
  shows "fst (attest_chain rpc) = Inl digits_error"
proof -
  have "fst (rpc_call ''eth_chainId'' [] rpc) = Inr v"
    using assms(1) by (simp add: rpc_call_def answered_def Let_def allowed_methods_def)
  then obtain rpc1 where "rpc_call ''eth_chainId'' [] rpc = (Inr v, rpc1)" by (metis prod.collapse)
  moreover have "text_limit \<le> \<bar>n\<bar>" using assms(3) by linarith
  ultimately show ?thesis
    using assms(2,4) by (simp add: attest_chain_def obs_then_def obs_lift_def int_text_def)
qed

text \<open>The loop comes to a provider after any others, unless it stopped before.\<close>

lemma head_loop_escapes:
  assumes "observe_head rpc = (Inl e, rpc1)" "\<not> is_rpc_error e"
  shows "fingerprint rpc \<notin> set seen \<Longrightarrow> fingerprint rpc \<notin> fingerprint ` set pre \<Longrightarrow>
    \<exists>e'. fst (head_loop expected seen (pre @ rpc # post)) = Inl e'"
proof (induction pre arbitrary: expected seen)
  case Nil
  with assms show ?case by simp
next
  case (Cons r rs)
  obtain x r1 where r: "observe_head r = (x, r1)" by (cases "observe_head r")
  have ih: "\<exists>e'. fst (head_loop ex sn (rs @ rpc # post)) = Inl e'" if "fingerprint rpc \<notin> set sn" for ex sn
    using Cons that by simp
  show ?case
  proof (cases x)
    case (Inl d)
    with ih [of seen expected] ih [of "fingerprint r # seen" expected] Cons.prems r show ?thesis
      by (auto simp: split_def Let_def)
  next
    case (Inr ob)
    with ih [of seen expected] ih [of "fingerprint r # seen" "Some (ob_chain ob, ob_chain_id ob)"] Cons.prems r show ?thesis
      by (auto simp: split_def Let_def)
  qed
qed

lemma head_loop_reaches:
  assumes "observe_head rpc = (Inl e, rpc1)" "\<not> is_rpc_error e"
    and "expected = None \<or> expected = Some c"
    and "\<forall>r \<in> set pre. case fst (observe_head r) of Inl d \<Rightarrow> is_rpc_error d | Inr ob \<Rightarrow> (ob_chain ob, ob_chain_id ob) = c"
  shows "fingerprint rpc \<notin> set seen \<Longrightarrow> fingerprint rpc \<notin> fingerprint ` set pre \<Longrightarrow>
    fst (head_loop expected seen (pre @ rpc # post)) = Inl e"
  using assms(3,4)
proof (induction pre arbitrary: expected seen)
  case Nil
  with assms(1,2) show ?case by simp
next
  case (Cons r rs)
  obtain x r1 where r: "observe_head r = (x, r1)" by (cases "observe_head r")
  have ih: "fst (head_loop ex sn (rs @ rpc # post)) = Inl e"
    if "fingerprint rpc \<notin> set sn" "ex = None \<or> ex = Some c" for ex sn
    using Cons that by simp
  show ?case
    using ih [of seen expected] ih [of "fingerprint r # seen" expected] ih [of "fingerprint r # seen" "Some c"] Cons.prems r
    by (cases x) (auto simp: split_def Let_def)
qed

text \<open>
  C40: One hostile provider stops the consensus, wherever it stands among the others. Its chain id of
  more than 4300 digits makes the text of the mismatch message raise ValueError, which the loop does
  not catch: whatever the providers before and after it say, the head is not observed. When those
  before it are sound, each reporting the one chain or failing as an RPC, the caller gets exactly that
  ValueError.
\<close>

theorem hostile_chain_id_escapes:
  assumes "2 \<le> min_quorum" "0 \<le> max_block_skew"
    and "min_quorum \<le> int (length (distinct_observers [] (pre @ rpc # post)))"
    and "provider_fingerprint (rpc_url rpc) \<notin> (\<lambda>r. provider_fingerprint (rpc_url r)) ` set pre"
    and "answered rpc (rpc_next_id rpc) ''eth_chainId'' [] v" "hex_int v ''chain id'' = Inr n"
    and "10 ^ 4300 \<le> n" "cc_chain_id (rpc_chain rpc) \<noteq> Some n"
  shows "(\<exists>e. fst (observe_consensus_head now min_quorum max_block_skew (pre @ rpc # post)) = Inl e)
    \<and> ((\<forall>r \<in> set pre. case fst (observe_head r) of
            Inl d \<Rightarrow> \<exists>message. d = Rpc_Error message
          | Inr ob \<Rightarrow> (ob_chain ob, ob_chain_id ob) = c) \<longrightarrow>
       fst (observe_consensus_head now min_quorum max_block_skew (pre @ rpc # post)) =
         Inl (Value_Error (''Exceeds the limit (4300 digits) for integer string conversion; ''
           @ ''use sys.set_int_max_str_digits() to increase the limit'')))"
proof -
  have "text_limit \<le> n" using assms(7) by (simp only: text_limit_def)
  from attest_huge [OF assms(5,6) this assms(8)] obtain rpc1 where "attest_chain rpc = (Inl digits_error, rpc1)"
    by (metis prod.collapse)
  then have head: "observe_head rpc = (Inl digits_error, rpc1)" by (simp add: observe_head_def obs_then_def)
  have no: "\<not> is_rpc_error digits_error" by (simp add: digits_error_def)
  have new: "fingerprint rpc \<notin> fingerprint ` set pre" using assms(4) by (simp add: fingerprint_def [abs_def])
  have run: "fst (observe_consensus_head now min_quorum max_block_skew (pre @ rpc # post)) =
      and_then (fst (head_loop None [] (pre @ rpc # post))) (head_verdict now min_quorum max_block_skew)"
    using assms(1-3) by (simp add: observe_consensus_head_def split_def Let_def)
  obtain e where "fst (head_loop None [] (pre @ rpc # post)) = Inl e"
    using head_loop_escapes [OF head no, of "[]" pre None post] new by auto
  moreover have "fst (head_loop None [] (pre @ rpc # post)) = Inl digits_error"
    if "\<forall>r \<in> set pre. case fst (observe_head r) of
            Inl d \<Rightarrow> \<exists>message. d = Rpc_Error message | Inr ob \<Rightarrow> (ob_chain ob, ob_chain_id ob) = c"
  proof (rule head_loop_reaches [OF head no, where c = c])
    show "\<forall>r \<in> set pre. case fst (observe_head r) of Inl d \<Rightarrow> is_rpc_error d | Inr ob \<Rightarrow> (ob_chain ob, ob_chain_id ob) = c"
      using that by (fastforce split: sum.splits)
  qed (use new in simp_all)
  ultimately show ?thesis unfolding run by (simp add: digits_error_def)
qed

lemma power_gap: "text_limit \<le> 16 ^ 3600"
proof -
  have e: "(4302 :: nat) = 3 * 1434" "(14340 :: nat) = 10 * 1434" "(14400 :: nat) = 4 * 3600" by simp_all
  have four: "(2 :: int) ^ 4 = 16" by simp
  have "text_limit \<le> 10 ^ 4302" unfolding text_limit_def by (rule power_increasing) simp_all
  also have "(10 :: int) ^ 4302 = (10 ^ 3) ^ 1434" unfolding e by (rule power_mult)
  also have "\<dots> \<le> (2 ^ 10) ^ 1434" by (rule power_mono) simp_all
  also have "(2 ^ 10 :: int) ^ 1434 = 2 ^ 14340" unfolding e by (rule power_mult [symmetric])
  also have "\<dots> \<le> 2 ^ 14400" by (rule power_increasing) simp_all
  also have "(2 :: int) ^ 14400 = 16 ^ 3600" unfolding e power_mult four ..
  finally show ?thesis .
qed

lemma hex_value_zeros: "hex_value (replicate n (CHR ''0'')) = 0"
proof -
  have "hex_val (CHR ''0'') = 0" by code_simp
  then show ?thesis by (induction n) (simp_all add: hex_value_Cons)
qed

definition hostile_rpc :: evm_rpc where
  "hostile_rpc = demo_rpc ''https://hostile.example/k'' [(''eth_chainId'', PStr (''0x1'' @ replicate 3600 (CHR ''0'')))]"

lemma hostile_chain_id_escapes_witness:
  "fst (observe_consensus_head ''now'' 2 3 (demo_pair [(''eth_blockNumber'', PStr ''0x10'')] @ [hostile_rpc])) =
    Inl (Value_Error (''Exceeds the limit (4300 digits) for integer string conversion; ''
      @ ''use sys.set_int_max_str_digits() to increase the limit''))"
proof (rule hostile_chain_id_escapes [THEN conjunct2, rule_format, where c = "(''base'', 8453)"])
  let ?v = "PStr (''0x1'' @ replicate 3600 (CHR ''0''))"
  let ?pair = "demo_pair [(''eth_blockNumber'', PStr ''0x10'')]"
  have host: "provider_fingerprint ''https://hostile.example/k'' \<noteq> provider_fingerprint url"
    if "url \<in> {demo_a, demo_b}" for url
  proof
    assume eq: "provider_fingerprint ''https://hostile.example/k'' = provider_fingerprint url"
    have "url_host demo_a = ''a.example''" "url_host demo_b = ''b.example''"
      "url_host ''https://hostile.example/k'' = ''hostile.example''" by code_simp+
    then show False using fingerprint_host [OF eq] that by auto
  qed
  have url: "rpc_url hostile_rpc = ''https://hostile.example/k''" "rpc_url (demo_rpc u x) = u" for u x
    by (simp_all add: hostile_rpc_def demo_rpc_def)
  show "provider_fingerprint (rpc_url hostile_rpc) \<notin> (\<lambda>r. provider_fingerprint (rpc_url r)) ` set ?pair"
    using host by (auto simp: url demo_pair_def)
  show "2 \<le> int (length (distinct_observers [] (?pair @ [hostile_rpc])))"
    using host [of demo_a] host [of demo_b] demo_labels by (simp add: hostile_rpc_def demo_pair_def)
  show "case fst (observe_head r) of Inl d \<Rightarrow> \<exists>message. d = Rpc_Error message
      | Inr ob \<Rightarrow> (ob_chain ob, ob_chain_id ob) = (''base'', 8453)" if r: "r \<in> set ?pair" for r
  proof -
    obtain u where "r = demo_rpc u (demo_answers [(''eth_blockNumber'', PStr ''0x10'')])"
      using r by (auto simp: demo_pair_def)
    then show ?thesis using demo_observe_head [of "[(''eth_blockNumber'', PStr ''0x10'')]" u] by (auto simp: dget_def)
  qed
  show "answered hostile_rpc (rpc_next_id hostile_rpc) ''eth_chainId'' [] ?v"
    by (simp add: answered_def hostile_rpc_def demo_rpc_def demo_transport_def rpc_request_def read_envelope_def
        is_rpc_id_def has_key_def dget_def)
  have one: "is_hex (CHR ''1'')" "is_hex (CHR ''0'')" "hex_val (CHR ''1'') = 1" by code_simp+
  then have "is_quantity (''0x1'' @ replicate 3600 (CHR ''0''))" by (simp add: is_quantity_def list_all_iff)
  moreover have "hex_value (CHR ''1'' # replicate 3600 (CHR ''0'')) = 16 ^ 3600"
    unfolding hex_value_Cons hex_value_zeros one(3) by simp
  moreover have "drop 2 (''0x1'' @ replicate 3600 (CHR ''0'')) = CHR ''1'' # replicate 3600 (CHR ''0'')" by simp
  ultimately have "hex_int ?v ''chain id'' = Inr (int (16 ^ 3600))" by (simp only: hex_int_quantity)
  then show "hex_int ?v ''chain id'' = Inr (16 ^ 3600)" unfolding of_nat_power of_nat_numeral .
  show "10 ^ 4300 \<le> (16 :: int) ^ 3600" using power_gap by (simp only: text_limit_def)
  have "(16 :: int) ^ 4 \<le> 16 ^ 3600" by (rule power_increasing) simp_all
  then have "(8453 :: int) < 16 ^ 3600" by (rule less_le_trans [rotated]) simp
  then have "(8453 :: int) \<noteq> 16 ^ 3600" by (rule less_imp_neq)
  moreover have "cc_chain_id (rpc_chain hostile_rpc) = Some 8453"
    by (simp add: hostile_rpc_def demo_rpc_def chains_def)
  ultimately show "cc_chain_id (rpc_chain hostile_rpc) \<noteq> Some (16 ^ 3600)" by (simp only: option.inject not_False_eq_True)
qed simp_all

end
