(* ===== verification/Evm_Discovery.thy ===== *)
theory Evm_Discovery
  imports Evm_Consensus
begin

text \<open>
  What is read from the logs of an accepted block: pool candidates (\<^verbatim>\<open>evm_dex_discovery.py\<close>), token
  candidates (\<^verbatim>\<open>evm_token_discovery.py\<close>) and uninterpreted pool events (\<^verbatim>\<open>evm_pool_events.py\<close>). The
  block itself is the record of \<^verbatim>\<open>evm_ingestion.py\<close>.
\<close>

section \<open>The accepted block\<close>

record block_source =
  bs_provider :: string
  bs_block_hash :: string

record log_source =
  ls_provider :: string
  ls_digest :: string
  ls_log_count :: int

record ingested_block =
  ib_chain :: string
  ib_chain_id :: int
  ib_block_number :: int
  ib_block_hash :: string
  ib_observed_at :: string
  ib_head_consensus :: consensus_observation
  ib_block_sources :: "block_source list"
  ib_logs :: "pyval list"
  ib_log_sources :: "log_source list"

text \<open>The providers behind the logs, and the logs that are dictionaries.\<close>

definition log_providers :: "ingested_block \<Rightarrow> string list" where
  "log_providers block = sorted_set (map ls_provider (ib_log_sources block))"

fun dict_logs :: "pyval list \<Rightarrow> pydict list" where
  "dict_logs [] = []"
| "dict_logs (PDict d # vs) = d # dict_logs vs"
| "dict_logs (_ # vs) = dict_logs vs"

lemma dict_logs_iff: "d \<in> set (dict_logs vs) \<longleftrightarrow> PDict d \<in> set vs"
  by (induction vs rule: dict_logs.induct) auto

text \<open>\<^verbatim>\<open>str(v or "")\<close>\<close>

definition str_or_empty :: "pyval \<Rightarrow> string" where
  "str_or_empty v = (if truthy v then py_str v else [])"

definition hex_text :: "string \<Rightarrow> bool" where
  "hex_text s \<longleftrightarrow> int_base16 s \<noteq> None"

section \<open>Pool candidates\<close>

definition v2_pair_created_topic :: string where
  "v2_pair_created_topic = ''0x0d3648bd0f6ba80134a33ba9275ac585d9d315f0ad8355cddefde31afa28d0e9''"

definition v3_pool_created_topic :: string where
  "v3_pool_created_topic = ''0x783cca1c0412dd0d695e784568c96f43a9f0e2c8f2fa0a9a76d07811e0e836e5''"

definition zero_address :: string where
  "zero_address = ''0x'' @ replicate 40 (CHR ''0'')"

record pool_candidate =
  pc_chain :: string
  pc_chain_id :: int
  pc_factory_address :: string
  pc_factory_key :: string
  pc_pool_address :: string
  pc_pool_key :: string
  pc_token0_address :: string
  pc_token0_key :: string
  pc_token1_address :: string
  pc_token1_key :: string
  pc_event_family :: string
  pc_fee_tier :: "int option"
  pc_first_seen_block :: int
  pc_block_hash :: string
  pc_transaction_hash :: string
  pc_log_index :: string
  pc_status :: string
  pc_evidence_providers :: "string list"

text \<open>The address in a 64 digit word: \<^verbatim>\<open>_word_address\<close>, and \<^verbatim>\<open>_topic_address\<close> after its prefix.\<close>

definition word_address :: "string \<Rightarrow> string option" where
  "word_address word =
     (if length word \<noteq> 64 \<or> \<not> hex_text word \<or> lower (take 24 word) \<noteq> replicate 24 (CHR ''0'') then None
      else Some (''0x'' @ lower (drop 24 word)))"

definition topic_address :: "pyval \<Rightarrow> string option" where
  "topic_address v =
     (case v of
        PStr s \<Rightarrow> if length s \<noteq> 66 \<or> \<not> starts_with ''0x'' s then None else word_address (drop 2 s)
      | _ \<Rightarrow> None)"

fun split_words :: "nat \<Rightarrow> string \<Rightarrow> string list" where
  "split_words 0 s = []"
| "split_words (Suc n) s = take 64 s # split_words n (drop 64 s)"

definition data_words :: "pyval \<Rightarrow> nat \<Rightarrow> string list option" where
  "data_words data count =
     (case data of
        PStr s \<Rightarrow>
          if \<not> starts_with ''0x'' s \<or> length (drop 2 s) \<noteq> 64 * count
             \<or> \<not> hex_text (if drop 2 s = [] then ''0'' else drop 2 s)
          then None
          else Some (split_words count (drop 2 s))
      | _ \<Rightarrow> None)"

definition canonical_required :: "string \<Rightarrow> string option \<Rightarrow> string option" where
  "canonical_required chain v =
     (case v of
        None \<Rightarrow> None
      | Some s \<Rightarrow>
          (case canonical_chain_address (PStr chain) (PStr s) of
             None \<Rightarrow> None
           | Some address \<Rightarrow> if address = zero_address then None else Some address))"

definition key_or_empty :: "string \<Rightarrow> string \<Rightarrow> string" where
  "key_or_empty chain address = (case asset_key (PStr chain) (PStr address) of Some k \<Rightarrow> k | None \<Rightarrow> [])"

text \<open>\<^verbatim>\<open>_base_fields\<close>: factory, factory key, transaction hash and log index.\<close>

definition base_fields :: "ingested_block \<Rightarrow> pydict \<Rightarrow> (string \<times> string \<times> string \<times> string) option" where
  "base_fields block entry =
    (if lower (str_or_empty (dget entry ''blockHash'')) \<noteq> lower (ib_block_hash block) then None
     else
       (let address = dget entry ''address'';
            tx_hash = str_or_empty (dget entry ''transactionHash'');
            log_index = str_or_empty (dget entry ''logIndex'')
        in case canonical_required (ib_chain block) (if address = PNone then None else Some (py_str address)) of
             None \<Rightarrow> None
           | Some factory \<Rightarrow>
               if \<not> starts_with ''0x'' tx_hash \<or> length tx_hash \<noteq> 66 \<or> \<not> starts_with ''0x'' log_index
                  \<or> \<not> hex_text (drop 2 tx_hash) \<or> \<not> hex_text (drop 2 log_index)
               then None
               else Some (factory, key_or_empty (ib_chain block) factory, lower tx_hash, lower log_index)))"

text \<open>The last step of both parsers: \<open>word\<close> holds the pool, \<open>family\<close> and \<open>fee\<close> tell the events apart.\<close>

definition pool_of_event ::
  "ingested_block \<Rightarrow> string \<Rightarrow> int option \<Rightarrow> string \<Rightarrow> string \<Rightarrow> string
     \<Rightarrow> string \<times> string \<times> string \<times> string \<Rightarrow> pool_candidate option" where
  "pool_of_event block family fee token0 token1 word base =
    (case (canonical_required (ib_chain block) (word_address word), base) of
       (None, _) \<Rightarrow> None
     | (Some pool, (factory, factory_key, tx_hash, log_index)) \<Rightarrow>
         if pool \<in> {token0, token1} then None
         else Some
           \<lparr>pc_chain = ib_chain block, pc_chain_id = ib_chain_id block, pc_factory_address = factory,
            pc_factory_key = factory_key, pc_pool_address = pool, pc_pool_key = key_or_empty (ib_chain block) pool,
            pc_token0_address = token0, pc_token0_key = key_or_empty (ib_chain block) token0,
            pc_token1_address = token1, pc_token1_key = key_or_empty (ib_chain block) token1,
            pc_event_family = family, pc_fee_tier = fee, pc_first_seen_block = ib_block_number block,
            pc_block_hash = ib_block_hash block, pc_transaction_hash = tx_hash, pc_log_index = log_index,
            pc_status = ''UNVERIFIED_DEX_POOL_CANDIDATE'', pc_evidence_providers = []\<rparr>)"

text \<open>The tokens, the words and the base fields, when all are there and the tokens differ.\<close>

definition event_parts ::
  "ingested_block \<Rightarrow> pydict \<Rightarrow> pyval list
     \<Rightarrow> (string \<times> string \<times> string list \<times> (string \<times> string \<times> string \<times> string)) option" where
  "event_parts block entry topics =
    (case (canonical_required (ib_chain block) (topic_address (topics ! 1)),
           canonical_required (ib_chain block) (topic_address (topics ! 2)),
           data_words (dget entry ''data'') 2, base_fields block entry) of
       (Some token0, Some token1, Some words, Some base) \<Rightarrow>
         if token0 = token1 then None else Some (token0, token1, words, base)
     | _ \<Rightarrow> None)"

definition parse_v2 :: "ingested_block \<Rightarrow> pydict \<Rightarrow> pool_candidate option" where
  "parse_v2 block entry =
    (case dget entry ''topics'' of
       PList topics \<Rightarrow>
         if length topics \<noteq> 3 \<or> lower (py_str (topics ! 0)) \<noteq> v2_pair_created_topic then None
         else (case event_parts block entry topics of
             None \<Rightarrow> None
           | Some (token0, token1, words, base) \<Rightarrow>
               pool_of_event block ''V2_STYLE_PAIR_CREATED'' None token0 token1 (words ! 0) base)
     | _ \<Rightarrow> None)"

definition fee_of_topic :: "pyval \<Rightarrow> int option" where
  "fee_of_topic v =
    (case v of
       PStr s \<Rightarrow>
         if length s \<noteq> 66 \<or> \<not> starts_with ''0x'' s then None
         else (case int_base16 s of Some n \<Rightarrow> if 0xFFFFFF < n then None else Some n | None \<Rightarrow> None)
     | _ \<Rightarrow> None)"

definition parse_v3 :: "ingested_block \<Rightarrow> pydict \<Rightarrow> pool_candidate option" where
  "parse_v3 block entry =
    (case dget entry ''topics'' of
       PList topics \<Rightarrow>
         if length topics \<noteq> 4 \<or> lower (py_str (topics ! 0)) \<noteq> v3_pool_created_topic then None
         else (case (event_parts block entry topics, fee_of_topic (topics ! 3)) of
             (Some (token0, token1, words, base), Some fee) \<Rightarrow>
               pool_of_event block ''V3_STYLE_POOL_CREATED'' (Some fee) token0 token1 (words ! 1) base
           | _ \<Rightarrow> None)
     | _ \<Rightarrow> None)"

definition parse_pool :: "ingested_block \<Rightarrow> pydict \<Rightarrow> pool_candidate option" where
  "parse_pool block entry = (case parse_v2 block entry of Some c \<Rightarrow> Some c | None \<Rightarrow> parse_v3 block entry)"

text \<open>The loop: the first candidate of every pool key, with the providers of the logs.\<close>

fun find_pools :: "ingested_block \<Rightarrow> string list \<Rightarrow> pool_candidate list \<Rightarrow> pydict list \<Rightarrow> pool_candidate list" where
  "find_pools block providers found [] = found"
| "find_pools block providers found (entry # logs) =
     (case parse_pool block entry of
        None \<Rightarrow> find_pools block providers found logs
      | Some candidate \<Rightarrow>
          find_pools block providers
            (if pc_pool_key candidate \<in> set (map pc_pool_key found) then found
             else found @ [candidate\<lparr>pc_evidence_providers := providers\<rparr>]) logs)"

definition discover_dex_pool_candidates :: "ingested_block \<Rightarrow> pool_candidate list" where
  "discover_dex_pool_candidates block =
    (let providers = log_providers block in
     if length providers < 2 then []
     else sort_key pc_pool_key (find_pools block providers [] (dict_logs (ib_logs block))))"

section \<open>Token candidates\<close>

definition erc20_transfer_topic :: string where
  "erc20_transfer_topic = ''0xddf252ad1be2c89b69c2b068fc378daa952ba7f163c4a11628f55a4df523b3ef''"

record erc20_candidate =
  ec_chain :: string
  ec_chain_id :: int
  ec_address :: string
  ec_asset_key :: string
  ec_first_seen_block :: int
  ec_block_hash :: string
  ec_transfer_log_count :: int
  ec_status :: string
  ec_evidence_providers :: "string list"

text \<open>\<^verbatim>\<open>_is_topic\<close> and \<^verbatim>\<open>_is_uint256_data\<close>, which are the same test.\<close>

definition is_word_text :: "pyval \<Rightarrow> bool" where
  "is_word_text v \<longleftrightarrow>
     (case v of PStr s \<Rightarrow> length s = 66 \<and> starts_with ''0x'' s \<and> hex_text (drop 2 s) | _ \<Rightarrow> False)"

definition looks_like_erc20_transfer :: "pydict \<Rightarrow> string \<Rightarrow> bool" where
  "looks_like_erc20_transfer entry block_hash \<longleftrightarrow>
     lower (str_or_empty (dget entry ''blockHash'')) = lower block_hash
     \<and> (case dget entry ''topics'' of
          PList topics \<Rightarrow> length topics = 3 \<and> list_all is_word_text topics
            \<and> lower (py_str (topics ! 0)) = erc20_transfer_topic
        | _ \<Rightarrow> False)
     \<and> is_word_text (dget entry ''data'')"

text \<open>The contract that a log counts for.\<close>

definition transfer_address :: "ingested_block \<Rightarrow> pydict \<Rightarrow> string option" where
  "transfer_address block entry =
    (if \<not> looks_like_erc20_transfer entry (ib_block_hash block) then None
     else case canonical_chain_address (PStr (ib_chain block)) (dget entry ''address'') of
         None \<Rightarrow> None
       | Some address \<Rightarrow> if asset_key (PStr (ib_chain block)) (PStr address) = None then None else Some address)"

fun count_transfers :: "ingested_block \<Rightarrow> (string \<times> int) list \<Rightarrow> pydict list \<Rightarrow> (string \<times> int) list" where
  "count_transfers block counts [] = counts"
| "count_transfers block counts (entry # logs) =
     count_transfers block
       (case transfer_address block entry of
          None \<Rightarrow> counts
        | Some address \<Rightarrow>
            AList.update address ((case map_of counts address of Some n \<Rightarrow> n | None \<Rightarrow> 0) + 1) counts) logs"

definition discover_erc20_candidates :: "ingested_block \<Rightarrow> erc20_candidate list" where
  "discover_erc20_candidates block =
    (let providers = log_providers block in
     if length providers < 2 then []
     else sort_key ec_asset_key
       (map (\<lambda>(address, count).
          \<lparr>ec_chain = ib_chain block, ec_chain_id = ib_chain_id block, ec_address = address,
           ec_asset_key = key_or_empty (ib_chain block) address, ec_first_seen_block = ib_block_number block,
           ec_block_hash = ib_block_hash block, ec_transfer_log_count = count,
           ec_status = ''UNVERIFIED_ERC20_CANDIDATE'', ec_evidence_providers = providers\<rparr>)
         (count_transfers block [] (dict_logs (ib_logs block)))))"

section \<open>Pool events\<close>

record pool_event =
  pe_chain :: string
  pe_pool_key :: string
  pe_pool_address :: string
  pe_block_number :: int
  pe_block_hash :: string
  pe_transaction_hash :: string
  pe_log_index :: string
  pe_topic0 :: string
  pe_status :: string
  pe_evidence_providers :: "string list"

text \<open>The pool of an address among those of the block's chain: a later one replaces an earlier one.\<close>

definition pool_at :: "(pool_candidate \<Rightarrow> bool) \<Rightarrow> pool_candidate list \<Rightarrow> string \<Rightarrow> pool_candidate option" where
  "pool_at ok pools address =
     map_of (rev (map (\<lambda>p. (lower (pc_pool_address p), p)) (filter ok pools))) address"

text \<open>The pool that a log of the block belongs to.\<close>

definition log_pool ::
  "(pool_candidate \<Rightarrow> bool) \<Rightarrow> pool_candidate list \<Rightarrow> ingested_block \<Rightarrow> pydict \<Rightarrow> pool_candidate option" where
  "log_pool ok pools block entry =
    (case pool_at ok pools (lower (str_or_empty (dget entry ''address''))) of
       None \<Rightarrow> None
     | Some pool \<Rightarrow>
         if lower (str_or_empty (dget entry ''blockHash'')) \<noteq> lower (ib_block_hash block) then None else Some pool)"

definition pool_event_of :: "pool_candidate list \<Rightarrow> ingested_block \<Rightarrow> string list \<Rightarrow> pydict \<Rightarrow> pool_event option" where
  "pool_event_of pools block providers entry =
    (case log_pool (\<lambda>p. pc_chain p = ib_chain block) pools block entry of
       None \<Rightarrow> None
     | Some pool \<Rightarrow>
         (let tx_hash = str_or_empty (dget entry ''transactionHash'');
              log_index = str_or_empty (dget entry ''logIndex'')
          in case dget entry ''topics'' of
               PList (PStr topic0 # _) \<Rightarrow>
                 if \<not> starts_with ''0x'' topic0 \<or> length topic0 \<noteq> 66 \<or> \<not> starts_with ''0x'' tx_hash
                    \<or> length tx_hash \<noteq> 66 \<or> \<not> starts_with ''0x'' log_index
                    \<or> \<not> hex_text (drop 2 topic0) \<or> \<not> hex_text (drop 2 tx_hash) \<or> \<not> hex_text (drop 2 log_index)
                 then None
                 else Some
                   \<lparr>pe_chain = ib_chain block, pe_pool_key = pc_pool_key pool, pe_pool_address = pc_pool_address pool,
                    pe_block_number = ib_block_number block, pe_block_hash = ib_block_hash block,
                    pe_transaction_hash = lower tx_hash, pe_log_index = lower log_index, pe_topic0 = lower topic0,
                    pe_status = ''UNCLASSIFIED_POOL_EVENT_EVIDENCE'', pe_evidence_providers = providers\<rparr>
             | _ \<Rightarrow> None))"

definition collect_pool_event_evidence :: "ingested_block \<Rightarrow> pool_candidate list \<Rightarrow> pool_event list" where
  "collect_pool_event_evidence block pools =
    (let providers = log_providers block in
     if length providers < 2 then []
     else sort_key (\<lambda>e. (pe_pool_key e, pe_transaction_hash e, pe_log_index e))
       (List.map_filter (pool_event_of pools block providers) (dict_logs (ib_logs block))))"

section \<open>Candidates and what they rest on\<close>

text \<open>An address in canonical form with its key.\<close>

definition scoped_identity :: "string \<Rightarrow> string \<Rightarrow> string \<Rightarrow> bool" where
  "scoped_identity chain address key \<longleftrightarrow> address \<noteq> zero_address
     \<and> canonical_chain_address (PStr chain) (PStr address) = Some address
     \<and> asset_key (PStr chain) (PStr address) = Some key"

lemma key_of_canonical:
  assumes "canonical_chain_address (PStr chain) v = Some address"
  shows "asset_key (PStr chain) (PStr address) = Some (key_or_empty chain address)"
proof -
  obtain cfg where "get_chain (PStr chain) = Some cfg"
    using assms by (auto simp: canonical_chain_address_def split: option.splits)
  then have "asset_key (PStr chain) (PStr address) \<noteq> None"
    using canonical_idem [OF assms] by (simp add: asset_key_def chain_scoped_key_def)
  then show ?thesis by (auto simp: key_or_empty_def)
qed

lemma canonical_required_identity:
  "canonical_required chain v = Some address \<Longrightarrow> scoped_identity chain address (key_or_empty chain address)"
  using canonical_idem key_of_canonical
  by (fastforce simp: canonical_required_def scoped_identity_def split: option.splits if_splits)

definition sound_pool :: "ingested_block \<Rightarrow> pool_candidate \<Rightarrow> bool" where
  "sound_pool block c \<longleftrightarrow>
     pc_chain c = ib_chain block \<and> pc_chain_id c = ib_chain_id block
     \<and> pc_first_seen_block c = ib_block_number block \<and> pc_block_hash c = ib_block_hash block
     \<and> pc_status c = ''UNVERIFIED_DEX_POOL_CANDIDATE''
     \<and> scoped_identity (ib_chain block) (pc_factory_address c) (pc_factory_key c)
     \<and> scoped_identity (ib_chain block) (pc_pool_address c) (pc_pool_key c)
     \<and> scoped_identity (ib_chain block) (pc_token0_address c) (pc_token0_key c)
     \<and> scoped_identity (ib_chain block) (pc_token1_address c) (pc_token1_key c)
     \<and> distinct [pc_pool_address c, pc_token0_address c, pc_token1_address c]"

lemma base_fields_factory:
  "base_fields block entry = Some (factory, factory_key, tx_hash, log_index) \<Longrightarrow>
     scoped_identity (ib_chain block) factory factory_key
     \<and> lower (str_or_empty (dget entry ''blockHash'')) = lower (ib_block_hash block)"
  using canonical_required_identity
  by (auto simp: base_fields_def Let_def split: if_splits option.splits)

lemma event_parts_Some:
  "event_parts block entry topics = Some (token0, token1, words, base) \<Longrightarrow>
     scoped_identity (ib_chain block) token0 (key_or_empty (ib_chain block) token0)
     \<and> scoped_identity (ib_chain block) token1 (key_or_empty (ib_chain block) token1)
     \<and> token0 \<noteq> token1 \<and> base_fields block entry = Some base"
  using canonical_required_identity by (auto simp: event_parts_def split: option.splits if_splits)

lemma pool_of_event_sound:
  assumes "pool_of_event block family fee token0 token1 word base = Some c"
    "event_parts block entry topics = Some (token0, token1, words, base)"
  shows "sound_pool block c" "pc_event_family c = family" "pc_fee_tier c = fee"
proof -
  obtain factory factory_key tx_hash log_index where base: "base = (factory, factory_key, tx_hash, log_index)"
    by (metis prod_cases4)
  note e = event_parts_Some [OF assms(2)]
  note f = base_fields_factory [OF conjunct2 [OF conjunct2 [OF conjunct2 [OF e]], unfolded base]]
  obtain pool where pool: "canonical_required (ib_chain block) (word_address word) = Some pool"
      "pool \<noteq> token0" "pool \<noteq> token1"
    using assms(1) by (auto simp: pool_of_event_def base split: option.splits if_splits)
  from assms(1) pool e f canonical_required_identity [OF pool(1)]
  show "sound_pool block c" "pc_event_family c = family" "pc_fee_tier c = fee"
    by (auto simp: pool_of_event_def base sound_pool_def)
qed

lemma parse_pool_sound:
  assumes "parse_pool block entry = Some c"
  shows "sound_pool block c \<and> lower (str_or_empty (dget entry ''blockHash'')) = lower (ib_block_hash block)"
proof -
  have base: "lower (str_or_empty (dget entry ''blockHash'')) = lower (ib_block_hash block)"
    if "event_parts block entry topics = Some (token0, token1, words, base)" for topics token0 token1 words base
    using event_parts_Some [OF that] base_fields_factory by (cases base) blast
  show ?thesis
  proof (cases "parse_v2 block entry")
    case None
    then have "parse_v3 block entry = Some c" using assms by (simp add: parse_pool_def)
    then obtain topics token0 token1 words base fee where
      "event_parts block entry topics = Some (token0, token1, words, base)"
      "pool_of_event block ''V3_STYLE_POOL_CREATED'' (Some fee) token0 token1 (words ! 1) base = Some c"
      by (auto simp: parse_v3_def split: pyval.splits if_splits option.splits)
    with pool_of_event_sound(1) base show ?thesis by blast
  next
    case (Some c')
    then have "parse_v2 block entry = Some c" using assms by (simp add: parse_pool_def)
    then obtain topics token0 token1 words base where
      "event_parts block entry topics = Some (token0, token1, words, base)"
      "pool_of_event block ''V2_STYLE_PAIR_CREATED'' None token0 token1 (words ! 0) base = Some c"
      by (auto simp: parse_v2_def split: pyval.splits if_splits option.splits)
    with pool_of_event_sound(1) base show ?thesis by blast
  qed
qed

text \<open>
  What it means that a log announces a candidate, on the text of the log itself: the tokens are in the
  second and third topic, the pool is in the first data word of a V2 event and in the second of a V3
  event, whose fourth topic is the fee; the log's emitter is the factory.
\<close>

definition word_holds :: "string \<Rightarrow> string \<Rightarrow> string \<Rightarrow> bool" where
  "word_holds chain w a \<longleftrightarrow> length w = 64 \<and> lower (take 24 w) = replicate 24 (CHR ''0'')
     \<and> canonical_chain_address (PStr chain) (PStr (''0x'' @ lower (drop 24 w))) = Some a"

definition announced_by :: "ingested_block \<Rightarrow> pydict \<Rightarrow> pool_candidate \<Rightarrow> bool" where
  "announced_by block entry c \<longleftrightarrow>
     (\<exists>topic w1 w2 d0 d1.
        dget entry ''data'' = PStr (''0x'' @ d0 @ d1) \<and> length d0 = 64 \<and> length d1 = 64
        \<and> word_holds (ib_chain block) w1 (pc_token0_address c) \<and> word_holds (ib_chain block) w2 (pc_token1_address c)
        \<and> (dget entry ''topics'' = PList [topic, PStr (''0x'' @ w1), PStr (''0x'' @ w2)]
             \<and> lower (py_str topic) = ''0x0d3648bd0f6ba80134a33ba9275ac585d9d315f0ad8355cddefde31afa28d0e9''
             \<and> pc_event_family c = ''V2_STYLE_PAIR_CREATED'' \<and> pc_fee_tier c = None
             \<and> word_holds (ib_chain block) d0 (pc_pool_address c)
           \<or> (\<exists>w3 fee. dget entry ''topics'' = PList [topic, PStr (''0x'' @ w1), PStr (''0x'' @ w2), PStr (''0x'' @ w3)]
             \<and> lower (py_str topic) = ''0x783cca1c0412dd0d695e784568c96f43a9f0e2c8f2fa0a9a76d07811e0e836e5''
             \<and> pc_event_family c = ''V3_STYLE_POOL_CREATED'' \<and> pc_fee_tier c = Some fee
             \<and> length w3 = 64 \<and> int_base16 (''0x'' @ w3) = Some fee \<and> fee \<le> 16777215
             \<and> word_holds (ib_chain block) d1 (pc_pool_address c))))
     \<and> canonical_chain_address (PStr (ib_chain block)) (PStr (py_str (dget entry ''address''))) = Some (pc_factory_address c)
     \<and> pc_transaction_hash c = lower (str_or_empty (dget entry ''transactionHash''))
     \<and> pc_log_index c = lower (str_or_empty (dget entry ''logIndex''))
     \<and> lower (str_or_empty (dget entry ''blockHash'')) = lower (ib_block_hash block)"

lemma after_0x: "starts_with ''0x'' s \<Longrightarrow> s = ''0x'' @ drop 2 s"
  by (metis append_take_drop_id length_Cons list.size(3) numeral_2_eq_2 starts_with_def)

lemma required_word: "canonical_required chain (word_address w) = Some a \<Longrightarrow> word_holds chain w a"
  by (auto simp: canonical_required_def word_address_def word_holds_def split: if_splits option.splits)

lemma required_topic:
  assumes "canonical_required chain (topic_address v) = Some a"
  obtains w where "v = PStr (''0x'' @ w)" "word_holds chain w a"
proof (cases v)
  case (PStr s)
  with assms have s: "starts_with ''0x'' s" "topic_address v = word_address (drop 2 s)"
    by (auto simp: topic_address_def canonical_required_def split: if_splits)
  show thesis
    using that [of "drop 2 s"] PStr after_0x [OF s(1)] required_word [of chain "drop 2 s" a] assms s(2) by simp
qed (use assms in \<open>simp_all add: topic_address_def canonical_required_def\<close>)

lemma two_data_words:
  assumes "data_words v 2 = Some words"
  obtains d0 d1 where "v = PStr (''0x'' @ d0 @ d1)" "length d0 = 64" "length d1 = 64" "words = [d0, d1]"
proof (cases v)
  case (PStr s)
  with assms have s: "starts_with ''0x'' s" "length (drop 2 s) = 128" "words = split_words 2 (drop 2 s)"
    by (auto simp: data_words_def split: if_splits)
  have "words = [take 64 (drop 2 s), drop 64 (drop 2 s)]"
    using s(2,3) by (simp add: numeral_2_eq_2)
  moreover have "s = ''0x'' @ take 64 (drop 2 s) @ drop 64 (drop 2 s)"
    using after_0x [OF s(1)] by (simp only: append_take_drop_id)
  ultimately show thesis using that [of "take 64 (drop 2 s)" "drop 64 (drop 2 s)"] PStr s(2) by simp
qed (use assms in \<open>simp_all add: data_words_def\<close>)

lemma base_fields_read:
  assumes "base_fields block entry = Some (factory, factory_key, tx_hash, log_index)"
  shows "canonical_chain_address (PStr (ib_chain block)) (PStr (py_str (dget entry ''address''))) = Some factory"
    "tx_hash = lower (str_or_empty (dget entry ''transactionHash''))"
    "log_index = lower (str_or_empty (dget entry ''logIndex''))"
    "lower (str_or_empty (dget entry ''blockHash'')) = lower (ib_block_hash block)"
  using assms
  by (auto simp: base_fields_def Let_def canonical_required_def split: if_splits option.splits)

lemma event_parts_read:
  assumes "event_parts block entry topics = Some (token0, token1, words, base)"
  obtains w1 w2 d0 d1 where "topics ! 1 = PStr (''0x'' @ w1)" "topics ! 2 = PStr (''0x'' @ w2)"
    "word_holds (ib_chain block) w1 token0" "word_holds (ib_chain block) w2 token1"
    "dget entry ''data'' = PStr (''0x'' @ d0 @ d1)" "length d0 = 64" "length d1 = 64" "words = [d0, d1]"
    "base_fields block entry = Some base"
proof -
  have e: "canonical_required (ib_chain block) (topic_address (topics ! 1)) = Some token0"
    "canonical_required (ib_chain block) (topic_address (topics ! 2)) = Some token1"
    "data_words (dget entry ''data'') 2 = Some words" "base_fields block entry = Some base"
    using assms by (auto simp: event_parts_def split: option.splits if_splits)
  show thesis
    by (rule required_topic [OF e(1)], rule required_topic [OF e(2)], rule two_data_words [OF e(3)]) (rule that [OF _ _ _ _ _ _ _ _ e(4)])
qed

lemma pool_of_event_read:
  assumes "pool_of_event block family fee token0 token1 word (factory, factory_key, tx_hash, log_index) = Some c"
  shows "word_holds (ib_chain block) word (pc_pool_address c)" "pc_token0_address c = token0"
    "pc_token1_address c = token1" "pc_factory_address c = factory" "pc_transaction_hash c = tx_hash"
    "pc_log_index c = log_index" "pc_event_family c = family" "pc_fee_tier c = fee"
  using assms by (auto simp: pool_of_event_def dest: required_word split: option.splits if_splits)

lemma three_items: "length xs = 3 \<Longrightarrow> xs = [xs ! 0, xs ! 1, xs ! 2]"
  by (cases xs; cases "tl xs"; cases "tl (tl xs)") (auto simp: numeral_3_eq_3)

lemma four_items: "length xs = 4 \<Longrightarrow> xs = [xs ! 0, xs ! 1, xs ! 2, xs ! 3]"
  by (cases xs; cases "tl xs"; cases "tl (tl xs)"; cases "tl (tl (tl xs))")
    (auto simp: numeral_3_eq_3 numeral_2_eq_2 eval_nat_numeral)

lemma v2_announced:
  assumes "parse_v2 block entry = Some c"
  shows "announced_by block entry c"
proof -
  obtain topics token0 token1 words base where t: "dget entry ''topics'' = PList topics" "length topics = 3"
      "lower (py_str (topics ! 0)) = v2_pair_created_topic"
      "event_parts block entry topics = Some (token0, token1, words, base)"
      "pool_of_event block ''V2_STYLE_PAIR_CREATED'' None token0 token1 (words ! 0) base = Some c"
    using assms by (auto simp: parse_v2_def split: pyval.splits if_splits option.splits)
  obtain factory factory_key tx_hash log_index where base: "base = (factory, factory_key, tx_hash, log_index)"
    by (metis prod_cases4)
  from t(4) obtain w1 w2 d0 d1 where w: "topics ! 1 = PStr (''0x'' @ w1)" "topics ! 2 = PStr (''0x'' @ w2)"
    "word_holds (ib_chain block) w1 token0" "word_holds (ib_chain block) w2 token1"
    "dget entry ''data'' = PStr (''0x'' @ d0 @ d1)" "length d0 = 64" "length d1 = 64" "words = [d0, d1]"
    "base_fields block entry = Some base" by (rule event_parts_read)
  note read = pool_of_event_read [OF t(5) [unfolded base]] and from_base = base_fields_read [OF w(9) [unfolded base]]
  have "dget entry ''topics'' = PList [topics ! 0, PStr (''0x'' @ w1), PStr (''0x'' @ w2)]"
    using t(1) three_items [OF t(2)] w(1,2) by simp
  with t(3) read from_base w show ?thesis
    unfolding announced_by_def v2_pair_created_topic_def by auto
qed

lemma v3_announced:
  assumes "parse_v3 block entry = Some c"
  shows "announced_by block entry c"
proof -
  obtain topics token0 token1 words base fee where t: "dget entry ''topics'' = PList topics" "length topics = 4"
      "lower (py_str (topics ! 0)) = v3_pool_created_topic"
      "event_parts block entry topics = Some (token0, token1, words, base)" "fee_of_topic (topics ! 3) = Some fee"
      "pool_of_event block ''V3_STYLE_POOL_CREATED'' (Some fee) token0 token1 (words ! 1) base = Some c"
    using assms by (auto simp: parse_v3_def split: pyval.splits if_splits option.splits)
  obtain factory factory_key tx_hash log_index where base: "base = (factory, factory_key, tx_hash, log_index)"
    by (metis prod_cases4)
  from t(4) obtain w1 w2 d0 d1 where w: "topics ! 1 = PStr (''0x'' @ w1)" "topics ! 2 = PStr (''0x'' @ w2)"
    "word_holds (ib_chain block) w1 token0" "word_holds (ib_chain block) w2 token1"
    "dget entry ''data'' = PStr (''0x'' @ d0 @ d1)" "length d0 = 64" "length d1 = 64" "words = [d0, d1]"
    "base_fields block entry = Some base" by (rule event_parts_read)
  note read = pool_of_event_read [OF t(6) [unfolded base]] and from_base = base_fields_read [OF w(9) [unfolded base]]
  obtain u where u: "topics ! 3 = PStr u" "length u = 66" "starts_with ''0x'' u" "int_base16 u = Some fee" "fee \<le> 16777215"
    using t(5) by (auto simp: fee_of_topic_def split: pyval.splits if_splits option.splits)
  have "dget entry ''topics'' = PList [topics ! 0, PStr (''0x'' @ w1), PStr (''0x'' @ w2), PStr (''0x'' @ drop 2 u)]"
    using t(1) four_items [OF t(2)] w(1,2) u(1) after_0x [OF u(3)] by simp
  moreover have "length (drop 2 u) = 64" "int_base16 (''0x'' @ drop 2 u) = Some fee"
    using u(2,4) after_0x [OF u(3)] by simp_all
  ultimately show ?thesis
    using t(3) read from_base w u(5) unfolding announced_by_def v3_pool_created_topic_def by auto
qed

lemma parse_pool_announced: "parse_pool block entry = Some c \<Longrightarrow> announced_by block entry c"
  using v2_announced v3_announced by (auto simp: parse_pool_def split: option.splits)

text \<open>A candidate of the loop is that of the first log that announces its pool.\<close>

definition pool_row :: "ingested_block \<Rightarrow> string list \<Rightarrow> pydict list \<Rightarrow> pool_candidate \<Rightarrow> bool" where
  "pool_row block providers entries c \<longleftrightarrow>
     (\<exists>pre entry post (c0 :: pool_candidate). entries = pre @ entry # post \<and> parse_pool block entry = Some c0
        \<and> c = c0\<lparr>pc_evidence_providers := providers\<rparr>
        \<and> (\<forall>e \<in> set pre. \<forall>d. parse_pool block e = Some d \<longrightarrow> pc_pool_key d \<noteq> pc_pool_key c))"

lemma pool_row_Cons:
  assumes "pool_row block providers entries c" "\<And>d. parse_pool block entry = Some d \<Longrightarrow> pc_pool_key d \<noteq> pc_pool_key c"
  shows "pool_row block providers (entry # entries) c"
proof -
  obtain pre e post c0 where e: "entries = pre @ e # post" "parse_pool block e = Some c0"
      "c = c0\<lparr>pc_evidence_providers := providers\<rparr>"
      "\<forall>e \<in> set pre. \<forall>d. parse_pool block e = Some d \<longrightarrow> pc_pool_key d \<noteq> pc_pool_key c"
    using assms(1) by (auto simp: pool_row_def)
  then have "entry # entries = (entry # pre) @ e # post" by simp
  with e(2-4) assms(2) show ?thesis unfolding pool_row_def
    by (intro exI [of _ "entry # pre"] exI [of _ e] exI [of _ post] exI [of _ c0]) auto
qed

lemma pool_row_here:
  "parse_pool block entry = Some c \<Longrightarrow> pool_row block providers (entry # entries) (c\<lparr>pc_evidence_providers := providers\<rparr>)"
  unfolding pool_row_def by (intro exI [of _ "[]"] exI [of _ entry] exI [of _ entries] exI [of _ c]) simp

lemma same_key_same_row:
  "distinct (map f xs) \<Longrightarrow> x \<in> set xs \<Longrightarrow> y \<in> set xs \<Longrightarrow> f x = f y \<Longrightarrow> x = y"
  by (auto simp: distinct_map inj_on_def)

lemma find_pools_rows:
  "distinct (map pc_pool_key found) \<Longrightarrow>
     distinct (map pc_pool_key (find_pools block providers found entries))
     \<and> (\<forall>c \<in> set (find_pools block providers found entries). c \<in> set found \<or> pool_row block providers entries c)
     \<and> (\<forall>c \<in> set found. c \<in> set (find_pools block providers found entries))
     \<and> (\<forall>entry \<in> set entries. \<forall>c. parse_pool block entry = Some c \<longrightarrow>
          pc_pool_key c \<in> set (map pc_pool_key (find_pools block providers found entries)))"
proof (induction entries arbitrary: found)
  case (Cons entry entries)
  show ?case
  proof (cases "parse_pool block entry")
    case None
    with Cons.IH [OF Cons.prems] pool_row_Cons [of block providers entries _ entry] show ?thesis by auto
  next
    case (Some c)
    define kept where "kept = (if pc_pool_key c \<in> set (map pc_pool_key found) then found
        else found @ [c\<lparr>pc_evidence_providers := providers\<rparr>])"
    have r: "find_pools block providers found (entry # entries) = find_pools block providers kept entries"
      using Some by (simp add: kept_def)
    have d: "distinct (map pc_pool_key kept)" using Cons.prems by (simp add: kept_def)
    note ih = Cons.IH [OF d]
    have key: "\<exists>k \<in> set kept. pc_pool_key k = pc_pool_key c" by (auto simp: kept_def)
    have in_key: "pc_pool_key c \<in> set (map pc_pool_key (find_pools block providers kept entries))"
      using key ih by (metis image_eqI set_map)
    have row: "x \<in> set found \<or> pool_row block providers (entry # entries) x"
      if x: "x \<in> set (find_pools block providers kept entries)" for x
    proof (cases "x \<in> set kept")
      case True
      then show ?thesis using pool_row_here [OF Some] by (auto simp: kept_def split: if_splits)
    next
      case False
      then have "pool_row block providers entries x" using ih x by blast
      moreover have "pc_pool_key c \<noteq> pc_pool_key x"
      proof
        assume "pc_pool_key c = pc_pool_key x"
        then obtain k where "k \<in> set kept" "pc_pool_key k = pc_pool_key x" using key by auto
        then have "k = x" using ih x same_key_same_row by metis
        with \<open>k \<in> set kept\<close> False show False by simp
      qed
      ultimately show ?thesis using Some pool_row_Cons [of block providers entries x entry] by simp
    qed
    have kept: "\<forall>x \<in> set found. x \<in> set kept" by (simp add: kept_def)
    show ?thesis unfolding r using ih row kept in_key Some by auto
  qed
qed simp

lemma pool_row_facts:
  assumes "pool_row block providers (dict_logs (ib_logs block)) c"
  shows "sound_pool block c \<and> pc_evidence_providers c = providers
    \<and> (\<exists>pre entry post c0. dict_logs (ib_logs block) = pre @ entry # post \<and> PDict entry \<in> set (ib_logs block)
         \<and> parse_pool block entry = Some c0 \<and> c = c0\<lparr>pc_evidence_providers := providers\<rparr> \<and> announced_by block entry c
         \<and> (\<forall>e \<in> set pre. \<forall>d. parse_pool block e = Some d \<longrightarrow> pc_pool_key d \<noteq> pc_pool_key c)
         \<and> lower (str_or_empty (dget entry ''blockHash'')) = lower (ib_block_hash block))"
proof -
  obtain pre entry post c0 where e: "dict_logs (ib_logs block) = pre @ entry # post" "parse_pool block entry = Some c0"
      "c = c0\<lparr>pc_evidence_providers := providers\<rparr>"
      "\<forall>e \<in> set pre. \<forall>d. parse_pool block e = Some d \<longrightarrow> pc_pool_key d \<noteq> pc_pool_key c"
    using assms by (auto simp: pool_row_def)
  have "entry \<in> set (dict_logs (ib_logs block))" by (simp add: e(1))
  then have i: "PDict entry \<in> set (ib_logs block)" by (simp add: dict_logs_iff)
  have "announced_by block entry c" using parse_pool_announced [OF e(2)] by (simp add: announced_by_def e(3))
  moreover have "sound_pool block c" "pc_evidence_providers c = providers"
    using parse_pool_sound [OF e(2)] by (simp_all add: sound_pool_def e(3))
  ultimately show ?thesis using e i parse_pool_sound [OF e(2)] by blast
qed

lemma length_log_providers: "2 \<le> length (log_providers block) \<longleftrightarrow> 2 \<le> card (ls_provider ` set (ib_log_sources block))"
  by (simp add: log_providers_def sorted_set_def length_remdups_card_conv)

section \<open>The topic of a genuine V3 pool\<close>

text \<open>
  The Keccak-256 hash of \<^verbatim>\<open>PoolCreated(address,address,uint24,int24,address)\<close>, which is the first topic
  of the event that a Uniswap V3 factory emits. The constant of the code agrees with it in the first
  fourteen bytes only, so no such event is ever recognised.
\<close>

definition genuine_v3_topic :: string where
  "genuine_v3_topic = ''0x783cca1c0412dd0d695e784568c96da2e9c22ff989357a2e8b1d9b2b4e6b7118''"

lemma genuine_v3_events_are_missed:
  assumes "dget entry ''topics'' = PList (topic # topics)" "lower (py_str topic) = genuine_v3_topic"
  shows "parse_pool block entry = None"
proof -
  have "genuine_v3_topic \<noteq> v3_pool_created_topic" "genuine_v3_topic \<noteq> v2_pair_created_topic" by code_simp+
  with assms show ?thesis by (simp add: parse_pool_def parse_v2_def parse_v3_def)
qed

section \<open>Counting transfers\<close>

lemma distinct_map_sort: "distinct (map f (sort_key g xs)) \<longleftrightarrow> distinct (map f xs)"
  by (simp add: distinct_map)

lemma map_of_count_transfers:
  "map_of (count_transfers block counts entries) a =
     (let k = length (filter (\<lambda>e. transfer_address block e = Some a) entries) in
      if k = 0 then map_of counts a
      else Some ((case map_of counts a of Some n \<Rightarrow> n | None \<Rightarrow> 0) + int k))"
proof (induction entries arbitrary: counts)
  case (Cons e entries)
  then show ?case
    by (cases "transfer_address block e") (auto simp: Let_def AList.update_conv' split: option.splits)
qed simp

lemma distinct_count_transfers:
  "distinct (map fst counts) \<Longrightarrow> distinct (map fst (count_transfers block counts entries))"
  by (induction entries arbitrary: counts) (auto simp: AList.distinct_update split: option.splits)

section \<open>Properties\<close>

text \<open>
  C34: Every pool candidate is anchored: it needs two distinct log providers, and it is what the first
  log of the accepted block that announces its pool says: tokens, pool, fee, factory, transaction and
  log index come from the topics, data words and fields where the event has them. All its identities are
  canonical, non-zero and keyed by the block's chain, pool and tokens differ, and there is exactly one
  candidate for each pool that any log announces.
\<close>

theorem pool_candidates_are_sound:
  "distinct (map pc_pool_key (discover_dex_pool_candidates block)) \<and> sorted (map pc_pool_key (discover_dex_pool_candidates block))
    \<and> (\<forall>c \<in> set (discover_dex_pool_candidates block). sound_pool block c \<and> pc_evidence_providers c = log_providers block
         \<and> 2 \<le> card (ls_provider ` set (ib_log_sources block))
         \<and> (\<exists>pre entry post c0. dict_logs (ib_logs block) = pre @ entry # post \<and> PDict entry \<in> set (ib_logs block)
              \<and> parse_pool block entry = Some c0 \<and> c = c0\<lparr>pc_evidence_providers := log_providers block\<rparr>
              \<and> announced_by block entry c
              \<and> (\<forall>e \<in> set pre. \<forall>d. parse_pool block e = Some d \<longrightarrow> pc_pool_key d \<noteq> pc_pool_key c)
              \<and> lower (str_or_empty (dget entry ''blockHash'')) = lower (ib_block_hash block)))
    \<and> (2 \<le> card (ls_provider ` set (ib_log_sources block)) \<longrightarrow>
         (\<forall>entry c. PDict entry \<in> set (ib_logs block) \<and> parse_pool block entry = Some c \<longrightarrow>
            pc_pool_key c \<in> set (map pc_pool_key (discover_dex_pool_candidates block))))"
proof (cases "2 \<le> card (ls_provider ` set (ib_log_sources block))")
  case False
  then have "\<not> 2 \<le> length (log_providers block)" by (simp add: length_log_providers)
  then have "discover_dex_pool_candidates block = []" by (simp add: discover_dex_pool_candidates_def)
  with False show ?thesis by simp
next
  case True
  then have two: "2 \<le> length (log_providers block)" by (simp add: length_log_providers)
  define rows where "rows = find_pools block (log_providers block) [] (dict_logs (ib_logs block))"
  define found where "found = discover_dex_pool_candidates block"
  have found: "found = sort_key pc_pool_key rows"
    using two by (simp add: found_def discover_dex_pool_candidates_def rows_def)
  note r = find_pools_rows [of "[]" block "log_providers block" "dict_logs (ib_logs block)", folded rows_def, simplified]
  have "distinct (map pc_pool_key found)" using r by (simp add: found distinct_map)
  moreover have "sorted (map pc_pool_key found)" by (simp add: found)
  moreover have "sound_pool block c \<and> pc_evidence_providers c = log_providers block
         \<and> (\<exists>pre entry post c0. dict_logs (ib_logs block) = pre @ entry # post \<and> PDict entry \<in> set (ib_logs block)
              \<and> parse_pool block entry = Some c0 \<and> c = c0\<lparr>pc_evidence_providers := log_providers block\<rparr>
              \<and> announced_by block entry c
              \<and> (\<forall>e \<in> set pre. \<forall>d. parse_pool block e = Some d \<longrightarrow> pc_pool_key d \<noteq> pc_pool_key c)
              \<and> lower (str_or_empty (dget entry ''blockHash'')) = lower (ib_block_hash block))" if "c \<in> set found" for c
    using r that by (intro pool_row_facts) (auto simp: found)
  moreover have "pc_pool_key c \<in> set (map pc_pool_key found)"
    if "PDict entry \<in> set (ib_logs block)" "parse_pool block entry = Some c" for entry c
    using r that by (auto simp: found dict_logs_iff)
  ultimately show ?thesis using True unfolding found_def by blast
qed

text \<open>
  Token candidates count transfers exactly: a contract is a candidate with count \<open>n\<close> if and only if
  two distinct providers stand behind the logs and \<open>n > 0\<close> accepted logs of the block are transfers of
  that contract; no contract is a candidate twice.
\<close>

theorem token_candidates_count_transfers:
  "distinct (map ec_address (discover_erc20_candidates block))
   \<and> ((\<exists>c \<in> set (discover_erc20_candidates block). ec_address c = a \<and> ec_transfer_log_count c = n) \<longleftrightarrow>
      2 \<le> card (ls_provider ` set (ib_log_sources block)) \<and> 0 < n
      \<and> n = int (length (filter (\<lambda>e. transfer_address block e = Some a) (dict_logs (ib_logs block)))))"
proof (cases "2 \<le> card (ls_provider ` set (ib_log_sources block))")
  case False
  then have "\<not> 2 \<le> length (log_providers block)" by (simp add: length_log_providers)
  then have "discover_erc20_candidates block = []" by (simp add: discover_erc20_candidates_def)
  with False show ?thesis by simp
next
  case True
  then have two: "2 \<le> length (log_providers block)" by (simp add: length_log_providers)
  define counts where "counts = count_transfers block [] (dict_logs (ib_logs block))"
  define row where "row = (\<lambda>(address, count).
          \<lparr>ec_chain = ib_chain block, ec_chain_id = ib_chain_id block, ec_address = address,
           ec_asset_key = key_or_empty (ib_chain block) address, ec_first_seen_block = ib_block_number block,
           ec_block_hash = ib_block_hash block, ec_transfer_log_count = count,
           ec_status = ''UNVERIFIED_ERC20_CANDIDATE'', ec_evidence_providers = log_providers block\<rparr>)"
  have found: "discover_erc20_candidates block = sort_key ec_asset_key (map row counts)"
    using two by (simp add: discover_erc20_candidates_def row_def counts_def)
  have d: "distinct (map fst counts)" by (simp add: counts_def distinct_count_transfers)
  have address: "ec_address (row p) = fst p" "ec_transfer_log_count (row p) = snd p" for p
    by (cases p; simp add: row_def)+
  have "distinct (map ec_address (map row counts))" using d by (simp add: address comp_def)
  then have "distinct (map ec_address (discover_erc20_candidates block))" by (simp only: found distinct_map_sort)
  moreover have "(\<exists>c \<in> set (discover_erc20_candidates block). ec_address c = a \<and> ec_transfer_log_count c = n)
      \<longleftrightarrow> (a, n) \<in> set counts"
    by (force simp: found address)
  moreover have "(a, n) \<in> set counts \<longleftrightarrow> map_of counts a = Some n"
    using d by (auto dest: map_of_SomeD intro: map_of_is_SomeI)
  moreover have "map_of counts a = Some n \<longleftrightarrow> 0 < n
      \<and> n = int (length (filter (\<lambda>e. transfer_address block e = Some a) (dict_logs (ib_logs block))))"
    by (auto simp: counts_def map_of_count_transfers Let_def simp del: length_0_conv length_greater_0_conv)
  ultimately show ?thesis using True by blast
qed

text \<open>A block with one pair event of two providers.\<close>

definition demo_word :: "char \<Rightarrow> string" where
  "demo_word c = replicate 24 (CHR ''0'') @ replicate 40 c"

definition demo_entry :: pydict where
  "demo_entry =
    [(''blockHash'', PStr ''0xaa''), (''address'', PStr (''0x'' @ replicate 40 (CHR ''f''))),
     (''transactionHash'', PStr (''0x'' @ replicate 64 (CHR ''1''))), (''logIndex'', PStr ''0x1''),
     (''topics'', PList [PStr v2_pair_created_topic, PStr (''0x'' @ demo_word (CHR ''a'')),
        PStr (''0x'' @ demo_word (CHR ''b''))]),
     (''data'', PStr (''0x'' @ demo_word (CHR ''c'') @ replicate 64 (CHR ''1'')))]"

definition demo_block :: "pydict list \<Rightarrow> ingested_block" where
  "demo_block entries =
    \<lparr>ib_chain = ''base'', ib_chain_id = 8453, ib_block_number = 7, ib_block_hash = ''0xaa'', ib_observed_at = ''now'',
     ib_head_consensus = \<lparr>hc_chain = ''base'', hc_chain_id = 8453, hc_canonical = 9, hc_min = 9, hc_max = 9,
       hc_quorum = 2, hc_observed_at = ''now'', hc_sources = []\<rparr>,
     ib_block_sources = [], ib_logs = map PDict entries,
     ib_log_sources = [\<lparr>ls_provider = ''a'', ls_digest = [], ls_log_count = 1\<rparr>,
       \<lparr>ls_provider = ''b'', ls_digest = [], ls_log_count = 1\<rparr>]\<rparr>"

lemma demo_hex: "is_hex (CHR ''0'')" "is_hex (CHR ''1'')" "is_hex (CHR ''a'')" "is_hex (CHR ''b'')"
  "is_hex (CHR ''c'')" "is_hex (CHR ''f'')" "lower_char (CHR ''0'') = CHR ''0''" "lower_char (CHR ''1'') = CHR ''1''"
  "lower_char (CHR ''a'') = CHR ''a''" "lower_char (CHR ''b'') = CHR ''b''" "lower_char (CHR ''c'') = CHR ''c''"
  "lower_char (CHR ''f'') = CHR ''f''" "lower_char (CHR ''x'') = CHR ''x''"
  by code_simp+

lemma hex_text_plain: "list_all is_hex s \<Longrightarrow> s \<noteq> [] \<Longrightarrow> hex_text s"
  by (simp add: hex_text_def int_base16_plain)

lemma lower_replicate: "lower_char c = c \<Longrightarrow> lower (replicate n c) = replicate n c"
  by (simp add: lower_def)

lemma demo_word_facts:
  assumes "is_hex c" "lower_char c = c"
  shows "length (demo_word c) = 64" "list_all is_hex (demo_word c)" "word_address (demo_word c) = Some (''0x'' @ replicate 40 c)"
proof -
  show l: "length (demo_word c) = 64" "list_all is_hex (demo_word c)"
    using assms demo_hex by (simp_all add: demo_word_def list_all_iff)
  have "hex_text (demo_word c)" using l by (intro hex_text_plain) auto
  then show "word_address (demo_word c) = Some (''0x'' @ replicate 40 c)"
    using l(1) lower_replicate assms(2) demo_hex by (simp add: word_address_def demo_word_def)
qed

lemma demo_required:
  assumes "is_hex c" "lower_char c = c" "c \<noteq> CHR ''0''"
  shows "canonical_required ''base'' (Some (''0x'' @ replicate 40 c)) = Some (''0x'' @ replicate 40 c)"
proof -
  have "map_option cc_family (get_chain (PStr ''base'')) = Some EVM" by code_simp
  then obtain cfg where cfg: "get_chain (PStr ''base'') = Some cfg" "cc_family cfg = EVM" by auto
  have "is_evm_address (''0x'' @ replicate 40 c)" using assms(1) by (simp add: is_evm_address_def list_all_iff)
  from canonical_evm [OF cfg this]
  have "canonical_chain_address (PStr ''base'') (PStr (''0x'' @ replicate 40 c)) = Some (''0x'' @ replicate 40 c)"
    using assms(2) demo_hex lower_replicate by (simp add: lower_def)
  moreover have "replicate 40 c \<noteq> replicate 40 (CHR ''0'')" using assms(3) by (simp add: replicate_eq_replicate)
  ultimately show ?thesis by (simp add: canonical_required_def zero_address_def)
qed

lemma demo_parse: "\<exists>c. parse_pool (demo_block entries) demo_entry = Some c"
proof -
  let ?a = "\<lambda>c. ''0x'' @ replicate 40 c"
  have topic: "topic_address (PStr (''0x'' @ demo_word c)) = Some (?a c)" if "is_hex c" "lower_char c = c" for c
    using demo_word_facts [OF that] by (simp add: topic_address_def starts_with_def)
  have words: "data_words (PStr (''0x'' @ demo_word (CHR ''c'') @ replicate 64 (CHR ''1''))) 2
      = Some [demo_word (CHR ''c''), replicate 64 (CHR ''1'')]"
  proof -
    have "hex_text (demo_word (CHR ''c'') @ replicate 64 (CHR ''1''))"
      using demo_word_facts [of "CHR ''c''"] demo_hex by (intro hex_text_plain) (auto simp: list_all_iff)
    then show ?thesis
      using demo_word_facts [of "CHR ''c''"] demo_hex
      by (auto simp: data_words_def starts_with_def numeral_2_eq_2 demo_word_def)
  qed
  have base: "\<exists>base. base_fields (demo_block entries) demo_entry = Some base"
  proof -
    have "hex_text (replicate 64 (CHR ''1''))" "hex_text ''1''" using demo_hex by (intro hex_text_plain; auto simp: list_all_iff)+
    moreover have "canonical_required ''base'' (Some (?a (CHR ''f''))) = Some (?a (CHR ''f''))"
      using demo_hex by (intro demo_required) auto
    ultimately show ?thesis
      by (simp add: base_fields_def demo_block_def demo_entry_def str_or_empty_def starts_with_def Let_def dget_def)
  qed
  have topics: "dget demo_entry ''topics'' = PList [PStr v2_pair_created_topic, PStr (''0x'' @ demo_word (CHR ''a'')),
      PStr (''0x'' @ demo_word (CHR ''b''))]"
    "dget demo_entry ''data'' = PStr (''0x'' @ demo_word (CHR ''c'') @ replicate 64 (CHR ''1''))"
    by (simp_all add: demo_entry_def dget_def)
  have low: "lower v2_pair_created_topic = v2_pair_created_topic" by code_simp
  have chain: "ib_chain (demo_block entries) = ''base''" by (simp add: demo_block_def)
  have differ: "?a (CHR ''a'') \<noteq> ?a (CHR ''b'')" "?a (CHR ''c'') \<noteq> ?a (CHR ''a'')" "?a (CHR ''c'') \<noteq> ?a (CHR ''b'')"
    by (simp_all add: replicate_eq_replicate)
  have r: "canonical_required ''base'' (Some (?a c)) = Some (?a c)" if "c \<in> {CHR ''a'', CHR ''b'', CHR ''c''}" for c
    using that demo_hex by (intro demo_required) auto
  obtain base where b: "base_fields (demo_block entries) demo_entry = Some base" using base by blast
  have "event_parts (demo_block entries) demo_entry [PStr v2_pair_created_topic, PStr (''0x'' @ demo_word (CHR ''a'')),
      PStr (''0x'' @ demo_word (CHR ''b''))]
    = Some (?a (CHR ''a''), ?a (CHR ''b''), [demo_word (CHR ''c''), replicate 64 (CHR ''1'')], base)"
    using differ(1) demo_hex by (simp add: event_parts_def chain topics(2) words b topic r del: append.simps)
  then have "parse_v2 (demo_block entries) demo_entry =
      pool_of_event (demo_block entries) ''V2_STYLE_PAIR_CREATED'' None (?a (CHR ''a'')) (?a (CHR ''b''))
        (demo_word (CHR ''c'')) base"
    by (simp add: parse_v2_def topics(1) low)
  moreover have "pool_of_event (demo_block entries) ''V2_STYLE_PAIR_CREATED'' None (?a (CHR ''a'')) (?a (CHR ''b''))
        (demo_word (CHR ''c'')) base \<noteq> None"
    using differ(2,3) demo_hex
    by (cases base) (simp add: pool_of_event_def chain demo_word_facts r del: append.simps)
  ultimately show ?thesis by (auto simp: parse_pool_def split: option.splits)
qed

lemma pool_candidates_are_sound_witness:
  "\<exists>c \<in> set (discover_dex_pool_candidates (demo_block [demo_entry])). sound_pool (demo_block [demo_entry]) c"
proof -
  obtain c where c: "parse_pool (demo_block [demo_entry]) demo_entry = Some c" using demo_parse by blast
  have "2 \<le> card (ls_provider ` set (ib_log_sources (demo_block [demo_entry])))" "PDict demo_entry \<in> set (ib_logs (demo_block [demo_entry]))"
    by (simp_all add: demo_block_def)
  then have "pc_pool_key c \<in> set (map pc_pool_key (discover_dex_pool_candidates (demo_block [demo_entry])))"
    using pool_candidates_are_sound [of "demo_block [demo_entry]"] c by blast
  then show ?thesis using pool_candidates_are_sound [of "demo_block [demo_entry]"] by auto
qed

end
