(* ===== verification/Evm_Pool_State.thy ===== *)
theory Evm_Pool_State
  imports Evm_Discovery Evm_Abi
begin

text \<open>
  Pool state read by a quorum (\<^verbatim>\<open>evm_liquidity.py\<close>), its changes over time and the Sync events that
  announce them (\<^verbatim>\<open>evm_liquidity_history.py\<close>).
\<close>

section \<open>Reading the state\<close>

definition v2_get_reserves_selector :: string where
  "v2_get_reserves_selector = ''0x0902f1ac''"

definition v3_liquidity_selector :: string where
  "v3_liquidity_selector = ''0x1a686502''"

record pool_state_source =
  ps_provider :: string
  ps_response :: string

record v2_reserves =
  vr_chain :: string
  vr_pool_key :: string
  vr_pool_address :: string
  vr_block_number :: int
  vr_reserve0 :: int
  vr_reserve1 :: int
  vr_timestamp :: int
  vr_status :: string
  vr_sources :: "pool_state_source list"

record v3_liquidity =
  vl_chain :: string
  vl_pool_key :: string
  vl_pool_address :: string
  vl_block_number :: int
  vl_liquidity :: int
  vl_status :: string
  vl_sources :: "pool_state_source list"

definition quorum_call ::
  "evm_rpc list \<Rightarrow> pool_candidate \<Rightarrow> int \<Rightarrow> string \<Rightarrow> int \<Rightarrow> (string \<times> pool_state_source list) evm \<times> evm_rpc list" where
  "quorum_call observers pool n data min_quorum =
    (if min_quorum < 2 then (Inl (Value_Error ''min_quorum must be at least 2''), observers)
     else if int (length (distinct_observers [] observers)) < min_quorum
     then (Inl (Rpc_Error ''insufficient distinct RPC providers for pool-state quorum''), observers)
     else
       (let (r, observers') =
              sweep (\<lambda>_. True) (on_chain (pc_chain pool)) is_rpc_error
                (call_at_block (pc_pool_address pool) data n) [] observers
        in (and_then r (\<lambda>rows.
              case sole (qualifying min_quorum (group_rows rows)) of
                None \<Rightarrow> Inl (Rpc_Error ''pool-state quorum not reached'')
              | Some (response, providers) \<Rightarrow>
                  Inr (response, map (\<lambda>p. \<lparr>ps_provider = p, ps_response = response\<rparr>) providers)), observers')))"

definition decode_words :: "string \<Rightarrow> nat \<Rightarrow> int list evm" where
  "decode_words response count =
    raise_if (\<not> starts_with ''0x'' response) (Rpc_Error ''invalid eth_call response'')
    (raise_if (length (drop 2 response) \<noteq> 64 * count) (Rpc_Error ''unexpected eth_call response length'')
    (all_ok (\<lambda>w. case int_base16 w of Some n \<Rightarrow> Inr n | None \<Rightarrow> Inl (Rpc_Error ''invalid eth_call response''))
       (split_words count (drop 2 response))))"

definition v2_evidence :: "pool_candidate \<Rightarrow> int \<Rightarrow> string \<times> pool_state_source list \<Rightarrow> v2_reserves evm" where
  "v2_evidence pool n answer =
    (case answer of
       (response, sources) \<Rightarrow>
         and_then (decode_words response 3) (\<lambda>ws.
         let reserve0 = ws ! 0; reserve1 = ws ! 1; timestamp = ws ! 2 in
         raise_if (2 ^ 112 \<le> reserve0 \<or> 2 ^ 112 \<le> reserve1 \<or> 2 ^ 32 \<le> timestamp)
           (Rpc_Error ''V2 reserve response exceeds ABI bounds'')
         (Inr \<lparr>vr_chain = pc_chain pool, vr_pool_key = pc_pool_key pool, vr_pool_address = pc_pool_address pool,
               vr_block_number = n, vr_reserve0 = reserve0, vr_reserve1 = reserve1, vr_timestamp = timestamp,
               vr_status = ''UNVERIFIED_V2_RESERVE_EVIDENCE'', vr_sources = sources\<rparr>)))"

definition observe_v2_reserves ::
  "evm_rpc list \<Rightarrow> pool_candidate \<Rightarrow> int \<Rightarrow> int \<Rightarrow> v2_reserves evm \<times> evm_rpc list" where
  "observe_v2_reserves observers pool n min_quorum =
    (let (r, observers') = quorum_call observers pool n v2_get_reserves_selector min_quorum
     in (and_then r (v2_evidence pool n), observers'))"

definition v3_evidence :: "pool_candidate \<Rightarrow> int \<Rightarrow> string \<times> pool_state_source list \<Rightarrow> v3_liquidity evm" where
  "v3_evidence pool n answer =
    (case answer of
       (response, sources) \<Rightarrow>
         and_then (decode_words response 1) (\<lambda>ws.
         raise_if (2 ^ 128 \<le> ws ! 0) (Rpc_Error ''V3 liquidity response exceeds ABI bounds'')
         (Inr \<lparr>vl_chain = pc_chain pool, vl_pool_key = pc_pool_key pool, vl_pool_address = pc_pool_address pool,
               vl_block_number = n, vl_liquidity = ws ! 0, vl_status = ''UNVERIFIED_V3_LIQUIDITY_EVIDENCE'',
               vl_sources = sources\<rparr>)))"

definition observe_v3_liquidity ::
  "evm_rpc list \<Rightarrow> pool_candidate \<Rightarrow> int \<Rightarrow> int \<Rightarrow> v3_liquidity evm \<times> evm_rpc list" where
  "observe_v3_liquidity observers pool n min_quorum =
    (let (r, observers') = quorum_call observers pool n v3_liquidity_selector min_quorum
     in (and_then r (v3_evidence pool n), observers'))"

section \<open>Changes over time\<close>

record v2_reserve_change =
  rc2_chain :: string
  rc2_pool_key :: string
  rc2_from_block :: int
  rc2_to_block :: int
  rc2_reserve0_before :: int
  rc2_reserve0_after :: int
  rc2_reserve1_before :: int
  rc2_reserve1_after :: int
  rc2_reserve0_delta :: int
  rc2_reserve1_delta :: int
  rc2_classification :: string
  rc2_status :: string

record v3_liquidity_change =
  lc3_chain :: string
  lc3_pool_key :: string
  lc3_from_block :: int
  lc3_to_block :: int
  lc3_liquidity_before :: int
  lc3_liquidity_after :: int
  lc3_liquidity_delta :: int
  lc3_classification :: string
  lc3_status :: string

text \<open>\<^verbatim>\<open>_require_same_ordered_pool\<close>, on chain, pool key and block of both rows.\<close>

definition require_same_ordered_pool ::
  "string \<times> string \<times> int \<Rightarrow> string \<times> string \<times> int \<Rightarrow> 'a evm \<Rightarrow> 'a evm" where
  "require_same_ordered_pool previous current rest =
    (case (previous, current) of
       ((chain, key, n), (chain', key', n')) \<Rightarrow>
         raise_if (chain \<noteq> chain' \<or> key \<noteq> key') (Rpc_Error ''pool-state history cannot cross chains or pools'')
         (raise_if (n' \<le> n) (Rpc_Error ''pool-state history requires strictly increasing blocks'') rest))"

definition reserve_classification :: "int \<Rightarrow> int \<Rightarrow> string" where
  "reserve_classification delta0 delta1 =
    (if 0 < delta0 \<and> 0 < delta1 then ''POSSIBLE_LIQUIDITY_ADD''
     else if delta0 < 0 \<and> delta1 < 0 then ''POSSIBLE_LIQUIDITY_REMOVE''
     else if delta0 = 0 \<and> delta1 = 0 then ''NO_RESERVE_CHANGE''
     else ''MIXED_RESERVE_CHANGE'')"

definition derive_v2_reserve_change :: "v2_reserves \<Rightarrow> v2_reserves \<Rightarrow> v2_reserve_change evm" where
  "derive_v2_reserve_change previous current =
    require_same_ordered_pool (vr_chain previous, vr_pool_key previous, vr_block_number previous)
      (vr_chain current, vr_pool_key current, vr_block_number current)
    (let delta0 = vr_reserve0 current - vr_reserve0 previous; delta1 = vr_reserve1 current - vr_reserve1 previous in
     Inr \<lparr>rc2_chain = vr_chain current, rc2_pool_key = vr_pool_key current, rc2_from_block = vr_block_number previous,
          rc2_to_block = vr_block_number current, rc2_reserve0_before = vr_reserve0 previous,
          rc2_reserve0_after = vr_reserve0 current, rc2_reserve1_before = vr_reserve1 previous,
          rc2_reserve1_after = vr_reserve1 current, rc2_reserve0_delta = delta0, rc2_reserve1_delta = delta1,
          rc2_classification = reserve_classification delta0 delta1,
          rc2_status = ''UNVERIFIED_V2_RESERVE_CHANGE_EVIDENCE''\<rparr>)"

definition derive_v3_liquidity_change :: "v3_liquidity \<Rightarrow> v3_liquidity \<Rightarrow> v3_liquidity_change evm" where
  "derive_v3_liquidity_change previous current =
    require_same_ordered_pool (vl_chain previous, vl_pool_key previous, vl_block_number previous)
      (vl_chain current, vl_pool_key current, vl_block_number current)
    (let delta = vl_liquidity current - vl_liquidity previous in
     Inr \<lparr>lc3_chain = vl_chain current, lc3_pool_key = vl_pool_key current, lc3_from_block = vl_block_number previous,
          lc3_to_block = vl_block_number current, lc3_liquidity_before = vl_liquidity previous,
          lc3_liquidity_after = vl_liquidity current, lc3_liquidity_delta = delta,
          lc3_classification = (if 0 < delta then ''LIQUIDITY_INCREASED'' else if delta < 0 then ''LIQUIDITY_DECREASED''
            else ''NO_LIQUIDITY_CHANGE''),
          lc3_status = ''UNVERIFIED_V3_LIQUIDITY_CHANGE_EVIDENCE''\<rparr>)"

text \<open>Every row with its successor, in order; the first error ends the history.\<close>

fun history :: "('a \<Rightarrow> 'a \<Rightarrow> 'b evm) \<Rightarrow> 'a list \<Rightarrow> 'b list evm" where
  "history derive (previous # current # rows) =
     and_then (derive previous current) (\<lambda>change.
     and_then (history derive (current # rows)) (\<lambda>changes. Inr (change # changes)))"
| "history derive _ = Inr []"

definition build_v2_reserve_change_history :: "v2_reserves list \<Rightarrow> v2_reserve_change list evm" where
  "build_v2_reserve_change_history rows = history derive_v2_reserve_change rows"

definition build_v3_liquidity_change_history :: "v3_liquidity list \<Rightarrow> v3_liquidity_change list evm" where
  "build_v3_liquidity_change_history rows = history derive_v3_liquidity_change rows"

section \<open>Sync events\<close>

definition v2_sync_topic :: string where
  "v2_sync_topic = ''0x1c411e9a96e071241c2f21f7726b17ae89e3cab4c78be50e062b03a9fffbbad1''"

record v2_sync_evidence =
  se_chain :: string
  se_pool_key :: string
  se_pool_address :: string
  se_block_number :: int
  se_block_hash :: string
  se_transaction_hash :: string
  se_log_index :: string
  se_reserve0 :: int
  se_reserve1 :: int
  se_status :: string
  se_evidence_providers :: "string list"

definition decode_sync_data :: "pyval \<Rightarrow> (int \<times> int) option" where
  "decode_sync_data data =
    (case data of
       PStr s \<Rightarrow>
         if \<not> starts_with ''0x'' s \<or> length s \<noteq> 2 + 64 * 2 then None
         else (case (int_base16 (take 64 (drop 2 s)), int_base16 (drop 64 (drop 2 s))) of
             (Some reserve0, Some reserve1) \<Rightarrow>
               if 2 ^ 112 \<le> reserve0 \<or> 2 ^ 112 \<le> reserve1 then None else Some (reserve0, reserve1)
           | _ \<Rightarrow> None)
     | _ \<Rightarrow> None)"

definition sync_of :: "pool_candidate list \<Rightarrow> ingested_block \<Rightarrow> string list \<Rightarrow> pydict \<Rightarrow> v2_sync_evidence option" where
  "sync_of pools block providers entry =
    (case log_pool (\<lambda>p. pc_chain p = ib_chain block \<and> pc_event_family p = ''V2_STYLE_PAIR_CREATED'') pools block entry of
       None \<Rightarrow> None
     | Some pool \<Rightarrow>
         (case (dget entry ''topics'', decode_sync_data (dget entry ''data'')) of
            (PList [topic], Some (reserve0, reserve1)) \<Rightarrow>
              (let tx_hash = lower (str_or_empty (dget entry ''transactionHash''));
                   log_index = lower (str_or_empty (dget entry ''logIndex''))
               in if lower (py_str topic) \<noteq> v2_sync_topic \<or> \<not> starts_with ''0x'' tx_hash \<or> length tx_hash \<noteq> 66
                     \<or> \<not> starts_with ''0x'' log_index \<or> \<not> hex_text (drop 2 tx_hash) \<or> \<not> hex_text (drop 2 log_index)
                  then None
                  else Some
                    \<lparr>se_chain = ib_chain block, se_pool_key = pc_pool_key pool, se_pool_address = pc_pool_address pool,
                     se_block_number = ib_block_number block, se_block_hash = ib_block_hash block,
                     se_transaction_hash = tx_hash, se_log_index = log_index, se_reserve0 = reserve0,
                     se_reserve1 = reserve1, se_status = ''CLASSIFIED_V2_SYNC_EVENT_EVIDENCE'',
                     se_evidence_providers = providers\<rparr>)
          | _ \<Rightarrow> None))"

definition classify_v2_sync_events :: "ingested_block \<Rightarrow> pool_candidate list \<Rightarrow> v2_sync_evidence list" where
  "classify_v2_sync_events block pools =
    (let providers = log_providers block in
     if length providers < 2 then []
     else sort_key (\<lambda>e. (se_pool_key e, se_transaction_hash e, se_log_index e))
       (List.map_filter (sync_of pools block providers) (dict_logs (ib_logs block))))"

section \<open>What a quorum read means\<close>

lemma quorum_call_Inr:
  assumes "quorum_call observers pool n data min_quorum = (Inr (response, sources), observers')"
  shows "2 \<le> min_quorum \<and> min_quorum \<le> int (length sources) \<and> distinct (map ps_provider sources)"
    and "\<forall>source \<in> set sources. ps_response source = response
      \<and> (\<exists>rpc \<in> set observers. on_chain (pc_chain pool) rpc \<and> fingerprint rpc = ps_provider source
           \<and> says_call (pc_pool_address pool) data n rpc response)"
    and "\<And>liars truth. finite liars \<Longrightarrow> int (card liars) < min_quorum \<Longrightarrow>
      (\<And>rpc y. rpc \<in> set observers \<Longrightarrow> fingerprint rpc \<notin> liars \<Longrightarrow> says_call (pc_pool_address pool) data n rpc y \<Longrightarrow> y = truth)
      \<Longrightarrow> response = truth"
proof -
  obtain rows providers where pass: "sweep (\<lambda>_. True) (on_chain (pc_chain pool)) is_rpc_error
          (call_at_block (pc_pool_address pool) data n) [] observers = (Inr rows, observers')"
    and sole: "sole (qualifying min_quorum (group_rows rows)) = Some (response, providers)"
    and sources: "sources = map (\<lambda>p. \<lparr>ps_provider = p, ps_response = response\<rparr>) providers"
    and q: "2 \<le> min_quorum"
    using assms by (auto simp: quorum_call_def and_then_Inr split: if_splits prod.splits option.splits)
  have qual: "(response, providers) \<in> set (qualifying min_quorum (group_rows rows))"
    using sole by (simp add: sole_Some)
  then have g: "(response, providers) \<in> set (group_rows rows)" "min_quorum \<le> int (length providers)"
    by (auto simp: qualifying_def)
  note s = calls.group_speaks [OF sweep_collects [OF pass] g(1)]
  show "2 \<le> min_quorum \<and> min_quorum \<le> int (length sources) \<and> distinct (map ps_provider sources)"
    using q g(2) s by (simp add: sources comp_def)
  show "\<forall>source \<in> set sources. ps_response source = response
      \<and> (\<exists>rpc \<in> set observers. on_chain (pc_chain pool) rpc \<and> fingerprint rpc = ps_provider source
           \<and> says_call (pc_pool_address pool) data n rpc response)"
    using s by (auto simp: sources)
  show "response = truth" if "finite liars" "int (card liars) < min_quorum"
      "\<And>rpc y. rpc \<in> set observers \<Longrightarrow> fingerprint rpc \<notin> liars \<Longrightarrow> says_call (pc_pool_address pool) data n rpc y \<Longrightarrow> y = truth"
    for liars truth
    using calls.quorum_is_true [OF sweep_collects [OF pass] qual that] .
qed

text \<open>The hexadecimal text of a word and the number it stands for.\<close>

lemma hex_value_to_hex: "is_bytes bs \<Longrightarrow> hex_value (to_hex bs) = from_big_endian bs"
proof (induction bs rule: rev_induct)
  case (snoc b bs)
  then have "b < 256" "hex_value (to_hex bs) = from_big_endian bs" by simp_all
  moreover have "hex_value [hex_char (b div 16), hex_char (b mod 16)] = b"
    using \<open>b < 256\<close> by (simp add: hex_value_Cons)
  ultimately show ?case by (simp add: to_hex_append hex_value_append from_big_endian_snoc)
qed simp

lemma word_text:
  assumes "list_all is_hex w" "lower w = w" "length w = 64"
  shows "to_hex (uint_word (int (hex_value w))) = w" "is_uint256 (int (hex_value w))"
proof -
  obtain bs where bs: "from_hex w = Some bs" "length bs = 32"
    using from_hex_hex [OF assms(1)] assms(3) by auto
  have h: "to_hex bs = w" by (rule to_hex_from_hex [OF assms(1,2) bs(1)])
  have b: "is_bytes bs" by (rule from_hex_bytes [OF bs(1)])
  then have "hex_value w = from_big_endian bs" using hex_value_to_hex h by metis
  with b bs(2) h show "to_hex (uint_word (int (hex_value w))) = w" "is_uint256 (int (hex_value w))"
    by (simp_all add: uint_word_back word_is_uint256)
qed

lemma split_words_hex:
  "list_all is_hex s \<Longrightarrow> lower s = s \<Longrightarrow> length s = 64 * k \<Longrightarrow>
     \<forall>w \<in> set (split_words k s). list_all is_hex w \<and> lower w = w \<and> length w = 64"
proof (induction k arbitrary: s)
  case (Suc k)
  have "list_all is_hex (take 64 s)" "list_all is_hex (drop 64 s)"
    using Suc.prems(1) by (auto simp: list_all_iff dest: in_set_takeD in_set_dropD)
  moreover have "lower (take 64 s) = take 64 s" "lower (drop 64 s) = drop 64 s"
    using Suc.prems(2) by (metis lower_def take_map, metis lower_def drop_map)
  ultimately show ?case using Suc.IH [of "drop 64 s"] Suc.prems(3) by simp
qed simp

lemma split_words_concat: "length s = 64 * k \<Longrightarrow> concat (split_words k s) = s \<and> length (split_words k s) = k"
  by (induction k arbitrary: s) simp_all

lemma all_ok_total: "(\<And>x. x \<in> set xs \<Longrightarrow> f x = Inr (g x)) \<Longrightarrow> all_ok f xs = Inr (map g xs)"
  by (induction xs) simp_all

lemma starts_0x: "starts_with ''0x'' s \<longleftrightarrow> take 2 s = ''0x''"
  by (simp add: starts_with_def numeral_2_eq_2)

lemma says_text: "says rpc rpc_method params x \<Longrightarrow> starts_with ''0x'' x \<and> list_all is_hex (drop 2 x) \<and> lower x = x"
proof -
  assume "says rpc rpc_method params x"
  then obtain s where s: "is_hex_data (PStr s) None" "x = lower s" by (auto simp: says_def)
  have "lower ''0x'' = ''0x''" by code_simp
  moreover have "take 2 (lower s) = lower (take 2 s)" "drop 2 (lower s) = lower (drop 2 s)"
    by (simp_all add: lower_def take_map drop_map)
  ultimately have "starts_with ''0x'' x" "list_all is_hex (drop 2 x)"
    using s by (auto simp: is_hex_data_def starts_0x lower_def list_all_iff lower_hex)
  moreover have "lower_char (lower_char c) = lower_char c" for c
  proof -
    have "code_of (lower_char (lower_char c)) = code_of (lower_char c)"
      unfolding code_of_lower_char Let_def by auto
    then show ?thesis by (simp add: code_of_def)
  qed
  then have "lower x = x" by (simp add: s(2) lower_def)
  ultimately show ?thesis by blast
qed

text \<open>A response that decodes is the ABI encoding of its numbers.\<close>

lemma decode_words_encodes:
  assumes "decode_words response k = Inr ns" "list_all is_hex (drop 2 response)" "lower response = response"
  shows "response = ''0x'' @ to_hex (concat (map uint_word ns))" "length ns = k" "list_all is_uint256 ns"
proof -
  let ?body = "drop 2 response"
  have d: "starts_with ''0x'' response" "length ?body = 64 * k"
      "all_ok (\<lambda>w. case int_base16 w of Some n \<Rightarrow> Inr n | None \<Rightarrow> Inl (Rpc_Error ''invalid eth_call response''))
         (split_words k ?body) = Inr ns"
    using assms(1) by (simp_all add: decode_words_def)
  have "lower ?body = ?body" using assms(3) by (metis lower_def drop_map)
  note w = split_words_hex [OF assms(2) this d(2)]
  have "int_base16 v = Some (int (hex_value v))" if "v \<in> set (split_words k ?body)" for v
    using w that by (intro int_base16_plain) auto
  then have ns: "ns = map (\<lambda>v. int (hex_value v)) (split_words k ?body)"
    using d(3) all_ok_total [of "split_words k ?body"
      "\<lambda>w. case int_base16 w of Some n \<Rightarrow> Inr n | None \<Rightarrow> Inl (Rpc_Error ''invalid eth_call response'')"
      "\<lambda>v. int (hex_value v)"] by simp
  note c = split_words_concat [OF d(2)]
  have h: "to_hex (concat bss) = concat (map to_hex bss)" for bss
    by (induction bss) (simp_all add: to_hex_append)
  have "map (\<lambda>v. to_hex (uint_word (int (hex_value v)))) (split_words k ?body) = split_words k ?body"
    using w word_text(1) by (intro map_idI) blast
  then have "to_hex (concat (map uint_word ns)) = ?body" using c by (simp add: ns h comp_def)
  then show "response = ''0x'' @ to_hex (concat (map uint_word ns))"
    using d(1) append_take_drop_id [of 2 response] by (simp add: starts_0x)
  show "length ns = k" using c by (simp add: ns)
  show "list_all is_uint256 ns" using w word_text(2) by (simp add: ns list_all_iff)
qed

section \<open>Histories\<close>

lemma history_Inr:
  "history derive rows = Inr changes \<longleftrightarrow>
     length changes = length rows - 1 \<and> (\<forall>i < length changes. derive (rows ! i) (rows ! Suc i) = Inr (changes ! i))"
proof (induction derive rows arbitrary: changes rule: history.induct)
  case (1 derive previous current rows)
  show ?case
  proof (cases changes)
    case Nil
    then show ?thesis by (simp add: and_then_Inr)
  next
    case (Cons c cs)
    have "history derive (previous # current # rows) = Inr changes \<longleftrightarrow>
        derive previous current = Inr c \<and> history derive (current # rows) = Inr cs"
      by (auto simp: Cons and_then_Inr)
    also have "\<dots> \<longleftrightarrow> derive previous current = Inr c \<and> length cs = length (current # rows) - 1
        \<and> (\<forall>i < length cs. derive ((current # rows) ! i) ((current # rows) ! Suc i) = Inr (cs ! i))"
      using 1 by blast
    finally show ?thesis by (auto simp: Cons less_Suc_eq_0_disj)
  qed
qed auto

lemma history_ok:
  "(\<exists>changes. history derive rows = Inr changes) \<longleftrightarrow>
     (\<forall>i. Suc i < length rows \<longrightarrow> (\<exists>c. derive (rows ! i) (rows ! Suc i) = Inr c))"
proof
  assume "\<exists>changes. history derive rows = Inr changes"
  then show "\<forall>i. Suc i < length rows \<longrightarrow> (\<exists>c. derive (rows ! i) (rows ! Suc i) = Inr c)"
    by (metis Suc_lessD Suc_less_eq diff_Suc_1 history_Inr less_diff_conv plus_1_eq_Suc add.commute)
next
  assume ok: "\<forall>i. Suc i < length rows \<longrightarrow> (\<exists>c. derive (rows ! i) (rows ! Suc i) = Inr c)"
  define change where "change i = projr (derive (rows ! i) (rows ! Suc i))" for i
  have "derive (rows ! i) (rows ! Suc i) = Inr (change i)" if "Suc i < length rows" for i
    using ok that by (auto simp: change_def)
  then have "history derive rows = Inr (map change [0 ..< length rows - 1])" by (simp add: history_Inr)
  then show "\<exists>changes. history derive rows = Inr changes" ..
qed

lemma telescope: "(\<Sum>i < n. f (Suc i) - f i) = f n - f 0" for f :: "nat \<Rightarrow> int"
  by (induction n) simp_all

lemma derive_v2_Inr:
  "derive_v2_reserve_change previous current = Inr c \<Longrightarrow>
     vr_chain previous = vr_chain current \<and> vr_pool_key previous = vr_pool_key current
     \<and> vr_block_number previous < vr_block_number current
     \<and> rc2_from_block c = vr_block_number previous \<and> rc2_to_block c = vr_block_number current
     \<and> rc2_reserve0_delta c = vr_reserve0 current - vr_reserve0 previous
     \<and> rc2_reserve1_delta c = vr_reserve1 current - vr_reserve1 previous"
  by (auto simp: derive_v2_reserve_change_def require_same_ordered_pool_def Let_def)

lemma derive_v2_ok:
  "(\<exists>c. derive_v2_reserve_change previous current = Inr c) \<longleftrightarrow>
     vr_chain previous = vr_chain current \<and> vr_pool_key previous = vr_pool_key current
     \<and> vr_block_number previous < vr_block_number current"
  by (auto simp: derive_v2_reserve_change_def require_same_ordered_pool_def Let_def)

section \<open>Properties\<close>

text \<open>
  C23: Pool reserves are what a quorum read: they fit their ABI types, at least the quorum of distinct
  providers on the pool's chain gave one and the same answer, this answer is the ABI encoding of the
  three numbers, and fewer false providers than the quorum cannot make it anything but the truth.
\<close>

theorem pool_reserves_are_quorum_read:
  assumes "observe_v2_reserves observers pool n min_quorum = (Inr evidence, observers')"
  shows "0 \<le> vr_reserve0 evidence \<and> vr_reserve0 evidence < 2 ^ 112
    \<and> 0 \<le> vr_reserve1 evidence \<and> vr_reserve1 evidence < 2 ^ 112
    \<and> 0 \<le> vr_timestamp evidence \<and> vr_timestamp evidence < 2 ^ 32
    \<and> 2 \<le> min_quorum \<and> min_quorum \<le> int (length (vr_sources evidence))
    \<and> distinct (map ps_provider (vr_sources evidence))
    \<and> (\<exists>response. response = ''0x'' @ to_hex (uint_word (vr_reserve0 evidence) @ uint_word (vr_reserve1 evidence)
           @ uint_word (vr_timestamp evidence))
         \<and> (\<forall>source \<in> set (vr_sources evidence). ps_response source = response
              \<and> (\<exists>rpc \<in> set observers. on_chain (vr_chain evidence) rpc \<and> fingerprint rpc = ps_provider source
                   \<and> says_call (vr_pool_address evidence) v2_get_reserves_selector (vr_block_number evidence) rpc response))
         \<and> (\<forall>liars truth. finite liars \<and> int (card liars) < min_quorum
              \<and> (\<forall>rpc y. rpc \<in> set observers \<and> fingerprint rpc \<notin> liars
                   \<and> says_call (vr_pool_address evidence) v2_get_reserves_selector (vr_block_number evidence) rpc y
                   \<longrightarrow> y = truth)
              \<longrightarrow> response = truth))"
proof -
  obtain response sources where call: "quorum_call observers pool n v2_get_reserves_selector min_quorum
        = (Inr (response, sources), observers')"
    and ev: "v2_evidence pool n (response, sources) = Inr evidence"
    using assms by (auto simp: observe_v2_reserves_def and_then_Inr split: prod.splits)
  obtain ws where ws: "decode_words response 3 = Inr ws" "\<not> 2 ^ 112 \<le> ws ! 0" "\<not> 2 ^ 112 \<le> ws ! 1" "\<not> 2 ^ 32 \<le> ws ! 2"
    and e: "vr_reserve0 evidence = ws ! 0" "vr_reserve1 evidence = ws ! 1" "vr_timestamp evidence = ws ! 2"
      "vr_chain evidence = pc_chain pool" "vr_pool_address evidence = pc_pool_address pool"
      "vr_block_number evidence = n" "vr_sources evidence = sources"
    using ev by (auto simp: v2_evidence_def and_then_Inr Let_def)
  note q = quorum_call_Inr [OF call]
  obtain source where "source \<in> set sources" using q(1) by (cases sources) auto
  then obtain rpc where "says_call (pc_pool_address pool) v2_get_reserves_selector n rpc response" using q(2) by blast
  then have plain: "list_all is_hex (drop 2 response)" "lower response = response"
    using says_text by (auto simp: says_call_def)
  note d = decode_words_encodes [OF ws(1) plain]
  obtain a b c where abc: "ws = [a, b, c]" using d(2) by (auto simp: numeral_3_eq_3 length_Suc_conv)
  have response: "response = ''0x'' @ to_hex (uint_word (vr_reserve0 evidence) @ uint_word (vr_reserve1 evidence)
           @ uint_word (vr_timestamp evidence))"
    using d(1) by (simp add: e abc)
  have pos: "0 \<le> ws ! 0" "0 \<le> ws ! 1" "0 \<le> ws ! 2" using d(3) by (simp_all add: abc is_uint256_def)
  have truth: "\<forall>liars truth. finite liars \<and> int (card liars) < min_quorum
      \<and> (\<forall>rpc y. rpc \<in> set observers \<and> fingerprint rpc \<notin> liars
           \<and> says_call (vr_pool_address evidence) v2_get_reserves_selector (vr_block_number evidence) rpc y \<longrightarrow> y = truth)
      \<longrightarrow> response = truth"
    unfolding e using q(3) by blast
  have sources: "\<forall>source \<in> set (vr_sources evidence). ps_response source = response
      \<and> (\<exists>rpc \<in> set observers. on_chain (vr_chain evidence) rpc \<and> fingerprint rpc = ps_provider source
           \<and> says_call (vr_pool_address evidence) v2_get_reserves_selector (vr_block_number evidence) rpc response)"
    unfolding e by (rule q(2))
  have bounds: "0 \<le> vr_reserve0 evidence \<and> vr_reserve0 evidence < 2 ^ 112 \<and> 0 \<le> vr_reserve1 evidence
      \<and> vr_reserve1 evidence < 2 ^ 112 \<and> 0 \<le> vr_timestamp evidence \<and> vr_timestamp evidence < 2 ^ 32"
    using ws(2-4) pos unfolding e by linarith
  have quorum: "2 \<le> min_quorum \<and> min_quorum \<le> int (length (vr_sources evidence))
      \<and> distinct (map ps_provider (vr_sources evidence))"
    unfolding e by (rule q(1))
  show ?thesis using bounds quorum response sources truth by blast
qed

text \<open>
  C35: A reserve history is complete and consistent: it exists exactly when every row is of the same
  pool and chain as the one before, at a higher block; it has one change for every two neighbouring
  rows, and the changes of each reserve add up to the difference of the last and the first row.
\<close>

theorem reserve_history_telescopes:
  "((\<exists>changes. build_v2_reserve_change_history rows = Inr changes) \<longleftrightarrow>
     (\<forall>i. Suc i < length rows \<longrightarrow> vr_chain (rows ! i) = vr_chain (rows ! Suc i)
        \<and> vr_pool_key (rows ! i) = vr_pool_key (rows ! Suc i)
        \<and> vr_block_number (rows ! i) < vr_block_number (rows ! Suc i)))
   \<and> (\<forall>changes. build_v2_reserve_change_history rows = Inr changes \<longrightarrow>
        length changes = length rows - 1
        \<and> (rows \<noteq> [] \<longrightarrow>
             sum_list (map rc2_reserve0_delta changes) = vr_reserve0 (last rows) - vr_reserve0 (hd rows)
             \<and> sum_list (map rc2_reserve1_delta changes) = vr_reserve1 (last rows) - vr_reserve1 (hd rows)))"
proof (intro conjI allI impI)
  let ?ok = "\<lambda>i. vr_chain (rows ! i) = vr_chain (rows ! Suc i) \<and> vr_pool_key (rows ! i) = vr_pool_key (rows ! Suc i)
        \<and> vr_block_number (rows ! i) < vr_block_number (rows ! Suc i)"
  show "(\<exists>changes. build_v2_reserve_change_history rows = Inr changes) \<longleftrightarrow> (\<forall>i. Suc i < length rows \<longrightarrow> ?ok i)"
    by (simp add: build_v2_reserve_change_history_def history_ok derive_v2_ok)
next
  fix changes assume "build_v2_reserve_change_history rows = Inr changes"
  then have c: "length changes = length rows - 1"
      "\<forall>i < length changes. derive_v2_reserve_change (rows ! i) (rows ! Suc i) = Inr (changes ! i)"
    by (auto simp: build_v2_reserve_change_history_def history_Inr)
  show "length changes = length rows - 1" by (rule c(1))
  have sums: "sum_list (map f changes) = g (last rows) - g (hd rows)"
    if "\<And>i. i < length changes \<Longrightarrow> f (changes ! i) = g (rows ! Suc i) - g (rows ! i)" "rows \<noteq> []"
    for f :: "v2_reserve_change \<Rightarrow> int" and g
  proof -
    have "sum_list (map f changes) = (\<Sum>i < length changes. f (changes ! i))"
      by (simp add: sum_list_sum_nth atLeast0LessThan)
    also have "\<dots> = (\<Sum>i < length changes. g (rows ! Suc i) - g (rows ! i))" using that(1) by simp
    also have "\<dots> = g (rows ! length changes) - g (rows ! 0)" by (rule telescope)
    finally show ?thesis using that(2) c(1) by (simp add: last_conv_nth hd_conv_nth)
  qed
  show "sum_list (map rc2_reserve0_delta changes) = vr_reserve0 (last rows) - vr_reserve0 (hd rows)"
    "sum_list (map rc2_reserve1_delta changes) = vr_reserve1 (last rows) - vr_reserve1 (hd rows)" if "rows \<noteq> []"
    using that c(2) derive_v2_Inr by (auto intro!: sums)
qed

text \<open>A pool of the demonstration endpoints, with the reserves 5 and 7.\<close>

definition demo_pool :: pool_candidate where
  "demo_pool =
    \<lparr>pc_chain = ''base'', pc_chain_id = 8453, pc_factory_address = [], pc_factory_key = [],
     pc_pool_address = ''0x'' @ replicate 40 (CHR ''a''), pc_pool_key = ''k'', pc_token0_address = [], pc_token0_key = [],
     pc_token1_address = [], pc_token1_key = [], pc_event_family = ''V2_STYLE_PAIR_CREATED'', pc_fee_tier = None,
     pc_first_seen_block = 1, pc_block_hash = [], pc_transaction_hash = [], pc_log_index = [],
     pc_status = ''UNVERIFIED_DEX_POOL_CANDIDATE'', pc_evidence_providers = []\<rparr>"

definition demo_reserves :: string where
  "demo_reserves = ''0x'' @ to_hex (uint_word 5 @ uint_word 7 @ uint_word 9)"

lemma demo_reserves_decode: "decode_words demo_reserves 3 = Inr [5, 7, 9]"
proof -
  have w: "length (to_hex (uint_word m)) = 64" "list_all is_hex (to_hex (uint_word m))"
    "hex_value (to_hex (uint_word m)) = from_big_endian (uint_word m)" for m
    by (simp_all add: to_hex_hex hex_value_to_hex)
  have v: "int (from_big_endian (uint_word m)) = m" if "m \<in> {5, 7, 9}" for m
    using that uint_from_uint_word [of m] by (auto simp: uint_from_word_def is_uint256_def)
  have b: "int_base16 (to_hex (uint_word m)) = Some (int (from_big_endian (uint_word m)))" for m
  proof -
    have "to_hex (uint_word m) \<noteq> []" using w(1) [of m] by (metis list.size(3) zero_neq_numeral)
    then show ?thesis using int_base16_plain [OF w(2)] w(3) by simp
  qed
  have "split_words 3 (to_hex (uint_word 5 @ uint_word 7 @ uint_word 9))
      = [to_hex (uint_word 5), to_hex (uint_word 7), to_hex (uint_word 9)]"
    by (simp add: to_hex_append numeral_3_eq_3)
  then show ?thesis using v by (simp add: decode_words_def demo_reserves_def starts_0x b to_hex_append)
qed

lemma demo_reserves_text: "is_hex_data (PStr demo_reserves) None" "lower demo_reserves = demo_reserves"
proof -
  have "is_bytes (uint_word 5 @ uint_word 7 @ uint_word 9)" by simp
  then show "is_hex_data (PStr demo_reserves) None"
    by (simp add: is_hex_data_def demo_reserves_def to_hex_hex)
  have "lower (to_hex bs) = to_hex bs" if "is_bytes bs" for bs
    using that
  proof (induction bs)
    case (Cons b bs)
    have "lower_char (hex_char d) = hex_char d" if "d < 16" for d
      using hex_char_hex_val [of "hex_char d"] that by simp
    moreover have "b div 16 < 16" "b mod 16 < 16" using Cons.prems by (simp_all add: less_mult_imp_div_less)
    ultimately show ?case using Cons by (simp add: lower_def)
  qed (simp add: lower_def)
  then have "lower (to_hex (uint_word 5 @ uint_word 7 @ uint_word 9)) = to_hex (uint_word 5 @ uint_word 7 @ uint_word 9)"
    by simp
  moreover have "lower ''0x'' = ''0x''" by code_simp
  ultimately show "lower demo_reserves = demo_reserves" by (simp add: demo_reserves_def lower_def)
qed

lemma pool_reserves_are_quorum_read_witness:
  "\<exists>evidence. fst (observe_v2_reserves (demo_pair [(''eth_call'', PStr demo_reserves)]) demo_pool 5 2) = Inr evidence
     \<and> vr_reserve0 evidence = 5 \<and> 2 \<le> length (vr_sources evidence)"
proof -
  let ?observers = "demo_pair [(''eth_call'', PStr demo_reserves)]"
  have pool: "pc_pool_address demo_pool = ''0x'' @ replicate 40 (CHR ''a'')" "pc_chain demo_pool = ''base''"
    by (simp_all add: demo_pool_def)
  have read: "fst (call_at_block (pc_pool_address demo_pool) v2_get_reserves_selector 5
        (demo_rpc url (demo_answers [(''eth_call'', PStr demo_reserves)]))) = Inr demo_reserves" for url
    using demo_call [of "pc_pool_address demo_pool" v2_get_reserves_selector 5 demo_reserves
        "[(''eth_call'', PStr demo_reserves)]" url] demo_reserves_text demo_hex
    by (simp add: pool is_evm_address_def list_all_iff dget_def) (simp add: is_hex_data_def v2_get_reserves_selector_def
      is_hex_def code_of_def)
  have pass: "fst (sweep (\<lambda>_. True) (on_chain ''base'') is_rpc_error
        (call_at_block (pc_pool_address demo_pool) v2_get_reserves_selector 5) [] ?observers)
      = Inr [(provider_fingerprint demo_a, demo_reserves), (provider_fingerprint demo_b, demo_reserves)]"
    using read by (rule demo_sweep) simp_all
  let ?sources = "[\<lparr>ps_provider = provider_fingerprint demo_a, ps_response = demo_reserves\<rparr>,
      \<lparr>ps_provider = provider_fingerprint demo_b, ps_response = demo_reserves\<rparr>]"
  have "fst (quorum_call ?observers demo_pool 5 v2_get_reserves_selector 2) = Inr (demo_reserves, ?sources)"
    using pass by (simp add: quorum_call_def split_def Let_def pool(2) group_rows_def qualifying_def sole_def)
  then obtain evidence where "fst (observe_v2_reserves ?observers demo_pool 5 2) = Inr evidence" "vr_reserve0 evidence = 5"
    using demo_reserves_decode by (auto simp: observe_v2_reserves_def split_def Let_def v2_evidence_def)
  then show ?thesis using pool_reserves_are_quorum_read [OF answer_pair] by fastforce
qed

lemma reserve_history_telescopes_witness:
  "build_v2_reserve_change_history [] = Inr [] \<and>
   (\<exists>changes. build_v2_reserve_change_history
     [\<lparr>vr_chain = ''base'', vr_pool_key = ''k'', vr_pool_address = ''p'', vr_block_number = 1, vr_reserve0 = 5,
       vr_reserve1 = 6, vr_timestamp = 1, vr_status = [], vr_sources = []\<rparr>,
      \<lparr>vr_chain = ''base'', vr_pool_key = ''k'', vr_pool_address = ''p'', vr_block_number = 2, vr_reserve0 = 3,
       vr_reserve1 = 9, vr_timestamp = 2, vr_status = [], vr_sources = []\<rparr>] = Inr changes
     \<and> sum_list (map rc2_reserve0_delta changes) = - 2)" (is "_ \<and> (\<exists>changes. build_v2_reserve_change_history ?rows = _ \<and> _)")
proof
  show "build_v2_reserve_change_history [] = Inr []" by (simp add: build_v2_reserve_change_history_def)
  note t = reserve_history_telescopes [of ?rows]
  have "\<exists>changes. build_v2_reserve_change_history ?rows = Inr changes" using t by (auto simp: less_Suc_eq)
  then obtain changes where c: "build_v2_reserve_change_history ?rows = Inr changes" by blast
  then have "sum_list (map rc2_reserve0_delta changes) = vr_reserve0 (last ?rows) - vr_reserve0 (hd ?rows)"
    using t by blast
  with c show "\<exists>changes. build_v2_reserve_change_history ?rows = Inr changes
     \<and> sum_list (map rc2_reserve0_delta changes) = - 2" by (intro exI [of _ changes]) simp
qed

end
