(* ===== verification/Evm_Contract_Code.thy ===== *)
theory Evm_Contract_Code
  imports Evm_Pool_State
begin

text \<open>
  Runtime bytecode agreed on by a quorum (\<^verbatim>\<open>evm_contract_code.py\<close>), the authority selectors found in it
  (\<^verbatim>\<open>evm_privileged_inventory.py\<close>) and the token capabilities these stand for
  (\<^verbatim>\<open>evm_token_authority.py\<close>).
\<close>

section \<open>Contract code\<close>

record code_source =
  cs_provider :: string
  cs_fingerprint :: string
  cs_byte_length :: int

record contract_code =
  ce_chain :: string
  ce_chain_id :: int
  ce_address :: string
  ce_contract_key :: string
  ce_block_number :: int
  ce_byte_length :: int
  ce_fingerprint :: string
  ce_runtime_bytecode :: string
  ce_status :: string
  ce_sources :: "code_source list"

definition code_fingerprint :: "string \<Rightarrow> (string \<times> int) evm" where
  "code_fingerprint code =
    (case from_hex (drop 2 code) of
       Some raw \<Rightarrow> Inr (sha256_hex raw, int (length raw))
     | None \<Rightarrow> Inl (Value_Error ''non-hexadecimal number found in fromhex() arg''))"

text \<open>The chain id of the observer behind the last answer, which is the first with its label.\<close>

definition row_chain_id :: "evm_rpc list \<Rightarrow> (string \<times> 'a) list \<Rightarrow> int option" where
  "row_chain_id observers rows =
    (if rows = [] then None
     else case find (\<lambda>rpc. fingerprint rpc = fst (last rows)) observers of
         Some rpc \<Rightarrow> cc_chain_id (rpc_chain rpc)
       | None \<Rightarrow> None)"

definition code_verdict ::
  "evm_rpc list \<Rightarrow> string \<Rightarrow> string \<Rightarrow> int \<Rightarrow> int \<Rightarrow> (string \<times> string) list \<Rightarrow> contract_code evm" where
  "code_verdict observers chain canonical n min_quorum rows =
    (case sole (qualifying min_quorum (group_rows rows)) of
       None \<Rightarrow> Inl (Rpc_Error ''contract-code quorum not reached'')
     | Some (code, providers) \<Rightarrow>
         and_then (code_fingerprint code) (\<lambda>(digest, byte_length).
         case row_chain_id observers rows of
           None \<Rightarrow> Inl (Rpc_Error ''contract-code chain evidence missing'')
         | Some chain_id \<Rightarrow>
             (case asset_key (PStr chain) (PStr canonical) of
                None \<Rightarrow> Inl (Rpc_Error ''contract identity could not be canonicalized'')
              | Some key \<Rightarrow>
                  Inr \<lparr>ce_chain = chain, ce_chain_id = chain_id, ce_address = canonical, ce_contract_key = key,
                       ce_block_number = n, ce_byte_length = byte_length, ce_fingerprint = digest,
                       ce_runtime_bytecode = code, ce_status = ''UNVERIFIED_CONTRACT_CODE_EVIDENCE'',
                       ce_sources = sort_key cs_provider (map (\<lambda>p. \<lparr>cs_provider = p, cs_fingerprint = digest,
                         cs_byte_length = byte_length\<rparr>) providers)\<rparr>)))"

definition observe_contract_code ::
  "evm_rpc list \<Rightarrow> string \<Rightarrow> string \<Rightarrow> int \<Rightarrow> int \<Rightarrow> contract_code evm \<times> evm_rpc list" where
  "observe_contract_code observers chain address n min_quorum =
    (if min_quorum < 2 then (Inl (Value_Error ''min_quorum must be at least 2''), observers)
     else if n < 0 then (Inl (Value_Error ''block_number must be non-negative''), observers)
     else case canonical_chain_address (PStr chain) (PStr address) of
         None \<Rightarrow> (Inl (Value_Error ''address must be valid for the requested chain''), observers)
       | Some canonical \<Rightarrow>
           if int (length (distinct_observers [] observers)) < min_quorum
           then (Inl (Rpc_Error ''insufficient distinct RPC providers for contract-code quorum''), observers)
           else
             (let (r, observers') =
                    sweep (\<lambda>_. True) (on_chain chain) is_rpc_error (get_code_at_block canonical n) [] observers
              in (and_then r (\<lambda>rows. code_verdict observers chain canonical n min_quorum
                    (filter (\<lambda>(p, code). code \<noteq> ''0x'') rows)), observers')))"

definition observe_factory_contract_code ::
  "evm_rpc list \<Rightarrow> pool_candidate \<Rightarrow> int \<Rightarrow> int \<Rightarrow> contract_code evm \<times> evm_rpc list" where
  "observe_factory_contract_code observers pool n min_quorum =
    (let (r, observers') = observe_contract_code observers (pc_chain pool) (pc_factory_address pool) n min_quorum
     in (and_then r (\<lambda>evidence. raise_if (ce_contract_key evidence \<noteq> pc_factory_key pool)
           (Rpc_Error ''factory contract identity mismatch'') (Inr evidence)), observers'))"

definition observe_pool_contract_code ::
  "evm_rpc list \<Rightarrow> pool_candidate \<Rightarrow> int \<Rightarrow> int \<Rightarrow> contract_code evm \<times> evm_rpc list" where
  "observe_pool_contract_code observers pool n min_quorum =
    (let (r, observers') = observe_contract_code observers (pc_chain pool) (pc_pool_address pool) n min_quorum
     in (and_then r (\<lambda>evidence. raise_if (ce_contract_key evidence \<noteq> pc_pool_key pool)
           (Rpc_Error ''pool contract identity mismatch'') (Inr evidence)), observers'))"

section \<open>Authority selectors\<close>

definition known_authority_selectors :: "(string \<times> string \<times> string \<times> string) list" where
  "known_authority_selectors =
    [(''0x8da5cb5b'', ''owner()'', ''OWNERSHIP'', ''AUTHORITY_READ''),
     (''0xf851a440'', ''admin()'', ''PROXY_ADMIN'', ''AUTHORITY_READ''),
     (''0x5c60da1b'', ''implementation()'', ''PROXY_IMPLEMENTATION'', ''AUTHORITY_READ''),
     (''0xf2fde38b'', ''transferOwnership(address)'', ''OWNERSHIP'', ''AUTHORITY_MUTATION''),
     (''0x715018a6'', ''renounceOwnership()'', ''OWNERSHIP'', ''AUTHORITY_MUTATION''),
     (''0x8f283970'', ''changeAdmin(address)'', ''PROXY_ADMIN'', ''AUTHORITY_MUTATION''),
     (''0x3659cfe6'', ''upgradeTo(address)'', ''PROXY_UPGRADE'', ''AUTHORITY_MUTATION''),
     (''0x4f1ef286'', ''upgradeToAndCall(address,bytes)'', ''PROXY_UPGRADE'', ''AUTHORITY_MUTATION''),
     (''0x8456cb59'', ''pause()'', ''PAUSE_CONTROL'', ''AUTHORITY_MUTATION''),
     (''0x3f4ba83a'', ''unpause()'', ''PAUSE_CONTROL'', ''AUTHORITY_MUTATION''),
     (''0x2f2ff15d'', ''grantRole(bytes32,address)'', ''ROLE_CONTROL'', ''AUTHORITY_MUTATION''),
     (''0xd547741f'', ''revokeRole(bytes32,address)'', ''ROLE_CONTROL'', ''AUTHORITY_MUTATION''),
     (''0x91d14854'', ''hasRole(bytes32,address)'', ''ROLE_CONTROL'', ''AUTHORITY_READ''),
     (''0x248a9ca3'', ''getRoleAdmin(bytes32)'', ''ROLE_CONTROL'', ''AUTHORITY_READ'')]"

record selector_candidate =
  sc_selector :: string
  sc_offsets :: "nat list"
  sc_status :: string

record privileged_surface =
  pv_selector :: string
  pv_signature :: string
  pv_category :: string
  pv_authority_effect :: string
  pv_offsets :: "nat list"
  pv_status :: string

record privileged_inventory =
  pi_chain :: string
  pi_contract_key :: string
  pi_block_number :: int
  pi_code_fingerprint :: string
  pi_providers :: "string list"
  pi_selector_candidates :: "selector_candidate list"
  pi_privileged_surfaces :: "privileged_surface list"
  pi_status :: string

definition validated_runtime :: "contract_code \<Rightarrow> int \<Rightarrow> bytes evm" where
  "validated_runtime code min_quorum =
    raise_if (min_quorum < 2) (Value_Error ''min_quorum must be at least 2'')
    (raise_if (int (length (remdups (map cs_provider (ce_sources code)))) < min_quorum)
      (Rpc_Error ''contract code lacks independent quorum provenance'')
    (raise_if (list_ex (\<lambda>s. cs_fingerprint s \<noteq> ce_fingerprint code \<or> cs_byte_length s \<noteq> ce_byte_length code)
        (ce_sources code))
      (Rpc_Error ''contract-code source provenance disagrees with evidence'')
    (raise_if (\<not> starts_with ''0x'' (ce_runtime_bytecode code) \<or> odd (length (ce_runtime_bytecode code)))
      (Rpc_Error ''invalid runtime bytecode evidence'')
    (case from_hex (drop 2 (ce_runtime_bytecode code)) of
       None \<Rightarrow> Inl (Rpc_Error ''invalid runtime bytecode evidence'')
     | Some raw \<Rightarrow>
         raise_if (int (length raw) \<noteq> ce_byte_length code \<or> sha256_hex raw \<noteq> ce_fingerprint code)
           (Rpc_Error ''runtime bytecode does not match contract-code fingerprint'') (Inr raw)))))"

text \<open>The selector behind a PUSH4 at an offset.\<close>

definition selector_at :: "bytes \<Rightarrow> nat \<Rightarrow> string" where
  "selector_at raw offset = ''0x'' @ to_hex (take 4 (drop (offset + 1) raw))"

function push4_scan :: "bytes \<Rightarrow> nat \<Rightarrow> (string \<times> nat list) list \<Rightarrow> (string \<times> nat list) list" where
  "push4_scan raw offset found =
    (if length raw \<le> offset then found
     else if raw ! offset = 0x63 \<and> offset + 4 < length raw
     then push4_scan raw (offset + 5) (add_row (selector_at raw offset) offset found)
     else if 0x60 \<le> raw ! offset \<and> raw ! offset \<le> 0x7F
     then push4_scan raw (offset + (1 + (raw ! offset - 0x5F))) found
     else push4_scan raw (offset + 1) found)"
  by pat_completeness auto

termination by (relation "measure (\<lambda>(raw, offset, found). length raw - offset)") auto

declare push4_scan.simps [simp del]

definition push4_candidates :: "bytes \<Rightarrow> (string \<times> nat list) list" where
  "push4_candidates raw = push4_scan raw 0 []"

definition inventory_of :: "contract_code \<Rightarrow> bytes \<Rightarrow> privileged_inventory" where
  "inventory_of code raw =
    (let found = sort_key fst (push4_candidates raw) in
     \<lparr>pi_chain = ce_chain code, pi_contract_key = ce_contract_key code, pi_block_number = ce_block_number code,
      pi_code_fingerprint = ce_fingerprint code, pi_providers = sorted_set (map cs_provider (ce_sources code)),
      pi_selector_candidates = map (\<lambda>(selector, offsets). \<lparr>sc_selector = selector, sc_offsets = offsets,
        sc_status = ''BYTECODE_PUSH4_SELECTOR_CANDIDATE''\<rparr>) found,
      pi_privileged_surfaces = List.map_filter (\<lambda>(selector, offsets).
        case map_of known_authority_selectors selector of
          None \<Rightarrow> None
        | Some (signature, category, effect) \<Rightarrow>
            Some \<lparr>pv_selector = selector, pv_signature = signature, pv_category = category,
              pv_authority_effect = effect, pv_offsets = offsets,
              pv_status = ''KNOWN_AUTHORITY_SELECTOR_BYTECODE_CANDIDATE''\<rparr>) found,
      pi_status = ''UNVERIFIED_PRIVILEGED_AUTHORITY_INVENTORY_EVIDENCE''\<rparr>)"

definition inventory_privileged_authority_surfaces :: "contract_code \<Rightarrow> int \<Rightarrow> privileged_inventory evm" where
  "inventory_privileged_authority_surfaces code min_quorum =
    and_then (validated_runtime code min_quorum) (\<lambda>raw. Inr (inventory_of code raw))"

section \<open>Token capabilities\<close>

definition token_capability_selectors :: "(string \<times> string \<times> string \<times> string) list" where
  "token_capability_selectors =
    [(''0x40c10f19'', ''mint(address,uint256)'', ''SUPPLY_EXPANSION'', ''TOKEN_SUPPLY_MUTATION''),
     (''0x8456cb59'', ''pause()'', ''PAUSE_CONTROL'', ''TRANSFER_AVAILABILITY_MUTATION''),
     (''0x3f4ba83a'', ''unpause()'', ''PAUSE_CONTROL'', ''TRANSFER_AVAILABILITY_MUTATION''),
     (''0xf2fde38b'', ''transferOwnership(address)'', ''OWNERSHIP_CONTROL'', ''AUTHORITY_MUTATION''),
     (''0x715018a6'', ''renounceOwnership()'', ''OWNERSHIP_CONTROL'', ''AUTHORITY_MUTATION''),
     (''0x2f2ff15d'', ''grantRole(bytes32,address)'', ''ROLE_CONTROL'', ''AUTHORITY_MUTATION''),
     (''0xd547741f'', ''revokeRole(bytes32,address)'', ''ROLE_CONTROL'', ''AUTHORITY_MUTATION'')]"

definition unresolved_capability_families :: "string list" where
  "unresolved_capability_families =
    [''BLACKLIST_WHITELIST_CONTROL'', ''TRADING_ENABLE_DISABLE_CONTROL'', ''TRANSFER_LIMIT_CONTROL'',
     ''WALLET_LIMIT_CONTROL'', ''BUY_SELL_LIMIT_CONTROL'', ''FEE_TAX_CONTROL'']"

record token_capability =
  tc_selector :: string
  tc_signature :: string
  tc_capability :: string
  tc_effect :: string
  tc_offsets :: "nat list"
  tc_status :: string

record token_coverage =
  tv_family :: string
  tv_state :: string
  tv_reason :: string

record token_assessment =
  ta_chain :: string
  ta_contract_key :: string
  ta_block_number :: int
  ta_code_fingerprint :: string
  ta_providers :: "string list"
  ta_capabilities :: "token_capability list"
  ta_unresolved_families :: "token_coverage list"
  ta_status :: string

text \<open>The loop over the capability selectors, in their sorted order.\<close>

fun collect_capabilities ::
  "(string \<Rightarrow> selector_candidate option) \<Rightarrow> (string \<times> string \<times> string \<times> string) list \<Rightarrow> token_capability list evm" where
  "collect_capabilities candidates [] = Inr []"
| "collect_capabilities candidates ((selector, signature, capability, effect) # rest) =
     (case candidates selector of
        None \<Rightarrow> collect_capabilities candidates rest
      | Some candidate \<Rightarrow>
          raise_if (sc_status candidate \<noteq> ''BYTECODE_PUSH4_SELECTOR_CANDIDATE'')
            (Rpc_Error ''token authority selector candidate status is not canonical'')
          (and_then (collect_capabilities candidates rest) (\<lambda>capabilities.
             Inr (\<lparr>tc_selector = selector, tc_signature = signature, tc_capability = capability, tc_effect = effect,
                   tc_offsets = sc_offsets candidate,
                   tc_status = ''UNVERIFIED_TOKEN_AUTHORITY_SELECTOR_EVIDENCE''\<rparr> # capabilities))))"

definition assess_token_authority :: "privileged_inventory \<Rightarrow> int \<Rightarrow> token_assessment evm" where
  "assess_token_authority inventory min_quorum =
    raise_if (min_quorum < 2) (Value_Error ''min_quorum must be at least 2'')
    (raise_if (pi_status inventory \<noteq> ''UNVERIFIED_PRIVILEGED_AUTHORITY_INVENTORY_EVIDENCE'')
      (Rpc_Error ''token authority requires canonical privileged inventory evidence'')
    (raise_if (int (length (remdups (pi_providers inventory))) < min_quorum)
      (Rpc_Error ''token authority inventory lacks independent provider quorum'')
    (raise_if (length (pi_code_fingerprint inventory) \<noteq> 64)
      (Rpc_Error ''token authority inventory lacks canonical code fingerprint'')
    (and_then
       (collect_capabilities
          (map_of (rev (map (\<lambda>row. (sc_selector row, row)) (pi_selector_candidates inventory))))
          (sort_key fst token_capability_selectors)) (\<lambda>capabilities.
     Inr \<lparr>ta_chain = pi_chain inventory, ta_contract_key = pi_contract_key inventory,
          ta_block_number = pi_block_number inventory, ta_code_fingerprint = pi_code_fingerprint inventory,
          ta_providers = sorted_set (pi_providers inventory), ta_capabilities = capabilities,
          ta_unresolved_families = map (\<lambda>family. \<lparr>tv_family = family, tv_state = ''UNKNOWN_NOT_ASSESSED'',
            tv_reason = ''NONSTANDARD_OR_UNSUPPORTED_SELECTOR_FAMILY''\<rparr>) unresolved_capability_families,
          ta_status = ''UNVERIFIED_TOKEN_AUTHORITY_ASSESSMENT_EVIDENCE''\<rparr>)))))"

section \<open>Instructions\<close>

text \<open>
  The reference for the scan: the offsets at which an instruction of the bytecode starts. A push
  carries its operand, every other instruction is one byte.
\<close>

definition instruction_width :: "nat \<Rightarrow> nat" where
  "instruction_width opcode = (if 0x60 \<le> opcode \<and> opcode \<le> 0x7F then opcode - 0x5E else 1)"

inductive instruction_start :: "bytes \<Rightarrow> nat \<Rightarrow> bool" for raw where
  first: "instruction_start raw 0"
| next_one: "instruction_start raw offset \<Longrightarrow> offset < length raw
    \<Longrightarrow> instruction_start raw (offset + instruction_width (raw ! offset))"

definition push4_at :: "bytes \<Rightarrow> nat \<Rightarrow> string \<Rightarrow> bool" where
  "push4_at raw offset selector \<longleftrightarrow> instruction_start raw offset \<and> offset + 4 < length raw \<and> raw ! offset = 0x63
     \<and> selector = selector_at raw offset"

text \<open>The starts from an offset on, as a list.\<close>

function starts :: "bytes \<Rightarrow> nat \<Rightarrow> nat list" where
  "starts raw offset =
     (if length raw \<le> offset then [] else offset # starts raw (offset + instruction_width (raw ! offset)))"
  by pat_completeness auto

termination by (relation "measure (\<lambda>(raw, offset). length raw - offset)") (auto simp: instruction_width_def)

declare starts.simps [simp del]

lemma starts_bounds: "o' \<in> set (starts raw offset) \<Longrightarrow> offset \<le> o' \<and> o' < length raw"
proof (induction raw offset rule: starts.induct)
  case (1 raw offset)
  then show ?case by (subst (asm) (2) starts.simps) (auto split: if_splits)
qed

lemma starts_sorted: "sorted_wrt (<) (starts raw offset)"
proof (induction raw offset rule: starts.induct)
  case (1 raw offset)
  have "0 < instruction_width (raw ! offset)" by (simp add: instruction_width_def)
  with 1 starts_bounds show ?case by (subst starts.simps) fastforce
qed

lemma starts_sound: "instruction_start raw offset \<Longrightarrow> o' \<in> set (starts raw offset) \<Longrightarrow> instruction_start raw o'"
proof (induction raw offset rule: starts.induct)
  case (1 raw offset)
  have "\<not> length raw \<le> offset" "o' = offset \<or> o' \<in> set (starts raw (offset + instruction_width (raw ! offset)))"
    using "1.prems"(2) by (subst (asm) starts.simps, auto split: if_splits)+
  with 1 instruction_start.next_one [OF "1.prems"(1)] show ?case by auto
qed

lemma starts_next:
  "o' \<in> set (starts raw offset) \<Longrightarrow> o' + instruction_width (raw ! o') < length raw \<Longrightarrow>
     o' + instruction_width (raw ! o') \<in> set (starts raw offset)"
proof (induction raw offset rule: starts.induct)
  case (1 raw offset)
  have here: "o' \<in> set (starts raw o')" if "o' < length raw" for o' using that by (subst starts.simps) simp
  have o: "o' = offset \<or> o' \<in> set (starts raw (offset + instruction_width (raw ! offset)))" "\<not> length raw \<le> offset"
    using "1.prems"(1) by (subst (asm) starts.simps, auto split: if_splits)+
  then have "o' + instruction_width (raw ! o') \<in> set (starts raw (offset + instruction_width (raw ! offset)))"
    using 1 here by auto
  then show ?case using o(2) by (subst starts.simps) simp
qed

lemma starts_are_the_starts: "set (starts raw 0) = {o'. instruction_start raw o' \<and> o' < length raw}"
proof (intro set_eqI iffI)
  fix o' assume "o' \<in> set (starts raw 0)"
  then show "o' \<in> {o'. instruction_start raw o' \<and> o' < length raw}"
    using starts_sound [OF instruction_start.first] starts_bounds by blast
next
  fix o' assume "o' \<in> {o'. instruction_start raw o' \<and> o' < length raw}"
  then have "instruction_start raw o'" "o' < length raw" by simp_all
  then show "o' \<in> set (starts raw 0)"
  proof (induction rule: instruction_start.induct)
    case first
    then show ?case by (subst starts.simps) simp
  next
    case (next_one offset)
    then show ?case using starts_next [of offset raw 0] by simp
  qed
qed

definition push4_offsets :: "bytes \<Rightarrow> nat \<Rightarrow> nat list" where
  "push4_offsets raw offset = filter (\<lambda>o'. raw ! o' = 0x63 \<and> o' + 4 < length raw) (starts raw offset)"

lemma push4_offsets_step:
  "push4_offsets raw offset =
     (if length raw \<le> offset then []
      else (if raw ! offset = 0x63 \<and> offset + 4 < length raw then [offset] else [])
        @ push4_offsets raw (offset + instruction_width (raw ! offset)))"
  unfolding push4_offsets_def by (subst starts.simps) simp

lemma push4_scan_rows:
  "push4_scan raw offset found =
     foldl (\<lambda>groups (o', selector). add_row selector o' groups) found
       (map (\<lambda>o'. (o', selector_at raw o')) (push4_offsets raw offset))"
proof (induction raw offset found rule: push4_scan.induct)
  case (1 raw offset found)
  consider "length raw \<le> offset" | "\<not> length raw \<le> offset" "raw ! offset = 0x63 \<and> offset + 4 < length raw"
    | "\<not> length raw \<le> offset" "\<not> (raw ! offset = 0x63 \<and> offset + 4 < length raw)" "0x60 \<le> raw ! offset \<and> raw ! offset \<le> 0x7F"
    | "\<not> length raw \<le> offset" "\<not> (raw ! offset = 0x63 \<and> offset + 4 < length raw)" "\<not> (0x60 \<le> raw ! offset \<and> raw ! offset \<le> 0x7F)"
    by blast
  then show ?case
  proof cases
    case 1
    then show ?thesis by (simp add: push4_scan.simps [of raw offset] push4_offsets_step [of raw offset])
  next
    case 2
    then have "instruction_width (raw ! offset) = 5" by (simp add: instruction_width_def)
    with 2 "1.IH"(1) show ?thesis
      by (simp add: push4_scan.simps [of raw offset] push4_offsets_step [of raw offset])
  next
    case 3
    then have "instruction_width (raw ! offset) = 1 + (raw ! offset - 0x5F)"
      by (auto simp: instruction_width_def)
    with 3 "1.IH"(2) show ?thesis
      by (auto simp: push4_scan.simps [of raw offset] push4_offsets_step [of raw offset])
  next
    case 4
    then have "instruction_width (raw ! offset) = 1" by (auto simp: instruction_width_def)
    with 4 "1.IH"(3) show ?thesis
      by (auto simp: push4_scan.simps [of raw offset] push4_offsets_step [of raw offset])
  qed
qed

lemma push4_candidates_rows:
  "push4_candidates raw = group_rows (map (\<lambda>o'. (o', selector_at raw o')) (push4_offsets raw 0))"
  by (simp add: push4_candidates_def push4_scan_rows group_rows_def)

lemma in_push4_offsets:
  "o' \<in> set (push4_offsets raw 0) \<longleftrightarrow> push4_at raw o' (selector_at raw o')"
  unfolding push4_offsets_def set_filter starts_are_the_starts by (auto simp: push4_at_def)

section \<open>Evidence from code\<close>

interpretation codes: reading "get_code_at_block canonical n" "\<lambda>rpc. says rpc ''eth_getCode'' [PStr canonical, PStr (py_hex n)]"
  by unfold_locales (auto simp: keeps_ops dest: get_code_says)

lemma observed_code:
  assumes "observe_contract_code observers chain address n min_quorum = (Inr code, observers')"
  obtains canonical rows providers where
    "canonical_chain_address (PStr chain) (PStr address) = Some canonical" "2 \<le> min_quorum"
    "collects (on_chain chain) (get_code_at_block canonical n) observers rows"
    "(ce_runtime_bytecode code, providers) \<in> set (qualifying min_quorum (group_rows rows))"
    "ce_runtime_bytecode code \<noteq> ''0x''"
    "code_fingerprint (ce_runtime_bytecode code) = Inr (ce_fingerprint code, ce_byte_length code)"
    "ce_address code = canonical" "ce_chain code = chain" "ce_block_number code = n"
    "asset_key (PStr chain) (PStr canonical) = Some (ce_contract_key code)"
    "ce_sources code = sort_key cs_provider (map (\<lambda>p. \<lparr>cs_provider = p, cs_fingerprint = ce_fingerprint code,
       cs_byte_length = ce_byte_length code\<rparr>) providers)"
proof -
  obtain canonical rows0 where c: "canonical_chain_address (PStr chain) (PStr address) = Some canonical" "2 \<le> min_quorum"
    and pass: "sweep (\<lambda>_. True) (on_chain chain) is_rpc_error (get_code_at_block canonical n) [] observers
      = (Inr rows0, observers')"
    and v: "code_verdict observers chain canonical n min_quorum (filter (\<lambda>(p, code). code \<noteq> ''0x'') rows0) = Inr code"
    using assms by (auto simp: observe_contract_code_def and_then_Inr split: if_splits prod.splits option.splits)
  define rows where "rows = filter (\<lambda>(p, code). code \<noteq> ''0x'') rows0"
  have rows: "collects (on_chain chain) (get_code_at_block canonical n) observers rows"
    unfolding rows_def by (rule collects_filter [OF sweep_collects [OF pass]])
  note v' = v [folded rows_def, unfolded code_verdict_def]
  obtain bytecode providers where s: "sole (qualifying min_quorum (group_rows rows)) = Some (bytecode, providers)"
    using v' by (cases "sole (qualifying min_quorum (group_rows rows))") auto
  obtain digest byte_length where f: "code_fingerprint bytecode = Inr (digest, byte_length)"
    using v' s by (cases "code_fingerprint bytecode") auto
  obtain chain_id where r: "row_chain_id observers rows = Some chain_id"
    using v' s f by (cases "row_chain_id observers rows") auto
  obtain key where k: "asset_key (PStr chain) (PStr canonical) = Some key"
    using v' s f r by (cases "asset_key (PStr chain) (PStr canonical)") auto
  have e: "ce_runtime_bytecode code = bytecode" "ce_address code = canonical" "ce_chain code = chain"
      "ce_block_number code = n" "asset_key (PStr chain) (PStr canonical) = Some (ce_contract_key code)"
      "code_fingerprint bytecode = Inr (ce_fingerprint code, ce_byte_length code)"
      "ce_sources code = sort_key cs_provider (map (\<lambda>p. \<lparr>cs_provider = p, cs_fingerprint = ce_fingerprint code,
         cs_byte_length = ce_byte_length code\<rparr>) providers)"
    using v' s f r k by auto
  have q: "(bytecode, providers) \<in> set (qualifying min_quorum (group_rows rows))" using s by (simp add: sole_Some)
  then have "bytecode \<in> snd ` set rows" by (auto simp: qualifying_def in_group_rows)
  then have "bytecode \<noteq> ''0x''" by (auto simp: rows_def)
  with c rows q e that show thesis by simp
qed

text \<open>The bytecode and its bytes.\<close>

lemma code_bytes:
  assumes "says rpc rpc_method params code" "code_fingerprint code = Inr (digest, byte_length)"
  obtains raw where "from_hex (drop 2 code) = Some raw" "code = ''0x'' @ to_hex raw" "is_bytes raw"
    "digest = sha256_hex raw" "byte_length = int (length raw)"
proof -
  note t = says_text [OF assms(1)]
  obtain raw where raw: "from_hex (drop 2 code) = Some raw" "digest = sha256_hex raw" "byte_length = int (length raw)"
    using assms(2) by (auto simp: code_fingerprint_def split: option.splits)
  have "lower (drop 2 code) = drop 2 code" using t by (metis lower_def drop_map)
  then have "to_hex raw = drop 2 code" using to_hex_from_hex t raw(1) by blast
  then have "code = ''0x'' @ to_hex raw" using t append_take_drop_id [of 2 code] by (simp add: starts_0x)
  with raw from_hex_bytes [OF raw(1)] that show thesis by blast
qed

lemma collect_capabilities_total:
  assumes "\<And>selector c. candidates selector = Some c \<Longrightarrow> sc_status c = ''BYTECODE_PUSH4_SELECTOR_CANDIDATE''"
  shows "\<exists>capabilities. collect_capabilities candidates specs = Inr capabilities
    \<and> tc_selector ` set capabilities = {selector \<in> fst ` set specs. candidates selector \<noteq> None}"
proof (induction specs)
  case (Cons spec specs)
  then obtain rest where rest: "collect_capabilities candidates specs = Inr rest"
      "tc_selector ` set rest = {selector \<in> fst ` set specs. candidates selector \<noteq> None}" by blast
  obtain selector signature capability effect where spec: "spec = (selector, signature, capability, effect)"
    by (metis prod_cases4)
  show ?case
  proof (cases "candidates selector")
    case None
    with rest spec show ?thesis by auto
  next
    case (Some c)
    then have "sc_status c = ''BYTECODE_PUSH4_SELECTOR_CANDIDATE''" by (rule assms)
    with rest spec Some show ?thesis by auto
  qed
qed simp

lemma inventory_assessed:
  assumes "2 \<le> min_quorum" "min_quorum \<le> int (length (remdups (map cs_provider (ce_sources code))))"
    and "ce_fingerprint code = sha256_hex raw"
  shows "\<exists>a. assess_token_authority (inventory_of code raw) min_quorum = Inr a
    \<and> tc_selector ` set (ta_capabilities a) =
        {selector \<in> fst ` set token_capability_selectors. \<exists>o'. push4_at raw o' selector}"
proof -
  let ?inv = "inventory_of code raw"
  let ?candidates = "map_of (rev (map (\<lambda>row. (sc_selector row, row)) (pi_selector_candidates ?inv)))"
  have status: "sc_status c = ''BYTECODE_PUSH4_SELECTOR_CANDIDATE''" if "?candidates selector = Some c" for selector c
    using map_of_SomeD [OF that] by (auto simp: inventory_of_def Let_def)
  have found: "selector \<in> fst ` set (push4_candidates raw) \<longleftrightarrow> (\<exists>o'. push4_at raw o' selector)" for selector
  proof -
    have "fst ` set (push4_candidates raw) = selector_at raw ` set (push4_offsets raw 0)"
      using group_rows_keys [of "map (\<lambda>o'. (o', selector_at raw o')) (push4_offsets raw 0)"]
      by (simp add: push4_candidates_rows image_image)
    moreover have "push4_at raw o' selector \<longleftrightarrow> o' \<in> set (push4_offsets raw 0) \<and> selector = selector_at raw o'" for o'
      by (auto simp: in_push4_offsets) (auto simp: push4_at_def)
    ultimately show ?thesis by auto
  qed
  have "fst ` set (rev (map (\<lambda>row. (sc_selector row, row)) (pi_selector_candidates ?inv))) = fst ` set (push4_candidates raw)"
    by (simp add: inventory_of_def Let_def image_image split_def)
  then have mem: "?candidates selector \<noteq> None \<longleftrightarrow> (\<exists>o'. push4_at raw o' selector)" for selector
    unfolding map_of_eq_None_iff found [symmetric] by simp
  have "\<exists>capabilities. collect_capabilities ?candidates (sort_key fst token_capability_selectors) = Inr capabilities
      \<and> tc_selector ` set capabilities =
          {selector \<in> fst ` set (sort_key fst token_capability_selectors). ?candidates selector \<noteq> None}"
    by (rule collect_capabilities_total) (rule status)
  then obtain capabilities where c:
      "collect_capabilities ?candidates (sort_key fst token_capability_selectors) = Inr capabilities"
      "tc_selector ` set capabilities = {selector \<in> fst ` set token_capability_selectors. \<exists>o'. push4_at raw o' selector}"
    unfolding mem set_sort by blast
  have "pi_providers ?inv = sorted_set (map cs_provider (ce_sources code))" "pi_code_fingerprint ?inv = sha256_hex raw"
    "pi_status ?inv = ''UNVERIFIED_PRIVILEGED_AUTHORITY_INVENTORY_EVIDENCE''"
    by (simp_all add: inventory_of_def Let_def assms(3))
  moreover have "length (remdups (sorted_set xs)) = length (remdups xs)" for xs
    by (simp add: length_remdups_card_conv)
  ultimately show ?thesis
    using assms(1,2) c by (simp add: assess_token_authority_def del: length_remdups_card_conv)
qed

text \<open>An observation leaves the endpoints alone; the demonstration endpoints have code.\<close>

lemma contract_code_keeps: "list_all2 same_endpoint observers (snd (observe_contract_code observers chain address n k))"
  using sweep_keeps [OF keeps_ops(4)]
  by (auto simp: observe_contract_code_def list.rel_refl split_def Let_def split: option.splits)

lemma two_contract_code:
  assumes "fingerprint a \<noteq> fingerprint b"
    and "\<And>rpc. rpc \<in> {a, b} \<Longrightarrow> on_chain ''base'' rpc \<and> cc_chain_id (rpc_chain rpc) = Some 8453"
    and "\<And>rpc. rpc \<in> {a, b} \<Longrightarrow>
      fst (get_code_at_block (''0x'' @ replicate 40 (CHR ''a'')) 5 rpc) = Inr ''0x638456cb5900''"
  shows "\<exists>code. fst (observe_contract_code [a, b] ''base'' (''0x'' @ replicate 40 (CHR ''a'')) 5 2) = Inr code
    \<and> ce_byte_length code = 6"
proof -
  let ?address = "''0x'' @ replicate 40 (CHR ''a'')"
  let ?code = "''0x638456cb5900''"
  have "map_option cc_family (get_chain (PStr ''base'')) = Some EVM" by code_simp
  then obtain cfg where cfg: "get_chain (PStr ''base'') = Some cfg" "cc_family cfg = EVM" by auto
  have "is_evm_address ?address" using demo_hex by (simp add: is_evm_address_def list_all_iff)
  from canonical_evm [OF cfg this] have canonical: "canonical_chain_address (PStr ''base'') (PStr ?address) = Some ?address"
    using demo_hex lower_replicate by (simp add: lower_def)
  have hex: "from_hex (drop 2 ?code) = Some [0x63, 0x84, 0x56, 0xcb, 0x59, 0x00]" by code_simp
  have f: "code_fingerprint ?code = Inr (sha256_hex [0x63, 0x84, 0x56, 0xcb, 0x59, 0x00], 6)"
    unfolding code_fingerprint_def hex by simp
  have pass: "fst (sweep (\<lambda>_. True) (on_chain ''base'') is_rpc_error (get_code_at_block ?address 5) [] [a, b])
      = Inr [(fingerprint a, ?code), (fingerprint b, ?code)]"
    using assms(1,2) assms(3) [of a] assms(3) [of b] by (intro two_sweep) simp_all
  let ?rows = "[(fingerprint a, ?code), (fingerprint b, ?code)]"
  obtain key where key: "asset_key (PStr ''base'') (PStr ?address) = Some key" using key_of_canonical [OF canonical] by blast
  have row: "row_chain_id [a, b] ?rows = Some 8453" using assms(1,2) by (simp add: row_chain_id_def)
  have sole: "sole (qualifying 2 (group_rows ?rows)) = Some (?code, [fingerprint a, fingerprint b])"
    by (simp add: group_rows_def qualifying_def sole_def)
  obtain code where verdict: "code_verdict [a, b] ''base'' ?address 5 2 ?rows = Inr code" "ce_byte_length code = 6"
    by (simp add: code_verdict_def sole f row key [simplified])
  have "int (length (distinct_observers [] [a, b])) = 2" using assms(1) by simp
  then have "fst (observe_contract_code [a, b] ''base'' ?address 5 2) = Inr code"
    using verdict pass canonical
    by (simp add: observe_contract_code_def split_def Let_def del: distinct_observers.simps sweep.simps)
  with verdict(2) show ?thesis by blast
qed

lemma demo_contract_code:
  assumes "dget answers ''eth_getCode'' = PStr ''0x638456cb5900''"
  shows "\<exists>code. fst (observe_contract_code (demo_pair answers) ''base'' (''0x'' @ replicate 40 (CHR ''a'')) 5 2) = Inr code
    \<and> ce_byte_length code = 6"
  unfolding demo_pair_def
proof (rule two_contract_code)
  let ?rpc = "\<lambda>url. demo_rpc url (demo_answers answers)"
  have low: "lower ''0x638456cb5900'' = ''0x638456cb5900''" "is_hex_data (PStr ''0x638456cb5900'') None" by code_simp+
  have read: "fst (get_code_at_block (''0x'' @ replicate 40 (CHR ''a'')) 5 (?rpc url)) = Inr ''0x638456cb5900''" for url
  proof -
    have "dget (demo_answers answers) ''eth_getCode'' = PStr ''0x638456cb5900''"
      using assms by (simp add: demo_answers_def dget_def)
    then have "\<exists>rpc'. get_code_at_block (''0x'' @ replicate 40 (CHR ''a'')) 5 (?rpc url) = (Inr ''0x638456cb5900'', rpc')"
      using low by (simp add: get_code_at_block_def observing_Inr demo_ready [OF same_endpoint_refl] allowed_methods_def
          hex_answer_Inr)
    then show ?thesis by auto
  qed
  show "fingerprint (?rpc demo_a) \<noteq> fingerprint (?rpc demo_b)" using demo_labels by simp
  show "on_chain ''base'' rpc \<and> cc_chain_id (rpc_chain rpc) = Some 8453" if "rpc \<in> {?rpc demo_a, ?rpc demo_b}" for rpc
    using that demo_ready(2,3) [OF same_endpoint_refl] by auto
  show "fst (get_code_at_block (''0x'' @ replicate 40 (CHR ''a'')) 5 rpc) = Inr ''0x638456cb5900''"
    if "rpc \<in> {?rpc demo_a, ?rpc demo_b}" for rpc
    using that read by (elim insertE emptyE) simp_all
qed

section \<open>Properties\<close>

text \<open>
  C24: The one-pass scan of the bytecode finds exactly the PUSH4 instructions: it ends on every input,
  each selector has one entry, and the offsets of that entry are, in increasing order, all the
  instruction starts that push these four bytes, operands of other pushes never counting.
\<close>

theorem push4_candidates_are_the_instructions:
  "distinct (map fst (push4_candidates raw))
   \<and> ((selector, offsets) \<in> set (push4_candidates raw) \<longleftrightarrow>
        offsets \<noteq> [] \<and> sorted_wrt (<) offsets \<and> set offsets = {o'. push4_at raw o' selector})"
proof
  let ?rows = "map (\<lambda>o'. (o', selector_at raw o')) (push4_offsets raw 0)"
  let ?own = "filter (\<lambda>o'. selector_at raw o' = selector) (push4_offsets raw 0)"
  show "distinct (map fst (push4_candidates raw))" by (simp add: push4_candidates_rows group_rows_keys)
  have own: "map fst (filter (\<lambda>row. snd row = selector) ?rows) = ?own"
    by (simp add: filter_map comp_def)
  have "snd ` set ?rows = selector_at raw ` set (push4_offsets raw 0)" by (simp add: image_image)
  then have "selector \<in> snd ` set ?rows \<longleftrightarrow> ?own \<noteq> []" by (auto simp: filter_empty_conv)
  then have mem: "(selector, offsets) \<in> set (push4_candidates raw) \<longleftrightarrow> ?own \<noteq> [] \<and> offsets = ?own"
    unfolding push4_candidates_rows in_group_rows own by blast
  have sorted: "sorted_wrt (<) ?own"
    unfolding push4_offsets_def by (intro sorted_wrt_filter starts_sorted)
  have set: "set ?own = {o'. push4_at raw o' selector}"
    by (auto simp: in_push4_offsets) (auto simp: push4_at_def)
  have "xs = ys" if "sorted_wrt (<) xs" "sorted_wrt (<) ys" "set xs = set ys" for xs ys :: "nat list"
    using that by (simp add: strict_sorted_equal)
  with mem sorted set show "(selector, offsets) \<in> set (push4_candidates raw) \<longleftrightarrow>
        offsets \<noteq> [] \<and> sorted_wrt (<) offsets \<and> set offsets = {o'. push4_at raw o' selector}"
    by (metis set_empty)
qed

text \<open>
  C25: Code evidence carries through: bytecode that \<^verbatim>\<open>observe_contract_code\<close> accepts is non-empty, was
  said by at least the quorum of distinct providers of the chain, cannot be made false by fewer false
  providers than the quorum, and its digest and length are its own; the inventory and the token
  assessment of it never fail, and a capability is reported exactly when the bytecode has an
  instruction that pushes its selector.
\<close>

theorem observed_code_is_assessed:
  assumes "observe_contract_code observers chain address n min_quorum = (Inr code, observers')"
  shows "\<exists>raw inventory assessment. raw \<noteq> [] \<and> ce_runtime_bytecode code = ''0x'' @ to_hex raw
    \<and> ce_fingerprint code = sha256_hex raw \<and> ce_byte_length code = int (length raw)
    \<and> min_quorum \<le> int (length (ce_sources code)) \<and> distinct (map cs_provider (ce_sources code))
    \<and> (\<forall>source \<in> set (ce_sources code). \<exists>rpc \<in> set observers. on_chain chain rpc
         \<and> fingerprint rpc = cs_provider source
         \<and> says rpc ''eth_getCode'' [PStr (ce_address code), PStr (py_hex n)] (ce_runtime_bytecode code))
    \<and> (\<forall>liars truth. finite liars \<and> int (card liars) < min_quorum
         \<and> (\<forall>rpc y. rpc \<in> set observers \<and> fingerprint rpc \<notin> liars
              \<and> says rpc ''eth_getCode'' [PStr (ce_address code), PStr (py_hex n)] y \<longrightarrow> y = truth)
         \<longrightarrow> ce_runtime_bytecode code = truth)
    \<and> inventory_privileged_authority_surfaces code min_quorum = Inr inventory
    \<and> assess_token_authority inventory min_quorum = Inr assessment
    \<and> tc_selector ` set (ta_capabilities assessment) =
        {selector \<in> fst ` set token_capability_selectors. \<exists>o'. push4_at raw o' selector}"
proof -
  obtain canonical rows providers where q: "2 \<le> min_quorum"
    and rows: "collects (on_chain chain) (get_code_at_block canonical n) observers rows"
    and qual: "(ce_runtime_bytecode code, providers) \<in> set (qualifying min_quorum (group_rows rows))"
    and ne: "ce_runtime_bytecode code \<noteq> ''0x''"
    and f: "code_fingerprint (ce_runtime_bytecode code) = Inr (ce_fingerprint code, ce_byte_length code)"
    and address: "ce_address code = canonical"
    and sources: "ce_sources code = sort_key cs_provider (map (\<lambda>p. \<lparr>cs_provider = p,
        cs_fingerprint = ce_fingerprint code, cs_byte_length = ce_byte_length code\<rparr>) providers)"
    using assms by (rule observed_code)
  have g: "(ce_runtime_bytecode code, providers) \<in> set (group_rows rows)" "min_quorum \<le> int (length providers)"
    using qual by (auto simp: qualifying_def)
  note s = codes.group_speaks [OF rows g(1), folded address]
  have truth: "\<forall>liars truth. finite liars \<and> int (card liars) < min_quorum
      \<and> (\<forall>rpc y. rpc \<in> set observers \<and> fingerprint rpc \<notin> liars
           \<and> says rpc ''eth_getCode'' [PStr (ce_address code), PStr (py_hex n)] y \<longrightarrow> y = truth)
      \<longrightarrow> ce_runtime_bytecode code = truth"
    using codes.quorum_is_true [OF rows qual] unfolding address by blast
  have "providers \<noteq> []" using g(2) q by auto
  then obtain rpc where "says rpc ''eth_getCode'' [PStr (ce_address code), PStr (py_hex n)] (ce_runtime_bytecode code)"
    using s by (cases providers) auto
  then obtain raw where raw: "from_hex (drop 2 (ce_runtime_bytecode code)) = Some raw"
      "ce_runtime_bytecode code = ''0x'' @ to_hex raw" "is_bytes raw"
      "ce_fingerprint code = sha256_hex raw" "ce_byte_length code = int (length raw)"
    using f by (rule code_bytes)
  have names: "distinct (map cs_provider (ce_sources code))" "length (ce_sources code) = length providers"
    unfolding sources using s by (simp_all add: distinct_map_sort comp_def)
  then have enough: "min_quorum \<le> int (length (remdups (map cs_provider (ce_sources code))))"
    using g(2) by (simp add: distinct_remdups_id)
  have "\<not> list_ex (\<lambda>s. cs_fingerprint s \<noteq> ce_fingerprint code \<or> cs_byte_length s \<noteq> ce_byte_length code) (ce_sources code)"
    unfolding sources by (auto simp: list_ex_iff)
  then have inv: "inventory_privileged_authority_surfaces code min_quorum = Inr (inventory_of code raw)"
    using q enough raw
    by (simp add: inventory_privileged_authority_surfaces_def validated_runtime_def starts_0x)
  obtain assessment where a: "assess_token_authority (inventory_of code raw) min_quorum = Inr assessment"
    "tc_selector ` set (ta_capabilities assessment) =
        {selector \<in> fst ` set token_capability_selectors. \<exists>o'. push4_at raw o' selector}"
    using inventory_assessed [OF q enough raw(4)] by blast
  have said: "\<forall>source \<in> set (ce_sources code). \<exists>rpc \<in> set observers. on_chain chain rpc
         \<and> fingerprint rpc = cs_provider source
         \<and> says rpc ''eth_getCode'' [PStr (ce_address code), PStr (py_hex n)] (ce_runtime_bytecode code)"
    using s unfolding sources by auto
  have "raw \<noteq> []" using ne raw(2) by auto
  then show ?thesis
    using raw(2,4,5) g(2) names said truth inv a by (intro exI [of _ raw] exI [of _ "inventory_of code raw"] exI [of _ assessment]) simp
qed

lemma observed_code_is_assessed_witness:
  "\<exists>code inventory. fst (observe_contract_code (demo_pair [(''eth_getCode'', PStr ''0x638456cb5900'')]) ''base''
       (''0x'' @ replicate 40 (CHR ''a'')) 5 2) = Inr code \<and> ce_byte_length code = 6
     \<and> inventory_privileged_authority_surfaces code 2 = Inr inventory"
proof -
  have "dget [(''eth_getCode'', PStr ''0x638456cb5900'')] ''eth_getCode'' = PStr ''0x638456cb5900''" by (simp add: dget_def)
  from demo_contract_code [OF this] obtain code where
    code: "fst (observe_contract_code (demo_pair [(''eth_getCode'', PStr ''0x638456cb5900'')]) ''base''
       (''0x'' @ replicate 40 (CHR ''a'')) 5 2) = Inr code" "ce_byte_length code = 6" by blast
  with observed_code_is_assessed [OF answer_pair [OF code(1)]] show ?thesis by blast
qed

end
