(* ===== verification/Evm_Proxy.thy ===== *)
theory Evm_Proxy
  imports Evm_Contract_Code
begin

text \<open>
  Who can change a contract: proxy and authority addresses read by a quorum
  (\<^verbatim>\<open>evm_proxy_authority.py\<close>).
\<close>

section \<open>Authority evidence\<close>

definition owner_selector :: string where
  "owner_selector = ''0x8da5cb5b''"

definition implementation_selector :: string where
  "implementation_selector = ''0x5c60da1b''"

definition admin_selector :: string where
  "admin_selector = ''0xf851a440''"

definition implementation_slot :: string where
  "implementation_slot = ''0x360894a13ba1a3210667c828492db98dca3e2076cc3735a920a3ca505d382bbc''"

definition beacon_slot :: string where
  "beacon_slot = ''0xa3f0ad74e5423aebfd80d3ef4346578335a9a72aeaee59ff6cb3582b35133d50''"

definition admin_slot :: string where
  "admin_slot = ''0xb53127684a568b3173ae13b9f8a6016e243e63b6e8ee1178d6a717850b5d6103''"

definition eip1167_prefix :: string where
  "eip1167_prefix = ''363d3d373d3d3d363d73''"

definition eip1167_suffix :: string where
  "eip1167_suffix = ''5af43d82803e903d91602b57fd5bf3''"

record address_evidence =
  ae_selector :: string
  ae_address :: string
  ae_address_key :: string
  ae_status :: string
  ae_providers :: "string list"

record proxy_authority =
  px_chain :: string
  px_contract_key :: string
  px_block_number :: int
  px_minimal_target :: "string option"
  px_minimal_target_key :: "string option"
  px_minimal_status :: string
  px_implementation :: "address_evidence option"
  px_admin :: "address_evidence option"
  px_owner :: "address_evidence option"
  px_slot_implementation :: "address_evidence option"
  px_slot_beacon :: "address_evidence option"
  px_beacon_implementation :: "address_evidence option"
  px_slot_admin :: "address_evidence option"
  px_status :: string

text \<open>
  \<^verbatim>\<open>_word_address\<close>. The second conversion, of the last 40 digits, is outside of the \<^verbatim>\<open>try\<close>.
\<close>

definition authority_address :: "string \<Rightarrow> string \<Rightarrow> string option evm" where
  "authority_address chain value =
    (if length value \<noteq> 66 \<or> \<not> starts_with ''0x'' value \<or> \<not> hex_text (drop 2 value)
        \<or> lower (take 24 (drop 2 value)) \<noteq> replicate 24 (CHR ''0'')
     then Inr None
     else case int_base16 (drop 26 value) of
         None \<Rightarrow> Inl (Value_Error ''invalid literal for int() with base 16'')
       | Some n \<Rightarrow>
           Inr (if n = 0 then None
                else canonical_chain_address (PStr chain) (PStr (''0x'' @ drop 26 value))))"

definition eip1167 :: "contract_code \<Rightarrow> string option" where
  "eip1167 code =
    (if \<not> starts_with ''0x'' (ce_runtime_bytecode code) then None
     else
       (let body = lower (drop 2 (ce_runtime_bytecode code));
            target_hex = take 40 (drop (length eip1167_prefix) body)
        in if length body \<noteq> length eip1167_prefix + 40 + length eip1167_suffix then None
           else if \<not> starts_with eip1167_prefix body
             \<or> drop (length eip1167_prefix + 40) body \<noteq> eip1167_suffix then None
           else if \<not> hex_text target_hex then None
           else Some (''0x'' @ target_hex)))"

text \<open>The readings that decode to an address, in order.\<close>

fun address_rows :: "string \<Rightarrow> (string \<times> string) list \<Rightarrow> (string \<times> string) list evm" where
  "address_rows chain [] = Inr []"
| "address_rows chain ((provider, value) # readings) =
     and_then (authority_address chain value) (\<lambda>address.
     and_then (address_rows chain readings) (\<lambda>rows.
     Inr (case address of Some a \<Rightarrow> if a = [] then rows else (provider, a) # rows | None \<Rightarrow> rows)))"

definition address_verdict ::
  "string \<Rightarrow> (string \<times> string) list \<Rightarrow> string \<Rightarrow> string \<Rightarrow> int \<Rightarrow> address_evidence option evm" where
  "address_verdict chain rows source role quorum =
    (case qualifying quorum (group_rows rows) of
       [] \<Rightarrow> Inr None
     | [(address, providers)] \<Rightarrow>
         (case asset_key (PStr chain) (PStr address) of
            None \<Rightarrow> Inl (Rpc_Error ''authority identity could not be canonicalized'')
          | Some key \<Rightarrow> Inr (Some \<lparr>ae_selector = source, ae_address = address, ae_address_key = key,
                ae_status = role, ae_providers = sort providers\<rparr>))
     | _ \<Rightarrow> Inl (Rpc_Error ''conflicting authority evidence quorum''))"

definition quorum_address ::
  "string \<Rightarrow> (string \<times> string) list \<Rightarrow> string \<Rightarrow> string \<Rightarrow> int \<Rightarrow> address_evidence option evm" where
  "quorum_address chain readings source role quorum =
    and_then (address_rows chain readings) (\<lambda>rows. address_verdict chain rows source role quorum)"

text \<open>One reading of the distinct observers of the chain, and the address their quorum gives.\<close>

definition authority_read ::
  "evm_rpc list \<Rightarrow> string \<Rightarrow> string observing \<Rightarrow> string \<Rightarrow> string \<Rightarrow> int
     \<Rightarrow> address_evidence option evm \<times> evm_rpc list" where
  "authority_read observers chain read source role quorum =
    (if int (length (distinct_observers [] (filter (on_chain chain) observers))) < quorum
     then (Inl (Rpc_Error ''insufficient distinct RPC providers for authority evidence''), observers)
     else
       (let (r, observers') = sweep (on_chain chain) (on_chain chain) is_rpc_error read [] observers
        in (and_then r (\<lambda>readings. quorum_address chain readings source role quorum), observers')))"

definition selector_at_address ::
  "evm_rpc list \<Rightarrow> string \<Rightarrow> string \<Rightarrow> int \<Rightarrow> string \<Rightarrow> string \<Rightarrow> int
     \<Rightarrow> address_evidence option evm \<times> evm_rpc list" where
  "selector_at_address observers chain address n selector role quorum =
    authority_read observers chain (call_at_block address selector n) selector role quorum"

definition selector_read ::
  "evm_rpc list \<Rightarrow> contract_code \<Rightarrow> string \<Rightarrow> string \<Rightarrow> int \<Rightarrow> address_evidence option evm \<times> evm_rpc list" where
  "selector_read observers code selector role quorum =
    selector_at_address observers (ce_chain code) (ce_address code) (ce_block_number code) selector role quorum"

definition storage_read ::
  "evm_rpc list \<Rightarrow> contract_code \<Rightarrow> string \<Rightarrow> string \<Rightarrow> int \<Rightarrow> address_evidence option evm \<times> evm_rpc list" where
  "storage_read observers code slot role quorum =
    authority_read observers (ce_chain code) (storage_at_block (ce_address code) slot (ce_block_number code))
      slot role quorum"

definition minimal_target_key :: "contract_code \<Rightarrow> string option" where
  "minimal_target_key code =
    (case eip1167 code of None \<Rightarrow> None | Some t \<Rightarrow> asset_key (PStr (ce_chain code)) (PStr t))"

definition proxy_evidence ::
  "contract_code \<Rightarrow> address_evidence option \<Rightarrow> address_evidence option \<Rightarrow> address_evidence option
     \<Rightarrow> address_evidence option \<Rightarrow> address_evidence option \<Rightarrow> address_evidence option
     \<Rightarrow> address_evidence option \<Rightarrow> proxy_authority" where
  "proxy_evidence code implementation admin owner slot_implementation slot_beacon beacon_implementation slot_admin =
    \<lparr>px_chain = ce_chain code, px_contract_key = ce_contract_key code, px_block_number = ce_block_number code,
     px_minimal_target = eip1167 code, px_minimal_target_key = minimal_target_key code,
     px_minimal_status = (if eip1167 code = None then ''NO_CANONICAL_EIP1167_PATTERN''
       else ''CANONICAL_EIP1167_RUNTIME_PATTERN''),
     px_implementation = implementation, px_admin = admin, px_owner = owner,
     px_slot_implementation = slot_implementation, px_slot_beacon = slot_beacon,
     px_beacon_implementation = beacon_implementation, px_slot_admin = slot_admin,
     px_status = ''UNVERIFIED_PROXY_AUTHORITY_EVIDENCE''\<rparr>"

definition inspect_proxy_authority ::
  "evm_rpc list \<Rightarrow> contract_code \<Rightarrow> int \<Rightarrow> proxy_authority evm \<times> evm_rpc list" where
  "inspect_proxy_authority observers code min_quorum =
    (if min_quorum < 2 then (Inl (Value_Error ''min_quorum must be at least 2''), observers)
     else if int (length (remdups (map cs_provider (ce_sources code)))) < min_quorum
     then (Inl (Rpc_Error ''contract code lacks independent quorum provenance''), observers)
     else if eip1167 code \<noteq> None \<and> minimal_target_key code = None
     then (Inl (Rpc_Error ''minimal proxy target identity could not be canonicalized''), observers)
     else
       pass_then (storage_read observers code implementation_slot
                    ''EIP1967_IMPLEMENTATION_SLOT_QUORUM_EVIDENCE'' min_quorum) (\<lambda>slot_implementation observers.
       pass_then (if slot_implementation = None
                  then storage_read observers code beacon_slot ''EIP1967_BEACON_SLOT_QUORUM_EVIDENCE'' min_quorum
                  else (Inr None, observers)) (\<lambda>slot_beacon observers.
       pass_then (case slot_beacon of
                    None \<Rightarrow> (Inr None, observers)
                  | Some beacon \<Rightarrow> selector_at_address observers (ce_chain code) (ae_address beacon)
                      (ce_block_number code) implementation_selector
                      ''BEACON_IMPLEMENTATION_SELECTOR_QUORUM_EVIDENCE'' min_quorum) (\<lambda>beacon_implementation observers.
       pass_then (selector_read observers code implementation_selector
                    ''IMPLEMENTATION_SELECTOR_QUORUM_EVIDENCE'' min_quorum) (\<lambda>implementation observers.
       pass_then (selector_read observers code admin_selector
                    ''ADMIN_SELECTOR_QUORUM_EVIDENCE'' min_quorum) (\<lambda>admin observers.
       pass_then (selector_read observers code owner_selector
                    ''OWNER_SELECTOR_QUORUM_EVIDENCE'' min_quorum) (\<lambda>owner observers.
       pass_then (storage_read observers code admin_slot
                    ''EIP1967_ADMIN_SLOT_QUORUM_EVIDENCE'' min_quorum) (\<lambda>slot_admin observers.
         (Inr (proxy_evidence code implementation admin owner slot_implementation slot_beacon
                 beacon_implementation slot_admin), observers)))))))))"

text \<open>The fields in the order in which they are compared.\<close>

definition authority_fields :: "proxy_authority \<Rightarrow> (string \<times> address_evidence option) list" where
  "authority_fields proxy =
    [(''implementation_selector'', px_implementation proxy), (''admin_selector'', px_admin proxy),
     (''owner_selector'', px_owner proxy), (''eip1967_implementation'', px_slot_implementation proxy),
     (''eip1967_admin'', px_slot_admin proxy), (''eip1967_beacon'', px_slot_beacon proxy),
     (''beacon_implementation'', px_beacon_implementation proxy)]"

section \<open>What a quorum of words says\<close>

text \<open>The word of an address, and the address of a word as a partial function.\<close>

definition address_text :: "string \<Rightarrow> string" where
  "address_text a = ''0x'' @ replicate 24 (CHR ''0'') @ drop 2 a"

definition decode_authority :: "string \<Rightarrow> string \<Rightarrow> string option" where
  "decode_authority chain value = (case authority_address chain value of Inr a \<Rightarrow> a | Inl _ \<Rightarrow> None)"

definition hex_text_answer :: "string \<Rightarrow> bool" where
  "hex_text_answer value \<longleftrightarrow> starts_with ''0x'' value \<and> list_all is_hex (drop 2 value) \<and> lower value = value"

lemma digits_after: "list_all is_hex (drop 2 value) \<Longrightarrow> list_all is_hex (drop 26 value)"
proof -
  have "drop 26 value = drop 24 (drop 2 value)" by simp
  then show "list_all is_hex (drop 2 value) \<Longrightarrow> list_all is_hex (drop 26 value)"
    by (metis in_set_dropD list_all_iff)
qed

lemma authority_address_total:
  assumes "hex_text_answer value"
  shows "authority_address chain value = Inr (decode_authority chain value)"
proof -
  have "list_all is_hex (drop 26 value)" using assms by (simp add: hex_text_answer_def digits_after)
  moreover have "drop 26 value \<noteq> []" if "length value = 66" using that by simp
  ultimately show ?thesis
    by (auto simp: authority_address_def decode_authority_def int_base16_plain)
qed

lemma decode_authority_Some:
  assumes "hex_text_answer value" "decode_authority chain value = Some a"
  shows "value = address_text a" "scoped_identity chain a (key_or_empty chain a)"
proof -
  let ?digits = "drop 26 value"
  have v: "take 2 value = ''0x''" "list_all is_hex (drop 2 value)" "lower value = value"
    using assms(1) by (simp_all add: hex_text_answer_def starts_0x)
  have h: "list_all is_hex ?digits" using v(2) by (rule digits_after)
  have len: "length value = 66" and zeros: "lower (take 24 (drop 2 value)) = replicate 24 (CHR ''0'')"
    using assms(2) by (auto simp: decode_authority_def authority_address_def split: if_splits)
  have n: "int_base16 ?digits = Some (int (hex_value ?digits))" using h len by (simp add: int_base16_plain)
  have nonzero: "hex_value ?digits \<noteq> 0" and c: "canonical_chain_address (PStr chain) (PStr (''0x'' @ ?digits)) = Some a"
    using assms(2) n by (auto simp: decode_authority_def authority_address_def split: if_splits)
  have low: "lower (take k value) = take k value" "lower (drop k value) = drop k value" for k
    using v(3) by (metis lower_def take_map, metis lower_def drop_map)
  have "lower (take 24 (drop 2 value)) = take 24 (drop 2 value)"
    using low(2) [of 2] by (metis lower_def take_map)
  with zeros have z: "take 24 (drop 2 value) = replicate 24 (CHR ''0'')" by simp
  have e: "is_evm_address (''0x'' @ ?digits)" using h len by (simp add: is_evm_address_def)
  have "lower ''0x'' = ''0x''" by code_simp
  then have l: "lower (''0x'' @ ?digits) = ''0x'' @ ?digits" using low(2) [of 26] by (simp add: lower_def)
  have a: "a = ''0x'' @ ?digits"
  proof (cases rule: canonical_cases [OF c])
    case (1 cfg)
    then show ?thesis using strip_evm_address [OF e] l by simp
  next
    case (2 cfg)
    then have "a = ''0x'' @ ?digits" using strip_evm_address [OF e] by simp
    then show ?thesis .
  qed
  have "value = take 2 value @ take 24 (drop 2 value) @ drop 24 (drop 2 value)"
    unfolding append_take_drop_id ..
  with v(1) z show "value = address_text a" by (simp add: address_text_def a)
  have "a \<noteq> zero_address" using nonzero hex_value_zeros [of 40] by (auto simp: a zero_address_def)
  then show "scoped_identity chain a (key_or_empty chain a)"
    using canonical_idem [OF c] key_of_canonical [OF c] by (simp add: scoped_identity_def)
qed

lemma address_rows_decoded:
  assumes "\<forall>(p, x) \<in> set readings. hex_text_answer x"
  shows "address_rows chain readings = Inr (decode_rows (decode_authority chain) readings)"
  using assms
proof (induction readings)
  case (Cons reading readings)
  obtain p x where r: "reading = (p, x)" by (cases reading)
  then have x: "hex_text_answer x" using Cons.prems by simp
  have "a \<noteq> []" if "decode_authority chain x = Some a" for a
    using decode_authority_Some(2) [OF x that]
    by (auto simp: scoped_identity_def canonical_chain_address_def Let_def strip_plain split: option.splits)
  then show ?case using Cons authority_address_total [OF x] by (auto simp: r split: option.splits)
qed simp

text \<open>
  An address that a quorum vouches for: the providers said the word of it, and if fewer than \<open>k\<close>
  providers lie, the truth is this word.
\<close>

definition vouched ::
  "evm_rpc list \<Rightarrow> string \<Rightarrow> int \<Rightarrow> (evm_rpc \<Rightarrow> string \<Rightarrow> bool) \<Rightarrow> address_evidence \<Rightarrow> bool" where
  "vouched observers chain k speaks e \<longleftrightarrow>
     k \<le> int (length (ae_providers e)) \<and> distinct (ae_providers e)
     \<and> scoped_identity chain (ae_address e) (ae_address_key e)
     \<and> (\<forall>p \<in> set (ae_providers e). \<exists>rpc \<in> set observers. on_chain chain rpc \<and> fingerprint rpc = p
          \<and> speaks rpc (address_text (ae_address e)))
     \<and> (\<forall>liars truth. finite liars \<and> int (card liars) < k
          \<and> (\<forall>rpc \<in> set observers. \<forall>y. fingerprint rpc \<notin> liars \<and> speaks rpc y \<longrightarrow> y = truth)
          \<longrightarrow> address_text (ae_address e) = truth)"

lemma vouched_endpoint:
  assumes "list_all2 same_endpoint observers observers'" "vouched observers' chain k speaks e"
    and "\<And>a b. same_endpoint a b \<Longrightarrow> speaks b = speaks a"
  shows "vouched observers chain k speaks e"
proof -
  have bwd: "\<exists>rpc \<in> set observers. same_endpoint rpc rpc'" if "rpc' \<in> set observers'" for rpc'
    using assms(1) that by (metis in_set_conv_nth list_all2_conv_all_nth)
  have same: "fingerprint b = fingerprint a \<and> on_chain chain b = on_chain chain a \<and> speaks b = speaks a"
    if "same_endpoint a b" for a b
    using that assms(3) fingerprint_endpoint [OF that] same_endpoint_fields [OF that] by (simp add: on_chain_def)
  let ?word = "address_text (ae_address e)"
  note v = assms(2) [unfolded vouched_def]
  have "\<exists>rpc \<in> set observers. on_chain chain rpc \<and> fingerprint rpc = p \<and> speaks rpc ?word"
    if p: "p \<in> set (ae_providers e)" for p
  proof -
    obtain rpc' where "rpc' \<in> set observers'" "on_chain chain rpc'" "fingerprint rpc' = p" "speaks rpc' ?word"
      using v p by blast
    with bwd same show ?thesis by metis
  qed
  moreover have "?word = truth" if few: "finite liars" "int (card liars) < k"
    and honest: "\<forall>rpc \<in> set observers. \<forall>y. fingerprint rpc \<notin> liars \<and> speaks rpc y \<longrightarrow> y = truth" for liars truth
  proof -
    have "\<forall>rpc' \<in> set observers'. \<forall>y. fingerprint rpc' \<notin> liars \<and> speaks rpc' y \<longrightarrow> y = truth"
      using honest bwd same by metis
    with v few show ?thesis by blast
  qed
  ultimately show ?thesis unfolding vouched_def using v by simp blast
qed

locale text_reading = decoded_reading read speaks "decode_authority chain"
  for read :: "string observing" and speaks :: "evm_rpc \<Rightarrow> string \<Rightarrow> bool" and chain :: string +
  assumes speaks_text: "speaks rpc x \<Longrightarrow> hex_text_answer x"
    and speaks_endpoint: "same_endpoint a b \<Longrightarrow> speaks b = speaks a"
begin

lemma authority_read_vouched:
  assumes "authority_read observers chain read source role k = (Inr (Some e), observers')"
  shows "vouched observers chain k speaks e \<and> ae_selector e = source \<and> ae_status e = role"
proof -
  obtain readings where pass: "sweep (on_chain chain) (on_chain chain) is_rpc_error read [] observers = (Inr readings, observers')"
    and q: "quorum_address chain readings source role k = Inr (Some e)"
    using assms by (auto simp: authority_read_def and_then_Inr split: if_splits prod.splits)
  note c = sweep_collects [OF pass]
  have "hex_text_answer x" if "(p, x) \<in> set readings" for p x
  proof -
    have "collected (on_chain chain) read observers (p, x)" using c that by (auto simp: collects_def)
    then show ?thesis using read_speaks speaks_text unfolding collected_def by fastforce
  qed
  then have rows: "address_rows chain readings = Inr (decode_rows (decode_authority chain) readings)"
    by (intro address_rows_decoded) blast
  let ?rows = "decode_rows (decode_authority chain) readings"
  obtain a ps key where s: "qualifying k (group_rows ?rows) = [(a, ps)]" "asset_key (PStr chain) (PStr a) = Some key"
    and e: "e = \<lparr>ae_selector = source, ae_address = a, ae_address_key = key, ae_status = role, ae_providers = sort ps\<rparr>"
    using q unfolding quorum_address_def rows
    by (auto simp: address_verdict_def split: list.splits option.splits)
  have qual: "(a, ps) \<in> set (qualifying k (group_rows ?rows))" using s(1) by simp
  then have g: "(a, ps) \<in> set (group_rows ?rows)" "k \<le> int (length ps)" by (auto simp: qualifying_def)
  note cd = collects_decoded [OF c, of "decode_authority chain"]
  note said = decoded.group_speaks [OF cd g(1)]
  have word: "x = address_text a \<and> scoped_identity chain a (key_or_empty chain a)"
    if "speaks rpc x" "decode_authority chain x = Some a" for rpc x
    using decode_authority_Some [OF speaks_text [OF that(1)] that(2)] by blast
  have speaker: "\<exists>rpc \<in> set observers. on_chain chain rpc \<and> fingerprint rpc = p \<and> speaks rpc (address_text a)"
    if "p \<in> set ps" for p
    using said that word by blast
  have "ps \<noteq> []" using g(1) by (force simp: in_group_rows filter_empty_conv)
  then obtain p where "p \<in> set ps" by (meson hd_in_set)
  then obtain rpc x where "speaks rpc x" "decode_authority chain x = Some a" using said by blast
  with word have "scoped_identity chain a (key_or_empty chain a)" by blast
  then have id: "scoped_identity chain a key" using s(2) by (auto simp: scoped_identity_def)
  have "address_text a = truth" if few: "finite liars" "int (card liars) < k"
    and honest: "\<forall>rpc \<in> set observers. \<forall>y. fingerprint rpc \<notin> liars \<and> speaks rpc y \<longrightarrow> y = truth" for liars truth
  proof -
    obtain rpc where "rpc \<in> set observers" "fingerprint rpc \<notin> liars" "\<exists>x. speaks rpc x \<and> decode_authority chain x = Some a"
      using cd qual few by (rule decoded.honest_speaker)
    with honest word show ?thesis by blast
  qed
  with id speaker said g(2) show ?thesis unfolding vouched_def e by simp blast
qed

lemma authority_read_keeps:
  "list_all2 same_endpoint observers (snd (authority_read observers chain read source role k))"
  using sweep_keeps [OF read_keeps] by (auto simp: authority_read_def list.rel_refl split: prod.splits) (metis snd_conv)

text \<open>A read in a sequence of reads, of observers that differ from the first ones by their counters.\<close>

lemma authority_step:
  assumes "list_all2 same_endpoint observers observers1"
    and "authority_read observers1 chain read source role k = (Inr e, observers2)"
  shows "list_all2 same_endpoint observers observers2
    \<and> (\<forall>ev. e = Some ev \<longrightarrow> vouched observers chain k speaks ev \<and> ae_selector ev = source \<and> ae_status ev = role)"
proof
  have "list_all2 same_endpoint observers1 observers2"
    using authority_read_keeps [of observers1 source role k] assms(2) by simp
  with assms(1) show "list_all2 same_endpoint observers observers2"
    by (rule list_all2_trans [rotated]) (rule same_endpoint_trans)
  show "\<forall>ev. e = Some ev \<longrightarrow> vouched observers chain k speaks ev \<and> ae_selector ev = source \<and> ae_status ev = role"
    using authority_read_vouched [of observers1 source role k] vouched_endpoint [OF assms(1)] speaks_endpoint assms(2)
    by blast
qed

end

text \<open>What it means that an observer says a storage slot.\<close>

definition says_slot :: "string \<Rightarrow> string \<Rightarrow> int \<Rightarrow> evm_rpc \<Rightarrow> string \<Rightarrow> bool" where
  "says_slot address slot n rpc x \<longleftrightarrow>
     (\<exists>canonical. canonical_chain_address (PStr (cc_key (rpc_chain rpc))) (PStr address) = Some canonical
        \<and> says rpc ''eth_getStorageAt'' [PStr canonical, PStr (lower slot), PStr (py_hex n)] x)"

lemma says_hex_text: "says rpc rpc_method params x \<Longrightarrow> hex_text_answer x"
  using says_text by (simp add: hex_text_answer_def)

lemma says_endpoint_ops:
  "same_endpoint a b \<Longrightarrow> says_call address data n b = says_call address data n a"
  "same_endpoint a b \<Longrightarrow> says_slot address slot n b = says_slot address slot n a"
  by (simp_all add: says_call_def says_slot_def fun_eq_iff says_endpoint same_endpoint_fields)

interpretation selectors: text_reading "call_at_block address data n" "says_call address data n" chain
  for address data n chain
  by unfold_locales (auto simp: says_call_def intro: says_endpoint_ops dest: says_hex_text)

interpretation slots: text_reading "storage_at_block address slot n" "says_slot address slot n" chain
  for address slot n chain
  by unfold_locales (auto simp: says_slot_def address_ops intro: says_endpoint_ops
      dest: storage_at_block_says says_hex_text)

section \<open>The inspection\<close>

text \<open>What is asked for each field: the selector or slot, and what an observer says of it.\<close>

definition authority_questions ::
  "contract_code \<Rightarrow> proxy_authority \<Rightarrow> (string \<times> string \<times> (evm_rpc \<Rightarrow> string \<Rightarrow> bool)) list" where
  "authority_questions code proxy =
    (let call = (\<lambda>selector. says_call (ce_address code) selector (ce_block_number code));
         slot = (\<lambda>slot. says_slot (ce_address code) slot (ce_block_number code))
     in
     [(''implementation_selector'', implementation_selector, call implementation_selector),
      (''admin_selector'', admin_selector, call admin_selector),
      (''owner_selector'', owner_selector, call owner_selector),
      (''eip1967_implementation'', implementation_slot, slot implementation_slot),
      (''eip1967_admin'', admin_slot, slot admin_slot),
      (''eip1967_beacon'', beacon_slot, slot beacon_slot),
      (''beacon_implementation'', implementation_selector,
       \<lambda>rpc x. \<exists>beacon. px_slot_beacon proxy = Some beacon
         \<and> says_call (ae_address beacon) implementation_selector (ce_block_number code) rpc x)])"

definition answered_by_quorum ::
  "evm_rpc list \<Rightarrow> string \<Rightarrow> int \<Rightarrow> string \<times> address_evidence option
     \<Rightarrow> string \<times> string \<times> (evm_rpc \<Rightarrow> string \<Rightarrow> bool) \<Rightarrow> bool" where
  "answered_by_quorum observers chain k answer question =
    (case (answer, question) of
       ((field, e), (field', source, speaks)) \<Rightarrow>
         field = field' \<and> (\<forall>ev. e = Some ev \<longrightarrow> ae_selector ev = source \<and> vouched observers chain k speaks ev))"

lemma inspected:
  assumes "inspect_proxy_authority observers code k = (Inr proxy, observers')"
  shows "2 \<le> k \<and> list_all2 (answered_by_quorum observers (ce_chain code) k)
      (authority_fields proxy) (authority_questions code proxy)
    \<and> (px_slot_implementation proxy \<noteq> None \<longrightarrow> px_slot_beacon proxy = None)
    \<and> px_chain proxy = ce_chain code \<and> px_contract_key proxy = ce_contract_key code
    \<and> px_block_number proxy = ce_block_number code \<and> px_minimal_target proxy = eip1167 code
    \<and> px_minimal_target_key proxy = minimal_target_key code"
proof -
  let ?b = "ce_block_number code" and ?c = "ce_chain code" and ?a = "ce_address code"
  have g1: "\<not> k < 2" by (rule notI) (use assms in \<open>simp add: inspect_proxy_authority_def\<close>)
  have g2: "\<not> int (length (remdups (map cs_provider (ce_sources code)))) < k"
    by (rule notI) (use assms g1 in \<open>simp add: inspect_proxy_authority_def\<close>)
  have g3: "\<not> (eip1167 code \<noteq> None \<and> minimal_target_key code = None)"
    by (rule notI) (use assms g1 g2 in \<open>simp add: inspect_proxy_authority_def\<close>)
  note run = assms [unfolded inspect_proxy_authority_def if_not_P [OF g1] if_not_P [OF g2] if_not_P [OF g3] pass_then_Inr]
  from run obtain si o1 sb o2 bi o3 im o4 ad o5 ow o6 sa o7 where
    r1: "storage_read observers code implementation_slot ''EIP1967_IMPLEMENTATION_SLOT_QUORUM_EVIDENCE'' k = (Inr si, o1)"
    and r2: "(if si = None then storage_read o1 code beacon_slot ''EIP1967_BEACON_SLOT_QUORUM_EVIDENCE'' k
        else (Inr None, o1)) = (Inr sb, o2)"
    and r3: "(case sb of None \<Rightarrow> (Inr None, o2) | Some beacon \<Rightarrow> selector_at_address o2 ?c (ae_address beacon) ?b
        implementation_selector ''BEACON_IMPLEMENTATION_SELECTOR_QUORUM_EVIDENCE'' k) = (Inr bi, o3)"
    and r4: "selector_read o3 code implementation_selector ''IMPLEMENTATION_SELECTOR_QUORUM_EVIDENCE'' k = (Inr im, o4)"
    and r5: "selector_read o4 code admin_selector ''ADMIN_SELECTOR_QUORUM_EVIDENCE'' k = (Inr ad, o5)"
    and r6: "selector_read o5 code owner_selector ''OWNER_SELECTOR_QUORUM_EVIDENCE'' k = (Inr ow, o6)"
    and r7: "storage_read o6 code admin_slot ''EIP1967_ADMIN_SLOT_QUORUM_EVIDENCE'' k = (Inr sa, o7)"
    and proxy: "(Inr (proxy_evidence code im ad ow si sb bi sa) :: proxy_authority evm, o7) = (Inr proxy, observers')"
    by (elim exE conjE) (rule that, assumption+)
  from proxy have px: "proxy = proxy_evidence code im ad ow si sb bi sa" by simp
  note reads = storage_read_def selector_read_def selector_at_address_def
  have s0: "list_all2 same_endpoint observers observers" by (simp add: list.rel_refl)
  note s1 = slots.authority_step [OF s0 r1 [unfolded reads]]
  have s2: "list_all2 same_endpoint observers o2
      \<and> (\<forall>ev. sb = Some ev \<longrightarrow> ae_selector ev = beacon_slot \<and> vouched observers ?c k (says_slot ?a beacon_slot ?b) ev)"
    using r2 s1 slots.authority_step [OF conjunct1 [OF s1]] by (auto simp: reads split: if_splits)
  have s3: "list_all2 same_endpoint observers o3
      \<and> (\<forall>ev. bi = Some ev \<longrightarrow> ae_selector ev = implementation_selector \<and> vouched observers ?c k (\<lambda>rpc x. \<exists>beacon.
           sb = Some beacon \<and> says_call (ae_address beacon) implementation_selector ?b rpc x) ev)"
    using r3 s2 selectors.authority_step [OF conjunct1 [OF s2]] by (auto simp: reads split: option.splits)
  note s4 = selectors.authority_step [OF conjunct1 [OF s3] r4 [unfolded reads]]
  note s5 = selectors.authority_step [OF conjunct1 [OF s4] r5 [unfolded reads]]
  note s6 = selectors.authority_step [OF conjunct1 [OF s5] r6 [unfolded reads]]
  note s7 = slots.authority_step [OF conjunct1 [OF s6] r7 [unfolded reads]]
  have "list_all2 (answered_by_quorum observers ?c k) (authority_fields proxy) (authority_questions code proxy)"
    using s1 s2 s3 s4 s5 s6 s7
    by (simp add: authority_fields_def authority_questions_def answered_by_quorum_def Let_def px proxy_evidence_def)
  moreover have "si \<noteq> None \<longrightarrow> sb = None" using r2 by (auto split: if_splits)
  ultimately show ?thesis using g1 by (simp add: px proxy_evidence_def)
qed

text \<open>The minimal proxy pattern: the address between the fixed parts of the code.\<close>

lemma eip1167_text:
  assumes "hex_text_answer (ce_runtime_bytecode code)"
  shows "eip1167 code = Some t \<longleftrightarrow>
    ce_runtime_bytecode code = ''0x'' @ eip1167_prefix @ drop 2 t @ eip1167_suffix \<and> is_evm_address t"
proof
  let ?code = "ce_runtime_bytecode code" and ?n = "length eip1167_prefix"
  have code: "take 2 ?code = ''0x''" "list_all is_hex (drop 2 ?code)" "lower (drop 2 ?code) = drop 2 ?code"
    using assms by (simp_all add: hex_text_answer_def starts_0x) (metis lower_def drop_map)
  note whole = append_take_drop_id [of 2 ?code, symmetric]
  {
    assume e: "eip1167 code = Some t"
    then have parts: "take ?n (drop 2 ?code) = eip1167_prefix" "drop (?n + 40) (drop 2 ?code) = eip1167_suffix"
        "length (drop 2 ?code) = ?n + 40 + length eip1167_suffix"
      and t: "t = ''0x'' @ take 40 (drop ?n (drop 2 ?code))"
      using code(3) by (auto simp: eip1167_def Let_def starts_with_def split: if_splits)
    have "xs = take n xs @ take 40 (drop n xs) @ drop (n + 40) xs" for xs :: string and n
      by (metis append_take_drop_id drop_drop add.commute)
    from this [of "drop 2 ?code" ?n] have "drop 2 ?code = eip1167_prefix @ take 40 (drop ?n (drop 2 ?code)) @ eip1167_suffix"
      unfolding parts(1,2) .
    moreover have "drop 2 t = take 40 (drop ?n (drop 2 ?code))" unfolding t by simp
    ultimately have body: "drop 2 ?code = eip1167_prefix @ drop 2 t @ eip1167_suffix" by metis
    have "list_all is_hex (drop 2 t)" using code(2) unfolding body by simp
    moreover have "length t = 42" using parts(3) by (simp add: t)
    moreover have "take 2 t = ''0x''" by (simp add: t)
    ultimately show "?code = ''0x'' @ eip1167_prefix @ drop 2 t @ eip1167_suffix \<and> is_evm_address t"
      using whole code(1) body by (simp add: is_evm_address_def)
  next
    assume r: "?code = ''0x'' @ eip1167_prefix @ drop 2 t @ eip1167_suffix \<and> is_evm_address t"
    then have body: "drop 2 ?code = eip1167_prefix @ drop 2 t @ eip1167_suffix" by simp
    have t: "length (drop 2 t) = 40" "list_all is_hex (drop 2 t)" "t = ''0x'' @ drop 2 t"
      using r append_take_drop_id [of 2 t] by (simp_all add: is_evm_address_def)
    have "drop 2 t \<noteq> []" using t(1) by auto
    moreover have "starts_with eip1167_prefix (eip1167_prefix @ xs)" for xs by (simp add: starts_with_def)
    moreover have "starts_with ''0x'' ?code" using assms by (simp add: hex_text_answer_def)
    ultimately show "eip1167 code = Some t"
      using t code(3) unfolding body eip1167_def Let_def by (simp add: int_base16_plain hex_text_def)
  }
qed

section \<open>Reading the demonstration endpoints in sequence\<close>

lemma demo_reads:
  assumes "same_endpoint (demo_rpc url (demo_answers answers)) rpc" "is_evm_address address" "0 \<le> n"
  shows "10 \<le> length data \<Longrightarrow> is_hex_data (PStr data) None \<Longrightarrow> dget answers ''eth_call'' = PStr x
      \<Longrightarrow> is_hex_data (PStr x) None \<Longrightarrow> fst (call_at_block address data n rpc) = Inr (lower x)"
    and "is_hex_data (PStr slot) (Some 32) \<Longrightarrow> dget answers ''eth_getStorageAt'' = PStr y
      \<Longrightarrow> is_hex_data (PStr y) (Some 32) \<Longrightarrow> fst (storage_at_block address slot n rpc) = Inr (lower y)"
    and "on_chain ''base'' rpc"
proof -
  note demo = demo_ready [OF assms(1)]
  from demo show "on_chain ''base'' rpc" by simp
  have "map_option cc_family (get_chain (PStr ''base'')) = Some EVM" by code_simp
  then have canonical: "canonical_chain_address (PStr ''base'') (PStr address) = Some (lower address)"
    using canonical_evm assms(2) by auto
  note ready = demo canonical observing_Inr hex_answer_Inr allowed_methods_def
  have other: "dget (demo_answers answers) ''eth_call'' = dget answers ''eth_call''"
    "dget (demo_answers answers) ''eth_getStorageAt'' = dget answers ''eth_getStorageAt''"
    by (simp_all add: demo_answers_def dget_def)
  show "fst (call_at_block address data n rpc) = Inr (lower x)"
    if "10 \<le> length data" "is_hex_data (PStr data) None" "dget answers ''eth_call'' = PStr x" "is_hex_data (PStr x) None"
  proof -
    have "\<exists>rpc'. call_at_block address data n rpc = (Inr (lower x), rpc')"
      using that assms(3) by (auto simp: call_at_block_def ready other)
    then show ?thesis by auto
  qed
  show "fst (storage_at_block address slot n rpc) = Inr (lower y)"
    if "is_hex_data (PStr slot) (Some 32)" "dget answers ''eth_getStorageAt'' = PStr y" "is_hex_data (PStr y) (Some 32)"
  proof -
    have "\<exists>rpc'. storage_at_block address slot n rpc = (Inr (lower y), rpc')"
      using that assms(3) by (auto simp: storage_at_block_def ready other)
    then show ?thesis by auto
  qed
qed

text \<open>One authority read of the two, when both give the word of an address.\<close>

lemma demo_authority_read:
  assumes "list_all2 same_endpoint (demo_pair answers) observers" "keeps read"
    and "\<And>rpc url. same_endpoint (demo_rpc url (demo_answers answers)) rpc \<Longrightarrow> fst (read rpc) = Inr value"
    and "authority_address ''base'' value = Inr (Some a)" "a \<noteq> []" "asset_key (PStr ''base'') (PStr a) = Some key"
  obtains e observers' where "authority_read observers ''base'' read source role 2 = (Inr (Some e), observers')"
    "ae_address e = a" "list_all2 same_endpoint (demo_pair answers) observers'"
proof -
  have on: "on_chain ''base'' rpc" if "same_endpoint (demo_rpc url (demo_answers answers)) rpc" for rpc url
    using same_endpoint_fields [OF that] by (simp add: on_chain_def demo_rpc_def chains_def)
  let ?rows = "[(provider_fingerprint demo_a, value), (provider_fingerprint demo_b, value)]"
  have "fst (sweep (on_chain ''base'') (on_chain ''base'') is_rpc_error read [] observers) = Inr ?rows"
    by (rule demo_sweep_again [OF assms(1)]) (fact assms(3), simp add: on)
  then obtain after where pass: "sweep (on_chain ''base'') (on_chain ''base'') is_rpc_error read [] observers = (Inr ?rows, after)"
    by (metis answer_pair)
  obtain x y where o: "observers = [x, y]"
    and s: "same_endpoint (demo_rpc demo_a (demo_answers answers)) x" "same_endpoint (demo_rpc demo_b (demo_answers answers)) y"
    using assms(1) by (auto simp: demo_pair_def list_all2_Cons1)
  have f: "fingerprint x = provider_fingerprint demo_a" "fingerprint y = provider_fingerprint demo_b"
    using s fingerprint_endpoint demo_fingerprint by metis+
  have two: "length (distinct_observers [] (filter (on_chain ''base'') observers)) = 2"
    unfolding o using on [OF s(1)] on [OF s(2)] f demo_labels by simp
  obtain e where e: "quorum_address ''base'' ?rows source role 2 = Inr (Some e)" "ae_address e = a"
    using assms(4-6) by (simp add: quorum_address_def address_verdict_def group_rows_def qualifying_def)
  have "authority_read observers ''base'' read source role 2 = (Inr (Some e), after)"
    unfolding authority_read_def two pass by (simp add: e(1))
  moreover have "list_all2 same_endpoint observers after"
    using sweep_keeps [OF assms(2), of observers "on_chain ''base''"] by (metis pass snd_conv)
  with assms(1) have "list_all2 same_endpoint (demo_pair answers) after"
    by (rule list_all2_trans [rotated]) (rule same_endpoint_trans)
  ultimately show thesis using e(2) by (intro that)
qed

section \<open>Snapshots\<close>

definition backed :: "proxy_authority \<Rightarrow> bool" where
  "backed proxy \<longleftrightarrow> (\<forall>(field, e) \<in> set (authority_fields proxy). \<forall>ev. e = Some ev \<longrightarrow> 2 \<le> length (remdups (ae_providers ev)))"

lemma answered_backed:
  assumes "2 \<le> k" "list_all2 (answered_by_quorum observers chain k) (authority_fields proxy) questions"
  shows "backed proxy"
proof -
  have "2 \<le> length (remdups (ae_providers ev))" if f: "(field, Some ev) \<in> set (authority_fields proxy)" for field ev
  proof -
    obtain i where "i < length (authority_fields proxy)" "authority_fields proxy ! i = (field, Some ev)"
      using f by (metis in_set_conv_nth)
    then have "answered_by_quorum observers chain k (field, Some ev) (questions ! i)"
      using assms(2) by (metis list_all2_conv_all_nth)
    then have "k \<le> int (length (ae_providers ev)) \<and> distinct (ae_providers ev)"
      by (auto simp: answered_by_quorum_def vouched_def split: prod.splits)
    then show ?thesis using assms(1) by (simp add: distinct_remdups_id)
  qed
  then show ?thesis by (auto simp: backed_def)
qed

section \<open>Properties\<close>

text \<open>
  C26: Proxy authority evidence is what a quorum read: every address in it was said, as the word of its
  field, by at least the quorum of distinct providers on the contract's chain, is canonical and not
  zero, and is the truth if fewer providers than the quorum lie. The beacon is asked only when the
  implementation slot gave no address, and its implementation at the address it gave. A minimal proxy
  target is reported exactly for the code of a minimal proxy to it.
\<close>

theorem proxy_authority_is_quorum_read:
  assumes "inspect_proxy_authority observers code k = (Inr proxy, observers')"
  shows "2 \<le> k \<and> list_all2 (answered_by_quorum observers (ce_chain code) k)
      (authority_fields proxy) (authority_questions code proxy)
    \<and> backed proxy \<and> (px_slot_implementation proxy \<noteq> None \<longrightarrow> px_slot_beacon proxy = None)
    \<and> px_chain proxy = ce_chain code \<and> px_contract_key proxy = ce_contract_key code
    \<and> px_block_number proxy = ce_block_number code
    \<and> (hex_text_answer (ce_runtime_bytecode code) \<longrightarrow>
         (\<forall>t. px_minimal_target proxy = Some t \<longleftrightarrow>
            ce_runtime_bytecode code = ''0x'' @ eip1167_prefix @ drop 2 t @ eip1167_suffix \<and> is_evm_address t))"
proof -
  note i = inspected [OF assms]
  have "backed proxy" using i answered_backed by blast
  then show ?thesis using i eip1167_text by auto
qed

definition demo_proxy_code :: contract_code where
  "demo_proxy_code =
     \<lparr>ce_chain = ''base'', ce_chain_id = 8453, ce_address = ''0x'' @ replicate 40 (CHR ''a''),
      ce_contract_key = ''base:0x'' @ replicate 40 (CHR ''a''), ce_block_number = 5, ce_byte_length = 1,
      ce_fingerprint = [], ce_runtime_bytecode = ''0x00'', ce_status = ''UNVERIFIED_CONTRACT_CODE_EVIDENCE'',
      ce_sources = [\<lparr>cs_provider = ''a'', cs_fingerprint = [], cs_byte_length = 1\<rparr>,
        \<lparr>cs_provider = ''b'', cs_fingerprint = [], cs_byte_length = 1\<rparr>]\<rparr>"

definition demo_word_answer :: string where
  "demo_word_answer = ''0x'' @ replicate 24 (CHR ''0'') @ replicate 40 (CHR ''b'')"

lemma demo_authority_address:
  "authority_address ''base'' demo_word_answer = Inr (Some (''0x'' @ replicate 40 (CHR ''b'')))"
proof -
  let ?digits = "replicate 40 (CHR ''b'')"
  have b: "is_hex (CHR ''b'')" "hex_val (CHR ''b'') = 11" "is_hex (CHR ''0'')" "lower (''0x'' @ ?digits) = ''0x'' @ ?digits"
    "lower (replicate 24 (CHR ''0'')) = replicate 24 (CHR ''0'')"
    by code_simp+
  have "map_option cc_family (get_chain (PStr ''base'')) = Some EVM" by code_simp
  then obtain cfg where "get_chain (PStr ''base'') = Some cfg" "cc_family cfg = EVM" by auto
  moreover have "is_evm_address (''0x'' @ ?digits)" using b(1) by (simp add: is_evm_address_def list_all_iff)
  ultimately have c: "canonical_chain_address (PStr ''base'') (PStr (''0x'' @ ?digits)) = Some (''0x'' @ ?digits)"
    using canonical_evm b(4) by metis
  have v: "length demo_word_answer = 66" "starts_with ''0x'' demo_word_answer"
    "drop 2 demo_word_answer = replicate 24 (CHR ''0'') @ ?digits" "drop 26 demo_word_answer = ?digits"
    by (simp_all add: demo_word_answer_def starts_with_def)
  have h: "hex_text (replicate 24 (CHR ''0'') @ ?digits)"
    using b(1,3) by (simp add: hex_text_def int_base16_plain list_all_iff)
  have n: "int_base16 ?digits = Some (int (hex_value ?digits))"
    using b(1) by (intro int_base16_plain) (simp_all add: list_all_iff)
  have "?digits = replicate (Suc 39) (CHR ''b'')" by simp
  then have "hex_value ?digits \<noteq> 0" by (simp only: replicate_Suc hex_value_Cons b(2)) simp
  with v h n c b(5) show ?thesis by (simp add: authority_address_def del: replicate.simps append.simps)
qed

lemma proxy_authority_is_quorum_read_witness:
  "\<exists>proxy. fst (inspect_proxy_authority
       (demo_pair [(''eth_getStorageAt'', PStr demo_word_answer), (''eth_call'', PStr demo_word_answer)])
       demo_proxy_code 2) = Inr proxy
     \<and> map_option ae_address (px_slot_implementation proxy) = Some (''0x'' @ replicate 40 (CHR ''b''))
     \<and> backed proxy"
proof -
  let ?answers = "[(''eth_getStorageAt'', PStr demo_word_answer), (''eth_call'', PStr demo_word_answer)]"
  let ?a = "''0x'' @ replicate 40 (CHR ''b'')" and ?address = "''0x'' @ replicate 40 (CHR ''a'')"
  have word: "lower demo_word_answer = demo_word_answer" "is_hex_data (PStr demo_word_answer) None"
    "is_hex_data (PStr demo_word_answer) (Some 32)" "is_evm_address ?a"
    "is_evm_address ?address" "eip1167 demo_proxy_code = None"
    "list_all (\<lambda>x. 10 \<le> length x \<and> is_hex_data (PStr x) None) [implementation_selector, admin_selector, owner_selector]"
    "list_all (\<lambda>x. is_hex_data (PStr x) (Some 32)) [implementation_slot, admin_slot]"
    by code_simp+
  have reply: "authority_address ''base'' demo_word_answer = Inr (Some ?a)" using demo_authority_address .
  obtain key where key: "asset_key (PStr ''base'') (PStr ?a) = Some key"
  proof -
    have "asset_key (PStr ''base'') (PStr ?a) \<noteq> None" by code_simp
    then show thesis using that by blast
  qed
  have code: "ce_chain demo_proxy_code = ''base''" "ce_address demo_proxy_code = ?address" "ce_block_number demo_proxy_code = 5"
    by (simp_all add: demo_proxy_code_def)
  have slot: "\<exists>e o2. storage_read o1 demo_proxy_code slot role 2 = (Inr (Some e), o2) \<and> ae_address e = ?a
      \<and> list_all2 same_endpoint (demo_pair ?answers) o2"
    if o1: "list_all2 same_endpoint (demo_pair ?answers) o1" and s: "slot \<in> {implementation_slot, admin_slot}" for o1 slot role
  proof -
    have read: "fst (storage_at_block ?address slot 5 rpc) = Inr demo_word_answer"
      if "same_endpoint (demo_rpc url (demo_answers ?answers)) rpc" for rpc url
      using demo_reads(2) [OF that word(5)] s word by (auto simp: dget_def)
    obtain e o2 where "authority_read o1 ''base'' (storage_at_block ?address slot 5) slot role 2 = (Inr (Some e), o2)"
        "ae_address e = ?a" "list_all2 same_endpoint (demo_pair ?answers) o2"
      using o1 address_ops(2) read reply _ key by (rule demo_authority_read) simp_all
    then show ?thesis unfolding storage_read_def code by blast
  qed
  have call: "\<exists>e o2. selector_read o1 demo_proxy_code selector role 2 = (Inr (Some e), o2)
      \<and> list_all2 same_endpoint (demo_pair ?answers) o2"
    if o1: "list_all2 same_endpoint (demo_pair ?answers) o1"
      and s: "selector \<in> {implementation_selector, admin_selector, owner_selector}" for o1 selector role
  proof -
    have read: "fst (call_at_block ?address selector 5 rpc) = Inr demo_word_answer"
      if "same_endpoint (demo_rpc url (demo_answers ?answers)) rpc" for rpc url
      using demo_reads(1) [OF that word(5)] s word by (auto simp: dget_def)
    obtain e o2 where "authority_read o1 ''base'' (call_at_block ?address selector 5) selector role 2 = (Inr (Some e), o2)"
        "list_all2 same_endpoint (demo_pair ?answers) o2"
      using o1 address_ops(1) read reply _ key by (rule demo_authority_read) simp_all
    then show ?thesis unfolding selector_read_def selector_at_address_def code by blast
  qed
  have s0: "list_all2 same_endpoint (demo_pair ?answers) (demo_pair ?answers)" by (simp add: list.rel_refl)
  obtain e1 o1 where 1: "storage_read (demo_pair ?answers) demo_proxy_code implementation_slot
      ''EIP1967_IMPLEMENTATION_SLOT_QUORUM_EVIDENCE'' 2 = (Inr (Some e1), o1)" "ae_address e1 = ?a"
      "list_all2 same_endpoint (demo_pair ?answers) o1" using slot [OF s0] by blast
  obtain e2 o2 where 2: "selector_read o1 demo_proxy_code implementation_selector
      ''IMPLEMENTATION_SELECTOR_QUORUM_EVIDENCE'' 2 = (Inr (Some e2), o2)"
      "list_all2 same_endpoint (demo_pair ?answers) o2" using call [OF 1(3)] by blast
  obtain e3 o3 where 3: "selector_read o2 demo_proxy_code admin_selector
      ''ADMIN_SELECTOR_QUORUM_EVIDENCE'' 2 = (Inr (Some e3), o3)"
      "list_all2 same_endpoint (demo_pair ?answers) o3" using call [OF 2(2)] by blast
  obtain e4 o4 where 4: "selector_read o3 demo_proxy_code owner_selector
      ''OWNER_SELECTOR_QUORUM_EVIDENCE'' 2 = (Inr (Some e4), o4)"
      "list_all2 same_endpoint (demo_pair ?answers) o4" using call [OF 3(2)] by blast
  obtain e5 o5 where 5: "storage_read o4 demo_proxy_code admin_slot
      ''EIP1967_ADMIN_SLOT_QUORUM_EVIDENCE'' 2 = (Inr (Some e5), o5)" using slot [OF 4(2)] by blast
  have sources: "length (remdups (map cs_provider (ce_sources demo_proxy_code))) = 2" by code_simp
  obtain proxy where p: "fst (inspect_proxy_authority (demo_pair ?answers) demo_proxy_code 2) = Inr proxy"
      "px_slot_implementation proxy = Some e1"
    by (simp add: inspect_proxy_authority_def proxy_evidence_def minimal_target_key_def sources word(6) pass_then_def 1 2 3 4 5)
  with proxy_authority_is_quorum_read [OF answer_pair [OF p(1)]] 1(2) show ?thesis by auto
qed

end
