(* ===== verification/Evm_Proxy_History.thy ===== *)
theory Evm_Proxy_History
  imports Evm_Proxy
begin

text \<open>
  How the proxy and authority addresses of a contract change over time, and the alerts for these
  changes (\<^verbatim>\<open>evm_proxy_history.py\<close>).
\<close>

section \<open>Changes\<close>

record proxy_change =
  pd_chain :: string
  pd_contract_key :: string
  pd_from_block :: int
  pd_to_block :: int
  pd_field :: string
  pd_before_address :: "string option"
  pd_after_address :: "string option"
  pd_before_status :: "string option"
  pd_after_status :: "string option"
  pd_before_providers :: "string list"
  pd_after_providers :: "string list"
  pd_classification :: string
  pd_status :: string

definition change_status :: string where
  "change_status = ''UNVERIFIED_PROXY_AUTHORITY_CHANGE_EVIDENCE''"

definition alert_status :: string where
  "alert_status = ''UNVERIFIED_PROXY_AUTHORITY_ALERT_EVIDENCE''"

definition alert_types :: "(string \<times> string) list" where
  "alert_types =
    [(''implementation_selector'', ''PROXY_IMPLEMENTATION_CHANGED''),
     (''eip1967_implementation'', ''PROXY_IMPLEMENTATION_CHANGED''),
     (''beacon_implementation'', ''BEACON_IMPLEMENTATION_CHANGED''),
     (''eip1967_beacon'', ''PROXY_BEACON_CHANGED''),
     (''admin_selector'', ''PROXY_ADMIN_CHANGED''),
     (''eip1967_admin'', ''PROXY_ADMIN_CHANGED''),
     (''owner_selector'', ''PROXY_OWNER_CHANGED'')]"

definition evidence_providers :: "address_evidence option \<Rightarrow> string list" where
  "evidence_providers e = (case e of Some v \<Rightarrow> ae_providers v | None \<Rightarrow> [])"

definition change_classification :: "string option \<Rightarrow> string option \<Rightarrow> string" where
  "change_classification before after =
    (if before = after then ''UNCHANGED''
     else if before = None \<and> after \<noteq> None then ''EVIDENCE_APPEARED''
     else if before \<noteq> None \<and> after = None then ''EVIDENCE_DISAPPEARED''
     else ''ADDRESS_CHANGED'')"

definition proxy_change_of ::
  "proxy_authority \<Rightarrow> proxy_authority \<Rightarrow> string \<times> address_evidence option \<times> address_evidence option
     \<Rightarrow> proxy_change option" where
  "proxy_change_of previous current row =
    (case row of
       (field, before, after) \<Rightarrow>
         let classification = change_classification (map_option ae_address before) (map_option ae_address after) in
         if classification = ''UNCHANGED'' then None
         else Some
           \<lparr>pd_chain = px_chain current, pd_contract_key = px_contract_key current,
            pd_from_block = px_block_number previous, pd_to_block = px_block_number current, pd_field = field,
            pd_before_address = map_option ae_address before, pd_after_address = map_option ae_address after,
            pd_before_status = map_option ae_status before, pd_after_status = map_option ae_status after,
            pd_before_providers = evidence_providers before, pd_after_providers = evidence_providers after,
            pd_classification = classification, pd_status = change_status\<rparr>)"

definition require_same_ordered_contract :: "proxy_authority \<Rightarrow> proxy_authority \<Rightarrow> 'a evm \<Rightarrow> 'a evm" where
  "require_same_ordered_contract previous current rest =
    raise_if (px_chain previous \<noteq> px_chain current \<or> px_contract_key previous \<noteq> px_contract_key current)
      (Rpc_Error ''proxy history cannot cross chains or contracts'')
    (raise_if (px_block_number current \<le> px_block_number previous)
      (Rpc_Error ''proxy history requires strictly increasing blocks'') rest)"

definition derive_proxy_authority_changes :: "proxy_authority \<Rightarrow> proxy_authority \<Rightarrow> proxy_change list evm" where
  "derive_proxy_authority_changes previous current =
    require_same_ordered_contract previous current
      (Inr (List.map_filter (proxy_change_of previous current)
        (map2 (\<lambda>(field, before) (_, after). (field, before, after))
           (authority_fields previous) (authority_fields current))))"

definition build_proxy_authority_change_history :: "proxy_authority list \<Rightarrow> proxy_change list evm" where
  "build_proxy_authority_change_history rows =
    and_then (history derive_proxy_authority_changes rows) (\<lambda>changes. Inr (concat changes))"

section \<open>Alerts\<close>

record proxy_alert =
  al_alert_id :: string
  al_chain :: string
  al_contract_key :: string
  al_from_block :: int
  al_to_block :: int
  al_alert_type :: string
  al_field :: string
  al_severity :: string
  al_classification :: string
  al_before_address :: "string option"
  al_after_address :: "string option"
  al_before_providers :: "string list"
  al_after_providers :: "string list"
  al_evidence_quality :: string
  al_intent :: string
  al_status :: string

definition require_provider_quorum :: "string list \<Rightarrow> string \<Rightarrow> 'a evm \<Rightarrow> 'a evm" where
  "require_provider_quorum providers side rest =
    raise_if (length (remdups providers) < 2)
      (Rpc_Error (''proxy authority alert requires distinct provider quorum for '' @ side @ '' evidence'')) rest"

definition validate_alert_change :: "proxy_change \<Rightarrow> unit evm" where
  "validate_alert_change change =
    raise_if (pd_status change \<noteq> change_status) (Rpc_Error ''proxy authority alert requires canonical change evidence'')
    (raise_if (pd_to_block change \<le> pd_from_block change)
      (Rpc_Error ''proxy authority alert requires strictly increasing blocks'')
    (raise_if (map_of alert_types (pd_field change) = None) (Rpc_Error ''unsupported proxy authority alert field'')
    (if pd_classification change = ''ADDRESS_CHANGED''
     then raise_if (pd_before_address change = None \<or> pd_after_address change = None
               \<or> pd_before_address change = pd_after_address change)
            (Rpc_Error ''ADDRESS_CHANGED requires distinct before and after addresses'')
          (require_provider_quorum (pd_before_providers change) ''before''
          (require_provider_quorum (pd_after_providers change) ''after'' (Inr ())))
     else if pd_classification change = ''EVIDENCE_APPEARED''
     then raise_if (pd_before_address change \<noteq> None \<or> pd_after_address change = None)
            (Rpc_Error ''EVIDENCE_APPEARED requires only after-address evidence'')
          (require_provider_quorum (pd_after_providers change) ''after'' (Inr ()))
     else if pd_classification change = ''EVIDENCE_DISAPPEARED''
     then raise_if (pd_before_address change = None \<or> pd_after_address change \<noteq> None)
            (Rpc_Error ''EVIDENCE_DISAPPEARED requires only before-address evidence'')
          (require_provider_quorum (pd_before_providers change) ''before'' (Inr ()))
     else Inl (Rpc_Error ''unsupported proxy authority change classification''))))"

fun join_with :: "string \<Rightarrow> string list \<Rightarrow> string" where
  "join_with sep [] = []"
| "join_with sep [x] = x"
| "join_with sep (x # xs) = x @ sep @ join_with sep xs"

definition text_or_empty :: "string option \<Rightarrow> string" where
  "text_or_empty v = (case v of Some s \<Rightarrow> s | None \<Rightarrow> [])"

definition alert_identifier :: "proxy_change \<Rightarrow> string \<Rightarrow> string evm" where
  "alert_identifier change alert_type =
    and_then (int_text (pd_from_block change)) (\<lambda>from_block.
    and_then (int_text (pd_to_block change)) (\<lambda>to_block.
    Inr (''proxy-alert:'' @ sha256_hex (utf8 (join_with ''|''
      [pd_chain change, pd_contract_key change, from_block, to_block, alert_type, pd_field change,
       pd_classification change, text_or_empty (pd_before_address change), text_or_empty (pd_after_address change)])))))"

definition alert_from_proxy_authority_change :: "proxy_change \<Rightarrow> proxy_alert evm" where
  "alert_from_proxy_authority_change change =
    and_then (validate_alert_change change) (\<lambda>_.
    let alert_type = (case map_of alert_types (pd_field change) of Some t \<Rightarrow> t | None \<Rightarrow> []) in
    and_then (alert_identifier change alert_type) (\<lambda>alert_id.
    Inr \<lparr>al_alert_id = alert_id, al_chain = pd_chain change, al_contract_key = pd_contract_key change,
         al_from_block = pd_from_block change, al_to_block = pd_to_block change, al_alert_type = alert_type,
         al_field = pd_field change,
         al_severity = (if pd_classification change = ''ADDRESS_CHANGED'' then ''HIGH'' else ''MEDIUM''),
         al_classification = pd_classification change, al_before_address = pd_before_address change,
         al_after_address = pd_after_address change,
         al_before_providers = sorted_set (pd_before_providers change),
         al_after_providers = sorted_set (pd_after_providers change),
         al_evidence_quality = (if pd_before_address change \<noteq> None \<and> pd_after_address change \<noteq> None
           then ''TWO_SIDED_QUORUM'' else ''ONE_SIDED_QUORUM''),
         al_intent = ''NOT_DETERMINED'', al_status = alert_status\<rparr>))"

text \<open>The loop: an alert whose identifier was seen is dropped.\<close>

fun collect_alerts :: "string list \<Rightarrow> proxy_change list \<Rightarrow> proxy_alert list evm" where
  "collect_alerts seen [] = Inr []"
| "collect_alerts seen (change # changes) =
     and_then (alert_from_proxy_authority_change change) (\<lambda>alert.
     if al_alert_id alert \<in> set seen then collect_alerts seen changes
     else and_then (collect_alerts (al_alert_id alert # seen) changes) (\<lambda>alerts. Inr (alert # alerts)))"

definition build_proxy_authority_alerts :: "proxy_change list \<Rightarrow> proxy_alert list evm" where
  "build_proxy_authority_alerts changes = collect_alerts [] changes"

section \<open>Snapshots and their changes\<close>

lemma derive_proxy_Inr:
  "derive_proxy_authority_changes previous current = Inr changes \<longleftrightarrow>
     px_chain previous = px_chain current \<and> px_contract_key previous = px_contract_key current
     \<and> px_block_number previous < px_block_number current
     \<and> changes = List.map_filter (proxy_change_of previous current)
         (map2 (\<lambda>(field, before) (_, after). (field, before, after)) (authority_fields previous) (authority_fields current))"
  by (auto simp: derive_proxy_authority_changes_def require_same_ordered_contract_def)

text \<open>The evidence of a field, and its address.\<close>

definition field_evidence :: "proxy_authority \<Rightarrow> string \<Rightarrow> address_evidence option" where
  "field_evidence proxy field = (case map_of (authority_fields proxy) field of Some e \<Rightarrow> e | None \<Rightarrow> None)"

definition address_of :: "proxy_authority \<Rightarrow> string \<Rightarrow> string option" where
  "address_of proxy field = map_option ae_address (field_evidence proxy field)"

definition field_names :: "string list" where
  "field_names = [''implementation_selector'', ''admin_selector'', ''owner_selector'', ''eip1967_implementation'',
     ''eip1967_admin'', ''eip1967_beacon'', ''beacon_implementation'']"

lemma fields_of: "authority_fields proxy = map (\<lambda>field. (field, field_evidence proxy field)) field_names"
  by (simp add: field_evidence_def authority_fields_def field_names_def)

lemma backed_field: "backed proxy \<Longrightarrow> field_evidence proxy field = Some ev \<Longrightarrow> 2 \<le> length (remdups (ae_providers ev))"
  by (fastforce simp: backed_def field_evidence_def dest: map_of_SomeD split: option.splits)

lemma derived_changes:
  "List.map_filter (proxy_change_of previous current)
     (map2 (\<lambda>(field, before) (_, after). (field, before, after)) (authority_fields previous) (authority_fields current))
   = List.map_filter (\<lambda>field. proxy_change_of previous current (field, field_evidence previous field, field_evidence current field))
       field_names"
  unfolding fields_of by (simp add: List.map_filter_def zip_map_map zip_same_conv_map filter_map comp_def)

text \<open>A change is a field whose address differs.\<close>

lemma proxy_change_iff:
  "proxy_change_of previous current (field, field_evidence previous field, field_evidence current field) = Some change \<longleftrightarrow>
     address_of previous field \<noteq> address_of current field
     \<and> change = \<lparr>pd_chain = px_chain current, pd_contract_key = px_contract_key current,
        pd_from_block = px_block_number previous, pd_to_block = px_block_number current, pd_field = field,
        pd_before_address = address_of previous field, pd_after_address = address_of current field,
        pd_before_status = map_option ae_status (field_evidence previous field),
        pd_after_status = map_option ae_status (field_evidence current field),
        pd_before_providers = evidence_providers (field_evidence previous field),
        pd_after_providers = evidence_providers (field_evidence current field),
        pd_classification = change_classification (address_of previous field) (address_of current field),
        pd_status = change_status\<rparr>"
proof -
  have "change_classification a b = ''UNCHANGED'' \<longleftrightarrow> a = b" for a b by (simp add: change_classification_def)
  then show ?thesis by (auto simp: proxy_change_of_def address_of_def Let_def)
qed

definition is_change :: "proxy_authority list \<Rightarrow> nat \<Rightarrow> string \<Rightarrow> proxy_change \<Rightarrow> bool" where
  "is_change rows i field change \<longleftrightarrow> Suc i < length rows \<and> field \<in> set field_names
     \<and> proxy_change_of (rows ! i) (rows ! Suc i)
          (field, field_evidence (rows ! i) field, field_evidence (rows ! Suc i) field) = Some change"

lemma in_map_filter: "y \<in> set (List.map_filter f xs) \<longleftrightarrow> (\<exists>x \<in> set xs. f x = Some y)"
  by (induction xs) (auto simp: List.map_filter_simps split: option.splits)

lemma distinct_steps:
  assumes "\<And>i. i < n \<Longrightarrow> distinct (map key (step i))" "\<And>i c. i < n \<Longrightarrow> c \<in> set (step i) \<Longrightarrow> block c = b i"
    and "\<And>i j. i < j \<Longrightarrow> j < n \<Longrightarrow> b i < (b j :: int)"
  shows "distinct (map (\<lambda>c. (block c, key c)) (concat (map step [0 ..< n])))"
  using assms
proof (induction n)
  case (Suc n)
  have "distinct (map (\<lambda>c. (block c, key c)) (step n))"
    using Suc.prems(1) [of n] by (auto simp: distinct_map inj_on_def)
  moreover have "block c \<noteq> block d" if "c \<in> set (concat (map step [0 ..< n]))" "d \<in> set (step n)" for c d
  proof -
    obtain i where "i < n" "c \<in> set (step i)" using \<open>c \<in> set (concat (map step [0 ..< n]))\<close> by auto
    then have "block c = b i" "block d = b n" "b i < b n" using Suc.prems \<open>d \<in> set (step n)\<close> by auto
    then show ?thesis by simp
  qed
  moreover have "distinct (map (\<lambda>c. (block c, key c)) (concat (map step [0 ..< n])))"
    using Suc.prems by (intro Suc.IH) simp_all
  ultimately show ?case by (force simp del: set_concat)
qed simp

lemma history_changes:
  assumes "build_proxy_authority_change_history rows = Inr changes"
  shows "change \<in> set changes \<longleftrightarrow> (\<exists>i field. is_change rows i field change)"
    and "Suc i < length rows \<Longrightarrow> px_chain (rows ! i) = px_chain (rows ! Suc i)
      \<and> px_contract_key (rows ! i) = px_contract_key (rows ! Suc i)
      \<and> px_block_number (rows ! i) < px_block_number (rows ! Suc i)"
    and "distinct (map (\<lambda>c. (pd_from_block c, pd_field c)) changes)"
proof -
  let ?step = "\<lambda>i. List.map_filter (\<lambda>field. proxy_change_of (rows ! i) (rows ! Suc i)
      (field, field_evidence (rows ! i) field, field_evidence (rows ! Suc i) field)) field_names"
  obtain css where css: "length css = length rows - 1"
      "\<forall>i < length css. derive_proxy_authority_changes (rows ! i) (rows ! Suc i) = Inr (css ! i)"
    and changes: "changes = concat css"
    using assms by (auto simp: build_proxy_authority_change_history_def and_then_Inr history_Inr)
  note step = css(2) [unfolded derive_proxy_Inr derived_changes]
  show order: "px_chain (rows ! i) = px_chain (rows ! Suc i) \<and> px_contract_key (rows ! i) = px_contract_key (rows ! Suc i)
      \<and> px_block_number (rows ! i) < px_block_number (rows ! Suc i)" if "Suc i < length rows" for i
    using step css(1) that by simp
  have css': "css = map ?step [0 ..< length rows - 1]"
    using step css(1) by (intro nth_equalityI) simp_all
  show "change \<in> set changes \<longleftrightarrow> (\<exists>i field. is_change rows i field change)"
    unfolding changes css' is_change_def by (auto simp: in_map_filter less_diff_conv)
  have rising: "px_block_number (rows ! i) < px_block_number (rows ! j)" if "i < j" "j < length rows" for i j
    using that(2,1)
  proof (induction j)
    case (Suc j)
    then show ?case using order [of j] by (cases "i = j") (auto intro: less_trans)
  qed simp
  have key: "pd_field c = field \<and> pd_from_block c = px_block_number p" if "proxy_change_of p q (field, e, e') = Some c" for p q field e e' c
    using that by (auto simp: proxy_change_of_def Let_def split: if_splits)
  have fields: "map pd_field (List.map_filter (\<lambda>field. proxy_change_of p q (field, field_evidence p field, field_evidence q field)) fs)
      = filter (\<lambda>field. proxy_change_of p q (field, field_evidence p field, field_evidence q field) \<noteq> None) fs" for p q fs
    by (induction fs) (auto simp: List.map_filter_simps key split: option.splits)
  have "distinct field_names" by (simp add: field_names_def)
  then have "distinct (map pd_field (?step i))" for i unfolding fields by (rule distinct_filter)
  moreover have "pd_from_block c = px_block_number (rows ! i)" if "c \<in> set (?step i)" for i c
    using that key by (auto simp: in_map_filter)
  ultimately show "distinct (map (\<lambda>c. (pd_from_block c, pd_field c)) changes)"
    unfolding changes css' using rising
    by (intro distinct_steps [where b = "\<lambda>i. px_block_number (rows ! i)"]) auto
qed

section \<open>The alert of a change\<close>

definition alert_type_of :: "string \<Rightarrow> string" where
  "alert_type_of field = (case map_of alert_types field of Some t \<Rightarrow> t | None \<Rightarrow> [])"

text \<open>The text that identifies a change, and the identifier made of it.\<close>

definition alert_material :: "proxy_change \<Rightarrow> string" where
  "alert_material change = join_with ''|''
     [pd_chain change, pd_contract_key change, dec_int (pd_from_block change), dec_int (pd_to_block change),
      alert_type_of (pd_field change), pd_field change, pd_classification change,
      text_or_empty (pd_before_address change), text_or_empty (pd_after_address change)]"

definition material_digest :: "string \<Rightarrow> string" where
  "material_digest m = ''proxy-alert:'' @ sha256_hex (utf8 m)"

definition alert_of :: "proxy_change \<Rightarrow> proxy_alert" where
  "alert_of change =
    \<lparr>al_alert_id = material_digest (alert_material change), al_chain = pd_chain change,
     al_contract_key = pd_contract_key change, al_from_block = pd_from_block change, al_to_block = pd_to_block change,
     al_alert_type = alert_type_of (pd_field change), al_field = pd_field change,
     al_severity = (if pd_classification change = ''ADDRESS_CHANGED'' then ''HIGH'' else ''MEDIUM''),
     al_classification = pd_classification change, al_before_address = pd_before_address change,
     al_after_address = pd_after_address change, al_before_providers = sorted_set (pd_before_providers change),
     al_after_providers = sorted_set (pd_after_providers change),
     al_evidence_quality = (if pd_before_address change \<noteq> None \<and> pd_after_address change \<noteq> None
       then ''TWO_SIDED_QUORUM'' else ''ONE_SIDED_QUORUM''),
     al_intent = ''NOT_DETERMINED'', al_status = alert_status\<rparr>"

lemma valid_change:
  assumes "is_change rows i field change" "backed (rows ! i)" "backed (rows ! Suc i)"
    and "px_block_number (rows ! i) < px_block_number (rows ! Suc i)"
  shows "validate_alert_change change = Inr ()"
proof -
  let ?a = "field_evidence (rows ! i) field" and ?b = "field_evidence (rows ! Suc i) field"
  have c: "address_of (rows ! i) field \<noteq> address_of (rows ! Suc i) field"
    and f: "field \<in> set field_names" and ch: "pd_status change = change_status" "pd_field change = field"
      "pd_from_block change = px_block_number (rows ! i)" "pd_to_block change = px_block_number (rows ! Suc i)"
      "pd_before_address change = map_option ae_address ?a" "pd_after_address change = map_option ae_address ?b"
      "pd_before_providers change = evidence_providers ?a" "pd_after_providers change = evidence_providers ?b"
      "pd_classification change = change_classification (map_option ae_address ?a) (map_option ae_address ?b)"
    using assms(1) by (simp_all add: is_change_def proxy_change_iff address_of_def)
  have "map_of alert_types field \<noteq> None" using f by (auto simp: field_names_def alert_types_def)
  then have t: "\<exists>t. map_of alert_types field = Some t" by blast
  have p: "\<not> length (remdups (ae_providers ev)) < 2" if "?a = Some ev \<or> ?b = Some ev" for ev
    using backed_field assms(2,3) that by (metis leD)
  show ?thesis
    using c t p assms(4)
    by (cases ?a; cases ?b)
      (simp_all add: validate_alert_change_def ch change_classification_def require_provider_quorum_def
        evidence_providers_def address_of_def)
qed

lemma alert_of_change:
  assumes "validate_alert_change change = Inr ()" "\<bar>pd_from_block change\<bar> < text_limit" "\<bar>pd_to_block change\<bar> < text_limit"
  shows "alert_from_proxy_authority_change change = Inr (alert_of change)"
  using assms
  by (simp add: alert_from_proxy_authority_change_def alert_identifier_def int_text_def alert_of_def alert_type_of_def
      alert_material_def material_digest_def Let_def)

lemma collect_all_alerts:
  assumes "\<forall>c \<in> set changes. alert_from_proxy_authority_change c = Inr (alert_of c)"
    and "distinct (map (\<lambda>c. al_alert_id (alert_of c)) changes)"
    and "(\<lambda>c. al_alert_id (alert_of c)) ` set changes \<inter> set seen = {}"
  shows "collect_alerts seen changes = Inr (map alert_of changes)"
  using assms by (induction changes arbitrary: seen) auto

lemma no_bar_dec_int: "CHR ''|'' \<notin> set (dec_int n)"
proof -
  have "\<not> is_digit (CHR ''|'')" by code_simp
  then have "CHR ''|'' \<notin> set (dec_nat k)" for k using dec_nat_digits [of k] by (auto simp: list_all_iff)
  then show ?thesis by (simp add: dec_int_def)
qed

lemma dec_int_eq: "dec_int m = dec_int n \<Longrightarrow> m = n"
proof -
  have d: "\<not> is_digit (CHR ''-'')" by code_simp
  have minus: "dec_nat k \<noteq> CHR ''-'' # s" for k s using dec_nat_digits [of k] d by auto
  have nat: "dec_nat k = dec_nat l \<Longrightarrow> k = l" for k l by (metis nat_of_digits_dec_nat)
  assume eq: "dec_int m = dec_int n"
  show ?thesis
  proof (cases "m < 0 \<longleftrightarrow> n < 0")
    case True
    with eq have "nat (if m < 0 then - m else m) = nat (if n < 0 then - n else n)"
      using nat by (auto simp: dec_int_def split: if_splits)
    with True show ?thesis by (auto split: if_splits)
  next
    case False
    with eq minus show ?thesis by (auto simp: dec_int_def split: if_splits) (metis minus)+
  qed
qed

text \<open>Changes of one contract with the same text are of the same field between the same blocks.\<close>

lemma material_identifies:
  assumes "alert_material c = alert_material d" "pd_chain c = pd_chain d" "pd_contract_key c = pd_contract_key d"
    and "pd_field c \<in> set field_names" "pd_field d \<in> set field_names"
  shows "pd_from_block c = pd_from_block d \<and> pd_field c = pd_field d"
proof -
  have bars: "\<forall>f \<in> set field_names. CHR ''|'' \<notin> set f \<and> CHR ''|'' \<notin> set (alert_type_of f)"
    by (simp add: field_names_def alert_type_of_def alert_types_def)
  let ?rest = "\<lambda>ch. pd_classification ch @ CHR ''|'' # text_or_empty (pd_before_address ch)
      @ CHR ''|'' # text_or_empty (pd_after_address ch)"
  let ?typed = "\<lambda>ch. alert_type_of (pd_field ch) @ CHR ''|'' # pd_field ch @ CHR ''|'' # ?rest ch"
  have "dec_int (pd_from_block c) @ CHR ''|'' # dec_int (pd_to_block c) @ CHR ''|'' # ?typed c
      = dec_int (pd_from_block d) @ CHR ''|'' # dec_int (pd_to_block d) @ CHR ''|'' # ?typed d"
    using assms(1-3) by (simp add: alert_material_def)
  note blocks = separator_split [OF this no_bar_dec_int no_bar_dec_int]
  note typed = conjunct2 [OF separator_split [OF conjunct2 [OF blocks] no_bar_dec_int no_bar_dec_int]]
  have "pd_field c @ CHR ''|'' # ?rest c = pd_field d @ CHR ''|'' # ?rest d"
    using separator_split [OF typed] bars assms(4,5) by blast
  from separator_split [OF this] have "pd_field c = pd_field d" using bars assms(4,5) by blast
  with dec_int_eq [OF conjunct1 [OF blocks]] show ?thesis by blast
qed

section \<open>Properties\<close>

text \<open>What an alert says has changed, and what has changed between neighbouring snapshots.\<close>

definition alert_subject :: "proxy_alert \<Rightarrow> int \<times> int \<times> string \<times> string option \<times> string option" where
  "alert_subject a = (al_from_block a, al_to_block a, al_field a, al_before_address a, al_after_address a)"

definition differences :: "proxy_authority list \<Rightarrow> (int \<times> int \<times> string \<times> string option \<times> string option) set" where
  "differences rows =
     {(px_block_number (rows ! i), px_block_number (rows ! Suc i), field, address_of (rows ! i) field,
       address_of (rows ! Suc i) field) | i field. Suc i < length rows \<and> field \<in> set field_names
       \<and> address_of (rows ! i) field \<noteq> address_of (rows ! Suc i) field}"

text \<open>
  C31: No change of authority goes without its alert, and no alert without its change: for snapshots
  whose addresses have two distinct providers each, the history exists exactly when the snapshots are
  of one contract at increasing blocks; its alerts never fail and are, one for one, the fields whose
  address differs between neighbouring snapshots, unless the digests of two of the changes collide.
\<close>

theorem proxy_changes_are_alerted:
  assumes "\<forall>row \<in> set rows. backed row \<and> \<bar>px_block_number row\<bar> < text_limit"
  shows "((\<exists>changes. build_proxy_authority_change_history rows = Inr changes) \<longleftrightarrow>
       (\<forall>i. Suc i < length rows \<longrightarrow> px_chain (rows ! i) = px_chain (rows ! Suc i)
          \<and> px_contract_key (rows ! i) = px_contract_key (rows ! Suc i)
          \<and> px_block_number (rows ! i) < px_block_number (rows ! Suc i)))
    \<and> (\<forall>changes. build_proxy_authority_change_history rows = Inr changes
         \<and> inj_on material_digest (alert_material ` set changes) \<longrightarrow>
         (\<exists>alerts. build_proxy_authority_alerts changes = Inr alerts \<and> length alerts = length changes
            \<and> distinct (map al_alert_id alerts) \<and> alert_subject ` set alerts = differences rows
            \<and> (\<forall>alert \<in> set alerts. al_severity alert = ''HIGH''
                 \<longleftrightarrow> al_before_address alert \<noteq> None \<and> al_after_address alert \<noteq> None)))"
proof (intro conjI allI impI)
  show "(\<exists>changes. build_proxy_authority_change_history rows = Inr changes) \<longleftrightarrow>
       (\<forall>i. Suc i < length rows \<longrightarrow> px_chain (rows ! i) = px_chain (rows ! Suc i)
          \<and> px_contract_key (rows ! i) = px_contract_key (rows ! Suc i)
          \<and> px_block_number (rows ! i) < px_block_number (rows ! Suc i))"
    using history_ok [of derive_proxy_authority_changes rows]
    by (simp add: build_proxy_authority_change_history_def and_then_Inr derive_proxy_Inr)
next
  fix changes
  assume h: "build_proxy_authority_change_history rows = Inr changes
      \<and> inj_on material_digest (alert_material ` set changes)"
  note hc = history_changes [OF conjunct1 [OF h]]
  have row: "backed (rows ! j) \<and> \<bar>px_block_number (rows ! j)\<bar> < text_limit" if "j < length rows" for j
    using assms that by simp
  have chg: "alert_from_proxy_authority_change c = Inr (alert_of c)
      \<and> (al_severity (alert_of c) = ''HIGH'' \<longleftrightarrow> al_before_address (alert_of c) \<noteq> None \<and> al_after_address (alert_of c) \<noteq> None)
      \<and> pd_chain c = px_chain (rows ! 0) \<and> pd_contract_key c = px_contract_key (rows ! 0) \<and> pd_field c \<in> set field_names"
    if mem: "c \<in> set changes" for c
  proof -
    obtain i field where c: "is_change rows i field c" using hc(1) mem by blast
    then have i: "Suc i < length rows" "i < length rows" and f: "field \<in> set field_names" by (simp_all add: is_change_def)
    have v: "validate_alert_change c = Inr ()" by (rule valid_change [OF c]) (use row i hc(2) in auto)
    have same: "px_chain (rows ! k) = px_chain (rows ! 0) \<and> px_contract_key (rows ! k) = px_contract_key (rows ! 0)"
      if "k < length rows" for k
      using that hc(2) by (induction k) (metis Suc_lessD)+
    have ch: "pd_chain c = px_chain (rows ! Suc i)" "pd_contract_key c = px_contract_key (rows ! Suc i)" "pd_field c = field"
        "pd_from_block c = px_block_number (rows ! i)" "pd_to_block c = px_block_number (rows ! Suc i)"
        "pd_classification c = change_classification (pd_before_address c) (pd_after_address c)"
        "pd_before_address c \<noteq> pd_after_address c"
      using c by (simp_all add: is_change_def proxy_change_iff)
    have "alert_from_proxy_authority_change c = Inr (alert_of c)"
      by (rule alert_of_change [OF v]) (use ch row i in simp_all)
    moreover have "al_severity (alert_of c) = ''HIGH'' \<longleftrightarrow> al_before_address (alert_of c) \<noteq> None \<and> al_after_address (alert_of c) \<noteq> None"
      using ch(6,7) by (auto simp: alert_of_def change_classification_def)
    ultimately show ?thesis using ch(1-3) same [OF i(1)] f by simp
  qed
  have inj: "c = d" if cd: "c \<in> set changes" "d \<in> set changes" "al_alert_id (alert_of c) = al_alert_id (alert_of d)" for c d
  proof -
    have "material_digest (alert_material c) = material_digest (alert_material d)" using cd(3) by (simp add: alert_of_def)
    then have "alert_material c = alert_material d" using h cd(1,2) by (auto dest: inj_onD)
    then have "pd_from_block c = pd_from_block d \<and> pd_field c = pd_field d"
      using chg [OF cd(1)] chg [OF cd(2)] by (intro material_identifies) simp_all
    then show ?thesis using hc(3) cd(1,2) by (auto simp: distinct_map dest: inj_onD)
  qed
  have "distinct changes" using hc(3) by (simp add: distinct_map)
  with inj have ids: "distinct (map (\<lambda>c. al_alert_id (alert_of c)) changes)" by (simp add: distinct_map inj_on_def)
  have "build_proxy_authority_alerts changes = Inr (map alert_of changes)"
    unfolding build_proxy_authority_alerts_def by (rule collect_all_alerts) (use chg ids in simp_all)
  moreover have "alert_subject ` set (map alert_of changes) = differences rows"
  proof -
    have "alert_subject (alert_of c) = (px_block_number (rows ! i), px_block_number (rows ! Suc i), field,
        address_of (rows ! i) field, address_of (rows ! Suc i) field)" if "is_change rows i field c" for i field c
      using that by (simp add: alert_subject_def alert_of_def is_change_def proxy_change_iff)
    moreover have "(\<exists>c. is_change rows i field c) \<longleftrightarrow> Suc i < length rows \<and> field \<in> set field_names
        \<and> address_of (rows ! i) field \<noteq> address_of (rows ! Suc i) field" for i field
      by (auto simp: is_change_def proxy_change_iff)
    ultimately show ?thesis unfolding differences_def using hc(1) by (auto simp: image_iff) metis+
  qed
  ultimately show "\<exists>alerts. build_proxy_authority_alerts changes = Inr alerts \<and> length alerts = length changes
      \<and> distinct (map al_alert_id alerts) \<and> alert_subject ` set alerts = differences rows
      \<and> (\<forall>alert \<in> set alerts. al_severity alert = ''HIGH''
           \<longleftrightarrow> al_before_address alert \<noteq> None \<and> al_after_address alert \<noteq> None)"
    using ids chg by (intro exI [of _ "map alert_of changes"]) (simp add: comp_def)
qed

definition demo_snapshot :: "int \<Rightarrow> string \<Rightarrow> proxy_authority" where
  "demo_snapshot n address = proxy_evidence (demo_proxy_code\<lparr>ce_block_number := n\<rparr>) None None
     (Some \<lparr>ae_selector = owner_selector, ae_address = address, ae_address_key = ''base:'' @ address,
        ae_status = ''OWNER_SELECTOR_QUORUM_EVIDENCE'', ae_providers = [''a'', ''b'']\<rparr>) None None None None"

lemma proxy_changes_are_alerted_witness:
  "\<exists>changes alerts. build_proxy_authority_change_history [demo_snapshot 5 ''0xa'', demo_snapshot 6 ''0xb''] = Inr changes
     \<and> build_proxy_authority_alerts changes = Inr alerts
     \<and> alert_subject ` set alerts = {(5, 6, ''owner_selector'', Some ''0xa'', Some ''0xb'')}"
proof -
  let ?rows = "[demo_snapshot 5 ''0xa'', demo_snapshot 6 ''0xb'']"
  have "(10 :: int) ^ 1 \<le> text_limit" unfolding text_limit_def by (rule power_increasing) simp_all
  then have rows: "\<forall>row \<in> set ?rows. backed row \<and> \<bar>px_block_number row\<bar> < text_limit"
    by (simp add: demo_snapshot_def proxy_evidence_def backed_def authority_fields_def)
  have fields: "authority_fields (demo_snapshot n a) = map (\<lambda>f. (f, None)) (take 2 field_names)
      @ (''owner_selector'', px_owner (demo_snapshot n a)) # map (\<lambda>f. (f, None)) (drop 3 field_names)" for n a
    by (simp add: authority_fields_def field_names_def demo_snapshot_def proxy_evidence_def)
  have address: "address_of (demo_snapshot n a) field = (if field = ''owner_selector'' then Some a else None)"
    if "field \<in> set field_names" for n a field
    using that unfolding address_of_def field_evidence_def fields
    by (auto simp: field_names_def demo_snapshot_def proxy_evidence_def)
  obtain change where c: "build_proxy_authority_change_history ?rows = Inr [change]"
    by (simp add: demo_snapshot_def proxy_evidence_def build_proxy_authority_change_history_def demo_proxy_code_def
        derive_proxy_authority_changes_def require_same_ordered_contract_def authority_fields_def
        proxy_change_of_def change_classification_def)
  obtain alerts where "build_proxy_authority_alerts [change] = Inr alerts" "alert_subject ` set alerts = differences ?rows"
    using proxy_changes_are_alerted [OF rows] c by auto
  moreover have "differences ?rows = {(5, 6, ''owner_selector'', Some ''0xa'', Some ''0xb'')}"
  proof -
    have "differences ?rows = {(5, 6, field, address_of (demo_snapshot 5 ''0xa'') field, address_of (demo_snapshot 6 ''0xb'') field)
        | field. field \<in> set field_names
          \<and> address_of (demo_snapshot 5 ''0xa'') field \<noteq> address_of (demo_snapshot 6 ''0xb'') field}"
      by (auto simp: differences_def demo_snapshot_def proxy_evidence_def)
    also have "\<dots> = {(5, 6, ''owner_selector'', Some ''0xa'', Some ''0xb'')}"
    proof -
      have owner: "''owner_selector'' \<in> set field_names" by (simp add: field_names_def)
      have "field \<in> set field_names \<and> address_of (demo_snapshot 5 ''0xa'') field \<noteq> address_of (demo_snapshot 6 ''0xb'') field
          \<longleftrightarrow> field = ''owner_selector''" for field
        using address [of field] address [OF owner] owner by (cases "field = ''owner_selector''") auto
      then show ?thesis by (simp add: address [OF owner])
    qed
    finally show ?thesis .
  qed
  ultimately show ?thesis using c by blast
qed

end
