(* ===== verification/Evm_Ingestion.thy ===== *)
theory Evm_Ingestion
  imports Evm_Discovery
begin

text \<open>
  The ingestion of one confirmed block and its logs by redundant providers (\<^verbatim>\<open>evm_ingestion.py\<close>).
\<close>

section \<open>The text of the logs\<close>

text \<open>\<^verbatim>\<open>json.dumps\<close> with sorted keys, no spaces, ASCII only and \<^verbatim>\<open>default=str\<close>.\<close>

definition json_char :: "char \<Rightarrow> string" where
  "json_char c =
    (let n = code_of c in
     if c = CHR 0x22 \<or> c = CHR 0x5C then [CHR 0x5C, c]
     else if n = 10 then [CHR 0x5C, CHR ''n'']
     else if n = 13 then [CHR 0x5C, CHR ''r'']
     else if n = 9 then [CHR 0x5C, CHR ''t'']
     else if n = 8 then [CHR 0x5C, CHR ''b'']
     else if n = 12 then [CHR 0x5C, CHR ''f'']
     else if n < 32 \<or> 127 \<le> n then [CHR 0x5C, CHR ''u'', CHR ''0'', CHR ''0'', hex_digit (n div 16), hex_digit (n mod 16)]
     else [c])"

definition json_string :: "string \<Rightarrow> string" where
  "json_string s = CHR 0x22 # concat (map json_char s) @ [CHR 0x22]"

definition json_float :: "pyfloat \<Rightarrow> string" where
  "json_float f =
    (case f of NotANumber \<Rightarrow> ''NaN'' | PosInf \<Rightarrow> ''Infinity'' | NegInf \<Rightarrow> ''-Infinity'' | Fin _ \<Rightarrow> float_repr f)"

fun json_text :: "pyval \<Rightarrow> string evm"
  and json_items :: "pyval list \<Rightarrow> string list evm"
  and json_pairs :: "(string \<times> pyval) list \<Rightarrow> (string \<times> string) list evm" where
  "json_text PNone = Inr ''null''"
| "json_text (PBool b) = Inr (if b then ''true'' else ''false'')"
| "json_text (PInt n) = int_text n"
| "json_text (PFloat f) = Inr (json_float f)"
| "json_text (PStr s) = Inr (json_string s)"
| "json_text (PDt d) = Inr (json_string (py_str (PDt d)))"
| "json_text (PList vs) = and_then (json_items vs) (\<lambda>texts. Inr (''['' @ join '','' texts @ '']''))"
| "json_text (PDict kvs) =
     and_then (json_pairs kvs) (\<lambda>texts. Inr (''{'' @ join '','' (map (\<lambda>(k, t). json_string k @ '':'' @ t) (sort_key fst texts)) @ ''}''))"
| "json_items [] = Inr []"
| "json_items (v # vs) = and_then (json_text v) (\<lambda>t. and_then (json_items vs) (\<lambda>ts. Inr (t # ts)))"
| "json_pairs [] = Inr []"
| "json_pairs ((k, v) # kvs) = and_then (json_text v) (\<lambda>t. and_then (json_pairs kvs) (\<lambda>ts. Inr ((k, t) # ts)))"

definition log_key :: "pydict \<Rightarrow> string \<times> string \<times> string" where
  "log_key item =
    (str_or_empty (dget item ''transactionHash''), str_or_empty (dget item ''logIndex''),
     lower (str_or_empty (dget item ''address'')))"

definition canonical_logs :: "pydict list \<Rightarrow> pydict list" where
  "canonical_logs logs = sort_key log_key logs"

definition logs_digest :: "pydict list \<Rightarrow> string evm" where
  "logs_digest logs = and_then (json_text (PList (map PDict logs))) (\<lambda>payload. Inr (sha256_hex (utf8 payload)))"

section \<open>The ingestion\<close>

definition block_hash_at :: "int \<Rightarrow> string observing" where
  "block_hash_at n = obs_then (get_block_by_number n) (\<lambda>d. obs_lift (Inr (py_str (dget d ''hash''))))"

definition digested_logs :: "string \<Rightarrow> int \<Rightarrow> (string \<times> pydict list) observing" where
  "digested_logs block_hash n =
    obs_then (get_logs_for_block block_hash (Some n)) (\<lambda>logs.
    obs_lift (and_then (logs_digest (canonical_logs logs)) (\<lambda>digest. Inr (digest, canonical_logs logs))))"

definition on_head_chain :: "consensus_observation \<Rightarrow> evm_rpc \<Rightarrow> bool" where
  "on_head_chain head rpc \<longleftrightarrow> cc_key (rpc_chain rpc) = hc_chain head \<and> cc_chain_id (rpc_chain rpc) = Some (hc_chain_id head)"

definition block_verdict :: "int \<Rightarrow> (string \<times> string) list \<Rightarrow> (string \<times> string list) evm" where
  "block_verdict min_quorum rows =
    (case sole (qualifying min_quorum (group_rows rows)) of
       None \<Rightarrow> Inl (Rpc_Error ''exact block-hash consensus not reached'')
     | Some agreed \<Rightarrow> Inr agreed)"

text \<open>The log sets by digest: the providers of a digest, each with its own logs.\<close>

definition logs_verdict ::
  "int \<Rightarrow> (string \<times> string \<times> pydict list) list \<Rightarrow> (string \<times> (string \<times> pydict list) list) evm" where
  "logs_verdict min_quorum rows =
    (case sole (qualifying min_quorum (group_rows (map (\<lambda>(p, digest, logs). ((p, logs), digest)) rows))) of
       None \<Rightarrow> Inl (Rpc_Error ''exact log-set consensus not reached'')
     | Some agreed \<Rightarrow> Inr agreed)"

definition ingested ::
  "string \<Rightarrow> consensus_observation \<Rightarrow> int \<Rightarrow> string \<times> string list \<Rightarrow> string \<times> (string \<times> pydict list) list
     \<Rightarrow> ingested_block" where
  "ingested now head target blocks entries =
    (case (blocks, entries) of
       ((block_hash, providers), (digest, rows)) \<Rightarrow>
         \<lparr>ib_chain = hc_chain head, ib_chain_id = hc_chain_id head, ib_block_number = target, ib_block_hash = block_hash,
          ib_observed_at = now, ib_head_consensus = head,
          ib_block_sources = map (\<lambda>p. \<lparr>bs_provider = p, bs_block_hash = block_hash\<rparr>) providers,
          ib_logs = map PDict (snd (hd rows)),
          ib_log_sources = map (\<lambda>(p, logs). \<lparr>ls_provider = p, ls_digest = digest, ls_log_count = int (length logs)\<rparr>) rows\<rparr>)"

text \<open>\<open>now\<close> and \<open>later\<close> are the times of the head and of the block; the distinct observers come back.\<close>

definition ingest_consensus_block ::
  "string \<Rightarrow> string \<Rightarrow> int \<Rightarrow> int \<Rightarrow> int \<Rightarrow> evm_rpc list \<Rightarrow> ingested_block evm \<times> evm_rpc list" where
  "ingest_consensus_block now later confirmations min_quorum max_block_skew observers =
    (let providers = distinct_observers [] observers in
     if confirmations < 0 then (Inl (Value_Error ''confirmations must be non-negative''), providers)
     else if min_quorum < 2 then (Inl (Value_Error ''min_quorum must be at least 2''), providers)
     else
       pass_then (observe_consensus_head now min_quorum max_block_skew providers) (\<lambda>head providers.
       let target = hc_canonical head - confirmations in
       if target < 0 then (Inl (Rpc_Error ''consensus head is too young for requested confirmations''), providers)
       else
         pass_then (sweep (\<lambda>_. True) (on_head_chain head) is_rpc_error (block_hash_at target) [] providers)
           (\<lambda>rows providers.
         pass_then (block_verdict min_quorum rows, providers) (\<lambda>blocks providers.
         pass_then (sweep (\<lambda>_. True) (\<lambda>rpc. fingerprint rpc \<in> set (snd blocks)) is_rpc_error
             (digested_logs (fst blocks) target) [] providers) (\<lambda>rows providers.
         pass_then (logs_verdict min_quorum rows, providers) (\<lambda>entries providers.
           (Inr (ingested later head target blocks entries), providers)))))))"

section \<open>What the readings say\<close>

definition says_block :: "int \<Rightarrow> evm_rpc \<Rightarrow> string \<Rightarrow> bool" where
  "says_block n rpc h \<longleftrightarrow>
     (\<exists>i d. attested rpc i \<and> answered rpc (i + 1) ''eth_getBlockByNumber'' [PStr (py_hex n), PBool False] (PDict d)
        \<and> hex_int (dget d ''number'') ''block number'' = Inr n \<and> dget d ''hash'' = PStr h
        \<and> is_hex_data (PStr h) (Some 32))"

definition anchored_log :: "string \<Rightarrow> int \<Rightarrow> pydict \<Rightarrow> bool" where
  "anchored_log block_hash n item \<longleftrightarrow>
     dget item ''blockHash'' = PStr block_hash \<and> hex_int (dget item ''blockNumber'') ''log block number'' = Inr n
     \<and> is_hex_data (dget item ''address'') (Some 20) \<and> is_hex_data (dget item ''transactionHash'') (Some 32)
     \<and> is_hex_data (dget item ''data'') None \<and> dget item ''removed'' = PBool False
     \<and> (\<exists>ts. dget item ''topics'' = PList ts \<and> (\<forall>t \<in> set ts. is_hex_data t (Some 32)))"

definition log_index :: "pydict \<Rightarrow> int evm" where
  "log_index item = hex_int (dget item ''logIndex'') ''log index''"

definition says_logs :: "string \<Rightarrow> int \<Rightarrow> evm_rpc \<Rightarrow> pydict list \<Rightarrow> bool" where
  "says_logs block_hash n rpc logs \<longleftrightarrow>
     (\<exists>i. attested rpc i \<and> answered rpc (i + 1) ''eth_getLogs'' [PDict [(''blockHash'', PStr block_hash)]] (PList (map PDict logs)))
     \<and> (\<forall>item \<in> set logs. anchored_log block_hash n item) \<and> distinct (map log_index logs)"

definition says_digest :: "string \<Rightarrow> int \<Rightarrow> evm_rpc \<Rightarrow> string \<Rightarrow> bool" where
  "says_digest block_hash n rpc digest \<longleftrightarrow>
     (\<exists>logs. says_logs block_hash n rpc logs \<and> logs_digest (canonical_logs logs) = Inr digest)"

lemma check_logs_sound:
  "check_logs block_hash (Some n) seen logs = Inr () \<Longrightarrow>
     (\<forall>item \<in> set logs. anchored_log block_hash n item) \<and> distinct (map log_index logs)
     \<and> (\<forall>item \<in> set logs. \<forall>i \<in> set seen. log_index item \<noteq> Inr i)"
proof (induction logs arbitrary: seen)
  case (Cons item logs)
  then obtain index where step: "anchored_log block_hash n item" "log_index item = Inr index" "index \<notin> set seen"
      "check_logs block_hash (Some n) (index # seen) logs = Inr ()"
    by (auto simp: and_then_Inr anchored_log_def log_index_def is_false_def list_ex_iff split: pyval.splits bool.splits)
  from Cons.IH [OF step(4)] step show ?case by auto
qed simp

lemma dicts_of_Some: "dicts_of vs = Some ds \<longleftrightarrow> vs = map PDict ds"
  by (induction vs arbitrary: ds) (auto split: pyval.splits)

lemma hex_data_text: "is_hex_data v k \<Longrightarrow> v = PStr (py_str v)"
  by (cases v) (simp_all add: is_hex_data_def py_str_def)

lemma block_of_Inr:
  "(case result of
      PDict d \<Rightarrow>
        and_then (hex_int (dget d ''number'') ''block number'') (\<lambda>observed.
        if observed \<noteq> n
        then and_then (int_text n) (\<lambda>expected. and_then (int_text observed) (\<lambda>got. Inl (f expected got)))
        else raise_if (\<not> is_hex_data (dget d ''hash'') (Some 32)) e (Inr d))
    | _ \<Rightarrow> Inl e') = Inr d \<longleftrightarrow>
     result = PDict d \<and> hex_int (dget d ''number'') ''block number'' = Inr n \<and> is_hex_data (dget d ''hash'') (Some 32)"
  by (cases result) (auto simp: and_then_Inr)

lemma block_hash_at_says:
  assumes "block_hash_at n rpc = (Inr h, rpc')"
  shows "says_block n rpc h"
proof -
  obtain i d where "attested rpc i" "answered rpc (i + 1) ''eth_getBlockByNumber'' [PStr (py_hex n), PBool False] (PDict d)"
    and "hex_int (dget d ''number'') ''block number'' = Inr n"
    and h: "is_hex_data (dget d ''hash'') (Some 32)" "h = py_str (dget d ''hash'')"
    using assms by (auto simp: block_hash_at_def get_block_by_number_def observing_Inr block_of_Inr)
  moreover have "dget d ''hash'' = PStr h" unfolding h(2) using h(1) by (rule hex_data_text)
  ultimately show ?thesis unfolding says_block_def by metis
qed

lemma logs_of_Some: "(case result of PList vs \<Rightarrow> dicts_of vs | _ \<Rightarrow> None) = Some logs \<longleftrightarrow> result = PList (map PDict logs)"
  by (cases result) (simp_all add: dicts_of_Some)

lemma digested_logs_says:
  assumes "digested_logs block_hash n rpc = (Inr (digest, canon), rpc')"
  shows "\<exists>logs. says_logs block_hash n rpc logs \<and> canon = canonical_logs logs \<and> logs_digest canon = Inr digest"
proof -
  obtain logs rpc1 where g: "get_logs_for_block block_hash (Some n) rpc = (Inr logs, rpc1)"
    and d: "canon = canonical_logs logs" "logs_digest canon = Inr digest"
    using assms by (auto simp: digested_logs_def obs_then_Inr and_then_Inr)
  obtain i result where "attested rpc i" "answered rpc (i + 1) ''eth_getLogs'' [PDict [(''blockHash'', PStr block_hash)]] result"
    and "(case result of PList vs \<Rightarrow> dicts_of vs | _ \<Rightarrow> None) = Some logs" "check_logs block_hash (Some n) [] logs = Inr ()"
    using g by (auto simp: get_logs_for_block_def observing_Inr and_then_Inr split: option.splits)
  then have "says_logs block_hash n rpc logs"
    using check_logs_sound unfolding says_logs_def logs_of_Some by blast
  with d show ?thesis by blast
qed

lemma says_endpoint_block: "same_endpoint a b \<Longrightarrow> says_block n b = says_block n a"
  by (simp add: says_block_def fun_eq_iff answered_endpoint)

lemma says_endpoint_logs: "same_endpoint a b \<Longrightarrow> says_logs h n b = says_logs h n a"
  by (simp add: says_logs_def fun_eq_iff answered_endpoint)

lemma says_endpoint_digest: "same_endpoint a b \<Longrightarrow> says_digest h n b = says_digest h n a"
  by (simp add: says_digest_def fun_eq_iff says_endpoint_logs)

lemma ingestion_keeps: "keeps (block_hash_at n)" "keeps (digested_logs h n)"
  unfolding block_hash_at_def digested_logs_def by (intro observing_intros)+

interpretation blocks: reading "block_hash_at n" "says_block n"
  by unfold_locales (auto simp: ingestion_keeps dest: block_hash_at_says)

interpretation digests: decoded_reading "digested_logs h n"
    "\<lambda>rpc (digest, canon). \<exists>logs. says_logs h n rpc logs \<and> canon = canonical_logs logs \<and> logs_digest canon = Inr digest"
    "Some \<circ> fst"
  for h n
  by unfold_locales (auto simp: ingestion_keeps dest: digested_logs_says)

section \<open>The passes of an ingestion\<close>

lemma on_head_chain_endpoint: "same_endpoint a b \<Longrightarrow> on_head_chain head b = on_head_chain head a"
  by (simp add: on_head_chain_def same_endpoint_fields)

text \<open>The digests of the rows carry the same groups as the rows.\<close>

lemma logs_verdict_group:
  assumes "logs_verdict k rows = Inr (digest, entries)"
  shows "(digest, map fst entries) \<in> set (qualifying k (group_rows (decode_rows (Some \<circ> fst) rows)))"
    and "(p, canon) \<in> set entries \<Longrightarrow> (p, digest, canon) \<in> set rows"
proof -
  let ?rows = "map (\<lambda>(p, digest, logs). ((p, logs), digest)) rows"
  have q: "(digest, entries) \<in> set (qualifying k (group_rows ?rows))"
    using assms by (auto simp: logs_verdict_def sole_Some split: option.splits)
  have e: "entries = map fst (filter (\<lambda>row. snd row = digest) ?rows)" "k \<le> int (length entries)"
    using qualifying_row [OF q] by simp_all
  have d: "digest \<in> snd ` set ?rows" using q by (auto simp: qualifying_def in_group_rows)
  have "map fst entries = map fst (filter (\<lambda>row. snd row = digest) (decode_rows (Some \<circ> fst) rows))"
    unfolding e(1) by (induction rows) auto
  moreover obtain q logs where "(q, digest, logs) \<in> set rows" using d by auto
  then have "(q, digest) \<in> set (decode_rows (Some \<circ> fst) rows)" by (force simp: in_decode_rows)
  then have "digest \<in> snd ` set (decode_rows (Some \<circ> fst) rows)" by force
  ultimately show "(digest, map fst entries) \<in> set (qualifying k (group_rows (decode_rows (Some \<circ> fst) rows)))"
    unfolding in_qualifying in_group_rows length_map using e(2) by blast
  show "(p, canon) \<in> set entries \<Longrightarrow> (p, digest, canon) \<in> set rows" unfolding e(1) by auto
qed

section \<open>Properties\<close>

text \<open>
  C17: An ingested block is quorum read: its height is the accepted head less the confirmations, its
  hash was given for that height by a quorum of distinct providers, its logs were given for that hash
  by one of a quorum of these providers whose logs all have the digest of the accepted ones, and
  fewer false providers than the quorum can change neither the hash nor the digest. Each log names
  the block and no log index repeats.
\<close>

theorem ingested_block_is_quorum_read:
  assumes "ingest_consensus_block now later confirmations k skew observers = (Inr block, observers')"
  shows "2 \<le> k \<and> 0 \<le> confirmations \<and> 0 \<le> ib_block_number block
    \<and> ib_block_number block = hc_canonical (ib_head_consensus block) - confirmations
    \<and> fst (observe_consensus_head now k skew (distinct_observers [] observers)) = Inr (ib_head_consensus block)
    \<and> ib_chain block = hc_chain (ib_head_consensus block) \<and> ib_chain_id block = hc_chain_id (ib_head_consensus block)
    \<and> quorum_says observers k (map bs_provider (ib_block_sources block))
        (\<lambda>rpc h. on_head_chain (ib_head_consensus block) rpc \<and> says_block (ib_block_number block) rpc h)
        (ib_block_hash block)
    \<and> set (map ls_provider (ib_log_sources block)) \<subseteq> set (map bs_provider (ib_block_sources block))
    \<and> (\<exists>logs digest. ib_logs block = map PDict (canonical_logs logs)
        \<and> logs_digest (canonical_logs logs) = Inr digest
        \<and> (\<forall>source \<in> set (ib_log_sources block). ls_digest source = digest)
        \<and> quorum_says observers k (map ls_provider (ib_log_sources block))
            (says_digest (ib_block_hash block) (ib_block_number block)) digest
        \<and> (\<exists>rpc \<in> set observers. fingerprint rpc = ls_provider (hd (ib_log_sources block))
             \<and> says_logs (ib_block_hash block) (ib_block_number block) rpc logs))"
proof -
  let ?providers = "distinct_observers [] observers"
  note run = assms [unfolded ingest_consensus_block_def Let_def]
  have g1: "\<not> confirmations < 0" by (rule notI) (use run in simp)
  have g2: "\<not> k < 2" by (rule notI) (use run g1 in simp)
  from run [unfolded if_not_P [OF g1] if_not_P [OF g2] pass_then_Inr]
  obtain head o1 where head: "observe_consensus_head now k skew ?providers = (Inr head, o1)"
    and rest: "(if hc_canonical head - confirmations < 0
       then (Inl (Rpc_Error ''consensus head is too young for requested confirmations''), o1)
       else pass_then (sweep (\<lambda>_. True) (on_head_chain head) is_rpc_error
              (block_hash_at (hc_canonical head - confirmations)) [] o1)
           (\<lambda>rows providers.
         pass_then (block_verdict k rows, providers) (\<lambda>blocks providers.
         pass_then (sweep (\<lambda>_. True) (\<lambda>rpc. fingerprint rpc \<in> set (snd blocks)) is_rpc_error
             (digested_logs (fst blocks) (hc_canonical head - confirmations)) [] providers) (\<lambda>rows providers.
         pass_then (logs_verdict k rows, providers) (\<lambda>entries providers.
           (Inr (ingested later head (hc_canonical head - confirmations) blocks entries), providers))))))
       = (Inr block, observers')"
    by (elim exE conjE) (rule that, assumption+)
  define n where "n = hc_canonical head - confirmations"
  have g3: "\<not> n < 0" by (rule notI) (use rest in \<open>simp add: n_def\<close>)
  from rest [folded n_def, unfolded if_not_P [OF g3] pass_then_Inr]
  obtain rows1 o2 h ps rows2 o3 digest entries where
    pass1: "sweep (\<lambda>_. True) (on_head_chain head) is_rpc_error (block_hash_at n) [] o1 = (Inr rows1, o2)"
    and v1: "block_verdict k rows1 = Inr (h, ps)"
    and pass2: "sweep (\<lambda>_. True) (\<lambda>rpc. fingerprint rpc \<in> set ps) is_rpc_error (digested_logs h n) [] o2 = (Inr rows2, o3)"
    and v2: "logs_verdict k rows2 = Inr (digest, entries)"
    and block: "block = ingested later head n (h, ps) (digest, entries)"
    by auto
  have o0: "origin observers ?providers"
    using distinct_observers_fresh [of "[]" observers] by (auto simp: origin_def intro: same_endpoint_refl)
  have o1: "origin observers o1" using origin_pass [OF o0 consensus_keeps] head by (metis snd_conv)
  have o2: "origin observers o2" using origin_pass [OF o1 sweep_keeps [OF ingestion_keeps(1)]] pass1 by (metis snd_conv)
  have q1: "(h, ps) \<in> set (qualifying k (group_rows rows1))"
    using v1 by (auto simp: block_verdict_def sole_Some split: option.splits)
  have hash: "quorum_says observers k ps (\<lambda>rpc x. on_head_chain head rpc \<and> says_block n rpc x) h"
    using blocks.qualifying_says [OF sweep_collects [OF pass1] q1]
    by (rule quorum_says_origin [OF _ o1]) (simp add: fun_eq_iff on_head_chain_endpoint says_endpoint_block)
  note c2 = sweep_collects [OF pass2]
  note e = logs_verdict_group [OF v2]
  have qual: "(digest, map fst entries) \<in> set (qualifying k (group_rows (decode_rows (Some \<circ> fst) rows2)))"
    by (rule e(1))
  have "quorum_says o2 k (map fst entries) (says_digest h n) digest"
    using digests.decoded.qualifying_says [OF collects_decoded [OF c2] qual]
    by (rule quorum_says_mono) (auto simp: says_digest_def)
  then have digests: "quorum_says observers k (map fst entries) (says_digest h n) digest"
    using o2 says_endpoint_digest by (rule quorum_says_origin)
  have speaker: "p \<in> set ps \<and> (\<exists>rpc \<in> set observers. fingerprint rpc = p
      \<and> (\<exists>logs. says_logs h n rpc logs \<and> canon = canonical_logs logs \<and> logs_digest canon = Inr digest))"
    if entry: "(p, canon) \<in> set entries" for p canon
  proof -
    have "collected (\<lambda>rpc. fingerprint rpc \<in> set ps) (digested_logs h n) o2 (p, digest, canon)"
      using c2 e(2) [OF entry] by (auto simp: collects_def)
    then obtain rpc' rpc1 where r: "rpc' \<in> set o2" "fingerprint rpc' \<in> set ps" "p = fingerprint rpc'"
        "digested_logs h n rpc' = (Inr (digest, canon), rpc1)"
      by (auto simp: collected_def)
    obtain rpc where o: "rpc \<in> set observers" "same_endpoint rpc rpc'" using o2 r(1) by (auto simp: origin_def)
    from digested_logs_says [OF r(4)] o r(2,3) show ?thesis
      using fingerprint_endpoint [OF o(2)] says_endpoint_logs [OF o(2)] by metis
  qed
  have "entries \<noteq> []" using digests g2 by (auto simp: quorum_says_def)
  then obtain p canon more where first: "entries = (p, canon) # more" by (cases entries) auto
  from speaker [of p canon] obtain rpc logs where said: "rpc \<in> set observers" "fingerprint rpc = p" "says_logs h n rpc logs"
      "canon = canonical_logs logs" "logs_digest (canonical_logs logs) = Inr digest"
    by (auto simp: first)
  have sources: "map bs_provider (ib_block_sources block) = ps" "map ls_provider (ib_log_sources block) = map fst entries"
    "\<forall>source \<in> set (ib_log_sources block). ls_digest source = digest" "ls_provider (hd (ib_log_sources block)) = p"
    "ib_logs block = map PDict canon"
    by (simp_all add: block ingested_def comp_def case_prod_beta first)
  have "set (map fst entries) \<subseteq> set ps" using speaker by auto
  moreover have "\<exists>logs digest. ib_logs block = map PDict (canonical_logs logs)
        \<and> logs_digest (canonical_logs logs) = Inr digest
        \<and> (\<forall>source \<in> set (ib_log_sources block). ls_digest source = digest)
        \<and> quorum_says observers k (map ls_provider (ib_log_sources block)) (says_digest h n) digest
        \<and> (\<exists>rpc \<in> set observers. fingerprint rpc = ls_provider (hd (ib_log_sources block)) \<and> says_logs h n rpc logs)"
    using said digests sources by metis
  moreover have "ib_block_hash block = h" "ib_block_number block = n" "ib_head_consensus block = head"
    "ib_chain block = hc_chain head" "ib_chain_id block = hc_chain_id head"
    by (simp_all add: block ingested_def)
  ultimately show ?thesis
    using g1 g2 g3 head hash unfolding sources(1,2) by (simp add: n_def sources(1,2))
qed

definition demo_log :: pydict where
  "demo_log =
     [(''blockHash'', PStr (''0x'' @ replicate 64 (CHR ''a''))), (''blockNumber'', PStr ''0x10''),
      (''address'', PStr (''0x'' @ replicate 40 (CHR ''b''))),
      (''transactionHash'', PStr (''0x'' @ replicate 64 (CHR ''c''))),
      (''logIndex'', PStr ''0x0''), (''transactionIndex'', PStr ''0x0''), (''removed'', PBool False),
      (''data'', PStr ''0x''), (''topics'', PList [])]"

definition demo_block :: "(string \<times> pyval) list" where
  "demo_block =
     [(''eth_blockNumber'', PStr ''0x10''),
      (''eth_getBlockByNumber'', PDict [(''number'', PStr ''0x10''), (''hash'', PStr (''0x'' @ replicate 64 (CHR ''a'')))]),
      (''eth_getLogs'', PList [PDict demo_log])]"

lemma demo_block_reads:
  assumes "same_endpoint (demo_rpc url (demo_answers demo_block)) rpc"
  shows "fst (block_hash_at 16 rpc) = Inr (''0x'' @ replicate 64 (CHR ''a''))"
    and "\<exists>digest. logs_digest [demo_log] = Inr digest"
    and "logs_digest [demo_log] = Inr digest \<Longrightarrow>
      fst (digested_logs (''0x'' @ replicate 64 (CHR ''a'')) 16 rpc) = Inr (digest, [demo_log])"
proof -
  let ?h = "''0x'' @ replicate 64 (CHR ''a'')"
  have hex: "is_hex_data (PStr ?h) (Some 32)" "check_logs ?h (Some 16) [] [demo_log] = Inr ()" by code_simp+
  have num: "hex_int (PStr ''0x10'') field = Inr 16" for field by (subst hex_int_quantity; code_simp)
  have reply: "dget (demo_answers demo_block) ''eth_getLogs'' = PList [PDict demo_log]"
    "dget (demo_answers demo_block) ''eth_getBlockByNumber'' = PDict [(''number'', PStr ''0x10''), (''hash'', PStr ?h)]"
    by (simp_all add: demo_answers_def demo_block_def dget_def)
  have fields: "dget [(''number'', PStr ''0x10''), (''hash'', PStr ?h)] ''number'' = PStr ''0x10''"
    "dget [(''number'', PStr ''0x10''), (''hash'', PStr ?h)] ''hash'' = PStr ?h"
    by (simp_all add: dget_def)
  have sorted: "canonical_logs [demo_log] = [demo_log]" by (simp add: canonical_logs_def)
  note ready = hex num reply fields sorted demo_ready [OF assms] observing_Inr allowed_methods_def and_then_Inr
  have "\<exists>rpc'. block_hash_at 16 rpc = (Inr ?h, rpc')"
    by (simp add: block_hash_at_def get_block_by_number_def ready del: replicate.simps append.simps)
  then show "fst (block_hash_at 16 rpc) = Inr ?h" by auto
  show "\<exists>digest. logs_digest [demo_log] = Inr digest" by (simp add: logs_digest_def demo_log_def)
  assume "logs_digest [demo_log] = Inr digest"
  then have "\<exists>rpc'. digested_logs ?h 16 rpc = (Inr (digest, [demo_log]), rpc')"
    by (simp add: digested_logs_def get_logs_for_block_def ready del: replicate.simps append.simps check_logs.simps)
  then show "fst (digested_logs ?h 16 rpc) = Inr (digest, [demo_log])" by auto
qed

lemma ingested_block_is_quorum_read_witness:
  "\<exists>block. fst (ingest_consensus_block ''now'' ''later'' 0 2 3 (demo_pair demo_block)) = Inr block
     \<and> ib_block_number block = 16 \<and> ib_logs block \<noteq> [] \<and> 2 \<le> length (ib_log_sources block)"
proof -
  let ?h = "''0x'' @ replicate 64 (CHR ''a'')"
  have "dget demo_block ''eth_blockNumber'' = PStr ''0x10''" by (simp add: demo_block_def dget_def)
  from demo_head [OF this, of "''now''"] obtain head o1 where
    head: "observe_consensus_head ''now'' 2 3 (demo_pair demo_block) = (Inr head, o1)"
      "hc_canonical head = 16" "hc_chain head = ''base''" "hc_chain_id head = 8453"
    by (metis answer_pair)
  obtain digest where digest: "logs_digest [demo_log] = Inr digest"
    using demo_block_reads(2) [OF same_endpoint_refl] by blast
  have s1: "list_all2 same_endpoint (demo_pair demo_block) o1" using consensus_keeps head(1) by (metis snd_conv)
  have "fst (sweep (\<lambda>_. True) (on_head_chain head) is_rpc_error (block_hash_at 16) [] o1)
      = Inr [(provider_fingerprint demo_a, ?h), (provider_fingerprint demo_b, ?h)]"
    using s1 demo_block_reads(1) by (rule demo_sweep_again) (auto simp: on_head_chain_def head dest: demo_ready(1,2))
  then obtain o2 where pass1: "sweep (\<lambda>_. True) (on_head_chain head) is_rpc_error (block_hash_at 16) [] o1
      = (Inr [(provider_fingerprint demo_a, ?h), (provider_fingerprint demo_b, ?h)], o2)"
    by (metis answer_pair)
  have "list_all2 same_endpoint o1 o2" using sweep_keeps [OF ingestion_keeps(1)] pass1 by (metis snd_conv)
  with s1 have s2: "list_all2 same_endpoint (demo_pair demo_block) o2"
    by (rule list_all2_trans [rotated]) (rule same_endpoint_trans)
  let ?ps = "[provider_fingerprint demo_a, provider_fingerprint demo_b]"
  have "fst (sweep (\<lambda>_. True) (\<lambda>rpc. fingerprint rpc \<in> set ?ps) is_rpc_error (digested_logs ?h 16) [] o2)
      = Inr [(provider_fingerprint demo_a, digest, [demo_log]), (provider_fingerprint demo_b, digest, [demo_log])]"
    using s2 demo_block_reads(3) [OF _ digest] by (rule demo_sweep_again) (auto dest: fingerprint_endpoint)
  then obtain o3 where pass2: "sweep (\<lambda>_. True) (\<lambda>rpc. fingerprint rpc \<in> set ?ps) is_rpc_error (digested_logs ?h 16) [] o2
      = (Inr [(provider_fingerprint demo_a, digest, [demo_log]), (provider_fingerprint demo_b, digest, [demo_log])], o3)"
    by (metis answer_pair)
  have v1: "block_verdict 2 [(provider_fingerprint demo_a, ?h), (provider_fingerprint demo_b, ?h)] = Inr (?h, ?ps)"
    by (simp add: block_verdict_def group_rows_def qualifying_def sole_def)
  have v2: "logs_verdict 2 [(provider_fingerprint demo_a, digest, [demo_log]), (provider_fingerprint demo_b, digest, [demo_log])]
      = Inr (digest, [(provider_fingerprint demo_a, [demo_log]), (provider_fingerprint demo_b, [demo_log])])"
    by (simp add: logs_verdict_def group_rows_def qualifying_def sole_def)
  have run: "fst (ingest_consensus_block ''now'' ''later'' 0 2 3 (demo_pair demo_block)) =
      Inr (ingested ''later'' head 16 (?h, ?ps)
        (digest, [(provider_fingerprint demo_a, [demo_log]), (provider_fingerprint demo_b, [demo_log])]))"
    unfolding ingest_consensus_block_def Let_def demo_distinct
    by (simp add: pass_then_def head(1,2) pass1 v1 pass2 v2 del: replicate.simps append.simps list.set)
  let ?block = "ingested ''later'' head 16 (?h, ?ps)
        (digest, [(provider_fingerprint demo_a, [demo_log]), (provider_fingerprint demo_b, [demo_log])])"
  have "2 \<le> int (length (map ls_provider (ib_log_sources ?block))) \<and> ib_block_number ?block = hc_canonical (ib_head_consensus ?block) - 0"
    using ingested_block_is_quorum_read [OF answer_pair [OF run]] unfolding quorum_says_def by blast
  with run head(2) show ?thesis by (intro exI [of _ ?block]) (simp add: ingested_def)
qed

end
