(* ===== verification/Evm_Sell_Path.thy ===== *)
theory Evm_Sell_Path
  imports Evm_Contract_Code Evm_Abi
begin

text \<open>
  Whether a holder could sell, as far as historical calls tell: the standard allowance and the
  transfers of the token (\<^verbatim>\<open>evm_sell_path.py\<close>), one opaque router call (\<^verbatim>\<open>evm_router_swap.py\<close>) and its
  interpretation (\<^verbatim>\<open>evm_router_interpretation.py\<close>). The limitations of each evidence are constants and
  are left out.
\<close>

section \<open>Calldata\<close>

definition transfer_selector :: string where
  "transfer_selector = ''a9059cbb''"

definition allowance_selector :: string where
  "allowance_selector = ''dd62ed3e''"

definition transfer_from_selector :: string where
  "transfer_from_selector = ''23b872dd''"

text \<open>\<^verbatim>\<open>f"{n:064x}"\<close> of a number that is not negative: at least 64 digits.\<close>

definition hex64 :: "int \<Rightarrow> string" where
  "hex64 n = (let digits = hex_digits (nat n) in replicate (64 - length digits) (CHR ''0'') @ digits)"

text \<open>An address behind 24 zeros.\<close>

definition padded_address :: "string \<Rightarrow> string" where
  "padded_address a = replicate 24 (CHR ''0'') @ drop 2 a"

definition encode_transfer :: "string \<Rightarrow> int \<Rightarrow> string evm" where
  "encode_transfer recipient amount =
    raise_if (amount \<le> 0) (Value_Error ''amount must be positive'')
      (Inr (''0x'' @ transfer_selector @ padded_address recipient @ hex64 amount))"

definition encode_allowance :: "string \<Rightarrow> string \<Rightarrow> string" where
  "encode_allowance holder router =
    ''0x'' @ allowance_selector @ padded_address holder @ padded_address router"

definition encode_transfer_from :: "string \<Rightarrow> string \<Rightarrow> int \<Rightarrow> string evm" where
  "encode_transfer_from holder pair amount =
    raise_if (amount \<le> 0) (Value_Error ''amount must be positive'')
      (Inr (''0x'' @ transfer_from_selector @ padded_address holder @ padded_address pair @ hex64 amount))"

section \<open>Probes\<close>

text \<open>\<^verbatim>\<open>eth_call\<close> with the members of the call object in their order.\<close>

definition eth_call_params :: "(string \<times> string) list \<Rightarrow> int \<Rightarrow> pyval list" where
  "eth_call_params call n = [PDict (map (\<lambda>(k, v). (k, PStr v)) call), PStr (py_hex n)]"

definition raw_call :: "(pyval \<Rightarrow> 'a evm) \<Rightarrow> (string \<times> string) list \<Rightarrow> int \<Rightarrow> 'a observing" where
  "raw_call parse call n =
    obs_then attest_chain (\<lambda>_.
    obs_then (rpc_call ''eth_call'' (eth_call_params call n)) (\<lambda>result.
    obs_lift (parse result)))"

text \<open>The \<^verbatim>\<open>try\<close> of the loops: a failed call is a row of its own.\<close>

definition probed :: "'a observing \<Rightarrow> 'a option observing" where
  "probed read rpc =
    (case read rpc of
       (Inr x, rpc') \<Rightarrow> (Inr (Some x), rpc')
     | (Inl e, rpc') \<Rightarrow> if call_skips e then (Inr None, rpc') else (Inl e, rpc'))"

text \<open>
  One loop over the distinct observers of the chain. A second loop over the same dictionary finds
  the observers as the first one left them.
\<close>

definition probe ::
  "evm_rpc list \<Rightarrow> string \<Rightarrow> (pyval \<Rightarrow> 'a evm) \<Rightarrow> (string \<times> string) list \<Rightarrow> int
     \<Rightarrow> (string \<times> 'a option) list evm \<times> evm_rpc list" where
  "probe observers chain parse call n =
    sweep (\<lambda>_. True) (on_chain chain) (\<lambda>_. False) (probed (raw_call parse call n)) [] observers"

text \<open>The answers: complete hexadecimal text, in the case it came, and an allowance.\<close>

definition complete_hex :: "string \<Rightarrow> pyval \<Rightarrow> string evm" where
  "complete_hex message result =
    (case result of
       PStr s \<Rightarrow>
         raise_if (\<not> starts_with ''0x'' s \<or> odd (length s)) (Rpc_Error message)
         (case int_base16 (if drop 2 s = [] then ''0'' else drop 2 s) of
            None \<Rightarrow> Inl (Value_Error ''invalid literal for int() with base 16'')
          | Some _ \<Rightarrow> Inr s)
     | _ \<Rightarrow> Inl (Rpc_Error message))"

definition allowance_of :: "pyval \<Rightarrow> int evm" where
  "allowance_of result =
    (case result of
       PStr s \<Rightarrow>
         raise_if (\<not> starts_with ''0x'' s \<or> length s \<noteq> 66) (Rpc_Error ''invalid allowance eth_call response'')
         (case int_base16 (drop 2 s) of
            None \<Rightarrow> Inl (Value_Error ''invalid literal for int() with base 16'')
          | Some allowance \<Rightarrow> Inr allowance)
     | _ \<Rightarrow> Inl (Rpc_Error ''invalid allowance eth_call response''))"

section \<open>The transfer path\<close>

record call_outcome =
  co_provider :: string
  co_outcome :: string

record transfer_path =
  tp_chain :: string
  tp_token_key :: string
  tp_block_number :: int
  tp_holder :: string
  tp_recipient :: string
  tp_amount :: int
  tp_successful_providers :: "string list"
  tp_provider_evidence :: "call_outcome list"
  tp_verdict :: string
  tp_status :: string

definition successes :: "(string \<times> 'a option) list \<Rightarrow> string list" where
  "successes rows = map fst (filter (\<lambda>(p, x). x \<noteq> None) rows)"

definition call_outcomes :: "string \<Rightarrow> (string \<times> 'a option) list \<Rightarrow> call_outcome list" where
  "call_outcomes success rows = sort_key co_provider (map (\<lambda>(p, x). \<lparr>co_provider = p,
     co_outcome = (if x = None then ''UNKNOWN_CALL_FAILURE'' else success)\<rparr>) rows)"

text \<open>\<^verbatim>\<open>asset_key\<close> of the token, at the end of each observation.\<close>

definition token_key_of :: "string \<Rightarrow> string \<Rightarrow> string evm" where
  "token_key_of chain token =
    (case asset_key (PStr chain) (PStr token) of
       None \<Rightarrow> Inl (Rpc_Error ''token identity could not be canonicalized'')
     | Some key \<Rightarrow> Inr key)"

definition observe_transfer_path ::
  "evm_rpc list \<Rightarrow> string \<Rightarrow> string \<Rightarrow> string \<Rightarrow> string \<Rightarrow> int \<Rightarrow> int \<Rightarrow> int
     \<Rightarrow> transfer_path evm \<times> evm_rpc list" where
  "observe_transfer_path observers chain token holder recipient amount n min_quorum =
    (if min_quorum < 2 then (Inl (Value_Error ''min_quorum must be at least 2''), observers)
     else if n < 0 then (Inl (Value_Error ''block_number must be non-negative''), observers)
     else case (canonical_chain_address (PStr chain) (PStr token), canonical_chain_address (PStr chain) (PStr holder),
                canonical_chain_address (PStr chain) (PStr recipient)) of
         (Some t, Some h, Some r) \<Rightarrow>
           pass_then (encode_transfer r amount, observers) (\<lambda>calldata observers.
           if int (length (distinct_observers [] observers)) < min_quorum
           then (Inl (Rpc_Error ''insufficient distinct RPC providers for transfer-path quorum''), observers)
           else
             pass_then (probe observers chain (complete_hex ''invalid eth_call response'')
               [(''to'', t), (''from'', h), (''data'', calldata)] n) (\<lambda>rows observers.
             (and_then (token_key_of chain t) (\<lambda>key.
              Inr \<lparr>tp_chain = chain, tp_token_key = key, tp_block_number = n, tp_holder = h, tp_recipient = r,
                   tp_amount = amount, tp_successful_providers = sort (successes rows),
                   tp_provider_evidence = call_outcomes ''CALL_SUCCEEDED'' rows,
                   tp_verdict = (if min_quorum \<le> int (length (successes rows)) then ''TRANSFER_CALL_SUCCEEDED''
                     else ''UNKNOWN_INSUFFICIENT_SUCCESS_EVIDENCE''),
                   tp_status = ''UNVERIFIED_TRANSFER_PATH_SIMULATION_EVIDENCE''\<rparr>), observers)))
       | _ \<Rightarrow> (Inl (Value_Error ''token, holder, and recipient must be valid addresses for the requested chain''),
               observers))"

section \<open>Allowance and transfer\<close>

record allowance_outcome =
  ao_provider :: string
  ao_outcome :: string
  ao_allowance :: "int option"

record sell_prerequisites =
  sp_chain :: string
  sp_token_key :: string
  sp_block_number :: int
  sp_holder :: string
  sp_router :: string
  sp_pair :: string
  sp_amount :: int
  sp_allowance :: "int option"
  sp_allowance_providers :: "string list"
  sp_allowance_evidence :: "allowance_outcome list"
  sp_transfer_path :: transfer_path
  sp_allowance_verdict :: string
  sp_verdict :: string
  sp_status :: string

text \<open>The sole answer, when all who answered gave it and they are enough.\<close>

definition sole_answer :: "int \<Rightarrow> (string \<times> 'a option) list \<Rightarrow> ('a \<times> string list) option" where
  "sole_answer min_quorum rows =
    (let groups = group_rows (decode_rows id rows) in
     if length groups = 1 then sole (qualifying min_quorum groups) else None)"

definition allowance_verdict :: "int \<Rightarrow> (int \<times> string list) option \<Rightarrow> string" where
  "allowance_verdict amount answer =
    (case answer of
       Some (allowance, _) \<Rightarrow>
         if amount \<le> allowance then ''STANDARD_ALLOWANCE_SUFFICIENT'' else ''STANDARD_ALLOWANCE_INSUFFICIENT''
     | None \<Rightarrow> ''UNKNOWN_ALLOWANCE_EVIDENCE'')"

definition sell_verdict :: "string \<Rightarrow> string \<Rightarrow> string" where
  "sell_verdict allowance transfer =
    (if allowance = ''STANDARD_ALLOWANCE_SUFFICIENT'' \<and> transfer = ''TRANSFER_CALL_SUCCEEDED''
     then ''STANDARD_SELL_PREREQUISITES_OBSERVED''
     else if allowance = ''STANDARD_ALLOWANCE_INSUFFICIENT'' then ''STANDARD_ALLOWANCE_INSUFFICIENT_FOR_AMOUNT''
     else ''UNKNOWN_INSUFFICIENT_SELL_PATH_EVIDENCE'')"

definition allowance_outcomes :: "(string \<times> int option) list \<Rightarrow> allowance_outcome list" where
  "allowance_outcomes rows = sort_key ao_provider (map (\<lambda>(p, x). \<lparr>ao_provider = p,
     ao_outcome = (if x = None then ''UNKNOWN_CALL_FAILURE'' else ''ALLOWANCE_OBSERVED''), ao_allowance = x\<rparr>) rows)"

definition sell_prerequisites_of ::
  "string \<Rightarrow> string \<Rightarrow> string \<Rightarrow> string \<Rightarrow> string \<Rightarrow> int \<Rightarrow> int \<Rightarrow> int \<Rightarrow> (string \<times> int option) list
     \<Rightarrow> transfer_path \<Rightarrow> string \<Rightarrow> sell_prerequisites" where
  "sell_prerequisites_of chain t h r p amount n min_quorum rows transfer key =
    (let answer = sole_answer min_quorum rows; allowed = allowance_verdict amount answer in
     \<lparr>sp_chain = chain, sp_token_key = key, sp_block_number = n, sp_holder = h, sp_router = r, sp_pair = p,
      sp_amount = amount, sp_allowance = map_option fst answer,
      sp_allowance_providers = (case answer of Some (_, providers) \<Rightarrow> sort providers | None \<Rightarrow> []),
      sp_allowance_evidence = allowance_outcomes rows, sp_transfer_path = transfer, sp_allowance_verdict = allowed,
      sp_verdict = sell_verdict allowed (tp_verdict transfer),
      sp_status = ''UNVERIFIED_ROUTER_PAIR_SELL_PATH_EVIDENCE''\<rparr>)"

definition observe_router_pair_sell_prerequisites ::
  "evm_rpc list \<Rightarrow> string \<Rightarrow> string \<Rightarrow> string \<Rightarrow> string \<Rightarrow> string \<Rightarrow> int \<Rightarrow> int \<Rightarrow> int
     \<Rightarrow> sell_prerequisites evm \<times> evm_rpc list" where
  "observe_router_pair_sell_prerequisites observers chain token holder router pair amount n min_quorum =
    (if min_quorum < 2 then (Inl (Value_Error ''min_quorum must be at least 2''), observers)
     else if n < 0 then (Inl (Value_Error ''block_number must be non-negative''), observers)
     else if amount \<le> 0 then (Inl (Value_Error ''amount must be positive''), observers)
     else case (canonical_chain_address (PStr chain) (PStr token), canonical_chain_address (PStr chain) (PStr holder),
                canonical_chain_address (PStr chain) (PStr router), canonical_chain_address (PStr chain) (PStr pair)) of
         (Some t, Some h, Some r, Some p) \<Rightarrow>
           if int (length (distinct_observers [] observers)) < min_quorum
           then (Inl (Rpc_Error ''insufficient distinct RPC providers for router/pair sell-path quorum''), observers)
           else
             pass_then (probe observers chain allowance_of
               [(''to'', t), (''from'', h), (''data'', encode_allowance h r)] n) (\<lambda>rows observers.
             pass_then (observe_transfer_path observers chain t h p amount n min_quorum) (\<lambda>transfer observers.
             (and_then (token_key_of chain t) (\<lambda>key.
              Inr (sell_prerequisites_of chain t h r p amount n min_quorum rows transfer key)), observers)))
       | _ \<Rightarrow> (Inl (Value_Error ''token, holder, router, and pair must be valid addresses for the requested chain''),
               observers))"

section \<open>The execution foundation\<close>

record execution_foundation =
  xf_chain :: string
  xf_token_key :: string
  xf_block_number :: int
  xf_holder :: string
  xf_router :: string
  xf_pair :: string
  xf_amount :: int
  xf_router_code :: contract_code
  xf_pair_code :: contract_code
  xf_successful_providers :: "string list"
  xf_provider_evidence :: "call_outcome list"
  xf_transfer_from_verdict :: string
  xf_verdict :: string
  xf_status :: string

definition foundation_of ::
  "string \<Rightarrow> string \<Rightarrow> string \<Rightarrow> string \<Rightarrow> int \<Rightarrow> int \<Rightarrow> int \<Rightarrow> contract_code \<Rightarrow> contract_code
     \<Rightarrow> (string \<times> 'a option) list \<Rightarrow> string \<Rightarrow> execution_foundation" where
  "foundation_of chain h r p amount n min_quorum router_code pair_code rows key =
    (let enough = min_quorum \<le> int (length (successes rows)) in
     \<lparr>xf_chain = chain, xf_token_key = key, xf_block_number = n, xf_holder = h, xf_router = r, xf_pair = p,
      xf_amount = amount, xf_router_code = router_code, xf_pair_code = pair_code,
      xf_successful_providers = sort (successes rows),
      xf_provider_evidence = call_outcomes ''TRANSFER_FROM_CALL_SUCCEEDED'' rows,
      xf_transfer_from_verdict = (if enough then ''TRANSFER_FROM_CALL_SUCCEEDED''
        else ''UNKNOWN_TRANSFER_FROM_EVIDENCE''),
      xf_verdict = (if enough then ''ROUTER_PAIR_CODE_AND_TRANSFER_FROM_OBSERVED''
        else ''UNKNOWN_EXECUTION_FOUNDATION_EVIDENCE''),
      xf_status = ''UNVERIFIED_ROUTER_PAIR_EXECUTION_FOUNDATION_EVIDENCE''\<rparr>)"

definition observe_router_pair_execution_foundation ::
  "evm_rpc list \<Rightarrow> string \<Rightarrow> string \<Rightarrow> string \<Rightarrow> string \<Rightarrow> string \<Rightarrow> int \<Rightarrow> int \<Rightarrow> int
     \<Rightarrow> execution_foundation evm \<times> evm_rpc list" where
  "observe_router_pair_execution_foundation observers chain token holder router pair amount n min_quorum =
    (if min_quorum < 2 then (Inl (Value_Error ''min_quorum must be at least 2''), observers)
     else if n < 0 then (Inl (Value_Error ''block_number must be non-negative''), observers)
     else if amount \<le> 0 then (Inl (Value_Error ''amount must be positive''), observers)
     else case (canonical_chain_address (PStr chain) (PStr token), canonical_chain_address (PStr chain) (PStr holder),
                canonical_chain_address (PStr chain) (PStr router), canonical_chain_address (PStr chain) (PStr pair)) of
         (Some t, Some h, Some r, Some p) \<Rightarrow>
           if int (length (distinct_observers [] observers)) < min_quorum
           then (Inl (Rpc_Error ''insufficient distinct RPC providers for execution-foundation quorum''), observers)
           else
             pass_then (observe_contract_code observers chain r n min_quorum) (\<lambda>router_code observers.
             pass_then (observe_contract_code observers chain p n min_quorum) (\<lambda>pair_code observers.
             pass_then (encode_transfer_from h p amount, observers) (\<lambda>calldata observers.
             pass_then (probe observers chain (complete_hex ''invalid transferFrom eth_call response'')
               [(''to'', t), (''from'', r), (''data'', calldata)] n) (\<lambda>rows observers.
             (and_then (token_key_of chain t) (\<lambda>key.
              Inr (foundation_of chain h r p amount n min_quorum router_code pair_code rows key)), observers)))))
       | _ \<Rightarrow> (Inl (Value_Error ''token, holder, router, and pair must be valid addresses for the requested chain''),
               observers))"

section \<open>The router call\<close>

record router_outcome =
  rr_provider :: string
  rr_outcome :: string
  rr_result :: "string option"

record router_call =
  rw_chain :: string
  rw_router :: string
  rw_caller :: string
  rw_block_number :: int
  rw_calldata :: string
  rw_value :: int
  rw_router_code :: contract_code
  rw_successful_providers :: "string list"
  rw_provider_evidence :: "router_outcome list"
  rw_agreed_result :: "string option"
  rw_verdict :: string
  rw_status :: string

definition normalize_calldata :: "string \<Rightarrow> string evm" where
  "normalize_calldata calldata =
    raise_if (\<not> starts_with ''0x'' calldata) (Value_Error ''calldata must be 0x-prefixed hex'')
    (raise_if (length calldata < 10 \<or> odd (length calldata))
      (Value_Error ''calldata must include at least a 4-byte selector and complete bytes'')
    (case int_base16 (drop 2 calldata) of
       None \<Rightarrow> Inl (Value_Error ''calldata must be valid hex'')
     | Some _ \<Rightarrow> Inr (lower calldata)))"

text \<open>The members of the call object: no value member for a zero value.\<close>

definition router_call_members :: "string \<Rightarrow> string \<Rightarrow> string \<Rightarrow> int \<Rightarrow> (string \<times> string) list" where
  "router_call_members r c calldata value =
    [(''to'', r), (''from'', c), (''data'', calldata)] @ (if value = 0 then [] else [(''value'', py_hex value)])"

definition router_answer :: "pyval \<Rightarrow> string evm" where
  "router_answer result =
    and_then (complete_hex ''invalid router eth_call response'' result) (\<lambda>s. Inr (lower s))"

definition router_call_of ::
  "string \<Rightarrow> string \<Rightarrow> string \<Rightarrow> int \<Rightarrow> string \<Rightarrow> int \<Rightarrow> int \<Rightarrow> contract_code
     \<Rightarrow> (string \<times> string option) list \<Rightarrow> router_call" where
  "router_call_of chain r c n calldata value min_quorum router_code rows =
    (let answer = sole_answer min_quorum rows in
     \<lparr>rw_chain = chain, rw_router = r, rw_caller = c, rw_block_number = n, rw_calldata = calldata, rw_value = value,
      rw_router_code = router_code,
      rw_successful_providers = (case answer of Some (_, providers) \<Rightarrow> sort providers | None \<Rightarrow> []),
      rw_provider_evidence = sort_key rr_provider (map (\<lambda>(p, x). \<lparr>rr_provider = p,
        rr_outcome = (if x = None then ''UNKNOWN_CALL_FAILURE'' else ''ROUTER_CALL_SUCCEEDED''), rr_result = x\<rparr>) rows),
      rw_agreed_result = map_option fst answer,
      rw_verdict = (if answer \<noteq> None then ''ROUTER_SWAP_CALL_QUORUM_SUCCEEDED''
        else if 1 < length (group_rows (decode_rows id rows)) then ''UNKNOWN_ROUTER_CALL_DISAGREEMENT''
        else ''UNKNOWN_INSUFFICIENT_ROUTER_CALL_EVIDENCE''),
      rw_status = ''UNVERIFIED_ROUTER_SWAP_CALL_EVIDENCE''\<rparr>)"

definition observe_router_swap_call ::
  "evm_rpc list \<Rightarrow> string \<Rightarrow> string \<Rightarrow> string \<Rightarrow> string \<Rightarrow> int \<Rightarrow> int \<Rightarrow> int
     \<Rightarrow> router_call evm \<times> evm_rpc list" where
  "observe_router_swap_call observers chain router caller calldata n value min_quorum =
    (if min_quorum < 2 then (Inl (Value_Error ''min_quorum must be at least 2''), observers)
     else if n < 0 then (Inl (Value_Error ''block_number must be non-negative''), observers)
     else if value < 0 then (Inl (Value_Error ''value must be non-negative''), observers)
     else case (canonical_chain_address (PStr chain) (PStr router), canonical_chain_address (PStr chain) (PStr caller)) of
         (Some r, Some c) \<Rightarrow>
           pass_then (normalize_calldata calldata, observers) (\<lambda>calldata observers.
           if int (length (distinct_observers [] observers)) < min_quorum
           then (Inl (Rpc_Error ''insufficient distinct RPC providers for router-call quorum''), observers)
           else
             pass_then (observe_contract_code observers chain r n min_quorum) (\<lambda>router_code observers.
             pass_then (probe observers chain router_answer (router_call_members r c calldata value) n)
               (\<lambda>rows observers.
             (Inr (router_call_of chain r c n calldata value min_quorum router_code rows), observers))))
       | _ \<Rightarrow> (Inl (Value_Error ''router and caller must be valid addresses for the requested chain''), observers))"

record router_semantics =
  rm_chain :: string
  rm_router :: string
  rm_caller :: string
  rm_block_number :: int
  rm_call_verdict :: string
  rm_calldata :: router_calldata
  rm_output :: router_output
  rm_verdict :: string
  rm_status :: string

text \<open>The output of an interpreted call and the verdict on it.\<close>

definition interpreted_output :: "router_call \<Rightarrow> router_calldata \<Rightarrow> router_output \<times> string" where
  "interpreted_output evidence calldata =
    (if rc_status calldata \<noteq> ''SUPPORTED_ROUTER_CALLDATA_SEMANTICS''
     then (ro_failed ''OUTPUT_NOT_DECODED'' ''CALLDATA_SEMANTICS_NOT_VERIFIED'', ''UNKNOWN_ROUTER_CALL_SEMANTICS'')
     else if rw_verdict evidence \<noteq> ''ROUTER_SWAP_CALL_QUORUM_SUCCEEDED'' \<or> rw_agreed_result evidence = None
     then (ro_failed ''NO_QUORUM_OUTPUT'' ''ROUTER_CALL_NOT_QUORUM_CONFIRMED'', ''UNKNOWN_ROUTER_CALL_OUTPUT'')
     else
       (let output = decode_uint256_array_output (rw_agreed_result evidence) (Some (int (length (rc_path calldata))))
              (rc_amount_in calldata) (rc_amount_out_min calldata)
        in (output, if ro_status output = ''DECODED_UINT256_ARRAY_OUTPUT''
              then ''SUPPORTED_CALLDATA_AND_OUTPUT_DECODED'' else ''UNKNOWN_ROUTER_CALL_OUTPUT'')))"

definition interpret_router_call :: "router_call \<Rightarrow> router_semantics evm" where
  "interpret_router_call evidence =
    raise_if (rw_status evidence \<noteq> ''UNVERIFIED_ROUTER_SWAP_CALL_EVIDENCE'')
      (Value_Error ''unsupported router-call evidence status'')
    (and_then (decode_router_calldata (rw_chain evidence) (rw_calldata evidence) (rw_value evidence)) (\<lambda>calldata.
     let (output, verdict) = interpreted_output evidence calldata in
     Inr \<lparr>rm_chain = rw_chain evidence, rm_router = rw_router evidence, rm_caller = rw_caller evidence,
          rm_block_number = rw_block_number evidence, rm_call_verdict = rw_verdict evidence, rm_calldata = calldata,
          rm_output = output, rm_verdict = verdict, rm_status = ''UNVERIFIED_ROUTER_CALL_SEMANTIC_EVIDENCE''\<rparr>))"

section \<open>What the probes say\<close>

definition says_of :: "(pyval \<Rightarrow> 'a evm) \<Rightarrow> (string \<times> string) list \<Rightarrow> int \<Rightarrow> evm_rpc \<Rightarrow> 'a \<Rightarrow> bool" where
  "says_of parse call n rpc x \<longleftrightarrow>
     (\<exists>i v. attested rpc i \<and> answered rpc (i + 1) ''eth_call'' (eth_call_params call n) v \<and> parse v = Inr x)"

lemma raw_call_says: "raw_call parse call n rpc = (Inr x, rpc') \<Longrightarrow> says_of parse call n rpc x"
  by (auto simp: raw_call_def observing_Inr says_of_def)

lemma keeps_raw_call [observing_intros]: "keeps (raw_call parse call n)"
  unfolding raw_call_def by (intro observing_intros)

lemma keeps_probed [observing_intros]: "keeps read \<Longrightarrow> keeps (probed read)"
proof -
  have "snd (probed read rpc) = snd (read rpc)" for rpc
    by (auto simp: probed_def split: prod.splits sum.splits)
  then show "keeps read \<Longrightarrow> keeps (probed read)" by (simp add: keeps_def)
qed

interpretation raw_calls: reading "raw_call parse call n" "says_of parse call n"
  by unfold_locales (auto intro: raw_call_says keeps_raw_call)

lemma says_of_endpoint: "same_endpoint a b \<Longrightarrow> says_of parse call n b = says_of parse call n a"
  by (simp add: says_of_def fun_eq_iff answered_endpoint)

lemma on_chain_endpoint: "same_endpoint a b \<Longrightarrow> on_chain chain b = on_chain chain a"
  by (simp add: on_chain_def same_endpoint_fields)

lemma collects_probed:
  assumes "collects use (probed read) rpcs rows"
  shows "collects use read rpcs (decode_rows id rows)"
proof -
  have "collected use read rpcs row" if "collected use (decoded id (probed read)) rpcs row" for row
    using that by (fastforce simp: collected_def decoded_def probed_def split: prod.splits sum.splits if_splits option.splits)
  with collects_decoded [OF assms, of id] show ?thesis by (simp add: collects_def)
qed

lemma probe_collects:
  assumes "probe observers chain parse call n = (Inr rows, observers')"
  shows "collects (on_chain chain) (raw_call parse call n) observers (decode_rows id rows)"
    and "list_all2 same_endpoint observers observers'"
proof -
  note pass = assms [unfolded probe_def]
  show "collects (on_chain chain) (raw_call parse call n) observers (decode_rows id rows)"
    by (rule collects_probed [OF sweep_collects [OF pass]])
  have "keeps (probed (raw_call parse call n))" by (intro observing_intros)
  from sweep_keeps [OF this] show "list_all2 same_endpoint observers observers'" by (metis pass snd_conv)
qed

lemma successes_rows: "successes rows = map fst (decode_rows id rows)"
  by (induction rows) (auto simp: successes_def split: option.splits)

text \<open>The call succeeded at an observer of the chain behind each label.\<close>

definition call_succeeds ::
  "evm_rpc list \<Rightarrow> string \<Rightarrow> (pyval \<Rightarrow> 'a evm) \<Rightarrow> (string \<times> string) list \<Rightarrow> int \<Rightarrow> string list \<Rightarrow> bool" where
  "call_succeeds observers chain parse call n providers \<longleftrightarrow>
     distinct providers
     \<and> (\<forall>p \<in> set providers. \<exists>rpc \<in> set observers. on_chain chain rpc \<and> fingerprint rpc = p
          \<and> (\<exists>x. says_of parse call n rpc x))"

lemma probe_succeeds:
  assumes "probe observers' chain parse call n = (Inr rows, observers'')" "origin observers observers'"
  shows "call_succeeds observers chain parse call n (sort (successes rows))"
proof -
  note rows = probe_collects(1) [OF assms(1), unfolded collects_def]
  have "\<exists>rpc \<in> set observers. on_chain chain rpc \<and> fingerprint rpc = p \<and> (\<exists>x. says_of parse call n rpc x)"
    if p: "p \<in> set (successes rows)" for p
  proof -
    obtain row where row: "row \<in> set (decode_rows id rows)" "fst row = p" using p by (auto simp: successes_rows)
    then obtain rpc' :: evm_rpc and rpc'' where r: "rpc' \<in> set observers'" "on_chain chain rpc'" "p = fingerprint rpc'"
        "raw_call parse call n rpc' = (Inr (snd row), rpc'')"
      using rows unfolding collected_def by blast
    obtain rpc where o: "rpc \<in> set observers" "same_endpoint rpc rpc'" using assms(2) r(1) unfolding origin_def by blast
    have "on_chain chain rpc" "fingerprint rpc = p" "says_of parse call n rpc (snd row)"
      using r raw_call_says [OF r(4)] on_chain_endpoint [OF o(2)] fingerprint_endpoint [OF o(2)]
        says_of_endpoint [OF o(2), of parse call n]
      by simp_all
    with o(1) show ?thesis by blast
  qed
  with rows show ?thesis by (simp add: call_succeeds_def successes_rows)
qed

lemma sole_answer_Some:
  "sole_answer k rows = Some (x, ps) \<longleftrightarrow> group_rows (decode_rows id rows) = [(x, ps)] \<and> k \<le> int (length ps)"
  by (auto simp: sole_answer_def Let_def sole_Some qualifying_def length_Suc_conv split: if_splits)

lemma quorum_says_sort: "quorum_says observers k (sort ps) speaks x = quorum_says observers k ps speaks x"
  by (simp add: quorum_says_def)

lemma origin_self: "origin observers observers"
  unfolding origin_def using same_endpoint_refl by blast

lemma sole_answer_says:
  assumes "probe observers' chain parse call n = (Inr rows, observers'')" "origin observers observers'"
    and "sole_answer k rows = Some (x, ps)"
  shows "quorum_says observers k (sort ps) (\<lambda>rpc y. on_chain chain rpc \<and> says_of parse call n rpc y) x"
    and "(p, y) \<in> set rows \<Longrightarrow> y \<in> {None, Some x}"
proof -
  note g = assms(3) [unfolded sole_answer_Some]
  have q: "(x, ps) \<in> set (qualifying k (group_rows (decode_rows id rows)))" using g by (simp add: qualifying_def)
  have same: "(\<lambda>y. on_chain chain b \<and> says_of parse call n b y) = (\<lambda>y. on_chain chain a \<and> says_of parse call n a y)"
    if "same_endpoint a b" for a b
    using that by (simp add: on_chain_endpoint says_of_endpoint)
  show "quorum_says observers k (sort ps) (\<lambda>rpc y. on_chain chain rpc \<and> says_of parse call n rpc y) x"
    unfolding quorum_says_sort
    by (rule quorum_says_origin [OF raw_calls.qualifying_says [OF probe_collects(1) [OF assms(1)] q] assms(2) same])
  show "y \<in> {None, Some x}" if "(p, y) \<in> set rows"
  proof (cases y)
    case (Some z)
    then have "(p, z) \<in> set (decode_rows id rows)" using that by (simp add: in_decode_rows)
    then have "z \<in> set (map fst (group_rows (decode_rows id rows)))"
      using group_rows_keys [of "decode_rows id rows"] by force
    with g Some show ?thesis by simp
  qed simp
qed

section \<open>What the observations hold\<close>

lemma transfer_path_observed:
  assumes "observe_transfer_path observers' chain token holder recipient amount n k = (Inr e, observers'')"
    and "origin observers observers'" "tp_verdict e = ''TRANSFER_CALL_SUCCEEDED''"
  obtains t h r data where
    "canonical_chain_address (PStr chain) (PStr token) = Some t"
    "canonical_chain_address (PStr chain) (PStr holder) = Some h"
    "canonical_chain_address (PStr chain) (PStr recipient) = Some r"
    "encode_transfer r amount = Inr data" "k \<le> int (length (tp_successful_providers e))"
    "call_succeeds observers chain (complete_hex ''invalid eth_call response'')
       [(''to'', t), (''from'', h), (''data'', data)] n (tp_successful_providers e)"
proof -
  obtain t h r data rows key observers2 where run:
      "canonical_chain_address (PStr chain) (PStr token) = Some t"
      "canonical_chain_address (PStr chain) (PStr holder) = Some h"
      "canonical_chain_address (PStr chain) (PStr recipient) = Some r"
      "encode_transfer r amount = Inr data"
      "probe observers' chain (complete_hex ''invalid eth_call response'') [(''to'', t), (''from'', h), (''data'', data)] n
        = (Inr rows, observers2)"
    and e: "tp_successful_providers e = sort (successes rows)"
      "tp_verdict e = (if k \<le> int (length (successes rows)) then ''TRANSFER_CALL_SUCCEEDED''
         else ''UNKNOWN_INSUFFICIENT_SUCCESS_EVIDENCE'')"
    using assms(1)
    by (auto simp: observe_transfer_path_def pass_then_Inr and_then_Inr split: if_splits option.splits prod.splits)
  have "k \<le> int (length (successes rows))" using assms(3) e(2) by (simp split: if_splits)
  with run probe_succeeds [OF run(5) assms(2)] show thesis by (intro that) (simp_all add: e(1))
qed

lemma sell_verdict_observed:
  assumes "sell_verdict (allowance_verdict amount answer) transfer = ''STANDARD_SELL_PREREQUISITES_OBSERVED''"
  obtains allowance providers where "answer = Some (allowance, providers)" "amount \<le> allowance"
    "transfer = ''TRANSFER_CALL_SUCCEEDED''"
  using assms
  by (auto simp: sell_verdict_def allowance_verdict_def split: if_splits option.splits prod.splits)

lemma execution_foundation_observed:
  assumes "observe_router_pair_execution_foundation observers chain token holder router pair amount n k = (Inr e, observers')"
    and "xf_verdict e = ''ROUTER_PAIR_CODE_AND_TRANSFER_FROM_OBSERVED''"
  obtains t h r p data observers1 observers2 where
    "canonical_chain_address (PStr chain) (PStr token) = Some t"
    "canonical_chain_address (PStr chain) (PStr holder) = Some h"
    "canonical_chain_address (PStr chain) (PStr router) = Some r"
    "canonical_chain_address (PStr chain) (PStr pair) = Some p"
    "observe_contract_code observers chain r n k = (Inr (xf_router_code e), observers1)"
    "observe_contract_code observers1 chain p n k = (Inr (xf_pair_code e), observers2)"
    "encode_transfer_from h p amount = Inr data" "k \<le> int (length (xf_successful_providers e))"
    "call_succeeds observers chain (complete_hex ''invalid transferFrom eth_call response'')
       [(''to'', t), (''from'', r), (''data'', data)] n (xf_successful_providers e)"
proof -
  obtain t h r p data rows key code pool observers1 observers2 observers3 where run:
      "canonical_chain_address (PStr chain) (PStr token) = Some t"
      "canonical_chain_address (PStr chain) (PStr holder) = Some h"
      "canonical_chain_address (PStr chain) (PStr router) = Some r"
      "canonical_chain_address (PStr chain) (PStr pair) = Some p"
      "observe_contract_code observers chain r n k = (Inr code, observers1)"
      "observe_contract_code observers1 chain p n k = (Inr pool, observers2)"
      "encode_transfer_from h p amount = Inr data"
    and pass: "probe observers2 chain (complete_hex ''invalid transferFrom eth_call response'')
        [(''to'', t), (''from'', r), (''data'', data)] n = (Inr rows, observers3)"
    and e: "e = foundation_of chain h r p amount n k code pool rows key"
    using assms(1)
    by (auto simp: observe_router_pair_execution_foundation_def pass_then_Inr and_then_Inr
        split: if_splits option.splits prod.splits)
  have "list_all2 same_endpoint observers observers1" "list_all2 same_endpoint observers1 observers2"
    using contract_code_keeps run(5,6) by (metis snd_conv)+
  then have o: "origin observers observers2" using origin_pass origin_self by blast
  have "k \<le> int (length (successes rows))"
    using assms(2) by (simp add: e foundation_of_def Let_def split: if_splits)
  with run probe_succeeds [OF pass o] show thesis
    by (intro that) (simp_all add: e foundation_of_def Let_def)
qed

section \<open>Properties\<close>

text \<open>
  C29: What stands behind the verdict that the sell prerequisites were observed: a quorum of distinct
  providers of the chain that said one allowance, which fewer false providers than the quorum cannot
  make up and which no provider that answered contradicts, at least the amount; and a quorum of distinct
  providers at which the transfer of exactly this amount from the holder to the pair went through, at the
  same block.
\<close>

theorem sell_prerequisites_are_quorum_read:
  assumes "observe_router_pair_sell_prerequisites observers chain token holder router pair amount n k = (Inr e, observers')"
    and "sp_verdict e = ''STANDARD_SELL_PREREQUISITES_OBSERVED''"
  shows "\<exists>t h r p allowance data.
    canonical_chain_address (PStr chain) (PStr token) = Some t
    \<and> canonical_chain_address (PStr chain) (PStr holder) = Some h
    \<and> canonical_chain_address (PStr chain) (PStr router) = Some r
    \<and> canonical_chain_address (PStr chain) (PStr pair) = Some p
    \<and> 2 \<le> k \<and> sp_allowance e = Some allowance \<and> amount \<le> allowance
    \<and> quorum_says observers k (sp_allowance_providers e) (\<lambda>rpc x. on_chain chain rpc
        \<and> says_of allowance_of [(''to'', t), (''from'', h), (''data'', encode_allowance h r)] n rpc x) allowance
    \<and> (\<forall>row \<in> set (sp_allowance_evidence e). ao_allowance row \<in> {None, Some allowance})
    \<and> encode_transfer p amount = Inr data
    \<and> k \<le> int (length (tp_successful_providers (sp_transfer_path e)))
    \<and> call_succeeds observers chain (complete_hex ''invalid eth_call response'')
        [(''to'', t), (''from'', h), (''data'', data)] n (tp_successful_providers (sp_transfer_path e))"
proof -
  obtain t h r p rows transfer key observers1 observers2 where c:
      "canonical_chain_address (PStr chain) (PStr token) = Some t"
      "canonical_chain_address (PStr chain) (PStr holder) = Some h"
      "canonical_chain_address (PStr chain) (PStr router) = Some r"
      "canonical_chain_address (PStr chain) (PStr pair) = Some p" "2 \<le> k"
    and pass: "probe observers chain allowance_of [(''to'', t), (''from'', h), (''data'', encode_allowance h r)] n
      = (Inr rows, observers1)"
    and path: "observe_transfer_path observers1 chain t h p amount n k = (Inr transfer, observers2)"
    and e: "e = sell_prerequisites_of chain t h r p amount n k rows transfer key"
    using assms(1)
    by (auto simp: observe_router_pair_sell_prerequisites_def pass_then_Inr and_then_Inr
        split: if_splits option.splits prod.splits)
  have v: "sell_verdict (allowance_verdict amount (sole_answer k rows)) (tp_verdict transfer)
      = ''STANDARD_SELL_PREREQUISITES_OBSERVED''"
    using assms(2) by (simp add: e sell_prerequisites_of_def Let_def)
  obtain allowance providers where a: "sole_answer k rows = Some (allowance, providers)" "amount \<le> allowance"
    and tv: "tp_verdict transfer = ''TRANSFER_CALL_SUCCEEDED''"
    using v by (rule sell_verdict_observed)
  have f: "sp_allowance e = Some allowance" "sp_allowance_providers e = sort providers"
    "sp_allowance_evidence e = allowance_outcomes rows" "sp_transfer_path e = transfer"
    by (simp_all add: e sell_prerequisites_of_def a(1) Let_def)
  note q = sole_answer_says [OF pass origin_self a(1)]
  have rows: "\<forall>row \<in> set (allowance_outcomes rows). ao_allowance row \<in> {None, Some allowance}"
    by (auto simp: allowance_outcomes_def dest: q(2))
  have o: "origin observers observers1" by (rule origin_pass [OF origin_self probe_collects(2) [OF pass]])
  obtain t' h' p' data where d: "canonical_chain_address (PStr chain) (PStr t) = Some t'"
    "canonical_chain_address (PStr chain) (PStr h) = Some h'" "canonical_chain_address (PStr chain) (PStr p) = Some p'"
    "encode_transfer p' amount = Inr data" "k \<le> int (length (tp_successful_providers transfer))"
    "call_succeeds observers chain (complete_hex ''invalid eth_call response'')
       [(''to'', t'), (''from'', h'), (''data'', data)] n (tp_successful_providers transfer)"
    using path o tv by (rule transfer_path_observed)
  have "t' = t" "h' = h" "p' = p" using d(1-3) canonical_idem c by fastforce+
  with c f q(1) rows a(2) d(4-6) show ?thesis by (intro exI conjI) simp_all
qed

text \<open>A probe of the demonstration endpoints, at the start or after other reads.\<close>

lemma demo_distinct_again:
  assumes "list_all2 same_endpoint (demo_pair answers) observers"
  shows "length (distinct_observers [] observers) = 2"
proof -
  obtain a b where o: "observers = [a, b]"
    and s: "same_endpoint (demo_rpc demo_a (demo_answers answers)) a" "same_endpoint (demo_rpc demo_b (demo_answers answers)) b"
    using assms by (auto simp: demo_pair_def list_all2_Cons1)
  have "fingerprint a = provider_fingerprint demo_a" "fingerprint b = provider_fingerprint demo_b"
    using s fingerprint_endpoint demo_fingerprint by metis+
  then show ?thesis using demo_labels by (simp add: o)
qed

definition demo_rows :: "'a \<Rightarrow> (string \<times> 'a option) list" where
  "demo_rows x = [(provider_fingerprint demo_a, Some x), (provider_fingerprint demo_b, Some x)]"

lemma demo_rows_answer:
  "sole_answer 2 (demo_rows x) = Some (x, [provider_fingerprint demo_a, provider_fingerprint demo_b])"
  "length (successes (demo_rows x)) = 2"
  by (simp_all add: sole_answer_Some demo_rows_def group_rows_def successes_def)

lemma demo_probe:
  assumes "list_all2 same_endpoint (demo_pair answers) observers"
    and "dget answers ''eth_call'' = v" "parse v = Inr x"
  obtains observers' where "probe observers ''base'' parse call n = (Inr (demo_rows x), observers')"
    "list_all2 same_endpoint (demo_pair answers) observers'"
proof -
  have read: "fst (probed (raw_call parse call n) rpc) = Inr (Some x)"
    if "same_endpoint (demo_rpc url (demo_answers answers)) rpc" for rpc url
  proof -
    have "dget (demo_answers answers) ''eth_call'' = v" using assms(2) by (simp add: demo_answers_def dget_def)
    then have "\<exists>rpc'. raw_call parse call n rpc = (Inr x, rpc')"
      by (simp add: raw_call_def observing_Inr demo_ready [OF that] allowed_methods_def assms(3))
    then show ?thesis by (auto simp: probed_def)
  qed
  have "fst (probe observers ''base'' parse call n) = Inr (demo_rows x)"
    unfolding probe_def demo_rows_def using assms(1) read by (rule demo_sweep_again) (auto dest: demo_ready(3))
  then obtain observers' where run: "probe observers ''base'' parse call n = (Inr (demo_rows x), observers')"
    by (metis answer_pair)
  have "list_all2 same_endpoint (demo_pair answers) observers'"
    using assms(1) probe_collects(2) [OF run] by (rule list_all2_trans [rotated]) (rule same_endpoint_trans)
  with run show thesis by (rule that)
qed

definition demo_address :: "char \<Rightarrow> string" where
  "demo_address c = ''0x'' @ replicate 40 c"

lemma demo_address:
  assumes "is_hex c" "lower_char c = c"
  shows "canonical_chain_address (PStr ''base'') (PStr (demo_address c)) = Some (demo_address c)"
    "canonical_evm_address ''base'' (demo_address c)"
proof -
  have "map_option cc_family (get_chain (PStr ''base'')) = Some EVM" by code_simp
  then obtain cfg where cfg: "get_chain (PStr ''base'') = Some cfg" "cc_family cfg = EVM" by auto
  have a: "is_evm_address (demo_address c)" using assms by (simp add: demo_address_def is_evm_address_def list_all_iff)
  moreover have low: "lower (demo_address c) = demo_address c"
    using assms demo_hex lower_replicate by (simp add: demo_address_def lower_def)
  ultimately show "canonical_chain_address (PStr ''base'') (PStr (demo_address c)) = Some (demo_address c)"
    using canonical_evm [OF cfg] by simp
  show "canonical_evm_address ''base'' (demo_address c)"
    using cfg a low by (auto simp: canonical_evm_address_def)
qed

lemma demo_token_key: "\<exists>key. token_key_of ''base'' (demo_address (CHR ''a'')) = Inr key"
  using key_of_canonical [OF demo_address(1) [OF demo_hex(3,9)]] by (auto simp: token_key_of_def)

definition demo_word_answer :: string where
  "demo_word_answer = ''0x'' @ replicate 63 (CHR ''0'') @ ''a''"

lemma demo_word_answer:
  "allowance_of (PStr demo_word_answer) = Inr 10" "complete_hex message (PStr demo_word_answer) = Inr demo_word_answer"
proof -
  have h: "list_all is_hex (replicate 63 (CHR ''0'') @ ''a'')" using demo_hex by (simp add: list_all_iff)
  have "hex_val (CHR ''a'') = 10" by code_simp
  then have "hex_value (replicate 63 (CHR ''0'') @ ''a'') = 10"
    by (simp only: hex_value_append hex_value_zeros) (simp add: hex_value_Cons)
  then have n: "int_base16 (replicate 63 (CHR ''0'') @ ''a'') = Some 10" using int_base16_plain [OF h] by simp
  have d: "drop 2 demo_word_answer = replicate 63 (CHR ''0'') @ ''a''" "take 2 demo_word_answer = ''0x''"
    "length demo_word_answer = 66"
    by (simp_all add: demo_word_answer_def del: replicate.simps)
  show "allowance_of (PStr demo_word_answer) = Inr 10"
    by (simp add: allowance_of_def starts_0x d n del: replicate.simps append.simps)
  show "complete_hex message (PStr demo_word_answer) = Inr demo_word_answer"
    by (simp add: complete_hex_def starts_0x d n del: replicate.simps append.simps)
qed

lemma sell_prerequisites_are_quorum_read_witness:
  "\<exists>e allowance. fst (observe_router_pair_sell_prerequisites (demo_pair [(''eth_call'', PStr demo_word_answer)]) ''base''
       (demo_address (CHR ''a'')) (demo_address (CHR ''b'')) (demo_address (CHR ''c'')) (demo_address (CHR ''f'')) 7 5 2)
       = Inr e
     \<and> sp_allowance e = Some allowance \<and> 7 \<le> allowance
     \<and> 2 \<le> length (tp_successful_providers (sp_transfer_path e))"
proof -
  let ?answers = "[(''eth_call'', PStr demo_word_answer)]"
  let ?t = "demo_address (CHR ''a'')" and ?h = "demo_address (CHR ''b'')" and ?r = "demo_address (CHR ''c'')"
    and ?p = "demo_address (CHR ''f'')"
  have answer: "dget ?answers ''eth_call'' = PStr demo_word_answer" by (simp add: dget_def)
  have start: "list_all2 same_endpoint (demo_pair ?answers) (demo_pair ?answers)" by (simp add: list.rel_refl)
  note canonical = demo_address(1) [OF demo_hex(3,9)] demo_address(1) [OF demo_hex(4,10)]
    demo_address(1) [OF demo_hex(5,11)] demo_address(1) [OF demo_hex(6,12)]
  obtain key where key: "token_key_of ''base'' ?t = Inr key" using demo_token_key by blast
  obtain data where data: "encode_transfer ?p 7 = Inr data" by (simp add: encode_transfer_def)
  obtain o1 where one: "probe (demo_pair ?answers) ''base'' allowance_of
      [(''to'', ?t), (''from'', ?h), (''data'', encode_allowance ?h ?r)] 5 = (Inr (demo_rows 10), o1)"
    and s1: "list_all2 same_endpoint (demo_pair ?answers) o1"
    using start answer demo_word_answer(1) by (rule demo_probe)
  obtain o2 where two: "probe o1 ''base'' (complete_hex ''invalid eth_call response'')
      [(''to'', ?t), (''from'', ?h), (''data'', data)] 5 = (Inr (demo_rows demo_word_answer), o2)"
    using s1 answer demo_word_answer(2) by (rule demo_probe)
  obtain transfer where path: "observe_transfer_path o1 ''base'' ?t ?h ?p 7 5 2 = (Inr transfer, o2)"
    and tv: "tp_verdict transfer = ''TRANSFER_CALL_SUCCEEDED''"
    by (simp add: observe_transfer_path_def canonical pass_then_def data demo_distinct_again [OF s1] two key demo_rows_answer)
  let ?e = "sell_prerequisites_of ''base'' ?t ?h ?r ?p 7 5 2 (demo_rows 10) transfer key"
  have run: "observe_router_pair_sell_prerequisites (demo_pair ?answers) ''base'' ?t ?h ?r ?p 7 5 2 = (Inr ?e, o2)"
    by (simp add: observe_router_pair_sell_prerequisites_def canonical pass_then_def one path key)
  have "sp_verdict ?e = ''STANDARD_SELL_PREREQUISITES_OBSERVED''"
    by (simp add: sell_prerequisites_of_def demo_rows_answer allowance_verdict_def sell_verdict_def tv Let_def)
  from sell_prerequisites_are_quorum_read [OF run this] run show ?thesis by fastforce
qed

section \<open>Calldata as the ABI has it\<close>

lemma lower_hex_digits: "lower (hex_digits n) = hex_digits n"
proof (induction n rule: hex_digits.induct)
  case (1 n)
  have "lower_char (hex_char d) = hex_char d" if "d < 16" for d
    using hex_char_hex_val [of "hex_char d"] that by simp
  with 1 show ?case by (subst (1 2) hex_digits.simps) (simp add: lower_def)
qed

lemma hex_digits_short: "n < 16 ^ k \<Longrightarrow> 0 < k \<Longrightarrow> length (hex_digits n) \<le> k"
proof (induction n arbitrary: k rule: hex_digits.induct)
  case (1 n)
  show ?case
  proof (cases "n < 16")
    case True
    then show ?thesis using 1(3) by (subst hex_digits.simps) simp
  next
    case False
    obtain j where k: "k = Suc j" using 1(3) by (cases k) auto
    have j: "0 < j" using 1(2) False unfolding k by (cases j) auto
    have "n div 16 < 16 ^ j" using 1(2) unfolding k by (simp add: less_mult_imp_div_less mult.commute)
    with 1(1) False j have "length (hex_digits (n div 16)) \<le> j" by blast
    then show ?thesis using False by (subst hex_digits.simps) (simp add: k)
  qed
qed

lemma hex64_facts:
  "list_all is_hex (hex64 n)" "lower (hex64 n) = hex64 n" "hex_value (hex64 n) = nat n"
  using hex_digits_hex(1) [of "nat n"] demo_hex(1,7) lower_hex_digits [of "nat n"] hex_value_zeros
  by (auto simp: hex64_def Let_def list_all_iff lower_def hex_value_append)

lemma hex64_word: "is_uint256 n \<Longrightarrow> hex64 n = to_hex (uint_word n)"
proof -
  assume n: "is_uint256 n"
  then have "int (nat n) < int (16 ^ 64)" by (simp add: is_uint256_def)
  then have "nat n < 16 ^ 64" by (simp only: of_nat_less_iff)
  then have "length (hex_digits (nat n)) \<le> 64" by (rule hex_digits_short) simp
  then have "length (hex64 n) = 64" by (simp add: hex64_def Let_def)
  from word_text(1) [OF hex64_facts(1,2) this] n show ?thesis by (simp add: hex64_facts(3) is_uint256_def)
qed

lemma hex64_wide: "0 < n \<Longrightarrow> \<not> is_uint256 n \<Longrightarrow> 64 < length (hex64 n)"
proof (rule ccontr)
  assume n: "0 < n" "\<not> is_uint256 n" "\<not> 64 < length (hex64 n)"
  have "nat n < 16 ^ length (hex64 n)" using hex_value_bound [OF hex64_facts(1) [of n]] by (simp only: hex64_facts(3))
  also have "\<dots> \<le> 16 ^ 64" using n(3) by (intro power_increasing) simp_all
  finally have "int (nat n) < int (16 ^ 64)" by (simp only: of_nat_less_iff)
  with n(1,2) show False by (simp add: is_uint256_def)
qed

lemma padded_address_word: "canonical_evm_address chain a \<Longrightarrow> padded_address a = to_hex (address_word a)"
proof -
  assume a: "canonical_evm_address chain a"
  then have "''0x'' @ to_hex (address_bytes a) = a" using address_bytes(3) by (auto simp: canonical_evm_address_def)
  then have "drop 2 a = to_hex (address_bytes a)" by (metis append_eq_conv_conj length_Cons list.size(3) numeral_2_eq_2)
  moreover have "to_hex (replicate 12 0) = replicate 24 (CHR ''0'')" by code_simp
  ultimately show ?thesis by (simp only: padded_address_def address_word_def to_hex_append)
qed

text \<open>
  C37: The calldata of the token calls is the canonical ABI encoding of its arguments, for every amount
  of 256 bits; a larger amount is not refused and its calldata is none.
\<close>

theorem token_calldata_is_abi_iff:
  assumes "canonical_evm_address chain h" "canonical_evm_address chain p" "0 < amount"
  shows "encode_allowance h p = ''0x'' @ allowance_selector @ to_hex (address_word h @ address_word p)
    \<and> (encode_transfer p amount = Inr (''0x'' @ transfer_selector @ to_hex (address_word p @ uint_word amount))
         \<longleftrightarrow> is_uint256 amount)
    \<and> (encode_transfer_from h p amount
           = Inr (''0x'' @ transfer_from_selector @ to_hex (address_word h @ address_word p @ uint_word amount))
         \<longleftrightarrow> is_uint256 amount)"
proof -
  have "hex64 amount = to_hex (uint_word amount) \<longleftrightarrow> is_uint256 amount"
    using hex64_word hex64_wide [OF assms(3)] by (metis length_to_hex length_uint_word mult_2 numeral_Bit0 order_less_irrefl)
  then show ?thesis
    using assms(3)
    by (simp add: encode_allowance_def encode_transfer_def encode_transfer_from_def raise_if_def to_hex_append
        padded_address_word [OF assms(1)] padded_address_word [OF assms(2)])
qed

lemma token_calldata_is_abi_iff_witness:
  "encode_transfer (demo_address (CHR ''f'')) 7
     = Inr (''0x'' @ transfer_selector @ to_hex (address_word (demo_address (CHR ''f'')) @ uint_word 7))
   \<and> encode_transfer (demo_address (CHR ''f'')) (2 ^ 256)
     \<noteq> Inr (''0x'' @ transfer_selector @ to_hex (address_word (demo_address (CHR ''f'')) @ uint_word (2 ^ 256)))"
proof -
  note a = demo_address(2) [OF demo_hex(6,12)]
  show ?thesis
    using token_calldata_is_abi_iff [OF a a, of 7] token_calldata_is_abi_iff [OF a a, of "2 ^ 256"]
    by (simp only: is_uint256_def) simp
qed

section \<open>An interpreted call\<close>

lemma router_called:
  assumes "observe_router_swap_call observers chain router caller calldata n value k = (Inr e, observers')"
  obtains r c code rows observers1 observers2 where
    "canonical_chain_address (PStr chain) (PStr router) = Some r"
    "canonical_chain_address (PStr chain) (PStr caller) = Some c" "2 \<le> k"
    "observe_contract_code observers chain r n k = (Inr code, observers1)" "origin observers observers1"
    "probe observers1 chain router_answer (router_call_members r c (lower calldata) value) n = (Inr rows, observers2)"
    "e = router_call_of chain r c n (lower calldata) value k code rows"
proof -
  obtain r c code rows observers1 observers2 where run:
    "canonical_chain_address (PStr chain) (PStr router) = Some r"
    "canonical_chain_address (PStr chain) (PStr caller) = Some c" "2 \<le> k"
    "observe_contract_code observers chain r n k = (Inr code, observers1)"
    "probe observers1 chain router_answer (router_call_members r c (lower calldata) value) n = (Inr rows, observers2)"
    "e = router_call_of chain r c n (lower calldata) value k code rows"
    using assms
    by (auto simp: observe_router_swap_call_def pass_then_Inr normalize_calldata_def split: if_splits option.splits)
  have "list_all2 same_endpoint observers observers1" using contract_code_keeps run(4) by (metis snd_conv)
  with run origin_pass [OF origin_self] that show thesis by blast
qed

lemma supported_calldata_fields:
  assumes "decode_router_calldata chain calldata value = Inr d" "rc_status d = ''SUPPORTED_ROUTER_CALLDATA_SEMANTICS''"
  obtains amount_in minimum where "rc_amount_in d = Some amount_in" "rc_amount_out_min d = Some minimum" "2 \<le> length (rc_path d)"
  using assms
  by (auto simp: decode_router_calldata_def decode_payload_def and_then_Inr Let_def
      split: if_splits option.splits sum.splits)

lemma decoded_output:
  assumes "ro_status (decode_uint256_array_output (Some result) count input minimum) = ''DECODED_UINT256_ARRAY_OUTPUT''"
  obtains raw amounts where "from_hex (drop 2 result) = Some raw" "decode_amounts raw count input = Inr amounts"
    "decode_uint256_array_output (Some result) count input minimum = \<lparr>ro_amounts = amounts, ro_amount_in = Some (hd amounts),
       ro_amount_out = Some (last amounts), ro_minimum_output_satisfied = map_option (\<lambda>m. m \<le> last amounts) minimum,
       ro_status = ''DECODED_UINT256_ARRAY_OUTPUT'', ro_issues = []\<rparr>"
  using assms by (auto simp: decode_uint256_array_output_def ro_failed_def split: if_splits option.splits sum.splits)

text \<open>
  C30: A router call whose interpretation is \<^verbatim>\<open>SUPPORTED_CALLDATA_AND_OUTPUT_DECODED\<close>: its result was
  given by a quorum of distinct providers of the chain for exactly this call at this block and cannot be
  made up by fewer false providers; it is the canonical encoding of one amount per address of the
  decoded path, of which the first is the decoded input, and the minimum is compared with the last.
\<close>

theorem interpreted_call_is_quorum_read:
  assumes "observe_router_swap_call observers chain router caller calldata n value k = (Inr e, observers')"
    and "interpret_router_call e = Inr m" "rm_verdict m = ''SUPPORTED_CALLDATA_AND_OUTPUT_DECODED''"
  shows "\<exists>r c result minimum.
    canonical_chain_address (PStr chain) (PStr router) = Some r
    \<and> canonical_chain_address (PStr chain) (PStr caller) = Some c
    \<and> 2 \<le> k \<and> rw_agreed_result e = Some result
    \<and> quorum_says observers k (rw_successful_providers e) (\<lambda>rpc x. on_chain chain rpc
        \<and> says_of router_answer (router_call_members r c (lower calldata) value) n rpc x) result
    \<and> decode_router_calldata chain (lower calldata) value = Inr (rm_calldata m)
    \<and> from_hex (drop 2 result) = Some (encode_amounts (ro_amounts (rm_output m)))
    \<and> length (ro_amounts (rm_output m)) = length (rc_path (rm_calldata m))
    \<and> rc_amount_in (rm_calldata m) = Some (hd (ro_amounts (rm_output m)))
    \<and> rc_amount_out_min (rm_calldata m) = Some minimum
    \<and> ro_minimum_output_satisfied (rm_output m) = Some (minimum \<le> last (ro_amounts (rm_output m)))"
proof -
  obtain r c code rows observers1 observers2 where run:
    "canonical_chain_address (PStr chain) (PStr router) = Some r"
    "canonical_chain_address (PStr chain) (PStr caller) = Some c" "2 \<le> k"
    "observe_contract_code observers chain r n k = (Inr code, observers1)" and o: "origin observers observers1"
    and pass: "probe observers1 chain router_answer (router_call_members r c (lower calldata) value) n = (Inr rows, observers2)"
    and e: "e = router_call_of chain r c n (lower calldata) value k code rows"
    using assms(1) by (rule router_called)
  have sent: "rw_chain e = chain" "rw_calldata e = lower calldata" "rw_value e = value"
    by (simp_all add: e router_call_of_def Let_def)
  obtain d where d: "decode_router_calldata chain (lower calldata) value = Inr d"
    and m: "(case interpreted_output e d of (output, verdict) \<Rightarrow> Inr \<lparr>rm_chain = rw_chain e, rm_router = rw_router e,
      rm_caller = rw_caller e, rm_block_number = rw_block_number e, rm_call_verdict = rw_verdict e, rm_calldata = d,
      rm_output = output, rm_verdict = verdict, rm_status = ''UNVERIFIED_ROUTER_CALL_SEMANTIC_EVIDENCE''\<rparr>)
      = (Inr m :: router_semantics evm)"
    using assms(2) by (auto simp: interpret_router_call_def and_then_Inr sent Let_def)
  have d: "decode_router_calldata chain (lower calldata) value = Inr (rm_calldata m)"
    and i: "interpreted_output e (rm_calldata m) = (rm_output m, ''SUPPORTED_CALLDATA_AND_OUTPUT_DECODED'')"
    using d m assms(3) by (auto split: prod.splits)
  have status: "rc_status (rm_calldata m) = ''SUPPORTED_ROUTER_CALLDATA_SEMANTICS''"
    and agreed: "rw_agreed_result e \<noteq> None"
    and out: "rm_output m = decode_uint256_array_output (rw_agreed_result e)
        (Some (int (length (rc_path (rm_calldata m))))) (rc_amount_in (rm_calldata m)) (rc_amount_out_min (rm_calldata m))"
      "ro_status (rm_output m) = ''DECODED_UINT256_ARRAY_OUTPUT''"
    using i by (auto simp: interpreted_output_def Let_def split: if_splits)
  obtain amount_in minimum where f: "rc_amount_in (rm_calldata m) = Some amount_in" "rc_amount_out_min (rm_calldata m) = Some minimum"
    using d status by (rule supported_calldata_fields)
  obtain result providers where a: "sole_answer k rows = Some (result, providers)" "rw_agreed_result e = Some result"
    "rw_successful_providers e = sort providers"
    using agreed by (auto simp: e router_call_of_def Let_def)
  obtain raw amounts where raw: "from_hex (drop 2 result) = Some raw"
      "decode_amounts raw (Some (int (length (rc_path (rm_calldata m))))) (Some amount_in) = Inr amounts"
    and m: "rm_output m = \<lparr>ro_amounts = amounts, ro_amount_in = Some (hd amounts), ro_amount_out = Some (last amounts),
      ro_minimum_output_satisfied = map_option (\<lambda>m. m \<le> last amounts) (Some minimum),
      ro_status = ''DECODED_UINT256_ARRAY_OUTPUT'', ro_issues = []\<rparr>"
    using out unfolding a(2) f by (metis decoded_output)
  have "raw = encode_amounts amounts" "length amounts = length (rc_path (rm_calldata m))" "amount_in = hd amounts"
    using raw(2) unfolding decode_amounts_iff [OF from_hex_bytes [OF raw(1)]] by simp_all
  with run(1-3) a sole_answer_says(1) [OF pass o a(1)] d raw(1) f m show ?thesis by (intro exI conjI) simp_all
qed

text \<open>A supported call of the demonstration router, and what it returns.\<close>

lemma lower_to_hex: "is_bytes bs \<Longrightarrow> lower (to_hex bs) = to_hex bs"
proof (induction bs)
  case (Cons b bs)
  have "lower_char (hex_char d) = hex_char d" if "d < 16" for d
    using hex_char_hex_val [of "hex_char d"] that by simp
  moreover have "b div 16 < 16" using Cons.prems by (simp add: div_less_iff_less_mult)
  ultimately show ?case using Cons by (simp add: lower_def)
qed (simp add: lower_def)

lemma hex_answers:
  assumes "is_bytes bs" "bs \<noteq> []"
  shows "complete_hex message (PStr (''0x'' @ to_hex bs)) = Inr (''0x'' @ to_hex bs)"
    "router_answer (PStr (''0x'' @ to_hex bs)) = Inr (''0x'' @ to_hex bs)"
proof -
  have h: "list_all is_hex (to_hex bs)" "to_hex bs \<noteq> []" using to_hex_hex [OF assms(1)] assms(2) by (cases bs; simp)+
  have "lower ''0x'' = ''0x''" by code_simp
  then have low: "lower (''0x'' @ to_hex bs) = ''0x'' @ to_hex bs" using lower_to_hex [OF assms(1)] by (simp add: lower_def)
  show c: "complete_hex message (PStr (''0x'' @ to_hex bs)) = Inr (''0x'' @ to_hex bs)" for message
    using h by (simp add: complete_hex_def starts_0x int_base16_plain)
  show "router_answer (PStr (''0x'' @ to_hex bs)) = Inr (''0x'' @ to_hex bs)"
    unfolding router_answer_def c and_then_simps low ..
qed

definition demo_fields :: router_fields where
  "demo_fields = \<lparr>rf_amount_in = 7, rf_amount_out_min = 5,
     rf_path = [demo_address (CHR ''1''), demo_address (CHR ''a'')], rf_recipient = demo_address (CHR ''b''),
     rf_deadline = 99\<rparr>"

definition demo_calldata :: bytes where
  "demo_calldata = [0x7f, 0xf3, 0x6a, 0xb5] @ encode_payload (snd (supported_routers ! 2)) demo_fields"

definition demo_data :: string where
  "demo_data = ''0x'' @ to_hex demo_calldata"

definition demo_result :: string where
  "demo_result = ''0x'' @ to_hex (encode_amounts [7, 9])"

definition demo_false :: string where
  "demo_false = ''0x'' @ to_hex (uint_word 0)"

lemma demo_calldata:
  "is_bytes demo_calldata" "5 \<le> length demo_calldata"
  "\<exists>d. decode_router_calldata ''base'' (''0x'' @ to_hex demo_calldata) 7 = Inr d
     \<and> rc_status d = ''SUPPORTED_ROUTER_CALLDATA_SEMANTICS'' \<and> rc_amount_in d = Some 7 \<and> length (rc_path d) = 2"
proof -
  let ?spec = "snd (supported_routers ! 2)"
  have spec: "(''7ff36ab5'', ?spec) \<in> set supported_routers" "map_of supported_routers ''7ff36ab5'' = Some ?spec"
    by (simp_all add: supported_routers_def)
  have "canonical_evm_address ''base'' (demo_address c)" if "c \<in> set ''1ab''" for c
    using that demo_address(2) demo_hex by auto
  then have enc: "encodable ''base'' ?spec demo_fields 7"
    by (simp add: encodable_def supported_routers_def is_uint256_def demo_fields_def)
  show b: "is_bytes demo_calldata" using payload_bytes [OF spec(1) enc] by (simp add: demo_calldata_def)
  show l: "5 \<le> length demo_calldata" by (simp add: demo_calldata_def encode_payload_def head_words_def)
  have sel: "to_hex (take 4 demo_calldata) = ''7ff36ab5''" unfolding demo_calldata_def by simp code_simp
  have "decode_payload ''base'' ?spec (drop 4 demo_calldata) 7 = Inr demo_fields"
    using decode_encode_payload [OF spec(1) enc] by (simp add: demo_calldata_def)
  then show "\<exists>d. decode_router_calldata ''base'' (''0x'' @ to_hex demo_calldata) 7 = Inr d
     \<and> rc_status d = ''SUPPORTED_ROUTER_CALLDATA_SEMANTICS'' \<and> rc_amount_in d = Some 7 \<and> length (rc_path d) = 2"
    using from_hex_to_hex [OF b] l by (simp add: decode_router_calldata_def sel spec(2) Let_def) (simp add: demo_fields_def)
qed

lemma interpreted_call_is_quorum_read_witness:
  "\<exists>e m. fst (observe_router_swap_call (demo_pair [(''eth_getCode'', PStr ''0x638456cb5900''),
         (''eth_call'', PStr demo_result)]) ''base'' (demo_address (CHR ''a''))
         (demo_address (CHR ''b'')) demo_data 5 7 2) = Inr e
     \<and> interpret_router_call e = Inr m \<and> rc_amount_in (rm_calldata m) = Some (hd (ro_amounts (rm_output m)))"
proof -
  let ?answers = "[(''eth_getCode'', PStr ''0x638456cb5900''), (''eth_call'', PStr demo_result)]"
  let ?r = "demo_address (CHR ''a'')" and ?c = "demo_address (CHR ''b'')"
  note canonical = demo_address(1) [OF demo_hex(3,9)] demo_address(1) [OF demo_hex(4,10)]
  have start: "list_all2 same_endpoint (demo_pair ?answers) (demo_pair ?answers)" by (simp add: list.rel_refl)
  have code: "dget ?answers ''eth_getCode'' = PStr ''0x638456cb5900''" and call: "dget ?answers ''eth_call'' = PStr demo_result"
    by (simp_all add: dget_def)
  obtain code o1 where c: "observe_contract_code (demo_pair ?answers) ''base'' ?r 5 2 = (Inr code, o1)"
    using demo_contract_code [OF code, folded demo_address_def] by (elim exE conjE) (rule that, rule answer_pair)
  then have s1: "list_all2 same_endpoint (demo_pair ?answers) o1" using contract_code_keeps by (metis snd_conv)
  have bytes: "is_bytes (encode_amounts [7, 9])" by (simp add: encode_amounts_def)
  have "length (encode_amounts [7, 9]) \<noteq> 0" by (simp add: encode_amounts_def)
  then have some: "encode_amounts [7, 9] \<noteq> []" by force
  obtain o2 where p: "probe o1 ''base'' router_answer (router_call_members ?r ?c demo_data 7) 5 = (Inr (demo_rows demo_result), o2)"
    using s1 call hex_answers(2) [OF bytes some, folded demo_result_def] by (rule demo_probe)
  have "length (to_hex demo_calldata) \<noteq> 0" unfolding length_to_hex using demo_calldata(2) by linarith
  then have hex: "list_all is_hex (to_hex demo_calldata)" "to_hex demo_calldata \<noteq> []"
    using to_hex_hex [OF demo_calldata(1)] by force+
  have "lower ''0x'' = ''0x''" by code_simp
  then have low: "lower demo_data = demo_data" using lower_to_hex [OF demo_calldata(1)] by (simp add: demo_data_def lower_def)
  have d2: "drop 2 demo_data = to_hex demo_calldata" "take 2 demo_data = ''0x''" "length demo_data = 2 + 2 * length demo_calldata"
    by (simp_all add: demo_data_def)
  have n: "normalize_calldata demo_data = Inr demo_data"
    using demo_calldata(2) by (simp add: normalize_calldata_def starts_0x d2 int_base16_plain [OF hex] low)
  let ?e = "router_call_of ''base'' ?r ?c 5 demo_data 7 2 code (demo_rows demo_result)"
  have run: "observe_router_swap_call (demo_pair ?answers) ''base'' ?r ?c demo_data 5 7 2 = (Inr ?e, o2)"
    using n by (simp add: observe_router_swap_call_def canonical pass_then_def c p)
  obtain d where d: "decode_router_calldata ''base'' demo_data 7 = Inr d"
     "rc_status d = ''SUPPORTED_ROUTER_CALLDATA_SEMANTICS''" "rc_amount_in d = Some 7" "length (rc_path d) = 2"
    using demo_calldata(3) unfolding demo_data_def by blast
  have "decode_amounts (encode_amounts [7, 9]) (Some 2) (Some 7) = Inr [7, 9]"
    unfolding decode_amounts_iff [OF bytes] by (simp add: is_uint256_def)
  then have out: "ro_status (decode_uint256_array_output (Some demo_result) (Some 2) (Some 7) minimum)
      = ''DECODED_UINT256_ARRAY_OUTPUT''" for minimum
    by (simp add: decode_uint256_array_output_def demo_result_def from_hex_to_hex [OF bytes])
  have f: "rw_chain ?e = ''base''" "rw_calldata ?e = demo_data" "rw_value ?e = 7" "rw_agreed_result ?e = Some demo_result"
    "rw_verdict ?e = ''ROUTER_SWAP_CALL_QUORUM_SUCCEEDED''" "rw_status ?e = ''UNVERIFIED_ROUTER_SWAP_CALL_EVIDENCE''"
    by (simp_all add: router_call_of_def demo_rows_answer Let_def)
  have "snd (interpreted_output ?e d) = ''SUPPORTED_CALLDATA_AND_OUTPUT_DECODED''"
    unfolding interpreted_output_def f d using out by (simp add: Let_def)
  then obtain m where m: "interpret_router_call ?e = Inr m" "rm_verdict m = ''SUPPORTED_CALLDATA_AND_OUTPUT_DECODED''"
    unfolding interpret_router_call_def f d(1) by (cases "interpreted_output ?e d") simp
  have "rc_amount_in (rm_calldata m) = Some (hd (ro_amounts (rm_output m)))"
    using interpreted_call_is_quorum_read [OF run m] by blast
  with run m show ?thesis by fastforce
qed

section \<open>A transfer that reports failure\<close>

text \<open>
  A standard token may refuse a transfer by returning false. The calls only have to return complete
  hexadecimal text, so such a transfer counts as one that went through.
\<close>

lemma refused_transfer_counts:
  "\<exists>e. fst (observe_transfer_path (demo_pair [(''eth_call'', PStr demo_false)]) ''base''
       (demo_address (CHR ''a'')) (demo_address (CHR ''b'')) (demo_address (CHR ''c'')) 7 5 2) = Inr e
     \<and> tp_verdict e = ''TRANSFER_CALL_SUCCEEDED''"
proof -
  let ?answers = "[(''eth_call'', PStr demo_false)]"
  let ?t = "demo_address (CHR ''a'')" and ?h = "demo_address (CHR ''b'')" and ?r = "demo_address (CHR ''c'')"
  have start: "list_all2 same_endpoint (demo_pair ?answers) (demo_pair ?answers)" by (simp add: list.rel_refl)
  have answer: "dget ?answers ''eth_call'' = PStr demo_false" by (simp add: dget_def)
  have "uint_word 0 \<noteq> []" using length_uint_word [of 0] by force
  note false = hex_answers(1) [OF uint_word_bytes this, folded demo_false_def]
  note canonical = demo_address(1) [OF demo_hex(3,9)] demo_address(1) [OF demo_hex(4,10)]
    demo_address(1) [OF demo_hex(5,11)]
  obtain key where key: "token_key_of ''base'' ?t = Inr key" using demo_token_key by blast
  obtain data where data: "encode_transfer ?r 7 = Inr data" by (simp add: encode_transfer_def)
  obtain o1 where p: "probe (demo_pair ?answers) ''base'' (complete_hex ''invalid eth_call response'')
      [(''to'', ?t), (''from'', ?h), (''data'', data)] 5 = (Inr (demo_rows demo_false), o1)"
    using start answer false by (rule demo_probe)
  show ?thesis by (simp add: observe_transfer_path_def canonical pass_then_def data p key demo_rows_answer)
qed

end
