(* ===== verification/Evm_Factory.thy ===== *)
theory Evm_Factory
  imports Evm_Sell_Path
begin

text \<open>
  What a factory, a pool and their code say of each other: the factory's lookup of a pool
  (\<^verbatim>\<open>evm_factory_evidence.py\<close>, \<^verbatim>\<open>evm_factory_attested_pool.py\<close>), the tokens of a pool
  (\<^verbatim>\<open>evm_pair_identity.py\<close>), known implementations (\<^verbatim>\<open>evm_implementation_registry.py\<close>,
  \<^verbatim>\<open>evm_router_fingerprint.py\<close>) and the family they belong to (\<^verbatim>\<open>evm_family_composition.py\<close>,
  \<^verbatim>\<open>evidence_pairing.py\<close>). Limitations that are constants are left out.
\<close>

section \<open>The lookup\<close>

definition v2_factory_lookup_selector :: string where
  "v2_factory_lookup_selector = ''0xe6a43905''"

definition v3_factory_lookup_selector :: string where
  "v3_factory_lookup_selector = ''0x1698ee82''"

text \<open>
  \<^verbatim>\<open>decode_factory_address\<close> and \<^verbatim>\<open>_decode_address_response\<close>, which differ in their messages: for a
  malformed response, for padding that is not zero and for an address the chain does not know.
\<close>

definition address_response :: "string \<times> string \<times> string \<Rightarrow> string \<Rightarrow> string \<Rightarrow> string evm" where
  "address_response messages chain response =
    (case messages of (malformed, unpadded, unknown) \<Rightarrow>
     raise_if (\<not> starts_with ''0x'' response \<or> length response \<noteq> 66) (Rpc_Error malformed)
     (raise_if (\<not> hex_text (drop 2 response)) (Rpc_Error malformed)
     (raise_if (lower (take 24 (drop 2 response)) \<noteq> replicate 24 (CHR ''0'')) (Rpc_Error unpadded)
     (case canonical_chain_address (PStr chain) (PStr (''0x'' @ drop 26 response)) of
        None \<Rightarrow> Inl (Rpc_Error unknown)
      | Some address \<Rightarrow> Inr address))))"

definition factory_messages :: "string \<times> string \<times> string" where
  "factory_messages = (''invalid factory address response'', ''factory address response is not canonical ABI data'',
     ''factory address response could not be canonicalized'')"

definition decode_factory_address :: "string \<Rightarrow> string \<Rightarrow> string evm" where
  "decode_factory_address chain response = address_response factory_messages chain response"

definition build_factory_lookup :: "pool_candidate \<Rightarrow> string evm" where
  "build_factory_lookup pool =
    (case (canonical_chain_address (PStr (pc_chain pool)) (PStr (pc_token0_address pool)),
           canonical_chain_address (PStr (pc_chain pool)) (PStr (pc_token1_address pool))) of
       (Some token0, Some token1) \<Rightarrow>
         raise_if (token0 = token1) (Value_Error ''pool candidate tokens must be distinct canonical addresses'')
         (if pc_event_family pool = ''V2_STYLE_PAIR_CREATED''
          then Inr (v2_factory_lookup_selector @ padded_address token0 @ padded_address token1)
          else if pc_event_family pool = ''V3_STYLE_POOL_CREATED''
          then (case pc_fee_tier pool of
              None \<Rightarrow> Inl (Value_Error ''V3 pool candidate requires valid uint24 fee tier'')
            | Some fee \<Rightarrow>
                raise_if (fee < 0 \<or> 0xFFFFFF < fee) (Value_Error ''V3 pool candidate requires valid uint24 fee tier'')
                (Inr (v3_factory_lookup_selector @ padded_address token0 @ padded_address token1 @ hex64 fee)))
          else Inl (Value_Error ''unsupported DEX pool event family''))
     | _ \<Rightarrow> Inl (Value_Error ''pool candidate tokens must be distinct canonical addresses''))"

section \<open>The relationship\<close>

record relationship_source =
  fs_provider :: string
  fs_returned_address :: string

record factory_relationship =
  fr_chain :: string
  fr_factory_address :: string
  fr_pool_address :: string
  fr_token0_address :: string
  fr_token1_address :: string
  fr_event_family :: string
  fr_fee_tier :: "int option"
  fr_block_number :: int
  fr_factory_code :: contract_code
  fr_returned_address :: "string option"
  fr_sources :: "relationship_source list"
  fr_relationship :: string
  fr_status :: string
  fr_limitations :: "string list"

definition relationship_of ::
  "pool_candidate \<Rightarrow> contract_code \<Rightarrow> int \<Rightarrow> string option \<Rightarrow> string list \<Rightarrow> string \<Rightarrow> string list
     \<Rightarrow> factory_relationship" where
  "relationship_of pool code n returned providers relationship limitations =
     \<lparr>fr_chain = pc_chain pool, fr_factory_address = pc_factory_address pool, fr_pool_address = pc_pool_address pool,
      fr_token0_address = pc_token0_address pool, fr_token1_address = pc_token1_address pool,
      fr_event_family = pc_event_family pool, fr_fee_tier = pc_fee_tier pool, fr_block_number = n,
      fr_factory_code = code, fr_returned_address = returned,
      fr_sources = (case returned of
          None \<Rightarrow> []
        | Some address \<Rightarrow> map (\<lambda>p. \<lparr>fs_provider = p, fs_returned_address = address\<rparr>) providers),
      fr_relationship = relationship, fr_status = ''UNVERIFIED_FACTORY_RELATIONSHIP_EVIDENCE'',
      fr_limitations = limitations\<rparr>"

definition relationship_label :: "string \<Rightarrow> string \<Rightarrow> string" where
  "relationship_label pool_address returned =
    (if returned = pool_address then ''FACTORY_LOOKUP_MATCHES_DISCOVERED_POOL''
     else if returned = zero_address then ''FACTORY_LOOKUP_REPORTS_NO_POOL''
     else ''FACTORY_LOOKUP_CONFLICTS_WITH_DISCOVERED_POOL'')"

definition classify_factory_relationship ::
  "pool_candidate \<Rightarrow> contract_code \<Rightarrow> exact_call_observation \<Rightarrow> factory_relationship evm" where
  "classify_factory_relationship pool code ob =
    raise_if (xc_chain ob \<noteq> pc_chain pool \<or> xc_target ob \<noteq> pc_factory_address pool)
      (Value_Error ''factory observation target does not match pool candidate'')
    (raise_if (xc_block_number ob \<noteq> ce_block_number code)
      (Value_Error ''factory observation and code evidence must share a historical block'')
    (raise_if ((ce_chain code, ce_chain_id code, ce_address code, ce_contract_key code)
        \<noteq> (pc_chain pool, pc_chain_id pool, pc_factory_address pool, pc_factory_key pool))
      (Value_Error ''factory code identity does not match pool candidate'')
    (raise_if (\<not> is_hex_data (PStr (xc_calldata ob)) None)
      (Value_Error ''factory observation calldata does not match pool lookup'')
    (and_then (build_factory_lookup pool) (\<lambda>expected.
     raise_if (lower (xc_calldata ob) \<noteq> lower expected)
       (Value_Error ''factory observation calldata does not match pool lookup'')
     (case xr_agreed_result (xc_consensus ob) of
        None \<Rightarrow> Inr (relationship_of pool code (xc_block_number ob) None [] ''UNKNOWN_FACTORY_RELATIONSHIP''
                  [''FACTORY_LOOKUP_'' @ xr_verdict (xc_consensus ob)])
      | Some result \<Rightarrow>
          and_then (decode_factory_address (pc_chain pool) result) (\<lambda>returned.
          Inr (relationship_of pool code (xc_block_number ob) (Some returned) (xr_providers (xc_consensus ob))
            (relationship_label (pc_pool_address pool) returned)
            [''FACTORY_LOOKUP_DOES_NOT_PROVE_FACTORY_IMPLEMENTATION_AUTHENTICITY'',
             ''FACTORY_LOOKUP_DOES_NOT_PROVE_POOL_IMPLEMENTATION_AUTHENTICITY'',
             ''FACTORY_LOOKUP_DOES_NOT_PROVE_LIQUIDITY_QUALITY_OR_SAFETY'']))))))))"

record attested_pool =
  fa_relationship :: factory_relationship
  fa_chain :: string
  fa_factory_address :: string
  fa_pool_address :: string
  fa_block_number :: int
  fa_verdict :: string
  fa_status :: string

definition attested_pool_of :: "factory_relationship \<Rightarrow> string \<Rightarrow> attested_pool" where
  "attested_pool_of rel verdict =
     \<lparr>fa_relationship = rel, fa_chain = fr_chain rel, fa_factory_address = fr_factory_address rel,
      fa_pool_address = fr_pool_address rel, fa_block_number = fr_block_number rel, fa_verdict = verdict,
      fa_status = ''UNVERIFIED_FACTORY_ATTESTED_POOL_DEPLOYMENT_EVIDENCE''\<rparr>"

definition assess_factory_attested_pool_deployment :: "factory_relationship \<Rightarrow> attested_pool evm" where
  "assess_factory_attested_pool_deployment rel =
    (if fr_relationship rel = ''FACTORY_LOOKUP_MATCHES_DISCOVERED_POOL''
     then
       raise_if (list_ex (\<lambda>s. strip (fs_provider s) = []) (fr_sources rel)
           \<or> length (remdups (map fs_provider (fr_sources rel))) < 2)
         (Value_Error ''matching factory relationship requires distinct provider evidence'')
       (raise_if (fr_returned_address rel \<noteq> Some (fr_pool_address rel))
         (Value_Error ''matching factory relationship must return the discovered pool'')
       (raise_if (list_ex (\<lambda>s. fs_returned_address s \<noteq> fr_pool_address rel) (fr_sources rel))
         (Value_Error ''matching factory relationship sources must return the discovered pool'')
       (Inr (attested_pool_of rel ''FACTORY_HISTORICALLY_ATTESTS_POOL''))))
     else if fr_relationship rel \<in> set [''FACTORY_LOOKUP_REPORTS_NO_POOL'', ''FACTORY_LOOKUP_CONFLICTS_WITH_DISCOVERED_POOL'']
     then Inr (attested_pool_of rel ''FACTORY_ATTESTED_POOL_RELATIONSHIP_CONFLICT'')
     else if fr_relationship rel = ''UNKNOWN_FACTORY_RELATIONSHIP''
     then Inr (attested_pool_of rel ''UNKNOWN_FACTORY_ATTESTED_POOL_DEPLOYMENT'')
     else Inl (Value_Error ''unsupported factory relationship verdict''))"

section \<open>The tokens of a pool\<close>

definition token0_selector :: string where
  "token0_selector = ''0x0dfe1681''"

definition token1_selector :: string where
  "token1_selector = ''0xd21220a7''"

record pair_source =
  pn_provider :: string
  pn_token0 :: string
  pn_token1 :: string

record pair_identity =
  pd_chain :: string
  pd_pool_key :: string
  pd_pool_address :: string
  pd_block_number :: int
  pd_discovered_token0 :: string
  pd_discovered_token1 :: string
  pd_observed_token0 :: string
  pd_observed_token1 :: string
  pd_pair_code :: contract_code
  pd_sources :: "pair_source list"
  pd_discovery_consistency :: string
  pd_status :: string

definition pair_messages :: "string \<times> string \<times> string" where
  "pair_messages = (''invalid pair token address response'',
     ''pair token address response is not canonical ABI address data'', ''pair token address could not be canonicalized'')"

text \<open>The \<^verbatim>\<open>try\<close> of the loop: both tokens as one observer gives them.\<close>

definition pair_tokens :: "string \<Rightarrow> string \<Rightarrow> int \<Rightarrow> (string \<times> string) observing" where
  "pair_tokens chain address n =
    obs_then attest_chain (\<lambda>_.
    obs_then (call_at_block address token0_selector n) (\<lambda>response0.
    obs_then (obs_lift (address_response pair_messages chain response0)) (\<lambda>token0.
    obs_then (call_at_block address token1_selector n) (\<lambda>response1.
    obs_then (obs_lift (address_response pair_messages chain response1)) (\<lambda>token1.
    obs_lift (Inr (token0, token1)))))))"

definition pair_identity_of ::
  "pool_candidate \<Rightarrow> int \<Rightarrow> contract_code \<Rightarrow> (string \<times> string) \<times> string list \<Rightarrow> pair_identity" where
  "pair_identity_of pool n code agreed =
    (case agreed of ((token0, token1), providers) \<Rightarrow>
     \<lparr>pd_chain = pc_chain pool, pd_pool_key = pc_pool_key pool, pd_pool_address = pc_pool_address pool,
      pd_block_number = n, pd_discovered_token0 = pc_token0_address pool, pd_discovered_token1 = pc_token1_address pool,
      pd_observed_token0 = token0, pd_observed_token1 = token1, pd_pair_code = code,
      pd_sources = sort_key pn_provider (map (\<lambda>p. \<lparr>pn_provider = p, pn_token0 = token0, pn_token1 = token1\<rparr>) providers),
      pd_discovery_consistency = (if (token0, token1) = (pc_token0_address pool, pc_token1_address pool)
        then ''PAIR_TOKENS_MATCH_DISCOVERY_EVENT'' else ''PAIR_TOKENS_CONFLICT_WITH_DISCOVERY_EVENT''),
      pd_status = ''UNVERIFIED_PAIR_TOKEN_IDENTITY_EVIDENCE''\<rparr>)"

definition pair_verdict ::
  "pool_candidate \<Rightarrow> int \<Rightarrow> int \<Rightarrow> contract_code \<Rightarrow> (string \<times> string \<times> string) list \<Rightarrow> pair_identity evm" where
  "pair_verdict pool n min_quorum code rows =
    (let groups = group_rows (filter (\<lambda>(p, token0, token1). token0 \<noteq> token1) rows) in
     case (if length groups = 1 then sole (qualifying min_quorum groups) else None) of
       None \<Rightarrow> Inl (Rpc_Error ''pair token identity quorum not reached'')
     | Some agreed \<Rightarrow> Inr (pair_identity_of pool n code agreed))"

definition observe_pair_token_identity ::
  "evm_rpc list \<Rightarrow> pool_candidate \<Rightarrow> int \<Rightarrow> int \<Rightarrow> pair_identity evm \<times> evm_rpc list" where
  "observe_pair_token_identity observers pool n min_quorum =
    (if min_quorum < 2 then (Inl (Value_Error ''min_quorum must be at least 2''), observers)
     else if n < 0 then (Inl (Value_Error ''block_number must be non-negative''), observers)
     else if pc_status pool \<noteq> ''UNVERIFIED_DEX_POOL_CANDIDATE''
     then (Inl (Value_Error ''unsupported pool candidate status''), observers)
     else if int (length (distinct_observers [] observers)) < min_quorum
     then (Inl (Rpc_Error ''insufficient distinct RPC providers for pair identity quorum''), observers)
     else
       pass_then (observe_contract_code observers (pc_chain pool) (pc_pool_address pool) n min_quorum) (\<lambda>code observers.
       pass_then (sweep (\<lambda>_. True) (on_chain (pc_chain pool)) is_rpc_error
           (pair_tokens (pc_chain pool) (pc_pool_address pool) n) [] observers) (\<lambda>rows observers.
       (pair_verdict pool n min_quorum code rows, observers))))"

record path_consistency =
  pp_chain :: string
  pp_pool_key :: string
  pp_block_number :: int
  pp_path :: "string list"
  pp_matching_hops :: "nat list"
  pp_verdict :: string
  pp_status :: string

definition path_consistency_of :: "pair_identity \<Rightarrow> router_calldata \<Rightarrow> nat list \<Rightarrow> string \<Rightarrow> path_consistency" where
  "path_consistency_of pair calldata hops verdict =
     \<lparr>pp_chain = pd_chain pair, pp_pool_key = pd_pool_key pair, pp_block_number = pd_block_number pair,
      pp_path = rc_path calldata, pp_matching_hops = hops, pp_verdict = verdict,
      pp_status = ''UNVERIFIED_PAIR_PATH_CONSISTENCY_EVIDENCE''\<rparr>"

definition compare_pair_to_router_path :: "pair_identity \<Rightarrow> router_calldata \<Rightarrow> path_consistency evm" where
  "compare_pair_to_router_path pair calldata =
    raise_if (pd_status pair \<noteq> ''UNVERIFIED_PAIR_TOKEN_IDENTITY_EVIDENCE'')
      (Value_Error ''unsupported pair identity evidence status'')
    (if rc_status calldata \<noteq> ''SUPPORTED_ROUTER_CALLDATA_SEMANTICS''
     then Inr (path_consistency_of pair calldata [] ''UNKNOWN_PATH_SEMANTICS'')
     else
       (let hops = filter (\<lambda>i. {rc_path calldata ! i, rc_path calldata ! (i + 1)}
                = {pd_observed_token0 pair, pd_observed_token1 pair}) [0..<length (rc_path calldata) - 1]
        in Inr (path_consistency_of pair calldata hops
             (if hops \<noteq> [] then ''PAIR_MATCHES_ROUTER_PATH_HOP'' else ''PAIR_NOT_PRESENT_IN_ROUTER_PATH''))))"

section \<open>Known implementations\<close>

record fingerprint_entry =
  fe_fingerprint :: string
  fe_byte_length :: int
  fe_role :: string
  fe_family :: string
  fe_version :: string
  fe_source_kind :: string
  fe_source_reference :: string
  fe_chains :: "string list"

definition allowed_roles :: "string list" where
  "allowed_roles = [''FACTORY'', ''POOL'', ''ROUTER'']"

text \<open>\<^verbatim>\<open>__post_init__\<close>: the checks, then the normal form.\<close>

definition make_entry :: "fingerprint_entry \<Rightarrow> fingerprint_entry evm" where
  "make_entry entry =
    (let digest = lower (fe_fingerprint entry); role = upper (fe_role entry) in
     raise_if (length digest \<noteq> 64) (Value_Error ''fingerprint_sha256 must be 64 hex characters'')
    (raise_if (\<not> hex_text digest) (Value_Error ''fingerprint_sha256 must be 64 hex characters'')
    (raise_if (fe_byte_length entry \<le> 0) (Value_Error ''byte_length must be positive'')
    (raise_if (role \<notin> set allowed_roles) (Value_Error ''contract_role must be FACTORY, POOL, or ROUTER'')
    (raise_if (strip (fe_family entry) = []) (Value_Error ''implementation_family is required'')
    (raise_if (strip (fe_version entry) = []) (Value_Error ''implementation_version is required'')
    (raise_if (strip (fe_source_kind entry) = [] \<or> strip (fe_source_reference entry) = [])
      (Value_Error ''registry provenance source is required'')
    (raise_if (\<not> distinct (fe_chains entry)) (Value_Error ''chains must not contain duplicates'')
    (Inr (entry\<lparr>fe_fingerprint := digest, fe_role := role, fe_chains := sort (fe_chains entry)\<rparr>))))))))))"

record fingerprint_match =
  fm_family :: string
  fm_version :: string
  fm_role :: string
  fm_source_kind :: string
  fm_source_reference :: string
  fm_chains :: "string list"

record fingerprint_evidence =
  fp_chain :: string
  fp_contract_key :: string
  fp_address :: string
  fp_block_number :: int
  fp_observed_fingerprint :: string
  fp_observed_byte_length :: int
  fp_expected_role :: string
  fp_matches :: "fingerprint_match list"
  fp_verdict :: string
  fp_status :: string

definition entry_matches :: "contract_code \<Rightarrow> string \<Rightarrow> fingerprint_entry \<Rightarrow> bool" where
  "entry_matches code role entry \<longleftrightarrow>
     fe_role entry = role \<and> fe_fingerprint entry = lower (ce_fingerprint code)
     \<and> fe_byte_length entry = ce_byte_length code \<and> (fe_chains entry = [] \<or> ce_chain code \<in> set (fe_chains entry))"

text \<open>The match of an entry, which is also the key under which it is seen.\<close>

definition match_of :: "fingerprint_entry \<Rightarrow> fingerprint_match" where
  "match_of entry = \<lparr>fm_family = fe_family entry, fm_version = fe_version entry, fm_role = fe_role entry,
     fm_source_kind = fe_source_kind entry, fm_source_reference = fe_source_reference entry,
     fm_chains = fe_chains entry\<rparr>"

fun collect_matches ::
  "contract_code \<Rightarrow> string \<Rightarrow> fingerprint_match list \<Rightarrow> fingerprint_entry list \<Rightarrow> fingerprint_match list" where
  "collect_matches code role matched [] = matched"
| "collect_matches code role matched (entry # registry) =
     collect_matches code role
       (if entry_matches code role entry \<and> match_of entry \<notin> set matched then matched @ [match_of entry] else matched)
       registry"

definition implementation_of :: "fingerprint_match \<Rightarrow> string \<times> string \<times> string" where
  "implementation_of m = (fm_family m, fm_version m, fm_role m)"

definition fingerprint_verdict :: "fingerprint_match list \<Rightarrow> string" where
  "fingerprint_verdict matched =
    (if matched = [] then ''UNKNOWN_IMPLEMENTATION_FINGERPRINT''
     else if length (remdups (map implementation_of matched)) = 1 then ''EXACT_IMPLEMENTATION_FINGERPRINT_MATCH''
     else ''AMBIGUOUS_IMPLEMENTATION_FINGERPRINT'')"

definition classify_implementation_fingerprint ::
  "contract_code \<Rightarrow> fingerprint_entry list \<Rightarrow> string \<Rightarrow> fingerprint_evidence evm" where
  "classify_implementation_fingerprint code registry expected_role =
    (let role = upper expected_role; matched = collect_matches code role [] registry in
     raise_if (role \<notin> set allowed_roles) (Value_Error ''expected_role must be FACTORY, POOL, or ROUTER'')
     (Inr \<lparr>fp_chain = ce_chain code, fp_contract_key = ce_contract_key code, fp_address = ce_address code,
           fp_block_number = ce_block_number code, fp_observed_fingerprint = lower (ce_fingerprint code),
           fp_observed_byte_length = ce_byte_length code, fp_expected_role = role,
           fp_matches = sort_key (\<lambda>m. (fm_family m, fm_version m, fm_source_reference m)) matched,
           fp_verdict = fingerprint_verdict matched,
           fp_status = ''UNVERIFIED_IMPLEMENTATION_FINGERPRINT_EVIDENCE''\<rparr>))"

definition classify_router_implementation ::
  "router_call \<Rightarrow> fingerprint_entry list \<Rightarrow> fingerprint_evidence evm" where
  "classify_router_implementation evidence registry =
    (let code = rw_router_code evidence in
     raise_if (ce_chain code \<noteq> rw_chain evidence)
       (Value_Error ''router code evidence must share router-call chain'')
    (raise_if (ce_address code \<noteq> rw_router evidence)
       (Value_Error ''router code evidence address must match router-call target'')
    (raise_if (ce_block_number code \<noteq> rw_block_number evidence)
       (Value_Error ''router code evidence must share router-call historical block'')
    (classify_implementation_fingerprint code registry ''ROUTER''))))"

section \<open>Families\<close>

record pairing =
  pr_left :: "string option"
  pr_right :: "string option"
  pr_verdict :: string

definition compare_labels :: "string option \<Rightarrow> string option \<Rightarrow> pairing" where
  "compare_labels left right = \<lparr>pr_left = left, pr_right = right,
     pr_verdict = (if left = None \<or> right = None then ''UNKNOWN''
       else if left = right then ''CONSISTENT'' else ''CONFLICT'')\<rparr>"

record family_consistency =
  fc_chain :: string
  fc_block_number :: int
  fc_factory_address :: string
  fc_pool_address :: string
  fc_factory_family :: "string option"
  fc_pool_family :: "string option"
  fc_verdict :: string
  fc_status :: string
  fc_issues :: "string list"

definition resolved_family :: "fingerprint_evidence \<Rightarrow> string \<Rightarrow> string option evm" where
  "resolved_family evidence expected_role =
    raise_if (fp_expected_role evidence \<noteq> expected_role)
      (Value_Error (''fingerprint evidence must have '' @ expected_role @ '' role''))
    (Inr (if fp_verdict evidence \<noteq> ''EXACT_IMPLEMENTATION_FINGERPRINT_MATCH'' then None
          else sole (remdups (map fm_family (fp_matches evidence)))))"

definition family_verdict :: "string \<Rightarrow> string option \<Rightarrow> string option \<Rightarrow> string \<times> string list" where
  "family_verdict relationship factory_family pool_family =
    (if relationship \<noteq> ''FACTORY_LOOKUP_MATCHES_DISCOVERED_POOL''
     then (''UNKNOWN_FACTORY_POOL_FAMILY_CONSISTENCY'', [''FACTORY_POOL_RELATIONSHIP_NOT_CONFIRMED''])
     else
       (let paired = pr_verdict (compare_labels factory_family pool_family) in
        if paired = ''CONSISTENT'' then (''FACTORY_POOL_IMPLEMENTATION_FAMILY_CONSISTENT'', [])
        else if paired = ''CONFLICT'' then (''FACTORY_POOL_IMPLEMENTATION_FAMILY_CONFLICT'', [])
        else (''UNKNOWN_FACTORY_POOL_FAMILY_CONSISTENCY'',
          [''IMPLEMENTATION_FAMILY_EVIDENCE_INCOMPLETE_OR_AMBIGUOUS''])))"

definition compose_factory_pool_family_consistency ::
  "factory_relationship \<Rightarrow> fingerprint_evidence \<Rightarrow> fingerprint_evidence \<Rightarrow> family_consistency evm" where
  "compose_factory_pool_family_consistency rel factory pool =
    raise_if (fp_chain factory \<noteq> fr_chain rel \<or> fp_chain pool \<noteq> fr_chain rel)
      (Value_Error ''family evidence must share the relationship chain'')
    (raise_if (fp_block_number factory \<noteq> fr_block_number rel \<or> fp_block_number pool \<noteq> fr_block_number rel)
      (Value_Error ''family evidence must share the relationship historical block'')
    (raise_if (fp_address factory \<noteq> fr_factory_address rel)
      (Value_Error ''factory fingerprint address does not match relationship factory'')
    (raise_if (fp_address pool \<noteq> fr_pool_address rel)
      (Value_Error ''pool fingerprint address does not match relationship pool'')
    (and_then (resolved_family factory ''FACTORY'') (\<lambda>factory_family.
     and_then (resolved_family pool ''POOL'') (\<lambda>pool_family.
     let (verdict, issues) = family_verdict (fr_relationship rel) factory_family pool_family in
     Inr \<lparr>fc_chain = fr_chain rel, fc_block_number = fr_block_number rel, fc_factory_address = fr_factory_address rel,
          fc_pool_address = fr_pool_address rel, fc_factory_family = factory_family, fc_pool_family = pool_family,
          fc_verdict = verdict, fc_status = ''UNVERIFIED_FACTORY_POOL_FAMILY_CONSISTENCY_EVIDENCE'',
          fc_issues = issues\<rparr>))))))"

section \<open>Addresses in answers\<close>

text \<open>The word of an address, as the calls return it.\<close>

definition address_answer :: "string \<Rightarrow> string" where
  "address_answer a = ''0x'' @ to_hex (address_word a)"

lemma zero_x_not_base58: "\<not> is_solana_address (''0x'' @ s)"
proof -
  have "\<not> is_base58 (CHR ''0'')" by code_simp
  then show ?thesis by (simp add: is_solana_address_def)
qed

lemma canonical_0x:
  assumes "canonical_chain_address (PStr chain) (PStr (''0x'' @ s)) = Some a" "lower (''0x'' @ s) = ''0x'' @ s"
    "list_all is_hex s"
  shows "a = ''0x'' @ s" "canonical_evm_address chain a"
proof -
  have plain: "strip (''0x'' @ s) = ''0x'' @ s"
    using assms(3) is_hex_plain by (intro strip_plain) (auto simp: list_all_iff is_space_def)
  show "a = ''0x'' @ s" "canonical_evm_address chain a"
    using assms(1)
    by (cases rule: canonical_cases; use plain zero_x_not_base58 assms(2) in \<open>auto simp: canonical_evm_address_def\<close>)+
qed

lemma address_response_Inr:
  assumes "says_call target data n rpc response" "address_response messages chain response = Inr a"
  shows "canonical_evm_address chain a" "response = address_answer a"
proof -
  have t: "list_all is_hex (drop 2 response)" "lower response = response" "take 2 response = ''0x''"
    using says_text assms(1) by (auto simp: says_call_def starts_0x)
  obtain malformed unpadded unknown where m: "messages = (malformed, unpadded, unknown)" by (cases messages)
  have r: "length response = 66" "lower (take 24 (drop 2 response)) = replicate 24 (CHR ''0'')"
    "canonical_chain_address (PStr chain) (PStr (''0x'' @ drop 26 response)) = Some a"
    using assms(2) by (auto simp: m address_response_def split: option.splits)
  have low: "lower (take 24 (drop 2 response)) = take 24 (drop 2 response)" "lower (drop 26 response) = drop 26 response"
    using t(2) unfolding lower_def by (metis drop_map take_map)+
  have "lower ''0x'' = ''0x''" by code_simp
  then have "lower (''0x'' @ drop 26 response) = ''0x'' @ drop 26 response" using low(2) by (simp add: lower_def)
  moreover have "drop 26 response = drop 24 (drop 2 response)" by simp
  then have "list_all is_hex (drop 26 response)" using t(1) by (metis in_set_dropD list_all_iff)
  ultimately have a: "a = ''0x'' @ drop 26 response" "canonical_evm_address chain a"
    using canonical_0x [OF r(3)] by blast+
  have "response = ''0x'' @ drop 2 response" using append_take_drop_id [of 2 response] unfolding t(3) by (rule sym)
  then have "response = ''0x'' @ take 24 (drop 2 response) @ drop 24 (drop 2 response)" by (metis append_take_drop_id)
  then have "response = ''0x'' @ padded_address a"
    using r(2) by (simp add: low(1) a(1) padded_address_def)
  then show "response = address_answer a" unfolding address_answer_def by (simp only: padded_address_word [OF a(2)])
  show "canonical_evm_address chain a" by (rule a(2))
qed

lemma address_answer_decodes:
  assumes "canonical_evm_address chain a"
  shows "address_response messages chain (address_answer a) = Inr a"
proof -
  obtain malformed unpadded unknown where m: "messages = (malformed, unpadded, unknown)" by (cases messages)
  have a: "is_evm_address a" "lower a = a" and canonical: "canonical_chain_address (PStr chain) (PStr a) = Some a"
    using assms canonical_evm by (auto simp: canonical_evm_address_def)
  have e: "address_answer a = ''0x'' @ replicate 24 (CHR ''0'') @ drop 2 a"
    using padded_address_word [OF assms] by (simp add: address_answer_def padded_address_def)
  have "a = ''0x'' @ drop 2 a" using a(1) append_take_drop_id [of 2 a] by (simp add: is_evm_address_def)
  moreover have len: "length (drop 2 a) = 40" "list_all is_hex (drop 2 a)" using a(1) by (simp_all add: is_evm_address_def)
  moreover have "hex_text (replicate 24 (CHR ''0'') @ drop 2 a)"
    using len(2) demo_hex(1) by (intro hex_text_plain) (auto simp: list_all_iff)
  moreover have "lower (replicate 24 (CHR ''0'')) = replicate 24 (CHR ''0'')" using demo_hex(7) by (rule lower_replicate)
  moreover have d: "drop 2 (address_answer a) = replicate 24 (CHR ''0'') @ drop 2 a" "take 2 (address_answer a) = ''0x''"
    by (simp_all add: e del: replicate.simps)
  moreover have "drop 26 (address_answer a) = drop 2 a" by (simp add: e del: replicate.simps)
  moreover have "length (address_answer a) = 66" using len by (simp add: e del: replicate.simps)
  moreover have "take 24 (replicate 24 (CHR ''0'') @ drop 2 a) = replicate 24 (CHR ''0'')" by simp
  ultimately show ?thesis
    using canonical by (simp add: m address_response_def starts_0x del: replicate.simps)
qed

text \<open>The label of a provider has a colon, so it is never blank.\<close>

lemma strip_nonblank: "c \<in> set s \<Longrightarrow> \<not> is_space c \<Longrightarrow> strip s \<noteq> []"
proof -
  assume c: "c \<in> set s" "\<not> is_space c"
  then have "c \<in> set (lstrip s)" unfolding lstrip_def by (metis Un_iff set_append set_takeWhileD takeWhile_dropWhile_id)
  then show "strip s \<noteq> []" using c(2) by (auto simp: strip_def)
qed

lemma fingerprint_nonblank: "strip (fingerprint rpc) \<noteq> []"
proof -
  have "\<not> is_space (CHR '':'')" by code_simp
  then show ?thesis
    by (rule strip_nonblank [rotated]) (simp add: fingerprint_def provider_fingerprint_def Let_def)
qed

section \<open>Matches and families\<close>

lemma set_collect_matches:
  "set (collect_matches code role matched registry) =
     set matched \<union> match_of ` {entry \<in> set registry. entry_matches code role entry}"
  by (induction code role matched registry rule: collect_matches.induct) auto

text \<open>All entries of a registry that match some code are of one implementation.\<close>

definition sole_implementation :: "contract_code \<Rightarrow> string \<Rightarrow> fingerprint_entry list \<Rightarrow> string \<Rightarrow> string \<Rightarrow> bool" where
  "sole_implementation code role registry family version \<longleftrightarrow>
     (\<lambda>entry. (fe_family entry, fe_version entry)) ` {entry \<in> set registry. entry_matches code role entry}
       = {(family, version)}"

lemma sole_remdups: "sole (remdups xs) = Some x \<longleftrightarrow> set xs = {x}"
proof
  assume "set xs = {x}"
  then have "set (remdups xs) = {x}" "distinct (remdups xs)" by simp_all
  then show "sole (remdups xs) = Some x"
    unfolding sole_Some by (metis distinct_card length_remdups_card_conv card_1_singleton_iff length_0_conv length_Suc_conv
        One_nat_def set_remdups is_singletonI is_singleton_altdef empty_set list.set(2) singleton_inject)
next
  assume "sole (remdups xs) = Some x"
  then have "set (remdups xs) = {x}" by (simp add: sole_Some)
  then show "set xs = {x}" by simp
qed

lemma resolved_family_Some:
  assumes "classify_implementation_fingerprint code registry role = Inr e" "resolved_family e (upper role) = Inr (Some family)"
  shows "\<exists>version. sole_implementation code (upper role) registry family version"
proof -
  let ?matched = "collect_matches code (upper role) [] registry"
  let ?entries = "{entry \<in> set registry. entry_matches code (upper role) entry}"
  have m: "set ?matched = match_of ` ?entries" by (simp add: set_collect_matches)
  have e: "fp_verdict e = fingerprint_verdict ?matched" "set (fp_matches e) = set ?matched"
    using assms(1) by (auto simp: classify_implementation_fingerprint_def Let_def)
  have v: "fingerprint_verdict ?matched = ''EXACT_IMPLEMENTATION_FINGERPRINT_MATCH''"
    "sole (remdups (map fm_family (fp_matches e))) = Some family"
    using assms(2) by (auto simp: resolved_family_def e(1) split: if_splits)
  have "length (remdups (map implementation_of ?matched)) = 1" using v(1) by (auto simp: fingerprint_verdict_def split: if_splits)
  then obtain i where "implementation_of ` set ?matched = {i}"
    by (auto simp: length_remdups_card_conv card_1_singleton_iff)
  then have i: "(\<lambda>entry. implementation_of (match_of entry)) ` ?entries = {i}" by (simp add: m image_image)
  have "fm_family ` set ?matched = {family}" using v(2) unfolding sole_remdups by (simp add: e(2))
  then have f: "fe_family ` ?entries = {family}" by (simp add: m image_image match_of_def)
  obtain f' version role' where i': "i = (f', version, role')" by (cases i)
  have "(\<lambda>entry. (fe_family entry, fe_version entry)) ` ?entries = (\<lambda>(f, v, r). (f, v)) ` {i}"
    unfolding i [symmetric] image_image by (simp add: implementation_of_def match_of_def)
  then have "(\<lambda>entry. (fe_family entry, fe_version entry)) ` ?entries = {(f', version)}" by (simp add: i')
  moreover from this have "fst ` (\<lambda>entry. (fe_family entry, fe_version entry)) ` ?entries = {f'}" by simp
  then have "f' = family" using f by (simp add: image_image)
  ultimately show ?thesis by (auto simp: sole_implementation_def)
qed

lemma resolved_family_sole:
  assumes "classify_implementation_fingerprint code registry role = Inr e"
    and "sole_implementation code (upper role) registry family version"
  shows "resolved_family e (upper role) = Inr (Some family)"
proof -
  let ?matched = "collect_matches code (upper role) [] registry"
  let ?entries = "{entry \<in> set registry. entry_matches code (upper role) entry}"
  have m: "set ?matched = match_of ` ?entries" by (simp add: set_collect_matches)
  have e: "fp_verdict e = fingerprint_verdict ?matched" "set (fp_matches e) = set ?matched" "fp_expected_role e = upper role"
    using assms(1) by (auto simp: classify_implementation_fingerprint_def Let_def)
  note s = assms(2) [unfolded sole_implementation_def]
  have fields: "fe_family x = family \<and> fe_version x = version" if "x \<in> ?entries" for x
  proof -
    have "(fe_family x, fe_version x) \<in> {(family, version)}" unfolding s [symmetric] using that by blast
    then show ?thesis by simp
  qed
  have some: "?entries \<noteq> {}" using s by (metis image_empty insert_not_empty)
  have "implementation_of ` set ?matched = {(family, version, upper role)}"
    using fields some by (auto simp: m image_image implementation_of_def match_of_def entry_matches_def image_constant_conv
        image_iff)
  then have "length (remdups (map implementation_of ?matched)) = 1" by (simp add: length_remdups_card_conv)
  moreover have "?matched \<noteq> []" using m some by (metis image_is_empty set_empty)
  ultimately have v: "fingerprint_verdict ?matched = ''EXACT_IMPLEMENTATION_FINGERPRINT_MATCH''"
    by (simp add: fingerprint_verdict_def)
  have "fm_family ` set ?matched = {family}"
    using fields some by (auto simp: m image_image match_of_def image_iff)
  then have "sole (remdups (map fm_family (fp_matches e))) = Some family" unfolding sole_remdups by (simp add: e(2))
  with v show ?thesis by (simp add: resolved_family_def e(1,3))
qed

lemma resolved_family_iff:
  assumes "classify_implementation_fingerprint code registry role = Inr e" "upper role = role" "resolved_family e role = Inr r"
  shows "r = Some family \<longleftrightarrow> (\<exists>version. sole_implementation code role registry family version)"
proof
  assume "r = Some family"
  then show "\<exists>version. sole_implementation code role registry family version"
    using resolved_family_Some [OF assms(1)] assms(2,3) by simp
next
  assume "\<exists>version. sole_implementation code role registry family version"
  then obtain version where "sole_implementation code role registry family version" by blast
  then show "r = Some family" using resolved_family_sole [OF assms(1)] assms(2,3) by simp
qed

section \<open>The tokens as an observer says them\<close>

definition says_tokens :: "string \<Rightarrow> string \<Rightarrow> int \<Rightarrow> evm_rpc \<Rightarrow> string \<times> string \<Rightarrow> bool" where
  "says_tokens chain address n rpc tokens \<longleftrightarrow>
     canonical_evm_address chain (fst tokens) \<and> canonical_evm_address chain (snd tokens)
     \<and> says_call address token0_selector n rpc (address_answer (fst tokens))
     \<and> says_call address token1_selector n rpc (address_answer (snd tokens))"

lemma says_call_endpoint: "same_endpoint a b \<Longrightarrow> says_call target data n b = says_call target data n a"
  by (simp add: says_call_def fun_eq_iff says_endpoint same_endpoint_fields)

lemma says_tokens_endpoint: "same_endpoint a b \<Longrightarrow> says_tokens chain address n b = says_tokens chain address n a"
  by (simp add: says_tokens_def fun_eq_iff says_call_endpoint)

lemma pair_tokens_says:
  assumes "pair_tokens chain address n rpc = (Inr x, rpc')"
  shows "says_tokens chain address n rpc x"
proof -
  obtain token0 token1 where x: "x = (token0, token1)" by (cases x)
  obtain response0 response1 rpc1 rpc2 rpc3 where step: "rpc1 = rpc\<lparr>rpc_next_id := rpc_next_id rpc + 1\<rparr>"
    and calls: "call_at_block address token0_selector n rpc1 = (Inr response0, rpc2)"
    "address_response pair_messages chain response0 = Inr token0"
    "call_at_block address token1_selector n rpc2 = (Inr response1, rpc3)"
    "address_response pair_messages chain response1 = Inr token1"
    using assms unfolding x pair_tokens_def obs_then_Inr attest_chain_Inr obs_lift_Inr by auto
  have "same_endpoint rpc rpc1" by (simp add: step)
  note run = this calls
  have "same_endpoint rpc1 rpc2" using calls.read_keeps run(2) by (metis keeps_def snd_conv)
  with run(1) have e: "same_endpoint rpc rpc2" by (rule same_endpoint_trans)
  have s: "says_call address token0_selector n rpc response0" "says_call address token1_selector n rpc response1"
    using calls.read_speaks [OF run(2)] calls.read_speaks [OF run(4)] says_call_endpoint [OF run(1)]
      says_call_endpoint [OF e] by simp_all
  with address_response_Inr [OF s(1) run(3)] address_response_Inr [OF s(2) run(5)] show ?thesis
    by (simp add: says_tokens_def x)
qed

interpretation pairs: reading "pair_tokens chain address n" "says_tokens chain address n"
proof unfold_locales
  show "keeps (pair_tokens chain address n)"
    unfolding pair_tokens_def by (intro observing_intros calls.read_keeps)
qed (rule pair_tokens_says)

section \<open>Properties\<close>

text \<open>
  C27: The attestation of a pool by its factory is exactly what a quorum of providers said: the assessment
  of a relationship classified from an observed call always gives a verdict, and the verdict is
  \<^verbatim>\<open>FACTORY_HISTORICALLY_ATTESTS_POOL\<close> if and only if the agreed answer is the ABI word of the discovered pool;
  then at least the quorum of distinct providers of the chain said so for the lookup of exactly this
  pool's tokens (and fee), and fewer false providers cannot make it up.
\<close>

theorem factory_attestation_is_quorum_read:
  assumes "observe_exact_call (pc_chain pool) (pc_factory_address pool) lookup n k observers = (Inr ob, observers')"
    and "classify_factory_relationship pool code ob = Inr rel"
    and "canonical_evm_address (pc_chain pool) (pc_pool_address pool)"
  shows "\<exists>att expected. assess_factory_attested_pool_deployment rel = Inr att
    \<and> build_factory_lookup pool = Inr expected \<and> lower lookup = lower expected
    \<and> (fa_verdict att = ''FACTORY_HISTORICALLY_ATTESTS_POOL''
         \<longleftrightarrow> xr_agreed_result (xc_consensus ob) = Some (address_answer (pc_pool_address pool)))
    \<and> (fa_verdict att = ''FACTORY_HISTORICALLY_ATTESTS_POOL'' \<longrightarrow>
         quorum_says observers k (map fs_provider (fr_sources rel))
           (\<lambda>rpc x. on_chain (pc_chain pool) rpc \<and> says_call (pc_factory_address pool) lookup n rpc x)
           (address_answer (pc_pool_address pool)))"
proof -
  note f = exact_call_fields [OF assms(1)]
  obtain expected where lookup: "build_factory_lookup pool = Inr expected" "lower lookup = lower expected"
    using assms(2) by (auto simp: classify_factory_relationship_def and_then_Inr f)
  show ?thesis
  proof (cases "xr_agreed_result (xc_consensus ob)")
    case None
    then have "fr_relationship rel = ''UNKNOWN_FACTORY_RELATIONSHIP''"
      using assms(2) by (auto simp: classify_factory_relationship_def and_then_Inr relationship_of_def)
    with lookup None show ?thesis by (simp add: assess_factory_attested_pool_deployment_def attested_pool_of_def)
  next
    case (Some result)
    note q = exact_call_agreed [OF assms(1) Some]
    obtain returned where returned: "address_response factory_messages (pc_chain pool) result = Inr returned"
      and rel: "fr_relationship rel = relationship_label (pc_pool_address pool) returned"
        "fr_returned_address rel = Some returned" "fr_pool_address rel = pc_pool_address pool"
        "fr_sources rel = map (\<lambda>p. \<lparr>fs_provider = p, fs_returned_address = returned\<rparr>) (xr_providers (xc_consensus ob))"
      using assms(2) Some
      by (auto simp: classify_factory_relationship_def decode_factory_address_def and_then_Inr relationship_of_def)
    note says = q(3) [unfolded quorum_says_def]
    have providers: "2 \<le> length (xr_providers (xc_consensus ob))" using says q(1) by linarith
    then obtain p where "p \<in> set (xr_providers (xc_consensus ob))" by (cases "xr_providers (xc_consensus ob)") auto
    then obtain rpc where "says_call (pc_factory_address pool) lookup n rpc result" using says by blast
    then have result: "result = address_answer returned" using returned by (rule address_response_Inr(2))
    have same: "returned = pc_pool_address pool \<longleftrightarrow> result = address_answer (pc_pool_address pool)"
      using result address_answer_decodes [OF assms(3)] returned by (metis sum.inject(2))
    have named: "map fs_provider (fr_sources rel) = xr_providers (xc_consensus ob)" by (simp add: rel(4) comp_def)
    have "\<forall>p \<in> set (xr_providers (xc_consensus ob)). \<exists>rpc. fingerprint rpc = p" using says by blast
    then have "strip p \<noteq> []" if "p \<in> set (xr_providers (xc_consensus ob))" for p
      using that fingerprint_nonblank by metis
    then have "\<not> list_ex (\<lambda>s. strip (fs_provider s) = []) (fr_sources rel)" by (auto simp: rel(4) list_ex_iff)
    moreover have "\<not> length (remdups (map fs_provider (fr_sources rel))) < 2"
      using providers says unfolding named by (simp add: distinct_remdups_id)
    moreover have "\<not> list_ex (\<lambda>s. fs_returned_address s \<noteq> returned) (fr_sources rel)" by (auto simp: rel(4) list_ex_iff)
    ultimately have "\<exists>att. assess_factory_attested_pool_deployment rel = Inr att
        \<and> (fa_verdict att = ''FACTORY_HISTORICALLY_ATTESTS_POOL'' \<longleftrightarrow> returned = pc_pool_address pool)"
      unfolding assess_factory_attested_pool_deployment_def rel(1-3) relationship_label_def
      by (cases "returned = pc_pool_address pool") (simp_all add: attested_pool_of_def)
    then show ?thesis using lookup same q(3) Some unfolding named by auto
  qed
qed

text \<open>
  C36: A factory and its pool are said to be of one implementation family exactly when the factory's
  lookup matched the pool and, in the registry given, the entries that match the code of each are of one
  implementation only, both of the same family. No entry or entries of two implementations never give
  that verdict.
\<close>

theorem family_consistency_rests_on_registry:
  assumes "classify_implementation_fingerprint factory_code registry ''FACTORY'' = Inr factory"
    and "classify_implementation_fingerprint pool_code registry ''POOL'' = Inr pool"
    and "compose_factory_pool_family_consistency rel factory pool = Inr c"
  shows "fc_verdict c = ''FACTORY_POOL_IMPLEMENTATION_FAMILY_CONSISTENT'' \<longleftrightarrow>
    fr_relationship rel = ''FACTORY_LOOKUP_MATCHES_DISCOVERED_POOL''
    \<and> (\<exists>family v w. sole_implementation factory_code ''FACTORY'' registry family v
         \<and> sole_implementation pool_code ''POOL'' registry family w)"
proof -
  have up: "upper ''FACTORY'' = ''FACTORY''" "upper ''POOL'' = ''POOL''" by code_simp+
  obtain f p where r: "resolved_family factory ''FACTORY'' = Inr f" "resolved_family pool ''POOL'' = Inr p"
    and c: "fc_verdict c = fst (family_verdict (fr_relationship rel) f p)"
    using assms(3) by (auto simp: compose_factory_pool_family_consistency_def and_then_Inr Let_def split_def)
  note iff = resolved_family_iff [OF assms(1) up(1) r(1)] resolved_family_iff [OF assms(2) up(2) r(2)]
  have "fc_verdict c = ''FACTORY_POOL_IMPLEMENTATION_FAMILY_CONSISTENT'' \<longleftrightarrow>
      fr_relationship rel = ''FACTORY_LOOKUP_MATCHES_DISCOVERED_POOL'' \<and> (\<exists>family. f = Some family \<and> p = Some family)"
    unfolding c by (cases f; cases p) (auto simp: family_verdict_def compare_labels_def Let_def)
  then show ?thesis unfolding iff by blast
qed

text \<open>
  C28: The tokens of a pool are those that a quorum of distinct providers of the chain read from the pool
  itself: two different canonical addresses, each the answer to its own call at this block, which fewer
  false providers than the quorum cannot make up. They are compared with the discovery event in order, and
  with a decoded router path hop by hop without regard to order.
\<close>

theorem pair_identity_is_quorum_read:
  assumes "observe_pair_token_identity observers pool n k = (Inr e, observers')"
  shows "2 \<le> k \<and> pd_observed_token0 e \<noteq> pd_observed_token1 e
    \<and> quorum_says observers k (map pn_provider (pd_sources e))
        (\<lambda>rpc x. on_chain (pc_chain pool) rpc \<and> says_tokens (pc_chain pool) (pc_pool_address pool) n rpc x)
        (pd_observed_token0 e, pd_observed_token1 e)
    \<and> (pd_discovery_consistency e = ''PAIR_TOKENS_MATCH_DISCOVERY_EVENT'' \<longleftrightarrow>
         pd_observed_token0 e = pc_token0_address pool \<and> pd_observed_token1 e = pc_token1_address pool)
    \<and> (\<forall>calldata. rc_status calldata = ''SUPPORTED_ROUTER_CALLDATA_SEMANTICS'' \<longrightarrow>
         (\<exists>c. compare_pair_to_router_path e calldata = Inr c
            \<and> (\<forall>i. i \<in> set (pp_matching_hops c) \<longleftrightarrow> Suc i < length (rc_path calldata)
                 \<and> {rc_path calldata ! i, rc_path calldata ! Suc i} = {pd_observed_token0 e, pd_observed_token1 e})
            \<and> (pp_verdict c = ''PAIR_MATCHES_ROUTER_PATH_HOP'' \<longleftrightarrow> pp_matching_hops c \<noteq> [])))"
proof -
  obtain code rows observers1 observers2 where q: "2 \<le> k"
    and c: "observe_contract_code observers (pc_chain pool) (pc_pool_address pool) n k = (Inr code, observers1)"
    and pass: "sweep (\<lambda>_. True) (on_chain (pc_chain pool)) is_rpc_error
      (pair_tokens (pc_chain pool) (pc_pool_address pool) n) [] observers1 = (Inr rows, observers2)"
    and v: "pair_verdict pool n k code rows = Inr e"
    using assms by (auto simp: observe_pair_token_identity_def pass_then_Inr split: if_splits)
  define kept where "kept = filter (\<lambda>(p, token0, token1). token0 \<noteq> token1) rows"
  obtain agreed where s: "sole (qualifying k (group_rows kept)) = Some agreed" and e: "e = pair_identity_of pool n code agreed"
    using v by (auto simp: pair_verdict_def Let_def kept_def split: if_splits option.splits)
  obtain token0 token1 ps where a: "agreed = ((token0, token1), ps)" by (metis surj_pair)
  have f: "pd_observed_token0 e = token0" "pd_observed_token1 e = token1"
    "map pn_provider (pd_sources e) = map pn_provider (sort_key pn_provider
       (map (\<lambda>p. \<lparr>pn_provider = p, pn_token0 = token0, pn_token1 = token1\<rparr>) ps))"
    "pd_discovery_consistency e = (if (token0, token1) = (pc_token0_address pool, pc_token1_address pool)
       then ''PAIR_TOKENS_MATCH_DISCOVERY_EVENT'' else ''PAIR_TOKENS_CONFLICT_WITH_DISCOVERY_EVENT'')"
    "pd_status e = ''UNVERIFIED_PAIR_TOKEN_IDENTITY_EVIDENCE''"
    by (simp_all add: e a pair_identity_of_def)
  have g: "((token0, token1), ps) \<in> set (qualifying k (group_rows kept))" using s unfolding a sole_Some by simp
  then have "(token0, token1) \<in> snd ` set kept" by (simp add: qualifying_def in_group_rows)
  then have ne: "token0 \<noteq> token1" by (auto simp: kept_def)
  have rows: "collects (on_chain (pc_chain pool)) (pair_tokens (pc_chain pool) (pc_pool_address pool) n) observers1 kept"
    unfolding kept_def by (rule collects_filter [OF sweep_collects [OF pass]])
  have o: "origin observers observers1"
    using origin_pass [OF origin_self] contract_code_keeps c by (metis snd_conv)
  have same: "(\<lambda>x. on_chain (pc_chain pool) b \<and> says_tokens (pc_chain pool) (pc_pool_address pool) n b x)
      = (\<lambda>x. on_chain (pc_chain pool) a \<and> says_tokens (pc_chain pool) (pc_pool_address pool) n a x)"
    if "same_endpoint a b" for a b
    using that by (simp add: on_chain_endpoint says_tokens_endpoint)
  have says: "quorum_says observers k ps (\<lambda>rpc x. on_chain (pc_chain pool) rpc
      \<and> says_tokens (pc_chain pool) (pc_pool_address pool) n rpc x) (token0, token1)"
    by (rule quorum_says_origin [OF pairs.qualifying_says [OF rows g] o same])
  have perm: "set (map pn_provider (pd_sources e)) = set ps" "length (map pn_provider (pd_sources e)) = length ps"
    "distinct (map pn_provider (pd_sources e)) = distinct ps"
    unfolding f(3) by (simp_all add: image_image distinct_map_sort comp_def)
  have says': "quorum_says observers k (map pn_provider (pd_sources e)) (\<lambda>rpc x. on_chain (pc_chain pool) rpc
      \<and> says_tokens (pc_chain pool) (pc_pool_address pool) n rpc x) (token0, token1)"
    using says unfolding quorum_says_def perm .
  have path: "\<exists>c. compare_pair_to_router_path e calldata = Inr c
      \<and> (\<forall>i. i \<in> set (pp_matching_hops c) \<longleftrightarrow> Suc i < length (rc_path calldata)
           \<and> {rc_path calldata ! i, rc_path calldata ! Suc i} = {token0, token1})
      \<and> (pp_verdict c = ''PAIR_MATCHES_ROUTER_PATH_HOP'' \<longleftrightarrow> pp_matching_hops c \<noteq> [])"
    if "rc_status calldata = ''SUPPORTED_ROUTER_CALLDATA_SEMANTICS''" for calldata
    using that by (auto simp: compare_pair_to_router_path_def f(1,2,5) path_consistency_of_def Let_def)
  show ?thesis unfolding f(1,2,4) using q ne says' path by simp
qed

section \<open>Witnesses\<close>

definition demo_digest :: string where
  "demo_digest = replicate 64 (CHR ''a'')"

definition demo_code :: "string \<Rightarrow> contract_code" where
  "demo_code address = \<lparr>ce_chain = ''base'', ce_chain_id = 8453, ce_address = address, ce_contract_key = ''base:'' @ address,
     ce_block_number = 5, ce_byte_length = 6, ce_fingerprint = demo_digest,
     ce_runtime_bytecode = ''0x638456cb5900'', ce_status = ''UNVERIFIED_CONTRACT_CODE_EVIDENCE'', ce_sources = []\<rparr>"

definition demo_candidate :: pool_candidate where
  "demo_candidate = \<lparr>pc_chain = ''base'', pc_chain_id = 8453, pc_factory_address = demo_address (CHR ''a''),
     pc_factory_key = ''base:'' @ demo_address (CHR ''a''), pc_pool_address = demo_address (CHR ''a''),
     pc_pool_key = ''base:'' @ demo_address (CHR ''a''), pc_token0_address = demo_address (CHR ''b''),
     pc_token0_key = ''base:'' @ demo_address (CHR ''b''), pc_token1_address = demo_address (CHR ''c''),
     pc_token1_key = ''base:'' @ demo_address (CHR ''c''), pc_event_family = ''V2_STYLE_PAIR_CREATED'', pc_fee_tier = None,
     pc_first_seen_block = 3, pc_block_hash = [], pc_transaction_hash = [], pc_log_index = [],
     pc_status = ''UNVERIFIED_DEX_POOL_CANDIDATE'', pc_evidence_providers = []\<rparr>"

definition demo_factory_pool :: pool_candidate where
  "demo_factory_pool = demo_candidate\<lparr>pc_pool_address := demo_address (CHR ''f'')\<rparr>"

lemma demo_addresses: "demo_address (CHR ''b'') \<noteq> demo_address (CHR ''c'')" "demo_address (CHR ''b'') \<noteq> demo_address (CHR ''a'')"
  by (simp_all add: demo_address_def)

lemma address_answer_hex:
  assumes "canonical_evm_address chain a"
  shows "is_hex_data (PStr (address_answer a)) None" "lower (address_answer a) = address_answer a"
proof -
  have b: "is_bytes (address_word a)" by (rule address_word_decodes(2) [OF assms])
  show "is_hex_data (PStr (address_answer a)) None"
    using to_hex_hex [OF b] by (simp add: is_hex_data_def address_answer_def)
  have "lower ''0x'' = ''0x''" by code_simp
  then show "lower (address_answer a) = address_answer a"
    using lower_to_hex [OF b] by (simp add: address_answer_def lower_def)
qed

lemma factory_attestation_is_quorum_read_witness:
  "\<exists>lookup ob rel att. fst (observe_exact_call ''base'' (pc_factory_address demo_factory_pool) lookup 5 2
       (demo_pair [(''eth_call'', PStr (address_answer (pc_pool_address demo_factory_pool)))])) = Inr ob
     \<and> classify_factory_relationship demo_factory_pool (demo_code (pc_factory_address demo_factory_pool)) ob = Inr rel
     \<and> assess_factory_attested_pool_deployment rel = Inr att
     \<and> fa_verdict att = ''FACTORY_HISTORICALLY_ATTESTS_POOL''"
proof -
  let ?answer = "address_answer (pc_pool_address demo_factory_pool)"
  let ?answers = "[(''eth_call'', PStr ?answer)]"
  have p: "pc_chain demo_factory_pool = ''base''" "pc_factory_address demo_factory_pool = demo_address (CHR ''a'')"
    "pc_pool_address demo_factory_pool = demo_address (CHR ''f'')" "pc_chain_id demo_factory_pool = 8453"
    "pc_factory_key demo_factory_pool = ''base:'' @ demo_address (CHR ''a'')"
    "pc_token0_address demo_factory_pool = demo_address (CHR ''b'')"
    "pc_token1_address demo_factory_pool = demo_address (CHR ''c'')"
    "pc_event_family demo_factory_pool = ''V2_STYLE_PAIR_CREATED''"
    by (simp_all add: demo_factory_pool_def demo_candidate_def)
  note canonical = demo_address(1) [OF demo_hex(4,10)] demo_address(1) [OF demo_hex(5,11)]
  have pool: "canonical_evm_address ''base'' (pc_pool_address demo_factory_pool)"
    unfolding p by (rule demo_address(2) [OF demo_hex(6,12)])
  have target: "is_evm_address (pc_factory_address demo_factory_pool)"
    unfolding p using demo_address(2) [OF demo_hex(3,9)] by (simp add: canonical_evm_address_def)
  define lookup where "lookup = v2_factory_lookup_selector @ padded_address (demo_address (CHR ''b''))
      @ padded_address (demo_address (CHR ''c''))"
  have built: "build_factory_lookup demo_factory_pool = Inr lookup"
    by (simp add: build_factory_lookup_def p canonical demo_addresses lookup_def)
  have "is_hex_data (PStr v2_factory_lookup_selector) None" "length v2_factory_lookup_selector = 10" by code_simp+
  moreover have "list_all is_hex (padded_address (demo_address c))" "length (padded_address (demo_address c)) = 64"
    if "is_hex c" for c
    using that demo_hex(1) by (simp_all add: padded_address_def demo_address_def list_all_iff)
  ultimately have lookup: "is_hex_data (PStr lookup) None" "10 \<le> length lookup"
    using demo_hex(4,5) by (simp_all add: is_hex_data_def lookup_def)
  have answer: "dget ?answers ''eth_call'' = PStr ?answer" by (simp add: dget_def)
  obtain ob where ob: "fst (observe_exact_call ''base'' (pc_factory_address demo_factory_pool) lookup 5 2 (demo_pair ?answers))
        = Inr ob" "xr_agreed_result (xc_consensus ob) = Some (lower ?answer)"
    using target lookup _ address_answer_hex(1) [OF pool] answer by (rule demo_exact_call [where n = 5]) simp
  have run: "observe_exact_call (pc_chain demo_factory_pool) (pc_factory_address demo_factory_pool) lookup 5 2 (demo_pair ?answers)
      = (Inr ob, snd (observe_exact_call ''base'' (pc_factory_address demo_factory_pool) lookup 5 2 (demo_pair ?answers)))"
    unfolding p(1) by (rule answer_pair [OF ob(1)])
  note f = exact_call_fields [OF run]
  have agreed: "xr_agreed_result (xc_consensus ob) = Some ?answer" using ob(2) address_answer_hex(2) [OF pool] by simp
  have decoded: "decode_factory_address (pc_chain demo_factory_pool) ?answer = Inr (pc_pool_address demo_factory_pool)"
    unfolding decode_factory_address_def p(1) by (rule address_answer_decodes [OF pool])
  obtain rel where rel: "classify_factory_relationship demo_factory_pool (demo_code (pc_factory_address demo_factory_pool)) ob = Inr rel"
    using f decoded built lookup(1) by (simp add: classify_factory_relationship_def agreed demo_code_def p(1,2,4,5))
  have "canonical_evm_address (pc_chain demo_factory_pool) (pc_pool_address demo_factory_pool)" unfolding p(1) by (rule pool)
  from factory_attestation_is_quorum_read [OF run rel this] agreed obtain att where
    "assess_factory_attested_pool_deployment rel = Inr att" "fa_verdict att = ''FACTORY_HISTORICALLY_ATTESTS_POOL''"
    by blast
  with ob(1) rel show ?thesis by blast
qed

definition demo_entry :: "string \<Rightarrow> fingerprint_entry" where
  "demo_entry role = \<lparr>fe_fingerprint = demo_digest, fe_byte_length = 6, fe_role = role,
     fe_family = ''V2'', fe_version = ''1'', fe_source_kind = ''REPO'', fe_source_reference = ''x'', fe_chains = [''base'']\<rparr>"

definition demo_registry :: "fingerprint_entry list" where
  "demo_registry = [demo_entry ''FACTORY'', demo_entry ''POOL'']"

lemma select_of_two: "(\<And>r. P (g r) \<longleftrightarrow> r = x) \<Longrightarrow> x \<in> {a, b} \<Longrightarrow> {y \<in> {g a, g b}. P y} = {g x}"
  by (intro set_eqI) (simp, metis)

lemma family_consistency_rests_on_registry_witness:
  "\<exists>factory pool c.
     classify_implementation_fingerprint (demo_code (demo_address (CHR ''a''))) demo_registry ''FACTORY'' = Inr factory
     \<and> classify_implementation_fingerprint (demo_code (demo_address (CHR ''f''))) demo_registry ''POOL'' = Inr pool
     \<and> compose_factory_pool_family_consistency (relationship_of demo_factory_pool (demo_code (demo_address (CHR ''a''))) 5
         (Some (demo_address (CHR ''f''))) [] ''FACTORY_LOOKUP_MATCHES_DISCOVERED_POOL'' []) factory pool = Inr c
     \<and> fc_verdict c = ''FACTORY_POOL_IMPLEMENTATION_FAMILY_CONSISTENT''"
proof -
  let ?rel = "relationship_of demo_factory_pool (demo_code (demo_address (CHR ''a''))) 5
         (Some (demo_address (CHR ''f''))) [] ''FACTORY_LOOKUP_MATCHES_DISCOVERED_POOL'' []"
  have up: "upper ''FACTORY'' = ''FACTORY''" "upper ''POOL'' = ''POOL''" by code_simp+
  have low: "lower demo_digest = demo_digest" unfolding demo_digest_def using demo_hex(9) by (rule lower_replicate)
  obtain factory pool where f: "classify_implementation_fingerprint (demo_code (demo_address (CHR ''a''))) demo_registry ''FACTORY'' = Inr factory"
    and p: "classify_implementation_fingerprint (demo_code (demo_address (CHR ''f''))) demo_registry ''POOL'' = Inr pool"
    by (simp add: classify_implementation_fingerprint_def up allowed_roles_def Let_def)
  have e: "fp_chain factory = ''base''" "fp_block_number factory = 5" "fp_address factory = demo_address (CHR ''a'')"
    "fp_expected_role factory = ''FACTORY''" "fp_chain pool = ''base''" "fp_block_number pool = 5"
    "fp_address pool = demo_address (CHR ''f'')" "fp_expected_role pool = ''POOL''"
    using f p by (auto simp: classify_implementation_fingerprint_def up allowed_roles_def demo_code_def Let_def)
  have sole: "sole_implementation (demo_code a) role demo_registry ''V2'' ''1''" if "role \<in> {''FACTORY'', ''POOL''}" for a role
  proof -
    have m: "entry_matches (demo_code a) role (demo_entry r) \<longleftrightarrow> r = role" for r
      by (auto simp: entry_matches_def demo_entry_def demo_code_def low)
    have "{entry \<in> {demo_entry ''FACTORY'', demo_entry ''POOL''}. entry_matches (demo_code a) role entry} = {demo_entry role}"
      using m that by (rule select_of_two)
    then have "{entry \<in> set demo_registry. entry_matches (demo_code a) role entry} = {demo_entry role}"
      unfolding demo_registry_def list.set .
    then show ?thesis by (simp add: sole_implementation_def demo_entry_def)
  qed
  have r: "fr_chain ?rel = ''base''" "fr_block_number ?rel = 5" "fr_factory_address ?rel = demo_address (CHR ''a'')"
    "fr_pool_address ?rel = demo_address (CHR ''f'')" "fr_relationship ?rel = ''FACTORY_LOOKUP_MATCHES_DISCOVERED_POOL''"
    by (simp_all add: relationship_of_def demo_factory_pool_def demo_candidate_def)
  obtain c where c: "compose_factory_pool_family_consistency ?rel factory pool = Inr c"
    by (simp add: compose_factory_pool_family_consistency_def r e resolved_family_def Let_def split_def)
  have "fc_verdict c = ''FACTORY_POOL_IMPLEMENTATION_FAMILY_CONSISTENT''"
    unfolding family_consistency_rests_on_registry [OF f p c] r(5) using sole by blast
  with f p c show ?thesis by blast
qed

text \<open>Endpoints that answer the call for the second token by another word.\<close>

definition token_transport :: "string \<Rightarrow> (string \<times> pyval) list \<Rightarrow> transport" where
  "token_transport second answers url request timeout =
    (case request of
       PDict d \<Rightarrow>
         (case dget d ''params'' of
            PList (PDict call # _) \<Rightarrow>
              if dget call ''data'' = PStr token1_selector
              then demo_transport [(''eth_call'', PStr second)] url request timeout
              else demo_transport answers url request timeout
          | _ \<Rightarrow> demo_transport answers url request timeout)
     | _ \<Rightarrow> demo_transport answers url request timeout)"

definition token_answers :: "(string \<times> pyval) list" where
  "token_answers = demo_answers [(''eth_getCode'', PStr ''0x638456cb5900''),
     (''eth_call'', PStr (address_answer (demo_address (CHR ''b''))))]"

definition token_rpc :: "string \<Rightarrow> evm_rpc" where
  "token_rpc url = (demo_rpc url token_answers)
     \<lparr>rpc_transport := token_transport (address_answer (demo_address (CHR ''c''))) token_answers\<rparr>"

lemma token_answered:
  "answered (token_rpc url) i m ps v \<longleftrightarrow>
     v = (case ps of
            PDict call # _ \<Rightarrow> if dget call ''data'' = PStr token1_selector
              then dget [(''eth_call'', PStr (address_answer (demo_address (CHR ''c''))))] m else dget token_answers m
          | _ \<Rightarrow> dget token_answers m)"
proof -
  have "dget [(''jsonrpc'', a), (''id'', b), (''method'', c), (''params'', e)] ''params'' = e" for a b c e
    by (simp add: dget_def)
  then show ?thesis
    by (auto simp: answered_def token_rpc_def token_transport_def demo_transport_def demo_rpc_def read_envelope_def
        rpc_request_def is_rpc_id_def has_key_def dget_def Let_def split: list.splits pyval.splits)
qed

lemma token_ready:
  assumes "same_endpoint (token_rpc url) rpc"
  shows "cc_key (rpc_chain rpc) = ''base''" "cc_chain_id (rpc_chain rpc) = Some 8453" "on_chain ''base'' rpc"
    "fingerprint rpc = provider_fingerprint url" "attested rpc i"
    "answered rpc i m ps v \<longleftrightarrow>
     v = (case ps of
            PDict call # _ \<Rightarrow> if dget call ''data'' = PStr token1_selector
              then dget [(''eth_call'', PStr (address_answer (demo_address (CHR ''c''))))] m else dget token_answers m
          | _ \<Rightarrow> dget token_answers m)"
proof -
  show chain: "cc_key (rpc_chain rpc) = ''base''" "cc_chain_id (rpc_chain rpc) = Some 8453"
    using same_endpoint_fields [OF assms] by (simp_all add: token_rpc_def demo_rpc_def chains_def)
  then show "on_chain ''base'' rpc" by (simp add: on_chain_def)
  show "fingerprint rpc = provider_fingerprint url"
    using fingerprint_endpoint [OF assms] by (simp add: token_rpc_def fingerprint_def demo_rpc_def)
  show answered: "answered rpc i m ps v \<longleftrightarrow>
     v = (case ps of
            PDict call # _ \<Rightarrow> if dget call ''data'' = PStr token1_selector
              then dget [(''eth_call'', PStr (address_answer (demo_address (CHR ''c''))))] m else dget token_answers m
          | _ \<Rightarrow> dget token_answers m)" for i m ps v
    unfolding answered_endpoint(1) [OF assms] by (rule token_answered)
  have "hex_int (PStr ''0x2105'') ''chain id'' = Inr 8453" by (subst hex_int_quantity; code_simp)
  then show "attested rpc i" unfolding attested_def answered by (simp add: chain token_answers_def demo_answers_def dget_def)
qed

lemma token_code:
  assumes "same_endpoint (token_rpc url) rpc"
  shows "fst (get_code_at_block address n rpc) = Inr ''0x638456cb5900''"
proof -
  have low: "lower ''0x638456cb5900'' = ''0x638456cb5900''" "is_hex_data (PStr ''0x638456cb5900'') None" by code_simp+
  have "dget token_answers ''eth_getCode'' = PStr ''0x638456cb5900''" by (simp add: token_answers_def demo_answers_def dget_def)
  then have "\<exists>rpc'. get_code_at_block address n rpc = (Inr ''0x638456cb5900'', rpc')"
    using low by (simp add: get_code_at_block_def observing_Inr token_ready [OF assms] allowed_methods_def hex_answer_Inr)
  then show ?thesis by auto
qed

lemma token_call:
  assumes "same_endpoint (token_rpc url) rpc" "data \<in> {token0_selector, token1_selector}" "0 \<le> n"
    and "canonical_chain_address (PStr ''base'') (PStr address) = Some address"
  obtains rpc' where "same_endpoint (token_rpc url) rpc'" "call_at_block address data n rpc =
    (Inr (address_answer (demo_address (if data = token1_selector then CHR ''c'' else CHR ''b''))), rpc')"
proof -
  have sel: "lower token0_selector = token0_selector" "lower token1_selector = token1_selector"
    "is_hex_data (PStr token0_selector) None" "is_hex_data (PStr token1_selector) None"
    "length token0_selector = 10" "length token1_selector = 10" "token0_selector \<noteq> token1_selector"
    by code_simp+
  then have d: "lower data = data" "is_hex_data (PStr data) None" "length data = 10" using assms(2) by auto
  let ?answer = "address_answer (demo_address (if data = token1_selector then CHR ''c'' else CHR ''b''))"
  note words = address_answer_hex [OF demo_address(2) [OF demo_hex(4,10)]] address_answer_hex [OF demo_address(2) [OF demo_hex(5,11)]]
  have "dget token_answers ''eth_call'' = PStr (address_answer (demo_address (CHR ''b'')))"
    by (simp add: token_answers_def demo_answers_def dget_def)
  moreover have "dget [(''to'', a), (''data'', b)] ''data'' = b" for a b by (simp add: dget_def)
  moreover have "dget [(''eth_call'', a)] ''eth_call'' = a" for a by (simp add: dget_def)
  ultimately have "\<exists>rpc'. call_at_block address data n rpc = (Inr ?answer, rpc')"
    using words d assms(3,4)
    by (simp add: call_at_block_def observing_Inr token_ready [OF assms(1)] allowed_methods_def hex_answer_Inr)
  then obtain rpc' where run: "call_at_block address data n rpc = (Inr ?answer, rpc')" by blast
  have "same_endpoint rpc rpc'" using calls.read_keeps run by (metis keeps_def snd_conv)
  with assms(1) have "same_endpoint (token_rpc url) rpc'" by (rule same_endpoint_trans)
  then show thesis using run by (rule that)
qed

lemma token_read:
  assumes "same_endpoint (token_rpc url) rpc" "canonical_chain_address (PStr ''base'') (PStr address) = Some address" "0 \<le> n"
  shows "fst (pair_tokens ''base'' address n rpc) = Inr (demo_address (CHR ''b''), demo_address (CHR ''c''))"
proof -
  obtain rpc1 where one: "attest_chain rpc = (Inr 8453, rpc1)" and s1: "same_endpoint rpc rpc1"
    using token_ready(2,5) [OF assms(1)] by (simp add: attest_chain_Inr)
  have "same_endpoint (token_rpc url) rpc1" using assms(1) s1 by (rule same_endpoint_trans)
  then obtain rpc2 where s2: "same_endpoint (token_rpc url) rpc2" and two: "call_at_block address token0_selector n rpc1
      = (Inr (address_answer (demo_address (if token0_selector = token1_selector then CHR ''c'' else CHR ''b''))), rpc2)"
    using assms(2,3) token_call [where data = token0_selector] by blast
  obtain rpc3 where three: "call_at_block address token1_selector n rpc2
      = (Inr (address_answer (demo_address (if token1_selector = token1_selector then CHR ''c'' else CHR ''b''))), rpc3)"
    using s2 assms(2,3) token_call [where data = token1_selector] by blast
  have "token0_selector \<noteq> token1_selector" by code_simp
  then show ?thesis
    using one two three address_answer_decodes [OF demo_address(2) [OF demo_hex(4,10)]]
      address_answer_decodes [OF demo_address(2) [OF demo_hex(5,11)]]
    by (simp add: pair_tokens_def obs_then_def obs_lift_def)
qed

lemma pair_identity_is_quorum_read_witness:
  "\<exists>e. fst (observe_pair_token_identity [token_rpc demo_a, token_rpc demo_b] demo_candidate 5 2) = Inr e
     \<and> pd_observed_token0 e \<noteq> pd_observed_token1 e
     \<and> pd_discovery_consistency e = ''PAIR_TOKENS_MATCH_DISCOVERY_EVENT''"
proof -
  let ?o = "[token_rpc demo_a, token_rpc demo_b]" and ?pool = "demo_address (CHR ''a'')"
  let ?tokens = "(demo_address (CHR ''b''), demo_address (CHR ''c''))"
  have p: "pc_chain demo_candidate = ''base''" "pc_pool_address demo_candidate = ?pool"
    "pc_status demo_candidate = ''UNVERIFIED_DEX_POOL_CANDIDATE''"
    by (simp_all add: demo_candidate_def)
  note canonical = demo_address(1) [OF demo_hex(3,9)]
  have d: "fingerprint (token_rpc demo_a) \<noteq> fingerprint (token_rpc demo_b)"
    using token_ready(4) [OF same_endpoint_refl] demo_labels by simp
  have "\<exists>code. fst (observe_contract_code ?o ''base'' ?pool 5 2) = Inr code \<and> ce_byte_length code = 6"
    unfolding demo_address_def
  proof (rule two_contract_code [OF d])
    show "on_chain ''base'' rpc \<and> cc_chain_id (rpc_chain rpc) = Some 8453" if "rpc \<in> {token_rpc demo_a, token_rpc demo_b}" for rpc
      using that token_ready(2,3) [OF same_endpoint_refl] by auto
    show "fst (get_code_at_block (''0x'' @ replicate 40 (CHR ''a'')) 5 rpc) = Inr ''0x638456cb5900''" if "rpc \<in> {token_rpc demo_a, token_rpc demo_b}" for rpc
      using that token_code [OF same_endpoint_refl] by auto
  qed
  then obtain code o1 where code: "observe_contract_code ?o ''base'' ?pool 5 2 = (Inr code, o1)" by (metis answer_pair)
  then have "list_all2 same_endpoint ?o o1" using contract_code_keeps by (metis snd_conv)
  then obtain a b where o1: "o1 = [a, b]" and s: "same_endpoint (token_rpc demo_a) a" "same_endpoint (token_rpc demo_b) b"
    by (auto simp: list_all2_Cons1)
  note labels = token_ready(4) [OF s(1)] token_ready(4) [OF s(2)]
  have "fst (sweep (\<lambda>_. True) (on_chain ''base'') is_rpc_error (pair_tokens ''base'' ?pool 5) [] [a, b])
      = Inr [(fingerprint a, ?tokens), (fingerprint b, ?tokens)]"
    using token_read [OF s(1) canonical] token_read [OF s(2) canonical] token_ready(3) [OF s(1)] token_ready(3) [OF s(2)]
      labels demo_labels
    by (intro two_sweep) simp_all
  then obtain o2 where pass: "sweep (\<lambda>_. True) (on_chain ''base'') is_rpc_error (pair_tokens ''base'' ?pool 5) [] o1
      = (Inr [(fingerprint a, ?tokens), (fingerprint b, ?tokens)], o2)"
    unfolding o1 by (metis answer_pair)
  obtain e where e: "pair_verdict demo_candidate 5 2 code [(fingerprint a, ?tokens), (fingerprint b, ?tokens)] = Inr e"
    "pd_discovery_consistency e = ''PAIR_TOKENS_MATCH_DISCOVERY_EVENT''"
    using demo_addresses by (simp add: pair_verdict_def group_rows_def qualifying_def sole_def pair_identity_of_def Let_def)
      (simp add: demo_candidate_def)
  have run: "observe_pair_token_identity ?o demo_candidate 5 2 = (Inr e, o2)"
    using d by (simp add: observe_pair_token_identity_def p pass_then_def code pass e(1) del: sweep.simps)
  then show ?thesis using pair_identity_is_quorum_read [OF run] e(2) by auto
qed

end
