(* ===== verification/Spec2Isabelle.thy ===== *)
theory Spec2Isabelle
  imports Gate_Properties Admission Evm_Abi Evm_Proxy_History Evm_Ingestion Evm_Factory
begin

text \<open>
  A model of three parts of the repository: the guarded execution path of the API service
  (\<^verbatim>\<open>src/services/api/src/stinky_api\<close>, called A below), and the EVM evidence modules and the market
  admission gate of the core package (\<^verbatim>\<open>src/packages/stinky-core/src/stinky_core\<close>, called K). All are
  fail-closed Python: every function either gives evidence with its provenance or says what is missing. The properties are
  numbered C1, C2 and so on, across all theories.

  \<^bold>\<open>Python.\<close> \<^verbatim>\<open>Py_Value\<close>, \<^verbatim>\<open>Py_Text\<close>, \<^verbatim>\<open>Py_Time\<close> and \<^verbatim>\<open>Py_Repr\<close> hold what the code uses of the
  language: dynamically typed values (numbers are integers or floats with exact rational value, two
  infinities and NaN), truth, equality and ordering across types, conversions of text, ISO datetimes,
  \<^verbatim>\<open>repr\<close>. Text is a list of characters up to U+00FF. Errors are values of a sum.

  \<^bold>\<open>The execution path.\<close> A canary trade passes a row of evaluators: \<^verbatim>\<open>Release_Gate\<close>
  (\<^verbatim>\<open>A/release_gate_aggregator.py\<close>), \<^verbatim>\<open>Canary_Authorization\<close>
  (\<^verbatim>\<open>A/isolated_canary_authorization.py\<close>), \<^verbatim>\<open>Canary_Preorder\<close>
  (\<^verbatim>\<open>A/canary_preorder_runtime_safety.py\<close>), \<^verbatim>\<open>Dry_Run_Adapter\<close>
  (\<^verbatim>\<open>A/dry_run_execution_adapter.py\<close>), \<^verbatim>\<open>Final_Readiness\<close> (\<^verbatim>\<open>A/final_canary_readiness.py\<close>),
  \<^verbatim>\<open>Executor_Boundary\<close> (\<^verbatim>\<open>A/live_executor_boundary_contract.py\<close>). Each takes dictionaries and gives
  one: the evidence is screened, read, checked for missing parts and then for observed failures. The
  locale of \<^verbatim>\<open>Fail_Closed\<close> is that shape, and each evaluator interprets it.

  Two pairs of tables keep state. \<^verbatim>\<open>Canary_Tables\<close> has the authorization rows and audits with
  their constraints and statements; \<^verbatim>\<open>Canary_Provisioning\<close>, \<^verbatim>\<open>Dry_Run_Persistence\<close> and
  \<^verbatim>\<open>Canary_Lifecycle\<close> (\<^verbatim>\<open>A/canary_authorization_provisioning.py\<close>,
  \<^verbatim>\<open>A/dry_run_execution_persistence.py\<close>, \<^verbatim>\<open>A/dry_run_canary_lifecycle.py\<close>) are their writers.
  \<^verbatim>\<open>Executor_Failure\<close> is the state machine of an order attempt
  (\<^verbatim>\<open>A/executor_failure_mode_state_machine.py\<close>), with rules for its moves that are written independently
  of the code's table, and \<^verbatim>\<open>Executor_Submission\<close> its store
  (\<^verbatim>\<open>A/executor_submission_persistence.py\<close>). Every writer is a compare and swap on a row version,
  which is the locale of \<^verbatim>\<open>Cas_Store\<close>. A call reads one state of the tables and writes to another,
  so the theorems over histories cover interleaved calls.

  \<^verbatim>\<open>Executor_Audit\<close>, \<^verbatim>\<open>Canary_Handoff\<close>, \<^verbatim>\<open>Canary_Safety\<close>, \<^verbatim>\<open>Authority_Chain\<close> and
  \<^verbatim>\<open>Gate_Properties\<close> hold what spans components: the audit trail of an attempt is a run of the state
  machine and never submits twice without a reconciliation in between; every staged spend traces back
  to a human authorization and each authorization is spent at most once; a ready contract rests on
  every earlier gate; no output claims an execution power; which errors can leave a gate.

  \<^bold>\<open>EVM evidence.\<close> \<^verbatim>\<open>Evm_Base\<close> has the chain registry and scoped identities (\<^verbatim>\<open>K/chains.py\<close>,
  \<^verbatim>\<open>K/multichain_identity.py\<close>) and hexadecimal text; \<^verbatim>\<open>Sha_256\<close> is an executable SHA-256, checked
  against a published test vector. \<^verbatim>\<open>Evm_Rpc\<close> is the read-only observer (\<^verbatim>\<open>K/evm_rpc.py\<close>): a
  record with a request counter, each operation a function to an answer or error and the observer
  after it. The transport, which posts a request and parses the response, is a function in that
  record, so a request is the dictionary and not its JSON text. \<^verbatim>\<open>Evm_Quorum\<close> has what the quorum
  modules share, one pass over the distinct observers and the grouping of answers; its locale
  \<^verbatim>\<open>reading\<close> proves once that a qualifying group is what its providers said, that fewer liars than
  the quorum cannot make it false, and how two groups compete. \<^verbatim>\<open>Evm_Consensus\<close>
  (\<^verbatim>\<open>K/evm_consensus.py\<close>, \<^verbatim>\<open>K/evm_call_consensus.py\<close>), \<^verbatim>\<open>Evm_Pool_State\<close> (\<^verbatim>\<open>K/evm_liquidity.py\<close>,
  \<^verbatim>\<open>K/evm_liquidity_history.py\<close>) and \<^verbatim>\<open>Evm_Contract_Code\<close> (\<^verbatim>\<open>K/evm_contract_code.py\<close>,
  \<^verbatim>\<open>K/evm_privileged_inventory.py\<close>, \<^verbatim>\<open>K/evm_token_authority.py\<close>) interpret or use it.
  \<^verbatim>\<open>Evm_Abi\<close> decodes words, router calldata and router output (\<^verbatim>\<open>K/evm_abi_words.py\<close>,
  \<^verbatim>\<open>K/evm_router_semantics.py\<close>, \<^verbatim>\<open>K/evm_router_output.py\<close>). \<^verbatim>\<open>Evm_Discovery\<close> reads pools, tokens
  and events from the logs of a block (\<^verbatim>\<open>K/evm_dex_discovery.py\<close>, \<^verbatim>\<open>K/evm_token_discovery.py\<close>,
  \<^verbatim>\<open>K/evm_pool_events.py\<close>).

  \<^verbatim>\<open>Evm_Ingestion\<close> (\<^verbatim>\<open>K/evm_ingestion.py\<close>) is the step before discovery: the head, the block hash at a
  confirmed height and the logs of that hash, each by quorum, the logs grouped by the SHA-256 of their
  JSON text. \<^verbatim>\<open>Evm_Proxy\<close> (\<^verbatim>\<open>K/evm_proxy_authority.py\<close>) reads who can change a contract, and
  \<^verbatim>\<open>Evm_Proxy_History\<close> (\<^verbatim>\<open>K/evm_proxy_history.py\<close>) turns its snapshots into changes and alerts.

  \<^verbatim>\<open>Evm_Sell_Path\<close> (\<^verbatim>\<open>K/evm_sell_path.py\<close>, \<^verbatim>\<open>K/evm_router_swap.py\<close>,
  \<^verbatim>\<open>K/evm_router_interpretation.py\<close>) asks for allowance, transfers and one opaque router call; its probes
  keep a failed call as a row, and what stands behind a positive verdict follows from the locale
  \<^verbatim>\<open>reading\<close> on the answers. \<^verbatim>\<open>Evm_Factory\<close> (\<^verbatim>\<open>K/evm_factory_evidence.py\<close>,
  \<^verbatim>\<open>K/evm_factory_attested_pool.py\<close>, \<^verbatim>\<open>K/evm_pair_identity.py\<close>,
  \<^verbatim>\<open>K/evm_implementation_registry.py\<close>, \<^verbatim>\<open>K/evm_router_fingerprint.py\<close>,
  \<^verbatim>\<open>K/evm_family_composition.py\<close>, \<^verbatim>\<open>K/evidence_pairing.py\<close>) compares what a factory, a pool and a
  registry of known bytecode say of each other.

  \<^bold>\<open>The admission gate.\<close> \<^verbatim>\<open>Admission\<close> (\<^verbatim>\<open>K/admission.py\<close>) decides which markets are investigated. The
  code's block of checks is one definition per check over a record of what the checks append to, the
  global counters are passed along, and the float sums in the comparisons are rounded as doubles. The
  locale \<^verbatim>\<open>gate_check\<close> is the contract of a check, which every check interprets; from it follow when a
  market is eligible, that a decision explains itself, that the counters add up over every sequence of
  calls, and when an alert goes out.

  \<^bold>\<open>Bounds and loops.\<close> No definition takes fuel: loops are structural recursion or have a measure (the
  bytecode scan: the bytes that are left). Integers are unbounded, as in Python; where Python limits
  them, the model does too: an integer of more than 4300 digits raises ValueError in a message and in
  \<^verbatim>\<open>json.dumps\<close>, a float of 2^1024 or more raises OverflowError.

  \<^bold>\<open>What the database refuses.\<close> \<^verbatim>\<open>Cas_Store\<close> has the JSON encoder, which raises on the first datetime or
  too long integer it meets (in key order where the code sorts the keys), the cast to JSONB, which
  refuses non finite floats and U+0000, and the TEXT parameters, which refuse U+0000 as well. Every
  statement of the two stores goes through them, so a theorem that a call is staged excludes these
  values or says which error they give. DataError, IntegrityError and DatabaseError stand for what the
  driver raises on a refused value, a violated constraint and a trigger.

  \<^bold>\<open>Not modelled.\<close> The network, the JSON parser and the database engine beyond the statements named;
  resource limits (recursion depth, the size of a value or an index entry, lost connections);
  \<^verbatim>\<open>str\<close> of an integer of more than 4300 digits in a field that should be text, which the JSON
  parser of Python refuses;
  URLs with bracketed hosts; the rounding of float arithmetic outside comparisons and the median of
  block heights, whose half-way sums are exact up to 2^52; characters past U+00FF; the limitation lists of
  evidence that are constants. The reference DEX provenance modules of K, the float statistics of
  memory, intelligence and backtest, the SQL queries and routes of the API, the sentinel, the bot and the
  launcher are outside the model.
\<close>

end
